(* ===== verification/Xdma_Prelude.thy ===== *)
theory Xdma_Prelude
  imports Main "HOL-Library.Word"
begin

text \<open>
  The vocabulary every other theory of the development shares: machine words and pointers,
  the kernel's error numbers, the register offsets and bit masks of \<^verbatim>\<open>libxdma.h\<close>, the log of
  accesses to the device (\<open>io_event\<close>), the register accessors, and the word lemmas the
  component proofs use. The device is a parameter: what a read returns is a function of the
  whole log of accesses made before it, so any sequential device behaviour is an instance.
\<close>

unbundle bit_operations_syntax

section \<open>Machine types\<close>

type_synonym u8 = "8 word"
type_synonym u16 = "16 word"
type_synonym u32 = "32 word"
type_synonym u64 = "64 word"

text \<open>
  C's \<^verbatim>\<open>int\<close> is a 32-bit word read by \<open>sint\<close> where the code compares it as a signed value
  and by \<open>unat\<close> where the usual arithmetic conversions make the comparison unsigned.
\<close>

type_synonym s32 = "32 word"

text \<open>A pointer or a bus address; the null pointer is \<open>0\<close>.\<close>

type_synonym addr = "64 word"

named_theorems xdma_consts \<open>numeric values of the macros of libxdma.h\<close>
named_theorems xdma_io \<open>effect of the register accessors on the log\<close>
named_theorems xdma_word \<open>unsigned readings of the word operations\<close>

section \<open>Error numbers\<close>

definition EIO :: int where [xdma_consts]: "EIO = 5"
definition EAGAIN :: int where [xdma_consts]: "EAGAIN = 11"
definition ENOMEM :: int where [xdma_consts]: "ENOMEM = 12"
definition EFAULT :: int where [xdma_consts]: "EFAULT = 14"
definition EBUSY :: int where [xdma_consts]: "EBUSY = 16"
definition ENODEV :: int where [xdma_consts]: "ENODEV = 19"
definition EINVAL :: int where [xdma_consts]: "EINVAL = 22"
definition ENOTTY :: int where [xdma_consts]: "ENOTTY = 25"
definition EPROTO :: int where [xdma_consts]: "EPROTO = 71"
definition ETIMEDOUT :: int where [xdma_consts]: "ETIMEDOUT = 110"
definition ERESTARTSYS :: int where [xdma_consts]: "ERESTARTSYS = 512"
definition ENOIOCTLCMD :: int where [xdma_consts]: "ENOIOCTLCMD = 515"
definition EIOCBQUEUED :: int where [xdma_consts]: "EIOCBQUEUED = 529"

section \<open>The log of device accesses\<close>

text \<open>
  A location is a memory-mapped register or a word of coherent memory that the device writes
  by DMA (the poll-mode write-back word, the result records of a streaming channel).
  Resources acquired and released, wake-ups, work items and calls of registered handlers are
  logged beside the accesses, so that their order and balance can be stated.
\<close>

datatype loc = Mmio addr | Coherent addr

datatype wait_queue = XferWq nat | ShutdownWq addr | PerfWq addr | EventsWq nat | ThreadWq nat

text \<open>What the kernel lends to the driver and the driver has to give back.\<close>

datatype resource =
    ResDevice
  | ResRegions
  | ResBar nat
  | ResMsix
  | ResMsi
  | ResIrq u32
  | ResDma addr
  | ResSg nat
  | ResThread nat
  | ResClass
  | ResCache
  | ResChrdev nat nat
  | ResCdev nat nat
  | ResNode nat nat
  | ResKmem nat
  | ResSgTable nat
  | ResPages nat
  | ResPage addr

datatype io_event =
    Rd loc u32
  | Wr loc u32
  | WakeUp wait_queue
  | ScheduleWork addr
  | Schedule
  | UserHandler nat nat
  | PageDirty addr
  | AioComplete nat int int
  | Acquire resource
  | Release resource

type_synonym device = "io_event list \<Rightarrow> loc \<Rightarrow> u32"

definition ioread32 :: "device \<Rightarrow> loc \<Rightarrow> io_event list \<Rightarrow> u32 \<times> io_event list" where
  "ioread32 hw l t = (let v = hw t l in (v, t @ [Rd l v]))"

definition read_register :: "device \<Rightarrow> addr \<Rightarrow> io_event list \<Rightarrow> u32 \<times> io_event list" where
  "read_register hw a t = ioread32 hw (Mmio a) t"

definition write_register :: "u32 \<Rightarrow> addr \<Rightarrow> io_event list \<Rightarrow> io_event list" where
  "write_register v a t = t @ [Wr (Mmio a) v]"

lemma read_register_eq [xdma_io]:
  "read_register hw a t = (hw t (Mmio a), t @ [Rd (Mmio a) (hw t (Mmio a))])"
  by (simp add: read_register_def ioread32_def Let_def)

lemma write_register_eq [xdma_io]: "write_register v a t = t @ [Wr (Mmio a) v]"
  by (simp add: write_register_def)

text \<open>The values written to a location, in order.\<close>

fun writes_to :: "loc \<Rightarrow> io_event list \<Rightarrow> u32 list" where
  "writes_to l [] = []"
| "writes_to l (Wr l' v # t) = (if l' = l then v # writes_to l t else writes_to l t)"
| "writes_to l (_ # t) = writes_to l t"

lemma writes_to_append [simp]: "writes_to l (t @ t') = writes_to l t @ writes_to l t'"
  by (induction l t rule: writes_to.induct) auto

text \<open>How many times a resource has been acquired and not yet released.\<close>

fun held :: "io_event list \<Rightarrow> resource \<Rightarrow> int" where
  "held [] r = 0"
| "held (Acquire r' # t) r = (if r' = r then 1 else 0) + held t r"
| "held (Release r' # t) r = (if r' = r then - 1 else 0) + held t r"
| "held (_ # t) r = held t r"

lemma held_append [simp]: "held (t @ t') r = held t r + held t' r"
  by (induction t r rule: held.induct) auto

lemma held_release_acquire:
  "held (map (\<lambda>x. Release (f x)) xs) r = - held (map (\<lambda>x. Acquire (f x)) xs) r"
  by (induction xs) simp_all

lemma held_release_rev:
  "held (map (\<lambda>x. Release (f x)) (rev xs)) r = - held (map (\<lambda>x. Acquire (f x)) xs) r"
  by (induction xs) simp_all

section \<open>Halves of a bus address\<close>

definition pci_dma_h :: "u64 \<Rightarrow> u32" where
  "pci_dma_h a = ucast (drop_bit 16 (drop_bit 16 a))"

definition pci_dma_l :: "u64 \<Rightarrow> u32" where
  "pci_dma_l a = ucast (a AND 0xffffffff)"

definition build_u32 :: "u32 \<Rightarrow> u32 \<Rightarrow> u32" where
  "build_u32 hi lo = push_bit 16 (hi AND 0xFFFF) OR (lo AND 0xFFFF)"

definition build_u64 :: "u64 \<Rightarrow> u64 \<Rightarrow> u64" where
  "build_u64 hi lo = push_bit 32 (hi AND 0xFFFFFFF) OR (lo AND 0xFFFFFFFF)"

text \<open>Glueing two 32-bit halves together, the reading the device gives an address pair.\<close>

definition word_join :: "u32 \<Rightarrow> u32 \<Rightarrow> u64" where
  "word_join hi lo = push_bit 32 (ucast hi) OR ucast lo"

lemma mask_numerals:
  "(0xFF :: 'a::len word) = mask 8" "(0xFFF :: 'a::len word) = mask 12"
  "(0xFFFF :: 'a::len word) = mask 16" "(0xFFFFFFF :: 'a::len word) = mask 28"
  "(0xFFFFFFFF :: 'a::len word) = mask 32" "(0xFFFFFF :: 'a::len word) = mask 24"
  by (simp_all add: mask_eq_exp_minus_1)

lemma and_mask_numerals:
  "(x :: 'a::len word) AND 0xFF = take_bit 8 x" "x AND 0xFFF = take_bit 12 x"
  "x AND 0xFFFF = take_bit 16 x" "x AND 0xFFFFFFF = take_bit 28 x"
  "x AND 0xFFFFFFFF = take_bit 32 x" "x AND 0xFFFFFF = take_bit 24 x"
  by (simp_all only: mask_numerals take_bit_eq_mask)

lemma unat_take_bit [xdma_word]: "unat (take_bit n (w :: 'a::len word)) = unat w mod 2 ^ n"
  by (simp add: unsigned_take_bit_eq flip: take_bit_eq_mod)

lemma unat_drop_bit [xdma_word]: "unat (drop_bit n (w :: 'a::len word)) = unat w div 2 ^ n"
  by (simp add: unat_drop_bit_eq flip: drop_bit_eq_div)


lemma unat_numeral_word [xdma_word]:
  "unat (numeral k :: 'a::len word) = numeral k mod 2 ^ LENGTH('a)"
  by (simp add: unat_numeral take_bit_eq_mod)

lemma unat_sub_le [xdma_word]:
  "unat (b :: 'a::len word) \<le> unat a \<Longrightarrow> unat (a - b) = unat a - unat b"
  by (simp add: unat_sub word_le_nat_alt)

lemma unat_add_lt [xdma_word]:
  "unat (a :: 'a::len word) + unat b < 2 ^ LENGTH('a) \<Longrightarrow> unat (a + b) = unat a + unat b"
  by (simp add: unat_add_lem)

lemma word_join_halves [simp]: "word_join (pci_dma_h a) (pci_dma_l a) = a"
proof (rule bit_word_eqI)
  fix n assume "n < LENGTH(64)"
  then show "bit (word_join (pci_dma_h a) (pci_dma_l a)) n = bit a n"
    by (auto simp: word_join_def pci_dma_h_def pci_dma_l_def and_mask_numerals bit_simps)
qed

lemma unat_of_nat_small [xdma_word]: "n < 2 ^ 32 \<Longrightarrow> unat (of_nat n :: u32) = n"
  by (simp add: unat_of_nat take_bit_nat_def)

lemma word_join_0 [simp]: "word_join 0 0 = 0"
  by (simp add: word_join_def)

lemma pci_dma_halves_inject:
  "pci_dma_h a = pci_dma_h b \<Longrightarrow> pci_dma_l a = pci_dma_l b \<Longrightarrow> a = b"
  by (metis word_join_halves)

lemma pci_dma_l_0 [simp]: "pci_dma_l 0 = 0" and pci_dma_h_0 [simp]: "pci_dma_h 0 = 0"
  by (simp_all add: pci_dma_l_def pci_dma_h_def)

lemma unat_pci_dma_l: "unat (pci_dma_l a) = unat a mod 2 ^ 32"
  by (simp only: pci_dma_l_def and_mask_numerals unsigned_ucast_eq unat_take_bit) (simp add: take_bit_nat_def)

lemma div_add_small: "x mod n + y < n \<Longrightarrow> (x + y) div n = x div n" for x y n :: nat
proof -
  assume small: "x mod n + y < n"
  have "x + y = (x mod n + y) + n * (x div n)" by simp
  also have "\<dots> div n = (x mod n + y) div n + x div n"
    using small by (simp only: div_mult_self2)
  finally show ?thesis using small by simp
qed

lemma mod_2048_index: "x mod 2048 = 32 * (x div 32 mod 64) + x mod 32" for x :: nat
  using mod_mult2_eq [of x 32 64] by simp

lemma mod_4096_index: "x mod 4096 \<le> 2048 + x mod 2048" for x :: nat
  using mod_mult2_eq [of x 2048 2] by simp

lemma take_bit_small: "unat (w :: 'a::len word) < 2 ^ k \<Longrightarrow> take_bit k w = w"
  by (simp add: word_unat_eq_iff unat_take_bit)

lemma bit_small: "unat (w :: 'a::len word) < 2 ^ k \<Longrightarrow> k \<le> n \<Longrightarrow> \<not> bit w n"
  by (metis bit_take_bit_iff linorder_not_less take_bit_small)

lemma sint_small: "unat (w :: 32 word) < 2 ^ 31 \<Longrightarrow> sint w = int (unat w)"
proof -
  assume small: "unat w < 2 ^ 31"
  then have "\<not> bit (uint w) 31"
    using bit_small [of w 31 31] by (simp add: bit_uint_iff)
  moreover have "int (unat w) < int (2 ^ 31)"
    using small by (simp only: of_nat_less_iff)
  then have "take_bit 31 (uint w) = uint w"
    by (simp add: take_bit_int_eq_self)
  ultimately show ?thesis
    by (simp add: sint_uint signed_take_bit_eq_if_positive)
qed

section \<open>Updating a function on an interval\<close>

text \<open>
  Arrays that the code indexes through a pointer are functions from indices; what a loop
  leaves alone is stated with \<open>fun_upd\<close>'s default, so out-of-bounds writes stay visible.
\<close>

definition agree_outside :: "nat \<Rightarrow> nat \<Rightarrow> (nat \<Rightarrow> 'a) \<Rightarrow> (nat \<Rightarrow> 'a) \<Rightarrow> bool" where
  "agree_outside b n f g \<longleftrightarrow> (\<forall>i. i < b \<or> b + n \<le> i \<longrightarrow> f i = g i)"

lemma agree_outsideD: "agree_outside b n f g \<Longrightarrow> i < b \<or> b + n \<le> i \<Longrightarrow> f i = g i"
  unfolding agree_outside_def by blast

lemma agree_outside_refl [simp, intro]: "agree_outside b n f f"
  by (simp add: agree_outside_def)

lemma agree_outside_trans [trans]:
  "agree_outside b n f g \<Longrightarrow> agree_outside b n g h \<Longrightarrow> agree_outside b n f h"
  by (simp add: agree_outside_def)

lemma agree_outside_upd:
  "agree_outside b n f g \<Longrightarrow> b \<le> i \<Longrightarrow> i < b + n \<Longrightarrow> agree_outside b n f (g(i := v))"
  by (auto simp: agree_outside_def)

lemma agree_outside_mono:
  "agree_outside b n f g \<Longrightarrow> b' \<le> b \<Longrightarrow> b + n \<le> b' + n' \<Longrightarrow> agree_outside b' n' f g"
  by (auto simp: agree_outside_def)

section \<open>Runs of a deterministic machine\<close>

text \<open>
  Several components are driven by events that other code issues in any order (interrupts,
  system calls, completions). The contract is the same for all of them: a state predicate
  that every event keeps, possibly for enabled events only, so every run keeps it.
\<close>

primrec run :: "('s \<Rightarrow> 'e \<Rightarrow> 's) \<Rightarrow> 's \<Rightarrow> 'e list \<Rightarrow> 's" where
  "run step s [] = s"
| "run step s (e # es) = run step (step s e) es"

lemma run_append [simp]: "run step s (es @ es') = run step (run step s es) es'"
  by (induction es arbitrary: s) simp_all

locale event_machine =
  fixes step :: "'s \<Rightarrow> 'e \<Rightarrow> 's"
    and invar :: "'s \<Rightarrow> bool"
  assumes step_invar: "invar s \<Longrightarrow> invar (step s e)"
begin

lemma run_invar: "invar s \<Longrightarrow> invar (run step s es)"
  by (induction es arbitrary: s) (simp_all add: step_invar)

lemma prefix_invar: "invar s \<Longrightarrow> invar (run step s (take n es))"
  by (rule run_invar)

end

end
