(* ===== verification/Xdma_Regs.thy ===== *)
theory Xdma_Regs
  imports Xdma_Prelude
begin

text \<open>
  The macros of \<^verbatim>\<open>xdma/libxdma.h\<close>: limits, the bits of the SG DMA control, status and
  descriptor words, the block identifiers, and the byte offsets that the packed register
  structures give their members. The enumerations of the same header are datatypes, except
  \<^verbatim>\<open>enum shutdown_state\<close>, which the code uses as a bit mask and which stays a word.
\<close>

section \<open>Limits\<close>

definition XDMA_BAR_NUM :: nat where [xdma_consts]: "XDMA_BAR_NUM = 6"
definition XDMA_BAR_SIZE :: u32 where [xdma_consts]: "XDMA_BAR_SIZE = 0x8000"
definition XDMA_CHANNEL_NUM_MAX :: nat where [xdma_consts]: "XDMA_CHANNEL_NUM_MAX = 4"
definition XDMA_ENG_IRQ_NUM :: nat where [xdma_consts]: "XDMA_ENG_IRQ_NUM = 1"
definition XDMA_MAX_ADJ_BLOCK_SIZE :: u32 where [xdma_consts]: "XDMA_MAX_ADJ_BLOCK_SIZE = 0x40"
definition XDMA_PAGE_SIZE :: u32 where [xdma_consts]: "XDMA_PAGE_SIZE = 0x1000"
definition RX_STATUS_EOP :: u32 where [xdma_consts]: "RX_STATUS_EOP = 1"
definition XDMA_OFS_INT_CTRL :: addr where [xdma_consts]: "XDMA_OFS_INT_CTRL = 0x2000"
definition XDMA_OFS_CONFIG :: addr where [xdma_consts]: "XDMA_OFS_CONFIG = 0x3000"
definition XDMA_TRANSFER_MAX_DESC :: u32 where [xdma_consts]: "XDMA_TRANSFER_MAX_DESC = 2048"
definition XDMA_DESC_BLEN_MAX :: u32 where [xdma_consts]: "XDMA_DESC_BLEN_MAX = 0xFFFFFFF"
definition MAX_USER_IRQ :: nat where [xdma_consts]: "MAX_USER_IRQ = 16"
definition MAGIC_ENGINE :: u64 where [xdma_consts]: "MAGIC_ENGINE = 0xEEEEEEEE"
definition MAGIC_DEVICE :: u64 where [xdma_consts]: "MAGIC_DEVICE = 0xDDDDDDDD"

section \<open>SG DMA control register\<close>

definition XDMA_CTRL_RUN_STOP :: u32 where [xdma_consts]: "XDMA_CTRL_RUN_STOP = 0x1"
definition XDMA_CTRL_IE_DESC_STOPPED :: u32 where [xdma_consts]: "XDMA_CTRL_IE_DESC_STOPPED = 0x2"
definition XDMA_CTRL_IE_DESC_COMPLETED :: u32 where [xdma_consts]: "XDMA_CTRL_IE_DESC_COMPLETED = 0x4"
definition XDMA_CTRL_IE_DESC_ALIGN_MISMATCH :: u32 where [xdma_consts]: "XDMA_CTRL_IE_DESC_ALIGN_MISMATCH = 0x8"
definition XDMA_CTRL_IE_MAGIC_STOPPED :: u32 where [xdma_consts]: "XDMA_CTRL_IE_MAGIC_STOPPED = 0x10"
definition XDMA_CTRL_IE_IDLE_STOPPED :: u32 where [xdma_consts]: "XDMA_CTRL_IE_IDLE_STOPPED = 0x40"
definition XDMA_CTRL_IE_READ_ERROR :: u32 where [xdma_consts]: "XDMA_CTRL_IE_READ_ERROR = push_bit 9 0x1F"
definition XDMA_CTRL_IE_DESC_ERROR :: u32 where [xdma_consts]: "XDMA_CTRL_IE_DESC_ERROR = push_bit 19 0x1F"
definition XDMA_CTRL_NON_INCR_ADDR :: u32 where [xdma_consts]: "XDMA_CTRL_NON_INCR_ADDR = push_bit 25 1"
definition XDMA_CTRL_POLL_MODE_WB :: u32 where [xdma_consts]: "XDMA_CTRL_POLL_MODE_WB = push_bit 26 1"

section \<open>SG DMA status register\<close>

definition XDMA_STAT_BUSY :: u32 where [xdma_consts]: "XDMA_STAT_BUSY = 0x1"
definition XDMA_STAT_DESC_STOPPED :: u32 where [xdma_consts]: "XDMA_STAT_DESC_STOPPED = 0x2"
definition XDMA_STAT_DESC_COMPLETED :: u32 where [xdma_consts]: "XDMA_STAT_DESC_COMPLETED = 0x4"
definition XDMA_STAT_ALIGN_MISMATCH :: u32 where [xdma_consts]: "XDMA_STAT_ALIGN_MISMATCH = 0x8"
definition XDMA_STAT_MAGIC_STOPPED :: u32 where [xdma_consts]: "XDMA_STAT_MAGIC_STOPPED = 0x10"
definition XDMA_STAT_INVALID_LEN :: u32 where [xdma_consts]: "XDMA_STAT_INVALID_LEN = 0x20"
definition XDMA_STAT_IDLE_STOPPED :: u32 where [xdma_consts]: "XDMA_STAT_IDLE_STOPPED = 0x40"

definition XDMA_STAT_DESC_UNSUPP_REQ :: u32 where [xdma_consts]: "XDMA_STAT_DESC_UNSUPP_REQ = 0x80000"
definition XDMA_STAT_DESC_COMPL_ABORT :: u32 where [xdma_consts]: "XDMA_STAT_DESC_COMPL_ABORT = 0x100000"
definition XDMA_STAT_DESC_PARITY_ERR :: u32 where [xdma_consts]: "XDMA_STAT_DESC_PARITY_ERR = 0x200000"
definition XDMA_STAT_DESC_HEADER_EP :: u32 where [xdma_consts]: "XDMA_STAT_DESC_HEADER_EP = 0x400000"
definition XDMA_STAT_DESC_UNEXP_COMPL :: u32 where [xdma_consts]: "XDMA_STAT_DESC_UNEXP_COMPL = 0x800000"
definition XDMA_STAT_H2C_R_UNSUPP_REQ :: u32 where [xdma_consts]: "XDMA_STAT_H2C_R_UNSUPP_REQ = 0x200"
definition XDMA_STAT_H2C_R_COMPL_ABORT :: u32 where [xdma_consts]: "XDMA_STAT_H2C_R_COMPL_ABORT = 0x400"
definition XDMA_STAT_H2C_R_PARITY_ERR :: u32 where [xdma_consts]: "XDMA_STAT_H2C_R_PARITY_ERR = 0x800"
definition XDMA_STAT_H2C_R_HEADER_EP :: u32 where [xdma_consts]: "XDMA_STAT_H2C_R_HEADER_EP = 0x1000"
definition XDMA_STAT_H2C_R_UNEXP_COMPL :: u32 where [xdma_consts]: "XDMA_STAT_H2C_R_UNEXP_COMPL = 0x2000"
definition XDMA_STAT_H2C_W_DECODE_ERR :: u32 where [xdma_consts]: "XDMA_STAT_H2C_W_DECODE_ERR = 0x4000"
definition XDMA_STAT_H2C_W_SLAVE_ERR :: u32 where [xdma_consts]: "XDMA_STAT_H2C_W_SLAVE_ERR = 0x8000"
definition XDMA_STAT_C2H_R_DECODE_ERR :: u32 where [xdma_consts]: "XDMA_STAT_C2H_R_DECODE_ERR = 0x200"
definition XDMA_STAT_C2H_R_SLAVE_ERR :: u32 where [xdma_consts]: "XDMA_STAT_C2H_R_SLAVE_ERR = 0x400"

definition XDMA_STAT_COMMON_ERR_MASK :: u32 where
  "XDMA_STAT_COMMON_ERR_MASK =
     XDMA_STAT_ALIGN_MISMATCH OR XDMA_STAT_MAGIC_STOPPED OR XDMA_STAT_INVALID_LEN"

definition XDMA_STAT_DESC_ERR_MASK :: u32 where
  "XDMA_STAT_DESC_ERR_MASK =
     XDMA_STAT_DESC_UNSUPP_REQ OR XDMA_STAT_DESC_COMPL_ABORT OR XDMA_STAT_DESC_PARITY_ERR OR
     XDMA_STAT_DESC_HEADER_EP OR XDMA_STAT_DESC_UNEXP_COMPL"

definition XDMA_STAT_H2C_R_ERR_MASK :: u32 where
  "XDMA_STAT_H2C_R_ERR_MASK =
     XDMA_STAT_H2C_R_UNSUPP_REQ OR XDMA_STAT_H2C_R_COMPL_ABORT OR XDMA_STAT_H2C_R_PARITY_ERR OR
     XDMA_STAT_H2C_R_HEADER_EP OR XDMA_STAT_H2C_R_UNEXP_COMPL"

definition XDMA_STAT_H2C_W_ERR_MASK :: u32 where
  "XDMA_STAT_H2C_W_ERR_MASK = XDMA_STAT_H2C_W_DECODE_ERR OR XDMA_STAT_H2C_W_SLAVE_ERR"

definition XDMA_STAT_C2H_R_ERR_MASK :: u32 where
  "XDMA_STAT_C2H_R_ERR_MASK = XDMA_STAT_C2H_R_DECODE_ERR OR XDMA_STAT_C2H_R_SLAVE_ERR"

definition XDMA_STAT_H2C_ERR_MASK :: u32 where
  "XDMA_STAT_H2C_ERR_MASK =
     XDMA_STAT_COMMON_ERR_MASK OR XDMA_STAT_DESC_ERR_MASK OR
     XDMA_STAT_H2C_R_ERR_MASK OR XDMA_STAT_H2C_W_ERR_MASK"

definition XDMA_STAT_C2H_ERR_MASK :: u32 where
  "XDMA_STAT_C2H_ERR_MASK =
     XDMA_STAT_COMMON_ERR_MASK OR XDMA_STAT_DESC_ERR_MASK OR XDMA_STAT_C2H_R_ERR_MASK"

section \<open>Descriptor control word, performance and write-back words\<close>

definition XDMA_DESC_STOPPED :: u32 where [xdma_consts]: "XDMA_DESC_STOPPED = 0x1"
definition XDMA_DESC_COMPLETED :: u32 where [xdma_consts]: "XDMA_DESC_COMPLETED = 0x2"
definition XDMA_DESC_EOP :: u32 where [xdma_consts]: "XDMA_DESC_EOP = 0x10"
definition XDMA_PERF_RUN :: u32 where [xdma_consts]: "XDMA_PERF_RUN = 0x1"
definition XDMA_PERF_CLEAR :: u32 where [xdma_consts]: "XDMA_PERF_CLEAR = 0x2"
definition XDMA_PERF_AUTO :: u32 where [xdma_consts]: "XDMA_PERF_AUTO = 0x4"
definition LS_BYTE_MASK :: u32 where [xdma_consts]: "LS_BYTE_MASK = 0xFF"
definition DESC_MAGIC :: u32 where [xdma_consts]: "DESC_MAGIC = 0xAD4B0000"
definition WB_COUNT_MASK :: u32 where [xdma_consts]: "WB_COUNT_MASK = 0x00ffffff"
definition WB_ERR_MASK :: u32 where [xdma_consts]: "WB_ERR_MASK = 0x80000000"
definition NUM_POLLS_PER_SCHED :: u32 where [xdma_consts]: "NUM_POLLS_PER_SCHED = 100"
definition XDMA_ID_H2C :: u32 where [xdma_consts]: "XDMA_ID_H2C = 0x1fc0"
definition XDMA_ID_C2H :: u32 where [xdma_consts]: "XDMA_ID_C2H = 0x1fc1"
definition BLOCK_ID_MASK :: u32 where [xdma_consts]: "BLOCK_ID_MASK = 0xFFF00000"
definition BLOCK_ID_HEAD :: u32 where [xdma_consts]: "BLOCK_ID_HEAD = 0x1FC00000"
definition IRQ_BLOCK_ID :: u32 where [xdma_consts]: "IRQ_BLOCK_ID = 0x1fc20000"
definition CONFIG_BLOCK_ID :: u32 where [xdma_consts]: "CONFIG_BLOCK_ID = 0x1fc30000"
definition H2C_CHANNEL_OFFSET :: addr where [xdma_consts]: "H2C_CHANNEL_OFFSET = 0x1000"
definition SGDMA_OFFSET_FROM_CHANNEL :: addr where [xdma_consts]: "SGDMA_OFFSET_FROM_CHANNEL = 0x4000"
definition CHANNEL_SPACING :: addr where [xdma_consts]: "CHANNEL_SPACING = 0x100"
definition TARGET_SPACING :: addr where [xdma_consts]: "TARGET_SPACING = 0x1000"
definition BYPASS_MODE_SPACING :: u32 where [xdma_consts]: "BYPASS_MODE_SPACING = 0x0100"
definition XFER_FLAG_NEED_UNMAP :: u32 where [xdma_consts]: "XFER_FLAG_NEED_UNMAP = 0x1"
definition XFER_FLAG_ST_C2H_EOP_RCVED :: u32 where [xdma_consts]: "XFER_FLAG_ST_C2H_EOP_RCVED = 0x2"
definition XDEV_FLAG_OFFLINE :: u32 where [xdma_consts]: "XDEV_FLAG_OFFLINE = 0x1"
definition ENGINE_SHUTDOWN_NONE :: u32 where [xdma_consts]: "ENGINE_SHUTDOWN_NONE = 0"
definition ENGINE_SHUTDOWN_REQUEST :: u32 where [xdma_consts]: "ENGINE_SHUTDOWN_REQUEST = 1"
definition ENGINE_SHUTDOWN_IDLE :: u32 where [xdma_consts]: "ENGINE_SHUTDOWN_IDLE = 2"

section \<open>Offsets of the packed register structures\<close>

text \<open>\<^verbatim>\<open>struct engine_regs\<close>\<close>

definition er_identifier :: addr where [xdma_consts]: "er_identifier = 0x00"
definition er_control :: addr where [xdma_consts]: "er_control = 0x04"
definition er_control_w1s :: addr where [xdma_consts]: "er_control_w1s = 0x08"
definition er_control_w1c :: addr where [xdma_consts]: "er_control_w1c = 0x0C"
definition er_status :: addr where [xdma_consts]: "er_status = 0x40"
definition er_status_rc :: addr where [xdma_consts]: "er_status_rc = 0x44"
definition er_completed_desc_count :: addr where [xdma_consts]: "er_completed_desc_count = 0x48"
definition er_alignments :: addr where [xdma_consts]: "er_alignments = 0x4C"
definition er_poll_mode_wb_lo :: addr where [xdma_consts]: "er_poll_mode_wb_lo = 0x88"
definition er_poll_mode_wb_hi :: addr where [xdma_consts]: "er_poll_mode_wb_hi = 0x8C"
definition er_interrupt_enable_mask :: addr where [xdma_consts]: "er_interrupt_enable_mask = 0x90"
definition er_interrupt_enable_mask_w1s :: addr where [xdma_consts]: "er_interrupt_enable_mask_w1s = 0x94"
definition er_interrupt_enable_mask_w1c :: addr where [xdma_consts]: "er_interrupt_enable_mask_w1c = 0x98"
definition er_perf_ctrl :: addr where [xdma_consts]: "er_perf_ctrl = 0xC0"
definition er_perf_cyc_lo :: addr where [xdma_consts]: "er_perf_cyc_lo = 0xC4"
definition er_perf_cyc_hi :: addr where [xdma_consts]: "er_perf_cyc_hi = 0xC8"
definition er_perf_dat_lo :: addr where [xdma_consts]: "er_perf_dat_lo = 0xCC"
definition er_perf_dat_hi :: addr where [xdma_consts]: "er_perf_dat_hi = 0xD0"
definition er_perf_pnd_lo :: addr where [xdma_consts]: "er_perf_pnd_lo = 0xD4"
definition er_perf_pnd_hi :: addr where [xdma_consts]: "er_perf_pnd_hi = 0xD8"

text \<open>\<^verbatim>\<open>struct engine_sgdma_regs\<close>\<close>

definition sg_first_desc_lo :: addr where [xdma_consts]: "sg_first_desc_lo = 0x80"
definition sg_first_desc_hi :: addr where [xdma_consts]: "sg_first_desc_hi = 0x84"
definition sg_first_desc_adjacent :: addr where [xdma_consts]: "sg_first_desc_adjacent = 0x88"
definition sg_credits :: addr where [xdma_consts]: "sg_credits = 0x8C"

text \<open>\<^verbatim>\<open>struct interrupt_regs\<close>, \<^verbatim>\<open>struct sgdma_common_regs\<close>\<close>

definition ir_identifier :: addr where [xdma_consts]: "ir_identifier = 0x00"
definition ir_user_int_enable :: addr where [xdma_consts]: "ir_user_int_enable = 0x04"
definition ir_user_int_enable_w1s :: addr where [xdma_consts]: "ir_user_int_enable_w1s = 0x08"
definition ir_user_int_enable_w1c :: addr where [xdma_consts]: "ir_user_int_enable_w1c = 0x0C"
definition ir_channel_int_enable :: addr where [xdma_consts]: "ir_channel_int_enable = 0x10"
definition ir_channel_int_enable_w1s :: addr where [xdma_consts]: "ir_channel_int_enable_w1s = 0x14"
definition ir_channel_int_enable_w1c :: addr where [xdma_consts]: "ir_channel_int_enable_w1c = 0x18"
definition ir_user_int_request :: addr where [xdma_consts]: "ir_user_int_request = 0x40"
definition ir_channel_int_request :: addr where [xdma_consts]: "ir_channel_int_request = 0x44"
definition ir_user_int_pending :: addr where [xdma_consts]: "ir_user_int_pending = 0x48"
definition ir_channel_int_pending :: addr where [xdma_consts]: "ir_channel_int_pending = 0x4C"
definition ir_user_msi_vector :: addr where [xdma_consts]: "ir_user_msi_vector = 0x80"
definition ir_channel_msi_vector :: addr where [xdma_consts]: "ir_channel_msi_vector = 0xA0"
definition sc_credit_mode_enable_w1s :: addr where [xdma_consts]: "sc_credit_mode_enable_w1s = 0x24"
definition sc_credit_mode_enable_w1c :: addr where [xdma_consts]: "sc_credit_mode_enable_w1c = 0x28"

section \<open>Enumerations and module parameters\<close>

datatype dma_data_direction = DMA_BIDIRECTIONAL | DMA_TO_DEVICE | DMA_FROM_DEVICE

datatype transfer_state =
    TRANSFER_STATE_NEW
  | TRANSFER_STATE_SUBMITTED
  | TRANSFER_STATE_COMPLETED
  | TRANSFER_STATE_FAILED
  | TRANSFER_STATE_ABORTED

record modparams =
  poll_mode :: bool
  interrupt_mode :: u32
  enable_credit_mp :: bool
  desc_blen_max :: u32

lemmas err_mask_defs =
  XDMA_STAT_COMMON_ERR_MASK_def XDMA_STAT_DESC_ERR_MASK_def XDMA_STAT_H2C_R_ERR_MASK_def
  XDMA_STAT_H2C_W_ERR_MASK_def XDMA_STAT_C2H_R_ERR_MASK_def
  XDMA_STAT_H2C_ERR_MASK_def XDMA_STAT_C2H_ERR_MASK_def

lemma err_masks [xdma_consts]:
  "XDMA_STAT_COMMON_ERR_MASK = 0x38" "XDMA_STAT_DESC_ERR_MASK = 0xF80000"
  "XDMA_STAT_H2C_R_ERR_MASK = 0x3E00" "XDMA_STAT_H2C_W_ERR_MASK = 0xC000"
  "XDMA_STAT_C2H_R_ERR_MASK = 0x600"
  "XDMA_STAT_H2C_ERR_MASK = 0xF8FE38" "XDMA_STAT_C2H_ERR_MASK = 0xF80638"
  by (simp_all add: err_mask_defs xdma_consts push_bit_eq_mult)

end
