(* ===== verification/Xdma_Desc.thy ===== *)
theory Xdma_Desc
  imports Xdma_Regs
begin

text \<open>
  The SG DMA descriptor (\<^verbatim>\<open>struct xdma_desc\<close>) and the routines of \<^verbatim>\<open>libxdma.c\<close> that
  fill, chain and recycle descriptors. The descriptor array of an engine is a function from
  indices to descriptors (\<open>desc_ring\<close>); \<^verbatim>\<open>desc_virt\<close> is an index into it. The host is
  little-endian, so \<^verbatim>\<open>cpu_to_le32\<close> is the identity.
\<close>

section \<open>Definitions\<close>

record xdma_desc =
  d_control :: u32
  d_bytes :: u32
  d_src_addr_lo :: u32
  d_src_addr_hi :: u32
  d_dst_addr_lo :: u32
  d_dst_addr_hi :: u32
  d_next_lo :: u32
  d_next_hi :: u32

type_synonym desc_ring = "nat \<Rightarrow> xdma_desc"

definition sizeof_xdma_desc :: u64 where
  "sizeof_xdma_desc = 32"

definition zero_desc :: xdma_desc where
  "zero_desc = \<lparr>d_control = 0, d_bytes = 0, d_src_addr_lo = 0, d_src_addr_hi = 0,
     d_dst_addr_lo = 0, d_dst_addr_hi = 0, d_next_lo = 0, d_next_hi = 0\<rparr>"

definition xdma_get_next_adj :: "u32 \<Rightarrow> u32 \<Rightarrow> u32" where
  "xdma_get_next_adj remaining next_lo =
     (if remaining \<le> 1 then 0
      else let next_index =
             drop_bit 5 (next_lo AND (XDMA_PAGE_SIZE - 1)) mod XDMA_MAX_ADJ_BLOCK_SIZE
           in min (XDMA_MAX_ADJ_BLOCK_SIZE - next_index - 1) (remaining - 1))"

text \<open>
  The loop of \<^verbatim>\<open>transfer_desc_init\<close>: \<open>n\<close> iterations from index \<open>i\<close>, the bus address
  advancing by one descriptor before each store.
\<close>

fun desc_init_loop :: "nat \<Rightarrow> nat \<Rightarrow> nat \<Rightarrow> u64 \<Rightarrow> desc_ring \<Rightarrow> desc_ring" where
  "desc_init_loop base i 0 desc_bus ring = ring"
| "desc_init_loop base i (Suc n) desc_bus ring =
     (let bus = desc_bus + sizeof_xdma_desc in
      desc_init_loop base (Suc i) n bus
        (ring(base + i := (ring (base + i))
           \<lparr>d_next_lo := pci_dma_l bus, d_next_hi := pci_dma_h bus,
            d_bytes := 0, d_control := DESC_MAGIC\<rparr>)))"

definition transfer_desc_init :: "nat \<Rightarrow> u64 \<Rightarrow> s32 \<Rightarrow> desc_ring \<Rightarrow> int \<times> desc_ring" where
  "transfer_desc_init desc_virt desc_bus count ring =
     (if sint XDMA_TRANSFER_MAX_DESC < sint count then (- EINVAL, ring)
      else let n = nat (sint count - 1);
               ring' = desc_init_loop desc_virt 0 n desc_bus ring
           in (0, ring'(desc_virt + n := (ring' (desc_virt + n))
                  \<lparr>d_next_lo := 0, d_next_hi := 0, d_bytes := 0, d_control := DESC_MAGIC\<rparr>)))"

definition xdma_desc_link :: "xdma_desc \<Rightarrow> u64 option \<Rightarrow> xdma_desc" where
  "xdma_desc_link first second =
     (let control = d_control first AND 0x00FFC0ff;
          linked = (case second of
              Some second_bus \<Rightarrow>
                first\<lparr>d_next_lo := pci_dma_l second_bus, d_next_hi := pci_dma_h second_bus\<rparr>
            | None \<Rightarrow> first\<lparr>d_next_lo := 0, d_next_hi := 0\<rparr>)
      in linked\<lparr>d_control := control OR DESC_MAGIC\<rparr>)"

definition xdma_desc_adjacent :: "xdma_desc \<Rightarrow> u32 \<Rightarrow> xdma_desc" where
  "xdma_desc_adjacent desc next_adjacent =
     (let control = d_control desc AND 0x0000f0ff
      in desc\<lparr>d_control := control OR (0xAD4B0000 OR push_bit 8 next_adjacent)\<rparr>)"

definition xdma_desc_control_set :: "xdma_desc \<Rightarrow> u32 \<Rightarrow> int \<times> xdma_desc" where
  "xdma_desc_control_set first control_field =
     (let control = d_control first AND NOT LS_BYTE_MASK in
      if control_field AND NOT LS_BYTE_MASK \<noteq> 0 then (- EINVAL, first)
      else (0, first\<lparr>d_control := control OR control_field\<rparr>))"

definition xdma_desc_done :: "nat \<Rightarrow> s32 \<Rightarrow> desc_ring \<Rightarrow> desc_ring" where
  "xdma_desc_done desc_virt count ring =
     (\<lambda>i. if desc_virt \<le> i \<and> i < desc_virt + unat count then zero_desc else ring i)"

definition xdma_desc_set ::
    "xdma_desc \<Rightarrow> u64 \<Rightarrow> u64 \<Rightarrow> u32 \<Rightarrow> dma_data_direction \<Rightarrow> xdma_desc" where
  "xdma_desc_set desc rc_bus_addr ep_addr len dir =
     (let desc = desc\<lparr>d_bytes := len\<rparr> in
      if dir = DMA_TO_DEVICE
      then desc\<lparr>d_src_addr_lo := pci_dma_l rc_bus_addr, d_src_addr_hi := pci_dma_h rc_bus_addr,
                d_dst_addr_lo := pci_dma_l ep_addr, d_dst_addr_hi := pci_dma_h ep_addr\<rparr>
      else desc\<lparr>d_src_addr_lo := pci_dma_l ep_addr, d_src_addr_hi := pci_dma_h ep_addr,
                d_dst_addr_lo := pci_dma_l rc_bus_addr, d_dst_addr_hi := pci_dma_h rc_bus_addr\<rparr>)"

text \<open>The device's reading of a descriptor.\<close>

definition desc_next :: "xdma_desc \<Rightarrow> u64" where
  "desc_next d = word_join (d_next_hi d) (d_next_lo d)"

definition desc_src :: "xdma_desc \<Rightarrow> u64" where
  "desc_src d = word_join (d_src_addr_hi d) (d_src_addr_lo d)"

definition desc_dst :: "xdma_desc \<Rightarrow> u64" where
  "desc_dst d = word_join (d_dst_addr_hi d) (d_dst_addr_lo d)"

definition desc_magic_ok :: "xdma_desc \<Rightarrow> bool" where
  "desc_magic_ok d \<longleftrightarrow> d_control d AND 0xFFFF0000 = DESC_MAGIC"

definition desc_nxt_adj :: "xdma_desc \<Rightarrow> u32" where
  "desc_nxt_adj d = drop_bit 8 (d_control d) AND 0x3F"

definition desc_flags :: "xdma_desc \<Rightarrow> u32" where
  "desc_flags d = d_control d AND LS_BYTE_MASK"

section \<open>Adjacent descriptors\<close>

lemma unat_next_index:
  "unat (drop_bit 5 (w AND (XDMA_PAGE_SIZE - 1)) mod XDMA_MAX_ADJ_BLOCK_SIZE)
     = unat w div 32 mod 64"
proof -
  have "unat w mod 4096 = 32 * (unat w div 32 mod 128) + unat w mod 32"
    using mod_mult2_eq [of "unat w" 32 128] by simp
  then have "unat w mod 4096 div 32 mod 64 = unat w div 32 mod 64"
    by (simp add: mod_mod_cancel)
  moreover have "w AND (XDMA_PAGE_SIZE - 1) = take_bit 12 w"
    by (simp add: XDMA_PAGE_SIZE_def and_mask_numerals)
  ultimately show ?thesis
    by (simp add: XDMA_MAX_ADJ_BLOCK_SIZE_def unat_mod unat_drop_bit unat_take_bit)
qed

lemma unat_xdma_get_next_adj:
  "unat (xdma_get_next_adj remaining next_lo)
     = (if unat remaining \<le> 1 then 0
        else min (63 - unat next_lo div 32 mod 64) (unat remaining - 1))"
proof (cases "unat remaining \<le> 1")
  case True
  then have "remaining \<le> 1" by (simp add: word_le_nat_alt)
  with True show ?thesis by (simp add: xdma_get_next_adj_def)
next
  case False
  define ix where
    "ix = drop_bit 5 (next_lo AND (XDMA_PAGE_SIZE - 1)) mod XDMA_MAX_ADJ_BLOCK_SIZE"
  have ix: "unat ix = unat next_lo div 32 mod 64"
    unfolding ix_def by (rule unat_next_index)
  then have "unat ix \<le> 63" by simp
  then have "unat (0x40 - ix - 1 :: u32) = 63 - unat ix"
    by (simp add: unat_sub_le)
  moreover have "unat (remaining - 1) = unat remaining - 1"
    using False by (simp add: unat_sub_le)
  moreover from False have "\<not> remaining \<le> 1" by (simp add: word_le_nat_alt)
  moreover have "unat (min a b) = min (unat a) (unat b)" for a b :: u32
    by (simp add: min_def word_le_nat_alt)
  ultimately show ?thesis
    using False unfolding xdma_get_next_adj_def ix_def [symmetric] Let_def
    by (simp add: XDMA_MAX_ADJ_BLOCK_SIZE_def ix)
qed

text \<open>
  C18. The adjacency count never runs past the descriptors that follow, and the block it
  announces (the next descriptor and the ones after it) stays inside the 64-descriptor
  aligned block, hence inside the 4096-byte page, that holds the next descriptor.
\<close>

theorem xdma_get_next_adj_sound:
  "unat (xdma_get_next_adj remaining next_lo) \<le> unat remaining - 1 \<and>
   unat (xdma_get_next_adj remaining next_lo) \<le> 63 \<and>
   (unat next_lo + 32 * unat (xdma_get_next_adj remaining next_lo)) div 2048
     = unat next_lo div 2048 \<and>
   (unat next_lo + 32 * unat (xdma_get_next_adj remaining next_lo)) div 4096
     = unat next_lo div 4096"
proof -
  let ?adj = "unat (xdma_get_next_adj remaining next_lo)"
  have adj: "?adj \<le> 63 - unat next_lo div 32 mod 64" "?adj \<le> unat remaining - 1"
    unfolding unat_xdma_get_next_adj by auto
  have blk: "(x + 32 * a) div 2048 = x div 2048 \<and> (x + 32 * a) div 4096 = x div 4096"
    if "a \<le> 63 - x div 32 mod 64" for x a :: nat
  proof -
    have "32 * (x div 32 mod 64) + x mod 32 + 32 * a < 2048"
      using that mod_less_divisor [of 64 "x div 32"] mod_less_divisor [of 32 x] by linarith
    then have small: "x mod 2048 + 32 * a < 2048"
      by (simp add: mod_2048_index)
    moreover have "x mod 4096 + 32 * a < 4096"
      using small mod_4096_index [of x] by linarith
    ultimately show ?thesis by (simp add: div_add_small)
  qed
  show ?thesis
    using adj blk [OF adj(1)] by auto
qed

section \<open>Chaining\<close>

lemma desc_init_loop_eq:
  "desc_init_loop base i n bus ring k =
     (if base + i \<le> k \<and> k < base + i + n
      then (ring k)\<lparr>d_next_lo := pci_dma_l (bus + 32 * of_nat (Suc (k - (base + i)))),
                    d_next_hi := pci_dma_h (bus + 32 * of_nat (Suc (k - (base + i)))),
                    d_bytes := 0, d_control := DESC_MAGIC\<rparr>
      else ring k)"
proof (induction base i n bus ring rule: desc_init_loop.induct)
  case (2 base i n bus ring)
  note IH = 2 [OF refl]
  show ?case
  proof (cases "base + i < k")
    case True
    define m where "m = k - (base + Suc i)"
    with True have k: "k - (base + i) = Suc m" by simp
    from True show ?thesis
      unfolding desc_init_loop.simps Let_def IH m_def [symmetric] k
      by (simp add: sizeof_xdma_desc_def algebra_simps)
  next
    case False
    then show ?thesis
      unfolding desc_init_loop.simps Let_def IH by (simp add: sizeof_xdma_desc_def)
  qed
qed auto

definition chained_desc :: "u64 \<Rightarrow> nat \<Rightarrow> nat \<Rightarrow> xdma_desc \<Rightarrow> xdma_desc" where
  "chained_desc bus n i d =
     (let next = (if Suc i = n then 0 else bus + 32 * of_nat (Suc i))
      in d\<lparr>d_next_lo := pci_dma_l next, d_next_hi := pci_dma_h next,
           d_bytes := 0, d_control := DESC_MAGIC\<rparr>)"

lemma transfer_desc_init_eq:
  assumes "0 < unat count" "unat count \<le> 2048"
  shows "transfer_desc_init base bus count ring =
    (0, \<lambda>k. if base \<le> k \<and> k < base + unat count
           then chained_desc bus (unat count) (k - base) (ring k) else ring k)"
proof -
  have s: "sint count = int (unat count)"
    using assms by (intro sint_small) simp
  have n: "nat (sint count - 1) = unat count - 1"
    unfolding s using assms by linarith
  have "\<not> sint XDMA_TRANSFER_MAX_DESC < sint count"
    unfolding s XDMA_TRANSFER_MAX_DESC_def using assms(2) by (simp del: of_nat_unat)
  then show ?thesis
    using assms unfolding transfer_desc_init_def n Let_def
    by (auto simp: desc_init_loop_eq chained_desc_def fun_eq_iff Let_def)
qed

section \<open>The control word\<close>

text \<open>
  The masks as runs of ones; the bit-level facts below hold for any 16-bit magic number.
\<close>

lemma control_masks:
  "(0x0000f0ff :: u32) = push_bit 12 (mask 4) OR mask 8"
  "(0xAD4B0000 :: u32) = push_bit 16 0xAD4B"
  "(0x3F :: u32) = mask 6" "(0xFFFF0000 :: u32) = push_bit 16 (mask 16)"
  "(0x3000 :: u32) = push_bit 12 (mask 2)" "LS_BYTE_MASK = mask 8"
  by (simp_all add: mask_eq_exp_minus_1 push_bit_eq_mult LS_BYTE_MASK_def)

lemma adjacent_word_adj:
  assumes "unat a < 64" "c AND push_bit 12 (mask 2) = 0"
  shows "drop_bit 8 (c AND (push_bit 12 (mask 4) OR mask 8) OR (push_bit 16 m OR push_bit 8 a))
     AND mask 6 = (a :: u32)"
proof (rule bit_word_eqI)
  fix n assume n: "n < LENGTH(32)"
  have a: "\<not> bit a n" if "6 \<le> n"
    using bit_small [of a 6] assms(1) that by simp
  have "bit (c AND push_bit 12 (mask 2)) (8 + n) = False"
    using assms(2) by simp
  then have c: "\<not> bit c (8 + n)" if "4 \<le> n" "n < 6"
    using that n by (auto simp: bit_simps)
  show "bit (drop_bit 8 (c AND (push_bit 12 (mask 4) OR mask 8) OR
      (push_bit 16 m OR push_bit 8 a)) AND mask 6) n = bit a n"
    using a c n by (cases "n < 6") (auto simp: bit_simps)
qed

lemma adjacent_word_magic:
  assumes "unat a < 64"
  shows "(c AND (push_bit 12 (mask 4) OR mask 8) OR (push_bit 16 m OR push_bit 8 a))
     AND push_bit 16 (mask 16) = push_bit 16 (m :: u32)"
proof (rule bit_word_eqI)
  fix n assume n: "n < LENGTH(32)"
  have a: "\<not> bit a (n - 8)" if "16 \<le> n"
    using bit_small [of a 6 "n - 8"] assms that by simp
  then show "bit ((c AND (push_bit 12 (mask 4) OR mask 8) OR (push_bit 16 m OR push_bit 8 a))
      AND push_bit 16 (mask 16)) n = bit (push_bit 16 m) n"
    using n by (auto simp: bit_simps)
qed

lemma adjacent_word_flags:
  "(c AND (push_bit 12 (mask 4) OR mask 8) OR (push_bit 16 m OR push_bit 8 a)) AND mask 8
     = c AND mask 8" for c m a :: u32
  by (rule bit_word_eqI) (auto simp: bit_simps)

lemma desc_adjacent_fields:
  assumes "unat a < 64" "d_control d AND 0x3000 = 0"
  shows "desc_nxt_adj (xdma_desc_adjacent d a) = a"
    "desc_magic_ok (xdma_desc_adjacent d a)"
    "desc_flags (xdma_desc_adjacent d a) = desc_flags d"
proof -
  have c: "d_control (xdma_desc_adjacent d a) = d_control d AND (push_bit 12 (mask 4) OR mask 8)
      OR (push_bit 16 0xAD4B OR push_bit 8 a)"
    unfolding control_masks(1,2) [symmetric] by (simp add: xdma_desc_adjacent_def)
  show "desc_nxt_adj (xdma_desc_adjacent d a) = a"
    unfolding desc_nxt_adj_def c control_masks(3)
    by (rule adjacent_word_adj [OF assms(1) assms(2) [unfolded control_masks(5)]])
  show "desc_magic_ok (xdma_desc_adjacent d a)"
    unfolding desc_magic_ok_def c DESC_MAGIC_def control_masks(2,4)
    by (rule adjacent_word_magic [OF assms(1)])
  show "desc_flags (xdma_desc_adjacent d a) = desc_flags d"
    unfolding desc_flags_def c control_masks(6) by (rule adjacent_word_flags)
qed

lemma desc_adjacent_frame [simp]:
  "d_bytes (xdma_desc_adjacent d a) = d_bytes d" "desc_next (xdma_desc_adjacent d a) = desc_next d"
  "desc_src (xdma_desc_adjacent d a) = desc_src d" "desc_dst (xdma_desc_adjacent d a) = desc_dst d"
  by (simp_all add: xdma_desc_adjacent_def desc_next_def desc_src_def desc_dst_def Let_def)

text \<open>
  Initialising a chain of between 1 and 2048 descriptors succeeds, links descriptor
  \<open>i\<close> to the bus address of descriptor \<open>i + 1\<close>, ends the list after the last one, gives
  every descriptor the magic number and a zero length, and touches nothing outside the chain.
\<close>

theorem transfer_desc_init_chain:
  assumes "0 < unat count" "unat count \<le> 2048"
    and "transfer_desc_init base bus count ring = (rv, ring')"
  shows "rv = 0 \<and> agree_outside base (unat count) ring ring' \<and>
    (\<forall>i < unat count. desc_next (ring' (base + i)) =
        (if Suc i = unat count then 0 else bus + 32 * of_nat (Suc i)) \<and>
      d_control (ring' (base + i)) = DESC_MAGIC \<and> d_bytes (ring' (base + i)) = 0)"
  using assms(3)
  unfolding transfer_desc_init_eq [OF assms(1,2)] agree_outside_def
  by (auto simp: chained_desc_def desc_next_def Let_def)

theorem transfer_desc_init_chain_witness:
  "0 < unat (3 :: s32) \<and> unat (3 :: s32) \<le> 2048 \<and>
   desc_next (snd (transfer_desc_init 5 0x1000 3 (\<lambda>_. zero_desc)) 6) = 0x1040"
  using transfer_desc_init_chain [of 3 5 "0x1000" "\<lambda>_. zero_desc"
      "fst (transfer_desc_init 5 0x1000 3 (\<lambda>_. zero_desc))"
      "snd (transfer_desc_init 5 0x1000 3 (\<lambda>_. zero_desc))"]
  by (auto dest!: spec [of _ 1])

text \<open>
  A chain longer than 2048 descriptors is refused and no descriptor is written.
\<close>

theorem transfer_desc_init_too_long:
  assumes "2048 < sint count"
  shows "transfer_desc_init base bus count ring = (- EINVAL, ring)"
  using assms by (simp add: transfer_desc_init_def XDMA_TRANSFER_MAX_DESC_def)

theorem transfer_desc_init_too_long_witness:
  "2048 < sint (2049 :: s32) \<and>
   transfer_desc_init 0 0 2049 (\<lambda>_. zero_desc) = (- EINVAL, \<lambda>_. zero_desc)"
  using transfer_desc_init_too_long [of 2049 0 0 "\<lambda>_. zero_desc"] by simp

text \<open>
  Setting a descriptor's control flags accepts exactly the values that fit the low byte;
  it then replaces the flags and keeps the magic number, the adjacency count and every other
  field, and otherwise it returns the error and leaves the descriptor alone.
\<close>

theorem xdma_desc_control_set_spec:
  "xdma_desc_control_set d c =
     (if unat c < 256
      then (0, d\<lparr>d_control := (d_control d AND NOT 0xFF) OR c\<rparr>) else (- EINVAL, d))"
proof -
  have "(c AND NOT LS_BYTE_MASK = 0) = (take_bit 8 c = c)"
  proof -
    have "c AND NOT (mask 8) = 0 \<longleftrightarrow> (\<forall>n < 32. 8 \<le> n \<longrightarrow> \<not> bit c n)"
      by (auto simp: bit_eq_iff bit_simps)
    moreover have "take_bit 8 c = c \<longleftrightarrow> (\<forall>n < 32. 8 \<le> n \<longrightarrow> \<not> bit c n)"
      by (auto simp: bit_eq_iff bit_simps)
    ultimately show ?thesis by (simp add: control_masks(6))
  qed
  also have "\<dots> \<longleftrightarrow> unat c < 256"
    by (simp add: word_unat_eq_iff unat_take_bit mod_eq_self_iff_div_eq_0 div_eq_0_iff)
  finally show ?thesis
    by (simp add: xdma_desc_control_set_def LS_BYTE_MASK_def Let_def)
qed

end
