(* ===== verification/Xdma_State.thy ===== *)
theory Xdma_State
  imports Xdma_Desc
begin

text \<open>
  The book-keeping structures of \<^verbatim>\<open>libxdma.h\<close> as records: a transfer, a request, an engine,
  and the store the driver's functions pass along (\<open>kstate\<close>: the log of accesses and the
  transfers by address). A transfer is named by a number (its address); the queue of an engine
  is the list of the names linked into \<^verbatim>\<open>transfer_list\<close>. Locks and wait-queue
  heads have no field; a critical section is one atomic step of the model.
\<close>

section \<open>Records\<close>

type_synonym xfer_id = nat

record xdma_transfer =
  x_desc_virt :: nat
  x_res_virt :: addr
  x_res_bus :: addr
  x_desc_bus :: addr
  x_desc_adjacent :: s32
  x_desc_num :: s32
  x_desc_index :: s32
  x_desc_cmpl :: s32
  x_desc_cmpl_th :: s32
  x_dir :: dma_data_direction
  x_state :: transfer_state
  x_flags :: u32
  x_cyclic :: bool
  x_last_in_request :: bool
  x_len :: u32
  x_sgt :: bool
  x_cb :: "nat option"

definition zero_transfer :: xdma_transfer where
  "zero_transfer = \<lparr>x_desc_virt = 0, x_res_virt = 0, x_res_bus = 0, x_desc_bus = 0,
     x_desc_adjacent = 0, x_desc_num = 0, x_desc_index = 0, x_desc_cmpl = 0, x_desc_cmpl_th = 0,
     x_dir = DMA_BIDIRECTIONAL, x_state = TRANSFER_STATE_NEW, x_flags = 0, x_cyclic = False,
     x_last_in_request = False, x_len = 0, x_sgt = False, x_cb = None\<rparr>"

record sw_desc =
  sw_addr :: addr
  sw_len :: u32

record xdma_request_cb =
  r_total_len :: u32
  r_ep_addr :: u64
  r_tfer :: xfer_id
  r_cb :: "nat option"
  r_sw_desc_idx :: u32
  r_sw_desc_cnt :: u32
  r_sdesc_nr :: nat
  r_sdesc :: "sw_desc list"

record xdma_performance_ioctl =
  p_version :: u32
  p_transfer_size :: u32
  p_stopped :: u32
  p_iterations :: u32
  p_clock_cycle_count :: u64
  p_data_cycle_count :: u64
  p_pending_count :: u64

record xdma_engine =
  e_magic :: u64
  e_name :: string
  e_idx :: s32
  e_regs :: addr
  e_sgdma_regs :: addr
  e_bypass_offset :: u32
  e_shutdown :: u32
  e_dir :: dma_data_direction
  e_addr_align :: u8
  e_len_granularity :: u8
  e_addr_bits :: u8
  e_channel :: u8
  e_streaming :: bool
  e_device_open :: bool
  e_running :: bool
  e_non_incr_addr :: bool
  e_eop_flush :: bool
  e_desc_dequeued :: s32
  e_status :: u32
  e_interrupt_enable_mask_value :: u32
  e_transfer_list :: "xfer_id list"
  e_cyclic_result :: addr
  e_cyclic_result_bus :: addr
  e_perf_buf_virt :: addr
  e_perf_buf_bus :: addr
  e_poll_mode_addr_virt :: addr
  e_poll_mode_bus :: addr
  e_msix_irq_line :: s32
  e_irq_bitmask :: u32
  e_desc :: addr
  e_desc_bus :: addr
  e_desc_ring :: desc_ring
  e_desc_idx :: s32
  e_desc_used :: s32
  e_xdma_perf :: "xdma_performance_ioctl option"
  e_cmplthp :: "nat option"
  e_intr_work_cpu :: u32

text \<open>An engine structure as \<^verbatim>\<open>kzalloc\<close> and \<^verbatim>\<open>memset\<close> leave it.\<close>

definition zero_engine :: xdma_engine where
  "zero_engine = \<lparr>e_magic = 0, e_name = [], e_idx = 0, e_regs = 0, e_sgdma_regs = 0,
     e_bypass_offset = 0, e_shutdown = 0, e_dir = DMA_BIDIRECTIONAL, e_addr_align = 0, e_len_granularity = 0,
     e_addr_bits = 0, e_channel = 0, e_streaming = False, e_device_open = False,
     e_running = False, e_non_incr_addr = False, e_eop_flush = False, e_desc_dequeued = 0,
     e_status = 0, e_interrupt_enable_mask_value = 0, e_transfer_list = [],
     e_cyclic_result = 0, e_cyclic_result_bus = 0, e_perf_buf_virt = 0, e_perf_buf_bus = 0,
     e_poll_mode_addr_virt = 0, e_poll_mode_bus = 0, e_msix_irq_line = 0, e_irq_bitmask = 0,
     e_desc = 0, e_desc_bus = 0, e_desc_ring = (\<lambda>_. zero_desc), e_desc_idx = 0, e_desc_used = 0,
     e_xdma_perf = None, e_cmplthp = None, e_intr_work_cpu = 0\<rparr>"

record kstate =
  k_trace :: "io_event list"
  k_xfers :: "xfer_id \<Rightarrow> xdma_transfer"

section \<open>Accessors\<close>

definition reg_read :: "device \<Rightarrow> addr \<Rightarrow> kstate \<Rightarrow> u32 \<times> kstate" where
  "reg_read hw a k = (case read_register hw a (k_trace k) of (v, t) \<Rightarrow> (v, k\<lparr>k_trace := t\<rparr>))"

definition mem_read :: "device \<Rightarrow> addr \<Rightarrow> kstate \<Rightarrow> u32 \<times> kstate" where
  "mem_read hw a k =
     (case ioread32 hw (Coherent a) (k_trace k) of (v, t) \<Rightarrow> (v, k\<lparr>k_trace := t\<rparr>))"

definition reg_write :: "u32 \<Rightarrow> addr \<Rightarrow> kstate \<Rightarrow> kstate" where
  "reg_write v a k = k\<lparr>k_trace := write_register v a (k_trace k)\<rparr>"

definition mem_write :: "u32 \<Rightarrow> addr \<Rightarrow> kstate \<Rightarrow> kstate" where
  "mem_write v a k = k\<lparr>k_trace := k_trace k @ [Wr (Coherent a) v]\<rparr>"

definition log_event :: "io_event \<Rightarrow> kstate \<Rightarrow> kstate" where
  "log_event ev k = k\<lparr>k_trace := k_trace k @ [ev]\<rparr>"

definition upd_xfer :: "xfer_id \<Rightarrow> (xdma_transfer \<Rightarrow> xdma_transfer) \<Rightarrow> kstate \<Rightarrow> kstate" where
  "upd_xfer i f k = k\<lparr>k_xfers := (k_xfers k)(i := f (k_xfers k i))\<rparr>"

lemma reg_read_eq [xdma_io]:
  "reg_read hw a k = (hw (k_trace k) (Mmio a),
     k\<lparr>k_trace := k_trace k @ [Rd (Mmio a) (hw (k_trace k) (Mmio a))]\<rparr>)"
  by (simp add: reg_read_def xdma_io)

lemma mem_read_eq [xdma_io]:
  "mem_read hw a k = (hw (k_trace k) (Coherent a),
     k\<lparr>k_trace := k_trace k @ [Rd (Coherent a) (hw (k_trace k) (Coherent a))]\<rparr>)"
  by (simp add: mem_read_def ioread32_def Let_def)

lemma reg_write_eq [xdma_io]: "reg_write v a k = k\<lparr>k_trace := k_trace k @ [Wr (Mmio a) v]\<rparr>"
  by (simp add: reg_write_def xdma_io)

lemma log_event_trace [simp]: "k_trace (log_event ev k) = k_trace k @ [ev]"
  and log_event_xfers [simp]: "k_xfers (log_event ev k) = k_xfers k"
  by (simp_all add: log_event_def)

lemma upd_xfer_trace [simp]: "k_trace (upd_xfer i f k) = k_trace k"
  and upd_xfer_xfers [simp]: "k_xfers (upd_xfer i f k) = (k_xfers k)(i := f (k_xfers k i))"
  by (simp_all add: upd_xfer_def)

lemma reg_write_trace [simp]: "k_trace (reg_write v a k) = k_trace k @ [Wr (Mmio a) v]"
  and reg_write_xfers [simp]: "k_xfers (reg_write v a k) = k_xfers k"
  by (simp_all add: xdma_io)

lemma snd_reg_read [simp]:
  "k_trace (snd (reg_read hw a k)) = k_trace k @ [Rd (Mmio a) (hw (k_trace k) (Mmio a))]"
  "k_xfers (snd (reg_read hw a k)) = k_xfers k"
  by (simp_all add: xdma_io)

end
