(* ===== verification/Xdma_Request.thy ===== *)
theory Xdma_Request
  imports Xdma_State
begin

text \<open>
  From a scatter list to descriptors: \<^verbatim>\<open>xdma_init_request\<close> cuts the mapped segments into
  software descriptors no longer than \<^verbatim>\<open>desc_blen_max\<close>, \<^verbatim>\<open>transfer_init\<close> and
  \<^verbatim>\<open>transfer_build\<close> program a run of them into the engine's descriptor ring,
  \<^verbatim>\<open>transfer_destroy\<close> recycles it.
\<close>

section \<open>Building a request\<close>

text \<open>A mapped scatter list: the DMA address and length of each of its \<^verbatim>\<open>nents\<close> entries.\<close>

record sg_entry =
  sg_dma_address :: addr
  sg_dma_len :: u32

text \<open>
  The cutting loop. It makes no progress when the limit is zero, so it is a partial function:
  \<open>None\<close> is a loop that does not end.
\<close>

partial_function (option) split_sg ::
    "u32 \<Rightarrow> u32 \<Rightarrow> addr \<Rightarrow> sw_desc list \<Rightarrow> sw_desc list option" where
  "split_sg blen tlen addr acc =
     (if tlen = 0 then Some acc
      else if blen < tlen
      then split_sg blen (tlen - blen) (addr + ucast blen) (acc @ [\<lparr>sw_addr = addr, sw_len = blen\<rparr>])
      else split_sg blen 0 addr (acc @ [\<lparr>sw_addr = addr, sw_len = tlen\<rparr>]))"

fun split_sgl :: "u32 \<Rightarrow> sg_entry list \<Rightarrow> sw_desc list \<Rightarrow> sw_desc list option" where
  "split_sgl blen [] acc = Some acc"
| "split_sgl blen (sg # sgl) acc =
     (case split_sg blen (sg_dma_len sg) (sg_dma_address sg) acc of
        None \<Rightarrow> None
      | Some acc' \<Rightarrow> split_sgl blen sgl acc')"

text \<open>
  The number of entries reserved beyond \<^verbatim>\<open>nents\<close>, in the code's 32-bit arithmetic. A zero
  limit makes the division trap, which is \<open>None\<close>.
\<close>

fun extra_desc :: "u32 \<Rightarrow> sg_entry list \<Rightarrow> s32 \<Rightarrow> s32 option" where
  "extra_desc blen [] extra = Some extra"
| "extra_desc blen (sg # sgl) extra =
     (let len = sg_dma_len sg in
      if blen < len
      then if blen = 0 then None
           else extra_desc blen sgl (extra + (len + blen - 1) div blen)
      else extra_desc blen sgl extra)"

fun total_len :: "sg_entry list \<Rightarrow> u32" where
  "total_len [] = 0"
| "total_len (sg # sgl) = sg_dma_len sg + total_len sgl"

text \<open>
  \<open>kmem sdesc_nr\<close> says whether the allocation of a request with \<open>sdesc_nr\<close> software
  descriptors succeeds; \<open>tfer\<close> names the first of its two embedded transfers. The outer
  option is non-termination or a trap, the inner one the returned pointer.
\<close>

definition xdma_request_alloc :: "(nat \<Rightarrow> bool) \<Rightarrow> xfer_id \<Rightarrow> nat \<Rightarrow> xdma_request_cb option" where
  "xdma_request_alloc kmem tfer sdesc_nr =
     (if kmem sdesc_nr
      then Some \<lparr>r_total_len = 0, r_ep_addr = 0, r_tfer = tfer, r_cb = None, r_sw_desc_idx = 0,
                 r_sw_desc_cnt = 0, r_sdesc_nr = sdesc_nr, r_sdesc = []\<rparr>
      else None)"

definition xdma_init_request ::
    "modparams \<Rightarrow> (nat \<Rightarrow> bool) \<Rightarrow> xfer_id \<Rightarrow> sg_entry list \<Rightarrow> u64 \<Rightarrow> xdma_request_cb option option" where
  "xdma_init_request mp kmem tfer sgl ep_addr =
     (case extra_desc (desc_blen_max mp) sgl 0 of
        None \<Rightarrow> None
      | Some extra \<Rightarrow>
          let max = of_nat (length sgl) + extra in
          (case xdma_request_alloc kmem tfer (unat max) of
             None \<Rightarrow> Some None
           | Some req \<Rightarrow>
               (case split_sgl (desc_blen_max mp) sgl [] of
                  None \<Rightarrow> None
                | Some sdesc \<Rightarrow>
                    if unat max < length sdesc then Some None
                    else Some (Some (req\<lparr>r_ep_addr := ep_addr, r_total_len := total_len sgl,
                                         r_sdesc := sdesc,
                                         r_sw_desc_cnt := of_nat (length sdesc)\<rparr>)))))"

section \<open>Programming a transfer\<close>

text \<open>Entry \<open>n\<close> of \<^verbatim>\<open>req->sdesc\<close>; the array is zeroed when it is allocated.\<close>

definition sdesc_at :: "xdma_request_cb \<Rightarrow> nat \<Rightarrow> sw_desc" where
  "sdesc_at r n = (if n < length (r_sdesc r) then r_sdesc r ! n else \<lparr>sw_addr = 0, sw_len = 0\<rparr>)"

definition sizeof_xdma_result :: u64 where
  "sizeof_xdma_result = 32"

definition memset_result :: "addr \<Rightarrow> io_event list \<Rightarrow> io_event list" where
  "memset_result a t = t @ map (\<lambda>w. Wr (Coherent (a + 4 * of_nat w)) 0) [0..<8]"

text \<open>A \<^verbatim>\<open>for\<close> loop over \<open>n\<close> descriptors whose body reads and writes only its own one.\<close>

definition ring_map :: "nat \<Rightarrow> nat \<Rightarrow> (nat \<Rightarrow> xdma_desc \<Rightarrow> xdma_desc) \<Rightarrow> desc_ring \<Rightarrow> desc_ring" where
  "ring_map base n f ring = (\<lambda>k. if base \<le> k \<and> k < base + n then f (k - base) (ring k) else ring k)"

definition st_c2h :: "xdma_engine \<Rightarrow> bool" where
  "st_c2h e \<longleftrightarrow> e_streaming e \<and> e_dir e = DMA_FROM_DEVICE"

fun transfer_build_loop ::
    "nat \<Rightarrow> nat \<Rightarrow> xdma_engine \<Rightarrow> xdma_request_cb \<Rightarrow> xdma_transfer \<Rightarrow> addr \<Rightarrow> io_event list
     \<Rightarrow> xdma_engine \<times> xdma_request_cb \<times> xdma_transfer \<times> io_event list" where
  "transfer_build_loop 0 j e req xfer bus t = (e, req, xfer, t)"
| "transfer_build_loop (Suc n) j e req xfer bus t =
     (let sdesc = sdesc_at req (unat (r_sw_desc_idx req) + j);
          d = xdma_desc_set (e_desc_ring e (x_desc_virt xfer + j)) (sw_addr sdesc)
                (r_ep_addr req) (sw_len sdesc) (x_dir xfer);
          d' = (if st_c2h e
                then d\<lparr>d_src_addr_lo := pci_dma_l bus, d_src_addr_hi := pci_dma_h bus\<rparr> else d)
      in transfer_build_loop n (Suc j)
           (e\<lparr>e_desc_ring := (e_desc_ring e)(x_desc_virt xfer + j := d')\<rparr>)
           (if e_non_incr_addr e then req
            else req\<lparr>r_ep_addr := r_ep_addr req + ucast (sw_len sdesc)\<rparr>)
           (xfer\<lparr>x_len := x_len xfer + sw_len sdesc\<rparr>)
           (if st_c2h e then bus + sizeof_xdma_result else bus)
           (if st_c2h e
            then memset_result (x_res_virt xfer + sizeof_xdma_result * of_nat j) t else t))"

definition transfer_build ::
    "xdma_engine \<Rightarrow> xdma_request_cb \<Rightarrow> xdma_transfer \<Rightarrow> u32 \<Rightarrow> io_event list
     \<Rightarrow> xdma_engine \<times> xdma_request_cb \<times> xdma_transfer \<times> io_event list" where
  "transfer_build e req xfer desc_max t =
     (case transfer_build_loop (unat desc_max) 0 e req xfer (x_res_bus xfer) t of
        (e, req, xfer, t) \<Rightarrow>
          (e, req\<lparr>r_sw_desc_idx := r_sw_desc_idx req + desc_max\<rparr>, xfer, t))"

text \<open>The descriptor count \<^verbatim>\<open>transfer_init\<close> settles on, and the zeroed and addressed transfer.\<close>

definition transfer_desc_max :: "xdma_engine \<Rightarrow> xdma_request_cb \<Rightarrow> u32" where
  "transfer_desc_max e req =
     (let desc_max = min (r_sw_desc_cnt req - r_sw_desc_idx req) XDMA_TRANSFER_MAX_DESC in
      if XDMA_TRANSFER_MAX_DESC \<le> e_desc_idx e + desc_max
      then XDMA_TRANSFER_MAX_DESC - e_desc_idx e else desc_max)"

definition transfer_at :: "xdma_engine \<Rightarrow> xdma_transfer" where
  "transfer_at e = zero_transfer
     \<lparr>x_dir := e_dir e,
      x_desc_virt := unat (e_desc_idx e),
      x_res_virt := e_cyclic_result e + sizeof_xdma_result * scast (e_desc_idx e),
      x_desc_bus := e_desc_bus e + sizeof_xdma_desc * scast (e_desc_idx e),
      x_res_bus := e_cyclic_result_bus e + sizeof_xdma_result * scast (e_desc_idx e),
      x_desc_index := e_desc_idx e\<rparr>"

definition transfer_init ::
    "xdma_engine \<Rightarrow> xdma_request_cb \<Rightarrow> io_event list
     \<Rightarrow> int \<times> xdma_engine \<times> xdma_request_cb \<times> xdma_transfer \<times> io_event list" where
  "transfer_init e req t =
     (let xfer = transfer_at e;
          base = x_desc_virt xfer;
          desc_max = transfer_desc_max e req;
          e = e\<lparr>e_desc_ring :=
                snd (transfer_desc_init base (x_desc_bus xfer) desc_max (e_desc_ring e))\<rparr>
      in case transfer_build e req xfer desc_max t of
        (e, req, xfer, t) \<Rightarrow>
          let last = desc_max - 1;
              control = XDMA_DESC_STOPPED OR XDMA_DESC_EOP OR XDMA_DESC_COMPLETED;
              ring1 = ring_map (base + unat last) 1
                        (\<lambda>_ d. snd (xdma_desc_control_set d control)) (e_desc_ring e);
              ring2 = (if e_eop_flush e
                       then ring_map base (unat last)
                              (\<lambda>_ d. snd (xdma_desc_control_set d XDMA_DESC_COMPLETED)) ring1
                       else ring1);
              ring3 = ring_map base (unat desc_max)
                        (\<lambda>i d. xdma_desc_adjacent d
                                 (xdma_get_next_adj (desc_max - of_nat i - 1) (d_next_lo d))) ring2
          in (0,
              e\<lparr>e_desc_ring := ring3,
                e_desc_idx := (e_desc_idx e + desc_max) mod XDMA_TRANSFER_MAX_DESC,
                e_desc_used := e_desc_used e + desc_max\<rparr>,
              req,
              xfer\<lparr>x_desc_adjacent := desc_max,
                   x_desc_cmpl_th := (if e_eop_flush e then 1 else desc_max),
                   x_desc_num := desc_max\<rparr>,
              t))"

text \<open>
  The descriptors are zeroed; the last transfer of a request that the driver mapped itself also
  unmaps the scatter list, whose entry count \<open>nents\<close> becomes zero so that nobody unmaps twice.
\<close>

definition transfer_destroy ::
    "xdma_engine \<Rightarrow> xdma_transfer \<Rightarrow> nat \<Rightarrow> io_event list \<Rightarrow> xdma_engine \<times> nat \<times> io_event list" where
  "transfer_destroy e xfer nents t =
     (let e = e\<lparr>e_desc_ring := xdma_desc_done (x_desc_virt xfer) (x_desc_num xfer) (e_desc_ring e)\<rparr>
      in if x_last_in_request xfer \<and> x_flags xfer AND XFER_FLAG_NEED_UNMAP \<noteq> 0 \<and> nents \<noteq> 0
         then (e, 0, t @ [Release (ResSg nents)]) else (e, nents, t))"

section \<open>Cutting a segment\<close>

text \<open>
  \<open>covers a n ds\<close>: the software descriptors \<open>ds\<close> are non-empty pieces that follow each
  other without gap or overlap from address \<open>a\<close> and amount to \<open>n\<close> bytes.
\<close>

fun covers :: "addr \<Rightarrow> nat \<Rightarrow> sw_desc list \<Rightarrow> bool" where
  "covers a n [] \<longleftrightarrow> n = 0"
| "covers a n (d # ds) \<longleftrightarrow>
     sw_addr d = a \<and> 0 < unat (sw_len d) \<and> unat (sw_len d) \<le> n \<and>
     covers (a + ucast (sw_len d)) (n - unat (sw_len d)) ds"

lemma covers_sum: "covers a n ds \<Longrightarrow> (\<Sum>d\<leftarrow>ds. unat (sw_len d)) = n"
  by (induction a n ds rule: covers.induct) auto

lemma ceil_div_step:
  "0 < b \<Longrightarrow> 0 < n \<Longrightarrow> (n + b - Suc 0) div b = Suc ((n - Suc 0) div b)" for n b :: nat
  by (simp add: div_if)

lemma ceil_div_last: "0 < n \<Longrightarrow> n \<le> b \<Longrightarrow> (n + b - Suc 0) div b = Suc 0" for n b :: nat
  by (simp add: div_nat_eqI)

lemma split_sg_covers:
  assumes "0 < blen"
  shows "\<exists>ds. split_sg blen tlen a acc = Some (acc @ ds) \<and> covers a (unat tlen) ds \<and>
    (\<forall>d \<in> set ds. sw_len d \<le> blen) \<and> length ds = (unat tlen + unat blen - 1) div unat blen"
proof (induction "unat tlen" arbitrary: tlen a acc rule: less_induct)
  case less
  have b: "0 < unat blen" using assms by (simp add: unat_gt_0 word_gt_0)
  consider (zero) "tlen = 0" | (cut) "tlen \<noteq> 0" "blen < tlen" | (rest) "tlen \<noteq> 0" "\<not> blen < tlen"
    by blast
  then show ?case
  proof cases
    case zero
    then show ?thesis using b by (subst split_sg.simps) simp
  next
    case cut
    then have lt: "unat blen < unat tlen" by (simp add: word_less_nat_alt)
    then have sub: "unat (tlen - blen) = unat tlen - unat blen" by (simp add: unat_sub_le)
    with lt b have "unat (tlen - blen) < unat tlen" by simp
    from less [OF this, of "a + ucast blen" "acc @ [\<lparr>sw_addr = a, sw_len = blen\<rparr>]"] obtain ds where
      ds: "split_sg blen (tlen - blen) (a + ucast blen) (acc @ [\<lparr>sw_addr = a, sw_len = blen\<rparr>]) =
          Some ((acc @ [\<lparr>sw_addr = a, sw_len = blen\<rparr>]) @ ds)"
        "covers (a + ucast blen) (unat tlen - unat blen) ds" "\<forall>d \<in> set ds. sw_len d \<le> blen"
        "length ds = (unat tlen - unat blen + unat blen - 1) div unat blen"
      unfolding sub by blast
    from ds(1) cut have "split_sg blen tlen a acc = Some (acc @ \<lparr>sw_addr = a, sw_len = blen\<rparr> # ds)"
      by (subst split_sg.simps) simp
    then show ?thesis
      using ds(2-4) lt b
      by (intro exI [of _ "\<lparr>sw_addr = a, sw_len = blen\<rparr> # ds"]) (simp add: ceil_div_step)
  next
    case rest
    then have le: "0 < unat tlen" "unat tlen \<le> unat blen"
      by (simp_all add: word_less_nat_alt unat_gt_0)
    have "split_sg blen 0 x y = Some y" for x y by (subst split_sg.simps) simp
    with rest have "split_sg blen tlen a acc = Some (acc @ [\<lparr>sw_addr = a, sw_len = tlen\<rparr>])"
      by (subst split_sg.simps) simp
    then show ?thesis
      using le by (intro exI [of _ "[\<lparr>sw_addr = a, sw_len = tlen\<rparr>]"])
        (simp add: ceil_div_last word_le_nat_alt)
  qed
qed

lemma split_sgl_covers:
  assumes "0 < blen"
  shows "\<exists>dss. split_sgl blen sgl acc = Some (acc @ concat dss) \<and>
    list_all2 (\<lambda>sg ds. covers (sg_dma_address sg) (unat (sg_dma_len sg)) ds \<and>
      (\<forall>d \<in> set ds. sw_len d \<le> blen) \<and>
      length ds = (unat (sg_dma_len sg) + unat blen - 1) div unat blen) sgl dss"
proof (induction sgl arbitrary: acc)
  case (Cons sg sgl)
  obtain ds where ds: "split_sg blen (sg_dma_len sg) (sg_dma_address sg) acc = Some (acc @ ds)"
      "covers (sg_dma_address sg) (unat (sg_dma_len sg)) ds" "\<forall>d \<in> set ds. sw_len d \<le> blen"
      "length ds = (unat (sg_dma_len sg) + unat blen - 1) div unat blen"
    using split_sg_covers [OF assms] by blast
  obtain dss where dss: "split_sgl blen sgl (acc @ ds) = Some ((acc @ ds) @ concat dss)"
      "list_all2 (\<lambda>sg ds. covers (sg_dma_address sg) (unat (sg_dma_len sg)) ds \<and>
        (\<forall>d \<in> set ds. sw_len d \<le> blen) \<and>
        length ds = (unat (sg_dma_len sg) + unat blen - 1) div unat blen) sgl dss"
    using Cons by blast
  show ?case
    by (rule exI [of _ "ds # dss"]) (use ds dss in simp)
qed simp

section \<open>Reserving room for the pieces\<close>

text \<open>The pieces a segment needs, and the room the code reserves for the long ones.\<close>

definition pieces :: "u32 \<Rightarrow> sg_entry \<Rightarrow> nat" where
  "pieces blen sg = (unat (sg_dma_len sg) + unat blen - 1) div unat blen"

lemma pieces_short: "0 < blen \<Longrightarrow> sg_dma_len sg \<le> blen \<Longrightarrow> pieces blen sg \<le> 1"
proof -
  assume "0 < blen" "sg_dma_len sg \<le> blen"
  then have "0 < unat blen" "unat (sg_dma_len sg) \<le> unat blen"
    by (simp_all add: word_le_nat_alt unat_gt_0 word_gt_0)
  then show ?thesis
    using ceil_div_last [of "unat (sg_dma_len sg)" "unat blen"]
    by (cases "unat (sg_dma_len sg) = 0") (simp_all add: pieces_def)
qed

lemma extra_desc_enough:
  assumes "0 < blen"
    and "\<forall>sg \<in> set sgl. unat (sg_dma_len sg) + unat blen \<le> 2 ^ 32"
    and "length sgl + unat extra + (\<Sum>sg\<leftarrow>sgl. pieces blen sg) < 2 ^ 32"
  shows "\<exists>extra'. extra_desc blen sgl extra = Some extra' \<and>
    unat extra + (\<Sum>sg\<leftarrow>sgl. pieces blen sg) \<le> length sgl + unat extra' \<and>
    unat extra' \<le> unat extra + (\<Sum>sg\<leftarrow>sgl. pieces blen sg)"
  using assms(2,3)
proof (induction sgl arbitrary: extra)
  case (Cons sg sgl)
  show ?case
  proof (cases "blen < sg_dma_len sg")
    case True
    let ?q = "(sg_dma_len sg + blen - 1) div blen"
    have b: "0 < unat blen" using assms(1) by (simp add: unat_gt_0 word_gt_0)
    have m: "unat (blen - 1) = unat blen - 1" using b by (simp add: unat_sub_le)
    have "unat (sg_dma_len sg) + unat blen \<le> 2 ^ 32" using Cons.prems(1) by simp
    then have "unat (sg_dma_len sg) + unat (blen - 1) < 2 ^ LENGTH(32)"
      unfolding m using b by simp
    then have "unat (sg_dma_len sg + (blen - 1)) = unat (sg_dma_len sg) + (unat blen - 1)"
      by (simp only: unat_add_lt m)
    then have "unat (sg_dma_len sg + blen - 1) = unat (sg_dma_len sg) + unat blen - 1"
      using b by (simp add: add_diff_eq)
    then have q: "unat ?q = pieces blen sg"
      by (simp add: unat_div pieces_def)
    have e: "unat (extra + ?q) = unat extra + pieces blen sg"
      using Cons.prems(2) q by (simp add: unat_add_lt)
    show ?thesis
      using Cons.IH [of "extra + ?q"] Cons.prems True assms(1) e
      by (auto simp: Let_def)
  next
    case False
    then have "pieces blen sg \<le> 1" using assms(1) by (intro pieces_short) simp_all
    then show ?thesis
      using Cons.IH [of extra] Cons.prems False by (auto simp: Let_def)
  qed
qed simp

lemma length_concat_pieces:
  "list_all2 (\<lambda>sg ds. P sg ds \<and> Q sg ds \<and> length ds = pieces blen sg) sgl dss \<Longrightarrow>
   length (concat dss) = (\<Sum>sg\<leftarrow>sgl. pieces blen sg)"
  by (induction sgl dss rule: list_all2_induct) auto

text \<open>
  C17. With a positive descriptor limit and segments whose sizes do not overflow the 32-bit
  computation of the reservation, a request is built whenever its memory can be allocated: the
  software descriptors cut every segment, in order, into contiguous non-empty pieces no longer
  than the limit, and they all fit the array that was allocated for them.
\<close>

theorem xdma_init_request_covers:
  assumes "0 < desc_blen_max mp"
    and "\<forall>sg \<in> set sgl. unat (sg_dma_len sg) + unat (desc_blen_max mp) \<le> 2 ^ 32"
    and "length sgl + (\<Sum>sg\<leftarrow>sgl. pieces (desc_blen_max mp) sg) < 2 ^ 32"
    and "\<forall>n. kmem n"
  shows "\<exists>req dss. xdma_init_request mp kmem tfer sgl ep = Some (Some req) \<and>
    r_sdesc req = concat dss \<and>
    list_all2 (\<lambda>sg ds. covers (sg_dma_address sg) (unat (sg_dma_len sg)) ds \<and>
      (\<forall>d \<in> set ds. sw_len d \<le> desc_blen_max mp)) sgl dss \<and>
    unat (r_sw_desc_cnt req) = length (r_sdesc req) \<and>
    length (r_sdesc req) \<le> r_sdesc_nr req \<and>
    r_sw_desc_idx req = 0 \<and> r_ep_addr req = ep \<and> r_tfer req = tfer"
proof -
  let ?b = "desc_blen_max mp"
  obtain extra where ex: "extra_desc ?b sgl 0 = Some extra"
      "(\<Sum>sg\<leftarrow>sgl. pieces ?b sg) \<le> length sgl + unat extra"
      "unat extra \<le> (\<Sum>sg\<leftarrow>sgl. pieces ?b sg)"
    using extra_desc_enough [of ?b sgl 0] assms by auto
  obtain dss where dss: "split_sgl ?b sgl [] = Some (concat dss)"
      "list_all2 (\<lambda>sg ds. covers (sg_dma_address sg) (unat (sg_dma_len sg)) ds \<and>
        (\<forall>d \<in> set ds. sw_len d \<le> ?b) \<and> length ds = pieces ?b sg) sgl dss"
    using split_sgl_covers [OF assms(1), of sgl "[]"] unfolding pieces_def by auto
  have len: "length (concat dss) = (\<Sum>sg\<leftarrow>sgl. pieces ?b sg)"
    by (rule length_concat_pieces [OF dss(2)])
  have max: "unat (of_nat (length sgl) + extra) = length sgl + unat extra"
    using assms(3) ex(3) by (simp add: unat_add_lt unat_of_nat_small)
  have cnt: "unat (of_nat (length (concat dss)) :: u32) = length (concat dss)"
    using assms(3) len by (simp add: unat_of_nat_small)
  have "list_all2 (\<lambda>sg ds. covers (sg_dma_address sg) (unat (sg_dma_len sg)) ds \<and>
      (\<forall>d \<in> set ds. sw_len d \<le> ?b)) sgl dss"
    using dss(2) by (rule list_all2_mono) blast
  then show ?thesis
    using ex dss(1) assms(4) len max cnt
    unfolding xdma_init_request_def by (auto simp: xdma_request_alloc_def Let_def)
qed

theorem xdma_init_request_covers_witness:
  "\<exists>req dss. xdma_init_request
      \<lparr>poll_mode = False, interrupt_mode = 0, enable_credit_mp = True, desc_blen_max = 4096\<rparr>
      (\<lambda>_. True) 7 [\<lparr>sg_dma_address = 0x10000, sg_dma_len = 10000\<rparr>] 0x80 = Some (Some req) \<and>
    r_sdesc req = concat dss \<and> length (concat dss) \<le> r_sdesc_nr req \<and> r_ep_addr req = 0x80"
  using xdma_init_request_covers
    [of "\<lparr>poll_mode = False, interrupt_mode = 0, enable_credit_mp = True, desc_blen_max = 4096\<rparr>"
        "[\<lparr>sg_dma_address = 0x10000, sg_dma_len = 10000\<rparr>]" "\<lambda>_. True" 7 "0x80"]
  by (auto simp: pieces_def)

text \<open>
  The reservation is computed in 32-bit arithmetic before the range check: for one mapped
  segment of 4294967295 bytes and the default limit it wraps to zero, so one entry is reserved
  while the cutting loop stores 17 of them; the check that follows can only turn the overrun
  into a failed request.
\<close>

theorem xdma_init_request_reservation_wraps:
  "extra_desc XDMA_DESC_BLEN_MAX [\<lparr>sg_dma_address = a, sg_dma_len = 0xFFFFFFFF\<rparr>] 0 = Some 0 \<and>
   (\<exists>sdesc. split_sgl XDMA_DESC_BLEN_MAX [\<lparr>sg_dma_address = a, sg_dma_len = 0xFFFFFFFF\<rparr>] [] =
      Some sdesc \<and> length sdesc = 17) \<and>
   xdma_init_request (mp\<lparr>desc_blen_max := XDMA_DESC_BLEN_MAX\<rparr>) (\<lambda>_. True) tfer
     [\<lparr>sg_dma_address = a, sg_dma_len = 0xFFFFFFFF\<rparr>] ep = Some None"
proof -
  let ?sg = "\<lparr>sg_dma_address = a, sg_dma_len = 0xFFFFFFFF\<rparr>"
  have ex: "extra_desc XDMA_DESC_BLEN_MAX [?sg] 0 = Some 0"
    by (simp add: XDMA_DESC_BLEN_MAX_def Let_def)
  obtain dss where "split_sgl XDMA_DESC_BLEN_MAX [?sg] [] = Some (concat dss)"
      "list_all2 (\<lambda>sg ds. length ds = pieces XDMA_DESC_BLEN_MAX sg) [?sg] dss"
    using split_sgl_covers [of XDMA_DESC_BLEN_MAX "[?sg]" "[]"]
    by (auto simp: XDMA_DESC_BLEN_MAX_def pieces_def list_all2_Cons1)
  then obtain sdesc where
      sd: "split_sgl XDMA_DESC_BLEN_MAX [?sg] [] = Some sdesc" "length sdesc = 17"
    by (auto simp: list_all2_Cons1 pieces_def XDMA_DESC_BLEN_MAX_def)
  then show ?thesis
    using ex by (simp add: xdma_init_request_def xdma_request_alloc_def)
qed

section \<open>What a transfer programs\<close>

lemma ring_map_in [simp]: "i < n \<Longrightarrow> ring_map base n f ring (base + i) = f i (ring (base + i))"
  by (simp add: ring_map_def)

lemma ring_map_0 [simp]: "ring_map base 0 f ring = ring"
  by (auto simp: ring_map_def fun_eq_iff)

lemma ring_map_out: "k < base \<or> base + n \<le> k \<Longrightarrow> ring_map base n f ring k = ring k"
  by (auto simp: ring_map_def)

lemma ring_map_agree: "b \<le> base \<Longrightarrow> base + n \<le> b + m \<Longrightarrow>
    agree_outside b m ring ring' \<Longrightarrow> agree_outside b m ring (ring_map base n f ring')"
  by (auto simp: agree_outside_def ring_map_def)

text \<open>The bytes of the first \<open>n\<close> software descriptors from \<open>j\<close> on, and the end point address
  after them.\<close>

definition bytes_before :: "xdma_request_cb \<Rightarrow> nat \<Rightarrow> nat \<Rightarrow> u64" where
  "bytes_before req j n =
     (\<Sum>m < n. ucast (sw_len (sdesc_at req (unat (r_sw_desc_idx req) + j + m))))"

definition ep_after :: "xdma_engine \<Rightarrow> xdma_request_cb \<Rightarrow> nat \<Rightarrow> nat \<Rightarrow> u64" where
  "ep_after e req j n = r_ep_addr req + (if e_non_incr_addr e then 0 else bytes_before req j n)"

definition built_desc ::
    "xdma_engine \<Rightarrow> xdma_request_cb \<Rightarrow> dma_data_direction \<Rightarrow> addr \<Rightarrow> nat \<Rightarrow> nat \<Rightarrow> xdma_desc \<Rightarrow> xdma_desc" where
  "built_desc e req dir bus j i d =
     (let sdesc = sdesc_at req (unat (r_sw_desc_idx req) + j + i);
          d = xdma_desc_set d (sw_addr sdesc) (ep_after e req j i) (sw_len sdesc) dir
      in if st_c2h e
         then d\<lparr>d_src_addr_lo := pci_dma_l (bus + 32 * of_nat i),
                d_src_addr_hi := pci_dma_h (bus + 32 * of_nat i)\<rparr> else d)"

lemma sdesc_at_ep [simp]: "sdesc_at (req\<lparr>r_ep_addr := a\<rparr>) n = sdesc_at req n"
  by (simp add: sdesc_at_def)

lemma bytes_before_0 [simp]: "bytes_before req j 0 = 0"
  and bytes_before_ep [simp]: "bytes_before (req\<lparr>r_ep_addr := a\<rparr>) j n = bytes_before req j n"
  and bytes_before_Suc: "bytes_before req j (Suc n) =
    ucast (sw_len (sdesc_at req (unat (r_sw_desc_idx req) + j))) + bytes_before req (Suc j) n"
  by (simp_all add: bytes_before_def sum.lessThan_Suc_shift del: sum.lessThan_Suc)

lemma built_desc_Suc:
  fixes e req j
  defines "sd \<equiv> sdesc_at req (unat (r_sw_desc_idx req) + j)"
  shows "built_desc (e\<lparr>e_desc_ring := r\<rparr>)
     (if e_non_incr_addr e then req else req\<lparr>r_ep_addr := r_ep_addr req + ucast (sw_len sd)\<rparr>)
     dir (if st_c2h e then bus + sizeof_xdma_result else bus) (Suc j) i d
   = built_desc e req dir bus j (Suc i) d"
  by (simp add: built_desc_def ep_after_def bytes_before_Suc st_c2h_def sd_def Let_def
    sizeof_xdma_result_def algebra_simps)

lemma ring_map_Suc:
  assumes "\<And>i. g i = f (Suc i)" "d = f 0 (ring base)"
  shows "ring_map (Suc base) n g (ring(base := d)) = ring_map base (Suc n) f ring"
proof
  fix k show "ring_map (Suc base) n g (ring(base := d)) k = ring_map base (Suc n) f ring k"
    using assms by (cases "base < k") (auto simp: ring_map_def simp flip: Suc_diff_Suc)
qed

lemma transfer_build_loop_eq:
  "\<exists>t'. transfer_build_loop n j e req xfer bus t =
    (e\<lparr>e_desc_ring := ring_map (x_desc_virt xfer + j) n
        (built_desc e req (x_dir xfer) bus j) (e_desc_ring e)\<rparr>,
     req\<lparr>r_ep_addr := ep_after e req j n\<rparr>,
     xfer\<lparr>x_len := x_len xfer +
        (\<Sum>m < n. sw_len (sdesc_at req (unat (r_sw_desc_idx req) + j + m)))\<rparr>, t')"
proof (induction n arbitrary: j e req xfer bus t)
  case 0
  then show ?case by (simp add: ep_after_def)
next
  case (Suc n)
  let ?sd = "sdesc_at req (unat (r_sw_desc_idx req) + j)"
  let ?d = "built_desc e req (x_dir xfer) bus j 0 (e_desc_ring e (x_desc_virt xfer + j))"
  let ?e = "e\<lparr>e_desc_ring := (e_desc_ring e)(x_desc_virt xfer + j := ?d)\<rparr>"
  let ?req = "if e_non_incr_addr e then req
    else req\<lparr>r_ep_addr := r_ep_addr req + ucast (sw_len ?sd)\<rparr>"
  let ?x = "xfer\<lparr>x_len := x_len xfer + sw_len ?sd\<rparr>"
  let ?bus = "if st_c2h e then bus + sizeof_xdma_result else bus"
  let ?t = "if st_c2h e
    then memset_result (x_res_virt xfer + sizeof_xdma_result * of_nat j) t else t"
  have step: "transfer_build_loop (Suc n) j e req xfer bus t =
      transfer_build_loop n (Suc j) ?e ?req ?x ?bus ?t"
    by (simp add: Let_def built_desc_def ep_after_def)
  obtain t' where IH: "transfer_build_loop n (Suc j) ?e ?req ?x ?bus ?t =
    (?e\<lparr>e_desc_ring := ring_map (x_desc_virt ?x + Suc j) n
        (built_desc ?e ?req (x_dir ?x) ?bus (Suc j)) (e_desc_ring ?e)\<rparr>,
     ?req\<lparr>r_ep_addr := ep_after ?e ?req (Suc j) n\<rparr>,
     ?x\<lparr>x_len := x_len ?x +
        (\<Sum>m < n. sw_len (sdesc_at ?req (unat (r_sw_desc_idx ?req) + Suc j + m)))\<rparr>, t')"
    using Suc.IH by blast
  have ring: "ring_map (Suc (x_desc_virt xfer + j)) n
      (built_desc ?e ?req (x_dir xfer) ?bus (Suc j))
      ((e_desc_ring e)(x_desc_virt xfer + j := ?d)) =
    ring_map (x_desc_virt xfer + j) (Suc n) (built_desc e req (x_dir xfer) bus j) (e_desc_ring e)"
    by (rule ring_map_Suc) (simp_all only: built_desc_Suc [abs_def])
  have ep: "ep_after ?e ?req (Suc j) n = ep_after e req j (Suc n)"
    by (simp add: ep_after_def bytes_before_Suc)
  show ?case
    unfolding step IH using ring ep
    by (intro exI [of _ t'])
      (simp add: sum.lessThan_Suc_shift add.assoc del: sum.lessThan_Suc)
qed

text \<open>
  \<open>xfer_ready e req\<close>: the engine's ring index is in range and the request has software
  descriptors left; \<open>xfer_count\<close> is how many of them the next transfer takes.
\<close>

definition xfer_ready :: "xdma_engine \<Rightarrow> xdma_request_cb \<Rightarrow> bool" where
  "xfer_ready e req \<longleftrightarrow> unat (e_desc_idx e) < 2048 \<and>
     unat (r_sw_desc_idx req) < unat (r_sw_desc_cnt req)"

definition xfer_count :: "xdma_engine \<Rightarrow> xdma_request_cb \<Rightarrow> nat" where
  "xfer_count e req = min (unat (r_sw_desc_cnt req) - unat (r_sw_desc_idx req))
     (2048 - unat (e_desc_idx e))"

lemma xfer_count_bounds:
  assumes "xfer_ready e req"
  shows "0 < xfer_count e req" "xfer_count e req \<le> 2048"
    "unat (e_desc_idx e) + xfer_count e req \<le> 2048"
    "unat (r_sw_desc_idx req) + xfer_count e req \<le> unat (r_sw_desc_cnt req)"
  using assms by (auto simp: xfer_ready_def xfer_count_def)

lemma unat_transfer_desc_max:
  assumes "xfer_ready e req"
  shows "unat (transfer_desc_max e req) = xfer_count e req"
proof -
  let ?dm = "min (r_sw_desc_cnt req - r_sw_desc_idx req) (2048 :: u32)"
  have m: "unat ?dm = min (unat (r_sw_desc_cnt req) - unat (r_sw_desc_idx req)) 2048"
    using assms by (simp add: min_def word_le_nat_alt unat_sub_le xfer_ready_def)
  have idx: "unat (e_desc_idx e) < 2048" using assms by (simp add: xfer_ready_def)
  have "unat (e_desc_idx e + ?dm) = unat (e_desc_idx e) + unat ?dm"
    using idx m by (intro unat_add_lt) simp
  moreover have "unat (2048 - e_desc_idx e) = 2048 - unat (e_desc_idx e)"
    using idx by (simp add: unat_sub_le)
  ultimately show ?thesis
    using m idx
    by (auto simp: transfer_desc_max_def XDMA_TRANSFER_MAX_DESC_def xfer_count_def word_le_nat_alt
      Let_def) arith
qed

lemma scast_small: "unat (w :: u32) < 2 ^ 31 \<Longrightarrow> scast w = (of_nat (unat w) :: u64)"
proof -
  assume "unat w < 2 ^ 31"
  have "scast w = (of_int (sint w) :: u64)" by (rule of_int_sint [symmetric])
  also have "\<dots> = of_int (int (unat w))" using sint_small [OF \<open>unat w < 2 ^ 31\<close>] by (rule arg_cong)
  also have "\<dots> = of_nat (unat w)" by (rule of_int_of_nat_eq)
  finally show ?thesis .
qed

text \<open>The three passes over the descriptors of a transfer, by index.\<close>

definition flag_desc :: "xdma_engine \<Rightarrow> nat \<Rightarrow> nat \<Rightarrow> u32" where
  "flag_desc e n i = (if Suc i = n then 0x13 else if e_eop_flush e then 2 else 0)"

definition final_desc :: "xdma_engine \<Rightarrow> xdma_request_cb \<Rightarrow> nat \<Rightarrow> nat \<Rightarrow> xdma_desc \<Rightarrow> xdma_desc" where
  "final_desc e req n i d =
     (let x = transfer_at e;
          d1 = built_desc e req (e_dir e) (x_res_bus x) 0 i (chained_desc (x_desc_bus x) n i d);
          d2 = d1\<lparr>d_control := DESC_MAGIC OR flag_desc e n i\<rparr>
      in xdma_desc_adjacent d2 (xdma_get_next_adj (of_nat n - of_nat i - 1) (d_next_lo d2)))"

lemma control_set_magic:
  assumes "d_control d = DESC_MAGIC" "unat c < 256"
  shows "snd (xdma_desc_control_set d c) = d\<lparr>d_control := DESC_MAGIC OR c\<rparr>"
proof -
  have "c AND NOT LS_BYTE_MASK = 0"
  proof (rule bit_word_eqI)
    fix n show "bit (c AND NOT LS_BYTE_MASK) n = bit 0 n"
      using bit_small [of c 8 n] assms(2)
      by (cases "n < 8") (auto simp: control_masks(6) bit_simps)
  qed
  then show ?thesis
    using assms(1) by (simp add: xdma_desc_control_set_def DESC_MAGIC_def LS_BYTE_MASK_def)
qed

lemma control_upd_same: "d_control d = c \<Longrightarrow> d\<lparr>d_control := c\<rparr> = d"
  by (cases d) simp

lemma built_desc_control [simp]:
  "d_control (built_desc e req dir bus j i d) = d_control d"
  "d_next_lo (built_desc e req dir bus j i d) = d_next_lo d"
  "d_next_hi (built_desc e req dir bus j i d) = d_next_hi d"
  by (simp_all add: built_desc_def xdma_desc_set_def Let_def)

lemma chained_desc_control [simp]: "d_control (chained_desc bus n i d) = DESC_MAGIC"
  by (simp add: chained_desc_def Let_def)

lemma ring_passes:
  assumes "0 < n"
  shows "ring_map b n (\<lambda>i d. xdma_desc_adjacent d
      (xdma_get_next_adj (of_nat n - of_nat i - 1) (d_next_lo d)))
    (let ring1 = ring_map (b + (n - 1)) 1 (\<lambda>_ d. snd (xdma_desc_control_set d 0x13))
        (ring_map b n (built_desc e req (e_dir e) (x_res_bus (transfer_at e)) 0)
          (ring_map b n (chained_desc (x_desc_bus (transfer_at e)) n) ring))
     in if e_eop_flush e
        then ring_map b (n - 1) (\<lambda>_ d. snd (xdma_desc_control_set d XDMA_DESC_COMPLETED)) ring1
        else ring1)
   = ring_map b n (final_desc e req n) ring"
proof
  let ?B = "\<lambda>i d. built_desc e req (e_dir e) (x_res_bus (transfer_at e)) 0 i
    (chained_desc (x_desc_bus (transfer_at e)) n i d)"
  have cs: "snd (xdma_desc_control_set (?B i d) c) = (?B i d)\<lparr>d_control := DESC_MAGIC OR c\<rparr>"
    if "unat c < 256" for i d c
    using that by (intro control_set_magic) simp_all
  fix k
  show "ring_map b n (\<lambda>i d. xdma_desc_adjacent d
      (xdma_get_next_adj (of_nat n - of_nat i - 1) (d_next_lo d)))
    (let ring1 = ring_map (b + (n - 1)) 1 (\<lambda>_ d. snd (xdma_desc_control_set d 0x13))
        (ring_map b n (built_desc e req (e_dir e) (x_res_bus (transfer_at e)) 0)
          (ring_map b n (chained_desc (x_desc_bus (transfer_at e)) n) ring))
     in if e_eop_flush e
        then ring_map b (n - 1) (\<lambda>_ d. snd (xdma_desc_control_set d XDMA_DESC_COMPLETED)) ring1
        else ring1) k
   = ring_map b n (final_desc e req n) ring k"
    using assms cs [of "0x13" "k - b" "ring k"] cs [of 2 "k - b" "ring k"]
    by (cases "Suc (k - b) = n")
      (auto simp: ring_map_def final_desc_def flag_desc_def XDMA_DESC_COMPLETED_def Let_def
        control_upd_same)
qed

lemma transfer_init_eq:
  assumes "xfer_ready e req"
  shows "\<exists>t'. transfer_init e req t =
    (0, e\<lparr>e_desc_ring := ring_map (unat (e_desc_idx e)) (xfer_count e req)
            (final_desc e req (xfer_count e req)) (e_desc_ring e),
          e_desc_idx := (e_desc_idx e + of_nat (xfer_count e req)) mod 2048,
          e_desc_used := e_desc_used e + of_nat (xfer_count e req)\<rparr>,
     req\<lparr>r_ep_addr := ep_after e req 0 (xfer_count e req),
         r_sw_desc_idx := r_sw_desc_idx req + of_nat (xfer_count e req)\<rparr>,
     (transfer_at e)\<lparr>x_len := \<Sum>m < xfer_count e req.
           sw_len (sdesc_at req (unat (r_sw_desc_idx req) + m)),
         x_desc_adjacent := of_nat (xfer_count e req),
         x_desc_cmpl_th := (if e_eop_flush e then 1 else of_nat (xfer_count e req)),
         x_desc_num := of_nat (xfer_count e req)\<rparr>, t')"
proof -
  let ?n = "xfer_count e req" and ?i = "unat (e_desc_idx e)" and ?x = "transfer_at e"
  let ?dm = "transfer_desc_max e req"
  note bounds = xfer_count_bounds [OF assms]
  have dm: "unat ?dm = ?n" by (rule unat_transfer_desc_max [OF assms])
  then have dmn: "?dm = of_nat ?n" by (simp flip: dm)
  have last: "unat (?dm - 1) = ?n - 1" using dm bounds(1) by (simp add: unat_sub_le)
  have virt: "x_desc_virt ?x = ?i" and dir: "x_dir ?x = e_dir e" and len: "x_len ?x = 0"
    by (simp_all add: transfer_at_def zero_transfer_def)
  let ?r0 = "ring_map ?i ?n (chained_desc (x_desc_bus ?x) ?n) (e_desc_ring e)"
  have r0: "snd (transfer_desc_init ?i (x_desc_bus ?x) ?dm (e_desc_ring e)) = ?r0"
    using transfer_desc_init_eq [of ?dm ?i "x_desc_bus ?x" "e_desc_ring e"] bounds
    unfolding dm ring_map_def by simp
  let ?e0 = "e\<lparr>e_desc_ring := ?r0\<rparr>"
  have b0: "built_desc ?e0 req = built_desc e req" "ep_after ?e0 req = ep_after e req"
    by (intro ext, simp add: built_desc_def ep_after_def st_c2h_def Let_def)+
  obtain t' where t': "transfer_build_loop ?n 0 ?e0 req ?x (x_res_bus ?x) t =
     (?e0\<lparr>e_desc_ring := ring_map ?i ?n (built_desc e req (e_dir e) (x_res_bus ?x) 0) ?r0\<rparr>,
      req\<lparr>r_ep_addr := ep_after e req 0 ?n\<rparr>,
      ?x\<lparr>x_len := \<Sum>m < ?n. sw_len (sdesc_at req (unat (r_sw_desc_idx req) + m))\<rparr>, t')"
    using transfer_build_loop_eq [of ?n 0 ?e0 req ?x "x_res_bus ?x" t]
    by (auto simp: virt dir len b0)
  have c: "XDMA_DESC_STOPPED OR XDMA_DESC_EOP OR XDMA_DESC_COMPLETED = 0x13"
    by (simp add: xdma_consts)
  note passes = ring_passes [OF bounds(1), of ?i e req "e_desc_ring e", unfolded Let_def]
  show ?thesis
    unfolding transfer_init_def Let_def virt r0 transfer_build_def dm
    unfolding t' prod.case last c
    unfolding dmn
    by (intro exI [of _ t'])
      (simp add: passes XDMA_TRANSFER_MAX_DESC_def del: One_nat_def split del: if_split
        cong: if_cong)
qed

lemma next_adj_lt_64: "unat (xdma_get_next_adj r l) < 64"
  unfolding unat_xdma_get_next_adj by auto

lemma final_desc_control:
  "desc_magic_ok (final_desc e req n i d)"
  "desc_flags (final_desc e req n i d) = flag_desc e n i"
  "desc_nxt_adj (final_desc e req n i d) =
     xdma_get_next_adj (of_nat n - of_nat i - 1) (d_next_lo (final_desc e req n i d))"
proof -
  have c: "(DESC_MAGIC OR flag_desc e n i) AND 0x3000 = 0"
    "(DESC_MAGIC OR flag_desc e n i) AND LS_BYTE_MASK = flag_desc e n i"
    by (simp_all add: DESC_MAGIC_def flag_desc_def LS_BYTE_MASK_def)
  show "desc_magic_ok (final_desc e req n i d)"
    unfolding final_desc_def Let_def
    by (rule desc_adjacent_fields(2)) (simp_all add: next_adj_lt_64 c)
  show "desc_flags (final_desc e req n i d) = flag_desc e n i"
    unfolding final_desc_def Let_def
    by (subst desc_adjacent_fields(3)) (simp_all add: next_adj_lt_64 c desc_flags_def)
  show "desc_nxt_adj (final_desc e req n i d) =
     xdma_get_next_adj (of_nat n - of_nat i - 1) (d_next_lo (final_desc e req n i d))"
    unfolding final_desc_def Let_def
    by (subst desc_adjacent_fields(1))
      (simp_all add: next_adj_lt_64 c xdma_desc_adjacent_def)
qed

lemma desc_control_upd [simp]:
  "desc_next (d\<lparr>d_control := c\<rparr>) = desc_next d" "desc_src (d\<lparr>d_control := c\<rparr>) = desc_src d"
  "desc_dst (d\<lparr>d_control := c\<rparr>) = desc_dst d"
  by (simp_all add: desc_next_def desc_src_def desc_dst_def)

lemma transfer_at_bus:
  assumes "unat (e_desc_idx e) < 2048"
  shows "x_desc_bus (transfer_at e) = e_desc_bus e + 32 * of_nat (unat (e_desc_idx e))"
    "x_res_bus (transfer_at e) = e_cyclic_result_bus e + 32 * of_nat (unat (e_desc_idx e))"
proof -
  have "scast (e_desc_idx e) = (of_nat (unat (e_desc_idx e)) :: u64)"
    using assms by (intro scast_small) simp
  then show "x_desc_bus (transfer_at e) = e_desc_bus e + 32 * of_nat (unat (e_desc_idx e))"
    "x_res_bus (transfer_at e) = e_cyclic_result_bus e + 32 * of_nat (unat (e_desc_idx e))"
    by (simp_all add: transfer_at_def sizeof_xdma_desc_def sizeof_xdma_result_def)
qed

lemma final_desc_next:
  "desc_next (final_desc e req n i d) =
     (if Suc i = n then 0 else x_desc_bus (transfer_at e) + 32 * of_nat (Suc i))"
  by (simp add: final_desc_def Let_def) (simp add: desc_next_def chained_desc_def Let_def)

lemma final_desc_data:
  fixes e req i
  defines "sd \<equiv> sdesc_at req (unat (r_sw_desc_idx req) + i)"
  shows "d_bytes (final_desc e req n i d) = sw_len sd"
    "e_dir e = DMA_TO_DEVICE \<Longrightarrow> desc_src (final_desc e req n i d) = sw_addr sd"
    "e_dir e = DMA_TO_DEVICE \<Longrightarrow> desc_dst (final_desc e req n i d) = ep_after e req 0 i"
    "e_dir e = DMA_FROM_DEVICE \<Longrightarrow> desc_dst (final_desc e req n i d) = sw_addr sd"
    "e_dir e = DMA_FROM_DEVICE \<Longrightarrow> \<not> e_streaming e \<Longrightarrow>
       desc_src (final_desc e req n i d) = ep_after e req 0 i"
    "e_dir e = DMA_FROM_DEVICE \<Longrightarrow> e_streaming e \<Longrightarrow>
       desc_src (final_desc e req n i d) = x_res_bus (transfer_at e) + 32 * of_nat i"
  by (simp_all add: final_desc_def built_desc_def st_c2h_def desc_src_def desc_dst_def
    xdma_desc_set_def sd_def Let_def xdma_desc_adjacent_def)

text \<open>
  C13. Preparing a transfer on an engine whose ring index is in range, for a request with
  software descriptors left, succeeds and makes progress: it takes at least one and at most
  2048 descriptors, never runs past the end of the request or of the 2048-entry ring, leaves
  the ring index in range (wrapping to 0 at the end), advances the request by exactly what it
  took, accounts the descriptors as used, and writes no descriptor outside its own run.
\<close>

theorem transfer_init_progress:
  assumes "xfer_ready e req" and "transfer_init e req t = (rv, e', req', xfer, t')"
  shows "rv = 0 \<and> 0 < unat (x_desc_num xfer) \<and>
    x_desc_virt xfer = unat (e_desc_idx e) \<and>
    x_desc_virt xfer + unat (x_desc_num xfer) \<le> 2048 \<and>
    unat (e_desc_idx e') = (unat (e_desc_idx e) + unat (x_desc_num xfer)) mod 2048 \<and>
    unat (r_sw_desc_idx req') = unat (r_sw_desc_idx req) + unat (x_desc_num xfer) \<and>
    unat (r_sw_desc_idx req') \<le> unat (r_sw_desc_cnt req') \<and>
    r_sw_desc_cnt req' = r_sw_desc_cnt req \<and> r_sdesc req' = r_sdesc req \<and>
    e_desc_used e' = e_desc_used e + x_desc_num xfer \<and>
    agree_outside (x_desc_virt xfer) (unat (x_desc_num xfer)) (e_desc_ring e) (e_desc_ring e')"
proof -
  let ?n = "xfer_count e req"
  note b = xfer_count_bounds [OF assms(1)]
  have un: "unat (of_nat ?n :: u32) = ?n" using b by (simp add: unat_of_nat_small)
  have "unat (e_desc_idx e + of_nat ?n) = unat (e_desc_idx e) + ?n"
    using b un by (subst unat_add_lt) simp_all
  then have idx: "unat ((e_desc_idx e + of_nat ?n) mod 2048) = (unat (e_desc_idx e) + ?n) mod 2048"
    by (simp add: unat_mod)
  have cnt: "unat (r_sw_desc_cnt req) < 2 ^ LENGTH(32)"
    by (rule unsigned_less)
  have "unat (r_sw_desc_idx req) + ?n < 2 ^ 32"
    using b(4) cnt by simp
  then have "unat (r_sw_desc_idx req + of_nat ?n) = unat (r_sw_desc_idx req) + ?n"
    using un by (subst unat_add_lt) simp_all
  then show ?thesis
    using transfer_init_eq [OF assms(1), of t] assms(2) b un idx
    by (auto simp: transfer_at_def agree_outside_def ring_map_def)
qed

text \<open>
  C11. The descriptors of a prepared transfer form one singly linked list in ring order: each
  carries the magic number, points to the bus address of the next (the last one to none), asks
  for interrupt, stop and end of packet on the last one only (for completion on every one when
  the stream is flushed at end of packet), and announces a block of adjacent descriptors that
  exist and lie in the page of the descriptor it points to.
\<close>

theorem transfer_init_chain:
  assumes "xfer_ready e req" and "transfer_init e req t = (rv, e', req', xfer, t')"
    and "i < unat (x_desc_num xfer)"
  shows "desc_magic_ok (e_desc_ring e' (x_desc_virt xfer + i)) \<and>
    desc_next (e_desc_ring e' (x_desc_virt xfer + i)) =
      (if Suc i = unat (x_desc_num xfer) then 0
       else e_desc_bus e + 32 * of_nat (x_desc_virt xfer + Suc i)) \<and>
    desc_flags (e_desc_ring e' (x_desc_virt xfer + i)) =
      (if Suc i = unat (x_desc_num xfer) then 0x13 else if e_eop_flush e then 2 else 0) \<and>
    unat (desc_nxt_adj (e_desc_ring e' (x_desc_virt xfer + i))) \<le> unat (x_desc_num xfer) - i - 2"
proof -
  let ?n = "xfer_count e req" and ?ix = "unat (e_desc_idx e)"
  note b = xfer_count_bounds [OF assms(1)]
  have un: "unat (of_nat ?n :: u32) = ?n" using b by (simp add: unat_of_nat_small)
  have x: "unat (x_desc_num xfer) = ?n" "x_desc_virt xfer = ?ix"
    "e_desc_ring e' = ring_map ?ix ?n (final_desc e req ?n) (e_desc_ring e)"
    using transfer_init_eq [OF assms(1), of t] assms(2) un by (auto simp: transfer_at_def)
  with assms(3) have i: "i < ?n" by simp
  have d: "e_desc_ring e' (x_desc_virt xfer + i) =
      final_desc e req ?n i (e_desc_ring e (?ix + i))"
    using i x by simp
  have "unat (of_nat ?n - of_nat i - 1 :: u32) = ?n - i - 1"
    using i b un by (simp add: unat_sub_le unat_of_nat_small)
  then have "unat (xdma_get_next_adj (of_nat ?n - of_nat i - 1) l) \<le> ?n - i - 2" for l
    unfolding unat_xdma_get_next_adj by auto
  then show ?thesis
    using assms(1) x(1,2) unfolding d final_desc_control(2,3) final_desc_next
    by (simp add: final_desc_control(1) flag_desc_def transfer_at_bus xfer_ready_def algebra_simps)
qed

text \<open>
  C12. Descriptor \<open>i\<close> of a prepared transfer moves exactly the bytes of software descriptor
  \<open>i\<close>: to the device from its bus address to the running end point address, and from the
  device in the other direction; on a streaming card-to-host channel the source field holds the
  address of the descriptor's result record instead. The end point address is the request's one
  plus the bytes programmed before, or stays put in non-incremental mode.
\<close>

theorem transfer_init_data:
  assumes "xfer_ready e req" and "transfer_init e req t = (rv, e', req', xfer, t')"
    and "i < unat (x_desc_num xfer)"
    and "e_dir e = DMA_TO_DEVICE \<or> e_dir e = DMA_FROM_DEVICE"
  shows "d_bytes (e_desc_ring e' (x_desc_virt xfer + i)) =
      sw_len (sdesc_at req (unat (r_sw_desc_idx req) + i)) \<and>
    (let host = sw_addr (sdesc_at req (unat (r_sw_desc_idx req) + i));
         card = r_ep_addr req + (if e_non_incr_addr e then 0 else bytes_before req 0 i);
         d = e_desc_ring e' (x_desc_virt xfer + i)
     in if e_dir e = DMA_TO_DEVICE then desc_src d = host \<and> desc_dst d = card
        else desc_dst d = host \<and>
          desc_src d = (if e_streaming e then e_cyclic_result_bus e + 32 * of_nat (x_desc_virt xfer + i)
                        else card)) \<and>
    r_ep_addr req' = r_ep_addr req +
      (if e_non_incr_addr e then 0 else bytes_before req 0 (unat (x_desc_num xfer)))"
proof -
  let ?n = "xfer_count e req" and ?ix = "unat (e_desc_idx e)"
  note b = xfer_count_bounds [OF assms(1)]
  have un: "unat (of_nat ?n :: u32) = ?n" using b by (simp add: unat_of_nat_small)
  have x: "unat (x_desc_num xfer) = ?n" "x_desc_virt xfer = ?ix"
    "e_desc_ring e' = ring_map ?ix ?n (final_desc e req ?n) (e_desc_ring e)"
    "r_ep_addr req' = ep_after e req 0 ?n"
    using transfer_init_eq [OF assms(1), of t] assms(2) un by (auto simp: transfer_at_def)
  then have d: "e_desc_ring e' (x_desc_virt xfer + i) =
      final_desc e req ?n i (e_desc_ring e (?ix + i))"
    using assms(3) by simp
  have res: "x_res_bus (transfer_at e) = e_cyclic_result_bus e + 32 * of_nat ?ix"
    using assms(1) by (intro transfer_at_bus(2)) (simp add: xfer_ready_def)
  show ?thesis
    using assms(4) x(1,2,4) unfolding d Let_def
    by (auto simp: final_desc_data ep_after_def res algebra_simps)
qed

text \<open>A request of three software descriptors on a fresh memory-mapped host-to-card engine.\<close>

definition example_request :: xdma_request_cb where
  "example_request = \<lparr>r_total_len = 12, r_ep_addr = 0x100, r_tfer = 0, r_cb = None,
     r_sw_desc_idx = 0, r_sw_desc_cnt = 3, r_sdesc_nr = 3,
     r_sdesc = [\<lparr>sw_addr = 0x1000, sw_len = 4\<rparr>, \<lparr>sw_addr = 0x2000, sw_len = 4\<rparr>,
                \<lparr>sw_addr = 0x3000, sw_len = 4\<rparr>]\<rparr>"

definition example_engine :: xdma_engine where
  "example_engine = zero_engine\<lparr>e_magic := MAGIC_ENGINE, e_regs := 0x1000, e_sgdma_regs := 0x5000,
     e_dir := DMA_TO_DEVICE, e_desc := 0x8000, e_desc_bus := 0x8000, e_desc_idx := 2046\<rparr>"

lemma example_ready: "xfer_ready example_engine example_request"
  by (simp add: xfer_ready_def example_engine_def example_request_def)

lemma example_count: "xfer_count example_engine example_request = 2"
  by (simp add: xfer_count_def example_engine_def example_request_def)

theorem transfer_init_progress_witness:
  "\<exists>rv e' req' xfer t'. transfer_init example_engine example_request [] = (rv, e', req', xfer, t') \<and>
     xfer_ready example_engine example_request \<and> rv = 0 \<and> 0 < unat (x_desc_num xfer)"
  using transfer_init_progress [OF example_ready, of "[]"] example_ready
  by (cases "transfer_init example_engine example_request []") auto

theorem transfer_init_chain_witness:
  "\<exists>rv e' req' xfer t'. transfer_init example_engine example_request [] = (rv, e', req', xfer, t') \<and>
     xfer_ready example_engine example_request \<and> 0 < unat (x_desc_num xfer) \<and>
     desc_magic_ok (e_desc_ring e' (x_desc_virt xfer + 0))"
  using transfer_init_eq [OF example_ready, of "[]"] example_ready
    transfer_init_chain [OF example_ready, of "[]" _ _ _ _ _ 0]
  by (auto simp: example_count)

theorem transfer_init_data_witness:
  "\<exists>rv e' req' xfer t'. transfer_init example_engine example_request [] = (rv, e', req', xfer, t') \<and>
     xfer_ready example_engine example_request \<and> 0 < unat (x_desc_num xfer) \<and>
     d_bytes (e_desc_ring e' (x_desc_virt xfer + 0)) = 4"
proof -
  have dir: "e_dir example_engine = DMA_TO_DEVICE \<or> e_dir example_engine = DMA_FROM_DEVICE"
    by (simp add: example_engine_def)
  have len: "sw_len (sdesc_at example_request (unat (r_sw_desc_idx example_request) + 0)) = 4"
    by (simp add: example_request_def sdesc_at_def)
  show ?thesis
    using transfer_init_eq [OF example_ready, of "[]"] example_ready
      transfer_init_data [OF example_ready _ _ dir, of "[]" _ _ _ _ _ 0] len
    by (auto simp: example_count)
qed

end
