(* ===== verification/Xdma_Engine.thy ===== *)
theory Xdma_Engine
  imports Xdma_Request
begin

text \<open>
  The registers of an SG DMA engine as \<^verbatim>\<open>libxdma.c\<close> drives them: performance counters, status,
  starting and stopping. Every function takes the engine and the store and returns them; the
  device is the parameter \<open>hw\<close>, the module parameters are \<open>mp\<close>. A C function called with a
  null engine returns an error at once; the engine is a value here, so those tests have no
  counterpart.
\<close>

section \<open>Performance counters\<close>

definition enable_perf :: "device \<Rightarrow> xdma_engine \<Rightarrow> kstate \<Rightarrow> kstate" where
  "enable_perf hw e k =
     (let k = reg_write XDMA_PERF_CLEAR (e_regs e + er_perf_ctrl) k;
          k = snd (reg_read hw (e_regs e + er_identifier) k);
          k = reg_write (XDMA_PERF_AUTO OR XDMA_PERF_RUN) (e_regs e + er_perf_ctrl) k
      in snd (reg_read hw (e_regs e + er_identifier) k))"

definition get_perf_stats :: "device \<Rightarrow> xdma_engine \<Rightarrow> kstate \<Rightarrow> xdma_engine \<times> kstate" where
  "get_perf_stats hw e k =
     (case e_xdma_perf e of
        None \<Rightarrow> (e, k)
      | Some p \<Rightarrow>
          let (lo, k) = reg_read hw (e_regs e + er_completed_desc_count) k;
              p = p\<lparr>p_iterations := ucast (build_u64 0 (ucast lo))\<rparr>;
              (hi, k) = reg_read hw (e_regs e + er_perf_cyc_hi) k;
              (lo, k) = reg_read hw (e_regs e + er_perf_cyc_lo) k;
              p = p\<lparr>p_clock_cycle_count := build_u64 (ucast hi) (ucast lo)\<rparr>;
              (hi, k) = reg_read hw (e_regs e + er_perf_dat_hi) k;
              (lo, k) = reg_read hw (e_regs e + er_perf_dat_lo) k;
              p = p\<lparr>p_data_cycle_count := build_u64 (ucast hi) (ucast lo)\<rparr>;
              (hi, k) = reg_read hw (e_regs e + er_perf_pnd_hi) k;
              (lo, k) = reg_read hw (e_regs e + er_perf_pnd_lo) k;
              p = p\<lparr>p_pending_count := build_u64 (ucast hi) (ucast lo)\<rparr>
          in (e\<lparr>e_xdma_perf := Some p\<rparr>, k))"

section \<open>Status\<close>

text \<open>The registers \<^verbatim>\<open>engine_reg_dump\<close> prints; reading them may have side effects in the device.\<close>

definition reg_reads :: "device \<Rightarrow> addr list \<Rightarrow> kstate \<Rightarrow> kstate" where
  "reg_reads hw as k = fold (\<lambda>a k. snd (reg_read hw a k)) as k"

definition engine_reg_dump :: "device \<Rightarrow> xdma_engine \<Rightarrow> kstate \<Rightarrow> int \<times> kstate" where
  "engine_reg_dump hw e k =
     (let (w, k) = reg_read hw (e_regs e + er_identifier) k in
      if w AND BLOCK_ID_MASK \<noteq> BLOCK_ID_HEAD then (- EINVAL, k)
      else (0, reg_reads hw
             [e_regs e + er_status, e_regs e + er_control,
              e_sgdma_regs e + sg_first_desc_lo, e_sgdma_regs e + sg_first_desc_hi,
              e_sgdma_regs e + sg_first_desc_adjacent, e_regs e + er_completed_desc_count,
              e_regs e + er_interrupt_enable_mask] k))"

text \<open>
  \<^verbatim>\<open>engine_status_dump\<close> assembles a line in a stack buffer of 256 bytes. The text is a
  \<open>string\<close>; \<open>comma\<close> is the store \<^verbatim>\<open>buf[len - 1] = ','\<close>, and the result is the text before the last
  such store puts the terminating zero over its final character.
\<close>

definition hex_digit :: "u32 \<Rightarrow> char" where
  "hex_digit d = ''0123456789abcdef'' ! unat (d AND 0xF)"

definition hex8 :: "u32 \<Rightarrow> string" where
  "hex8 v = map (\<lambda>i. hex_digit (drop_bit (4 * i) v)) [7, 6, 5, 4, 3, 2, 1, 0]"

definition flag_text :: "u32 \<Rightarrow> u32 \<Rightarrow> string \<Rightarrow> string" where
  "flag_text v bits s = (if v AND bits \<noteq> 0 then s else [])"

definition comma :: "string \<Rightarrow> string" where
  "comma s = butlast s @ '',''"

definition engine_status_dump :: "xdma_engine \<Rightarrow> string" where
  "engine_status_dump e =
     (let v = e_status e;
          buf = ''SG engine '' @ e_name e @ '' status: 0x'' @ hex8 v @ '': '';
          buf = buf @ flag_text v XDMA_STAT_BUSY ''BUSY,''
                    @ flag_text v XDMA_STAT_DESC_STOPPED ''DESC_STOPPED,''
                    @ flag_text v XDMA_STAT_DESC_COMPLETED ''DESC_COMPL,'';
          buf = (if v AND XDMA_STAT_COMMON_ERR_MASK \<noteq> 0
                 then comma (buf @ flag_text v XDMA_STAT_ALIGN_MISMATCH ''ALIGN_MISMATCH ''
                                 @ flag_text v XDMA_STAT_MAGIC_STOPPED ''MAGIC_STOPPED ''
                                 @ flag_text v XDMA_STAT_INVALID_LEN ''INVLIAD_LEN ''
                                 @ flag_text v XDMA_STAT_IDLE_STOPPED ''IDLE_STOPPED '')
                 else buf);
          buf = (if e_dir e = DMA_TO_DEVICE
                 then let buf =
                        (if v AND XDMA_STAT_H2C_R_ERR_MASK \<noteq> 0
                         then comma (buf @ ''R:''
                                @ flag_text v XDMA_STAT_H2C_R_UNSUPP_REQ ''UNSUPP_REQ ''
                                @ flag_text v XDMA_STAT_H2C_R_COMPL_ABORT ''COMPL_ABORT ''
                                @ flag_text v XDMA_STAT_H2C_R_PARITY_ERR ''PARITY ''
                                @ flag_text v XDMA_STAT_H2C_R_HEADER_EP ''HEADER_EP ''
                                @ flag_text v XDMA_STAT_H2C_R_UNEXP_COMPL ''UNEXP_COMPL '')
                         else buf)
                      in if v AND XDMA_STAT_H2C_W_ERR_MASK \<noteq> 0
                         then comma (buf @ ''W:''
                                @ flag_text v XDMA_STAT_H2C_W_DECODE_ERR ''DECODE_ERR ''
                                @ flag_text v XDMA_STAT_H2C_W_SLAVE_ERR ''SLAVE_ERR '')
                         else buf
                 else if v AND XDMA_STAT_C2H_R_ERR_MASK \<noteq> 0
                      then comma (buf @ ''R:''
                                @ flag_text v XDMA_STAT_C2H_R_DECODE_ERR ''DECODE_ERR ''
                                @ flag_text v XDMA_STAT_C2H_R_SLAVE_ERR ''SLAVE_ERR '')
                      else buf)
      in if v AND XDMA_STAT_DESC_ERR_MASK \<noteq> 0
         then comma (buf @ ''DESC_ERR:''
                @ flag_text v XDMA_STAT_DESC_UNSUPP_REQ ''UNSUPP_REQ ''
                @ flag_text v XDMA_STAT_DESC_COMPL_ABORT ''COMPL_ABORT ''
                @ flag_text v XDMA_STAT_DESC_PARITY_ERR ''PARITY ''
                @ flag_text v XDMA_STAT_DESC_HEADER_EP ''HEADER_EP ''
                @ flag_text v XDMA_STAT_DESC_UNEXP_COMPL ''UNEXP_COMPL '')
         else buf)"

definition engine_status_read ::
    "device \<Rightarrow> bool \<Rightarrow> bool \<Rightarrow> xdma_engine \<Rightarrow> kstate \<Rightarrow> int \<times> xdma_engine \<times> kstate" where
  "engine_status_read hw clear dump e k =
     (let (rv, k) = (if dump then engine_reg_dump hw e k else (0, k)) in
      if rv < 0 then (rv, e, k)
      else let (w, k) = reg_read hw (e_regs e + (if clear then er_status_rc else er_status)) k
           in (rv, e\<lparr>e_status := w\<rparr>, k))"

section \<open>Starting and stopping\<close>

definition credit_mode :: "modparams \<Rightarrow> xdma_engine \<Rightarrow> bool" where
  "credit_mode mp e \<longleftrightarrow> enable_credit_mp mp \<and> st_c2h e"

definition stop_control :: "modparams \<Rightarrow> u32" where
  "stop_control mp =
     XDMA_CTRL_IE_DESC_ALIGN_MISMATCH OR XDMA_CTRL_IE_MAGIC_STOPPED OR
     XDMA_CTRL_IE_READ_ERROR OR XDMA_CTRL_IE_DESC_ERROR OR
     (if poll_mode mp then XDMA_CTRL_POLL_MODE_WB
      else XDMA_CTRL_IE_DESC_STOPPED OR XDMA_CTRL_IE_DESC_COMPLETED)"

definition xdma_engine_stop :: "modparams \<Rightarrow> xdma_engine \<Rightarrow> kstate \<Rightarrow> int \<times> xdma_engine \<times> kstate" where
  "xdma_engine_stop mp e k =
     (let k = (if credit_mode mp e then reg_write 0 (e_sgdma_regs e + sg_credits) k else k);
          k = reg_write (stop_control mp) (e_regs e + er_control) k
      in (0, e\<lparr>e_running := False\<rparr>, k))"

definition perf_interrupts :: u32 where
  "perf_interrupts =
     XDMA_CTRL_IE_DESC_STOPPED OR XDMA_CTRL_IE_DESC_COMPLETED OR
     XDMA_CTRL_IE_DESC_ALIGN_MISMATCH OR XDMA_CTRL_IE_MAGIC_STOPPED OR
     XDMA_CTRL_IE_IDLE_STOPPED OR XDMA_CTRL_IE_READ_ERROR OR XDMA_CTRL_IE_DESC_ERROR"

definition start_control :: "modparams \<Rightarrow> xdma_engine \<Rightarrow> u32" where
  "start_control mp e =
     XDMA_CTRL_RUN_STOP OR XDMA_CTRL_IE_READ_ERROR OR XDMA_CTRL_IE_DESC_ERROR OR
     XDMA_CTRL_IE_DESC_ALIGN_MISMATCH OR XDMA_CTRL_IE_MAGIC_STOPPED OR
     (if poll_mode mp then XDMA_CTRL_POLL_MODE_WB
      else XDMA_CTRL_IE_DESC_STOPPED OR XDMA_CTRL_IE_DESC_COMPLETED) OR
     (if e_non_incr_addr e then XDMA_CTRL_NON_INCR_ADDR else 0)"

definition engine_start_mode_config ::
    "device \<Rightarrow> modparams \<Rightarrow> xdma_engine \<Rightarrow> kstate \<Rightarrow> int \<times> kstate" where
  "engine_start_mode_config hw mp e k =
     (let k = (if e_xdma_perf e \<noteq> None
               then reg_write perf_interrupts (e_regs e + er_interrupt_enable_mask) k else k);
          k = reg_write (start_control mp e) (e_regs e + er_control) k
      in (0, snd (reg_read hw (e_regs e + er_status) k)))"

definition engine_start ::
    "device \<Rightarrow> modparams \<Rightarrow> xdma_engine \<Rightarrow> kstate \<Rightarrow> xfer_id option \<times> xdma_engine \<times> kstate" where
  "engine_start hw mp e k =
     (if e_running e then (None, e, k)
      else case e_transfer_list e of
        [] \<Rightarrow> (None, e, k)
      | i # _ \<Rightarrow>
          let transfer = k_xfers k i;
              e = e\<lparr>e_shutdown := ENGINE_SHUTDOWN_NONE\<rparr>;
              k = (if credit_mode mp e
                   then reg_write (e_desc_used e) (e_sgdma_regs e + sg_credits) k else k);
              e = e\<lparr>e_desc_dequeued := 0\<rparr>;
              k = reg_write (pci_dma_l (x_desc_bus transfer)) (e_sgdma_regs e + sg_first_desc_lo) k;
              k = reg_write (pci_dma_h (x_desc_bus transfer)) (e_sgdma_regs e + sg_first_desc_hi) k;
              next_adj = xdma_get_next_adj (x_desc_adjacent transfer)
                           (pci_dma_l (x_desc_bus transfer));
              k = reg_write next_adj (e_sgdma_regs e + sg_first_desc_adjacent) k;
              (rv, k) = engine_start_mode_config hw mp e k
          in if rv < 0 then (None, e, k)
             else let (rv, e, k) = engine_status_read hw False False e k
                  in if rv < 0 then (None, e, k)
                     else (Some i, e\<lparr>e_running := True\<rparr>, k))"

definition engine_service_shutdown ::
    "modparams \<Rightarrow> xdma_engine \<Rightarrow> kstate \<Rightarrow> int \<times> xdma_engine \<times> kstate" where
  "engine_service_shutdown mp e k =
     (let (rv, e, k) = xdma_engine_stop mp e k in
      if rv < 0 then (rv, e, k) else (0, e, log_event (WakeUp (ShutdownWq (e_regs e))) k))"

section \<open>Facts about the control words\<close>

fun writes :: "io_event list \<Rightarrow> (loc \<times> u32) list" where
  "writes [] = []"
| "writes (Wr l v # t) = (l, v) # writes t"
| "writes (_ # t) = writes t"

lemma writes_append [simp]: "writes (t @ t') = writes t @ writes t'"
  by (induction t rule: writes.induct) auto

lemma run_bits [simp]:
  "bit (start_control mp e) 0" "\<not> bit (stop_control mp) 0"
  by (simp_all add: start_control_def stop_control_def xdma_consts bit_simps)

lemma credit_mode_frame [simp]:
  "credit_mode mp (e\<lparr>e_shutdown := a\<rparr>) = credit_mode mp e"
  "credit_mode mp (e\<lparr>e_desc_dequeued := b\<rparr>) = credit_mode mp e"
  by (simp_all add: credit_mode_def st_c2h_def)

lemma xdma_engine_stop_eq:
  "xdma_engine_stop mp e k = (0, e\<lparr>e_running := False\<rparr>,
     k\<lparr>k_trace := k_trace k
        @ (if credit_mode mp e then [Wr (Mmio (e_sgdma_regs e + sg_credits)) 0] else [])
        @ [Wr (Mmio (e_regs e + er_control)) (stop_control mp)]\<rparr>)"
  by (simp add: xdma_engine_stop_def Let_def xdma_io)

lemma engine_status_read_eq:
  "engine_status_read hw clear False e k =
     (let a = e_regs e + (if clear then er_status_rc else er_status); w = hw (k_trace k) (Mmio a)
      in (0, e\<lparr>e_status := w\<rparr>, k\<lparr>k_trace := k_trace k @ [Rd (Mmio a) w]\<rparr>))"
  by (simp add: engine_status_read_def Let_def xdma_io)

text \<open>The accesses of a successful start, in order, and the state it leaves.\<close>

definition start_writes :: "modparams \<Rightarrow> xdma_engine \<Rightarrow> xdma_transfer \<Rightarrow> io_event list" where
  "start_writes mp e x =
     (if credit_mode mp e then [Wr (Mmio (e_sgdma_regs e + sg_credits)) (e_desc_used e)] else [])
     @ [Wr (Mmio (e_sgdma_regs e + sg_first_desc_lo)) (pci_dma_l (x_desc_bus x)),
        Wr (Mmio (e_sgdma_regs e + sg_first_desc_hi)) (pci_dma_h (x_desc_bus x)),
        Wr (Mmio (e_sgdma_regs e + sg_first_desc_adjacent))
           (xdma_get_next_adj (x_desc_adjacent x) (pci_dma_l (x_desc_bus x)))]
     @ (if e_xdma_perf e \<noteq> None
        then [Wr (Mmio (e_regs e + er_interrupt_enable_mask)) perf_interrupts] else [])
     @ [Wr (Mmio (e_regs e + er_control)) (start_control mp e)]"

lemma start_control_frame [simp]:
  "start_control mp (e\<lparr>e_shutdown := a\<rparr>) = start_control mp e"
  "start_control mp (e\<lparr>e_desc_dequeued := b\<rparr>) = start_control mp e"
  by (simp_all add: start_control_def)

lemma engine_start_exact:
  assumes "\<not> e_running e" and "e_transfer_list e = i # rest"
  shows "engine_start hw mp e k =
    (let a = Mmio (e_regs e + er_status); t = k_trace k @ start_writes mp e (k_xfers k i);
         v = hw t a; w = hw (t @ [Rd a v]) a
     in (Some i,
         e\<lparr>e_shutdown := ENGINE_SHUTDOWN_NONE, e_desc_dequeued := 0, e_status := w,
           e_running := True\<rparr>,
         k\<lparr>k_trace := t @ [Rd a v, Rd a w]\<rparr>))"
  using assms
  by (simp add: engine_start_def engine_start_mode_config_def engine_status_read_eq start_writes_def
      Let_def xdma_io)

lemma engine_start_eq:
  assumes "\<not> e_running e" and "e_transfer_list e = i # rest"
  shows "\<exists>v w. engine_start hw mp e k =
    (Some i,
     e\<lparr>e_shutdown := ENGINE_SHUTDOWN_NONE, e_desc_dequeued := 0, e_status := w, e_running := True\<rparr>,
     k\<lparr>k_trace := k_trace k @ start_writes mp e (k_xfers k i)
         @ [Rd (Mmio (e_regs e + er_status)) v, Rd (Mmio (e_regs e + er_status)) w]\<rparr>)"
  unfolding engine_start_exact [OF assms] Let_def by (intro exI) simp

lemma engine_start_refuses:
  "e_running e \<or> e_transfer_list e = [] \<Longrightarrow> engine_start hw mp e k = (None, e, k)"
  by (auto simp: engine_start_def)

text \<open>
  C16. Starting an idle engine with a transfer queued returns the transfer at the head of the
  queue and marks the engine running, with no descriptor dequeued and no shutdown pending; queue
  and transfers are left alone. The register writes come in a fixed order: the credits (AXI
  streaming only), the two halves of the bus address of the first descriptor, the adjacency
  count, the interrupt mask (performance runs only), and last the control word, the only one
  that sets the RUN bit; the two address halves make up the bus address of the transfer.
\<close>

theorem engine_start_order:
  assumes "\<not> e_running e" and "e_transfer_list e = i # rest"
  shows "case engine_start hw mp e k of (r, e', k') \<Rightarrow>
    r = Some i \<and> e_running e' \<and> e_shutdown e' = ENGINE_SHUTDOWN_NONE \<and> e_desc_dequeued e' = 0 \<and>
    e_transfer_list e' = e_transfer_list e \<and> k_xfers k' = k_xfers k \<and>
    (\<exists>before lo hi adj ctl.
       writes (k_trace k') = writes (k_trace k) @ before
         @ [(Mmio (e_sgdma_regs e + sg_first_desc_lo), lo),
            (Mmio (e_sgdma_regs e + sg_first_desc_hi), hi),
            (Mmio (e_sgdma_regs e + sg_first_desc_adjacent), adj)]
         @ (if e_xdma_perf e = None then []
            else [(Mmio (e_regs e + er_interrupt_enable_mask), perf_interrupts)])
         @ [(Mmio (e_regs e + er_control), ctl)] \<and>
       before = (if credit_mode mp e then [(Mmio (e_sgdma_regs e + sg_credits), e_desc_used e)] else []) \<and>
       word_join hi lo = x_desc_bus (k_xfers k i) \<and>
       adj = xdma_get_next_adj (x_desc_adjacent (k_xfers k i)) lo \<and> bit ctl 0)"
proof -
  obtain v w where start: "engine_start hw mp e k =
    (Some i,
     e\<lparr>e_shutdown := ENGINE_SHUTDOWN_NONE, e_desc_dequeued := 0, e_status := w, e_running := True\<rparr>,
     k\<lparr>k_trace := k_trace k @ start_writes mp e (k_xfers k i)
         @ [Rd (Mmio (e_regs e + er_status)) v, Rd (Mmio (e_regs e + er_status)) w]\<rparr>)"
    using engine_start_eq [OF assms] by blast
  show ?thesis
    by (simp add: start start_writes_def run_bits)
qed

theorem engine_start_order_witness:
  "case engine_start (\<lambda>_ _. 0) \<lparr>poll_mode = False, interrupt_mode = 0, enable_credit_mp = True,
        desc_blen_max = 4096\<rparr> (zero_engine\<lparr>e_transfer_list := [7]\<rparr>)
        \<lparr>k_trace = [], k_xfers = (\<lambda>_. zero_transfer)\<rparr> of (r, e', k') \<Rightarrow> r = Some 7 \<and> e_running e'"
  using engine_start_order [where e = "zero_engine\<lparr>e_transfer_list := [7]\<rparr>" and i = 7
      and rest = "[]" and hw = "\<lambda>_ _. 0"
      and mp = "\<lparr>poll_mode = False, interrupt_mode = 0, enable_credit_mp = True, desc_blen_max = 4096\<rparr>"
      and k = "\<lparr>k_trace = [], k_xfers = (\<lambda>_. zero_transfer)\<rparr>"]
  by (auto simp: zero_engine_def split: prod.splits)

section \<open>The status line\<close>

lemma length_comma: "s \<noteq> [] \<Longrightarrow> length (comma s) = length s"
  by (simp add: comma_def)

lemma length_flag_text: "length (flag_text v b s) \<le> length s"
  by (simp add: flag_text_def)

lemma length_hex8 [simp]: "length (hex8 v) = 8"
  by (simp add: hex8_def)

definition status_head :: "xdma_engine \<Rightarrow> string" where
  "status_head e = ''SG engine '' @ e_name e @ '' status: 0x'' @ hex8 (e_status e) @ '': ''"

lemma length_status_head: "length (status_head e) = length (e_name e) + 31"
  by (simp add: status_head_def)

definition status_common :: "xdma_engine \<Rightarrow> string" where
  "status_common e =
     (let v = e_status e;
          buf = status_head e @ flag_text v XDMA_STAT_BUSY ''BUSY,''
                    @ flag_text v XDMA_STAT_DESC_STOPPED ''DESC_STOPPED,''
                    @ flag_text v XDMA_STAT_DESC_COMPLETED ''DESC_COMPL,''
      in if v AND XDMA_STAT_COMMON_ERR_MASK \<noteq> 0
         then comma (buf @ flag_text v XDMA_STAT_ALIGN_MISMATCH ''ALIGN_MISMATCH ''
                         @ flag_text v XDMA_STAT_MAGIC_STOPPED ''MAGIC_STOPPED ''
                         @ flag_text v XDMA_STAT_INVALID_LEN ''INVLIAD_LEN ''
                         @ flag_text v XDMA_STAT_IDLE_STOPPED ''IDLE_STOPPED '')
         else buf)"

lemma status_common_bound:
  "length (status_common e) \<le> length (e_name e) + 114 \<and> status_common e \<noteq> []"
proof -
  note fl = length_flag_text [where v = "e_status e"]
  show ?thesis
    using fl [of XDMA_STAT_BUSY "''BUSY,''"] fl [of XDMA_STAT_DESC_STOPPED "''DESC_STOPPED,''"]
      fl [of XDMA_STAT_DESC_COMPLETED "''DESC_COMPL,''"]
      fl [of XDMA_STAT_ALIGN_MISMATCH "''ALIGN_MISMATCH ''"]
      fl [of XDMA_STAT_MAGIC_STOPPED "''MAGIC_STOPPED ''"]
      fl [of XDMA_STAT_INVALID_LEN "''INVLIAD_LEN ''"]
      fl [of XDMA_STAT_IDLE_STOPPED "''IDLE_STOPPED ''"] length_status_head [of e]
    by (auto simp: status_common_def Let_def length_comma status_head_def) (simp add: comma_def)
qed

text \<open>
  For a card-to-host engine the status line and its terminating zero fit the 256-byte stack
  buffer of \<^verbatim>\<open>engine_status_dump\<close>, whatever the status word and whatever name of up to 15
  characters the engine has.
\<close>

theorem engine_status_dump_c2h_fits:
  assumes "e_dir e \<noteq> DMA_TO_DEVICE" and "length (e_name e) \<le> 15"
  shows "length (engine_status_dump e) < 256"
proof -
  let ?v = "e_status e"
  note fl = length_flag_text [where v = ?v]
  let ?b = "if ?v AND XDMA_STAT_C2H_R_ERR_MASK \<noteq> 0
            then comma (status_common e @ ''R:''
                   @ flag_text ?v XDMA_STAT_C2H_R_DECODE_ERR ''DECODE_ERR ''
                   @ flag_text ?v XDMA_STAT_C2H_R_SLAVE_ERR ''SLAVE_ERR '') else status_common e"
  have "length ?b \<le> length (e_name e) + 137 \<and> ?b \<noteq> []"
    using fl [of XDMA_STAT_C2H_R_DECODE_ERR "''DECODE_ERR ''"]
      fl [of XDMA_STAT_C2H_R_SLAVE_ERR "''SLAVE_ERR ''"] status_common_bound [of e]
    by (auto simp: length_comma) (simp add: comma_def)
  moreover have "engine_status_dump e =
      (if ?v AND XDMA_STAT_DESC_ERR_MASK \<noteq> 0
       then comma (?b @ ''DESC_ERR:''
              @ flag_text ?v XDMA_STAT_DESC_UNSUPP_REQ ''UNSUPP_REQ ''
              @ flag_text ?v XDMA_STAT_DESC_COMPL_ABORT ''COMPL_ABORT ''
              @ flag_text ?v XDMA_STAT_DESC_PARITY_ERR ''PARITY ''
              @ flag_text ?v XDMA_STAT_DESC_HEADER_EP ''HEADER_EP ''
              @ flag_text ?v XDMA_STAT_DESC_UNEXP_COMPL ''UNEXP_COMPL '') else ?b)"
    using assms(1) by (simp add: engine_status_dump_def status_common_def status_head_def Let_def)
  ultimately show ?thesis
    using assms(2) fl [of XDMA_STAT_DESC_UNSUPP_REQ "''UNSUPP_REQ ''"]
      fl [of XDMA_STAT_DESC_COMPL_ABORT "''COMPL_ABORT ''"]
      fl [of XDMA_STAT_DESC_PARITY_ERR "''PARITY ''"]
      fl [of XDMA_STAT_DESC_HEADER_EP "''HEADER_EP ''"]
      fl [of XDMA_STAT_DESC_UNEXP_COMPL "''UNEXP_COMPL ''"]
    by (auto simp: length_comma)
qed

theorem engine_status_dump_c2h_fits_witness:
  "length (engine_status_dump (zero_engine\<lparr>e_dir := DMA_FROM_DEVICE, e_name := ''0-C2H0-MM'',
     e_status := 0xFFFFFFFF\<rparr>)) < 256"
  using engine_status_dump_c2h_fits
    [of "zero_engine\<lparr>e_dir := DMA_FROM_DEVICE, e_name := ''0-C2H0-MM'', e_status := 0xFFFFFFFF\<rparr>"]
  by simp

text \<open>
  For a host-to-card engine the line can be longer than the buffer: with every status bit
  set, which is what a read from an unreachable device returns, and a name of the form the
  driver gives its engines, \<^verbatim>\<open>engine_status_dump\<close> assembles 261 characters in its 256 bytes.
\<close>

theorem engine_status_dump_h2c_overflow:
  "length (engine_status_dump (zero_engine\<lparr>e_dir := DMA_TO_DEVICE, e_name := ''0-H2C0-MM'',
     e_status := 0xFFFFFFFF\<rparr>)) = 261"
  by (simp add: engine_status_dump_def Let_def flag_text_def comma_def xdma_consts zero_engine_def)

section \<open>Reading the counters\<close>

lemma build_u64_join: "build_u64 (ucast hi) (ucast lo) = word_join (take_bit 28 hi) lo"
  for hi lo :: u32
  unfolding build_u64_def word_join_def and_mask_numerals
  by (rule bit_word_eqI) (auto simp: bit_simps dest: bit_imp_le_length)

text \<open>
  \<^verbatim>\<open>get_perf_stats\<close> on a device whose counter registers stand still: the iteration count is
  the completed-descriptor count, and each 64-bit counter is put together from the low word and
  only the low 28 bits of the high word, since the mask of \<^verbatim>\<open>build_u64\<close> is one digit short. A
  counter is reported correctly exactly when it is below \<^term>\<open>2 ^ 60 :: nat\<close>.
\<close>

theorem get_perf_stats_reads:
  assumes "e_xdma_perf e = Some p"
  shows "\<exists>p'. e_xdma_perf (fst (get_perf_stats (\<lambda>_. r) e k)) = Some p' \<and>
     p_iterations p' = r (Mmio (e_regs e + er_completed_desc_count)) \<and>
     p_clock_cycle_count p' = word_join (take_bit 28 (r (Mmio (e_regs e + er_perf_cyc_hi))))
                                        (r (Mmio (e_regs e + er_perf_cyc_lo))) \<and>
     p_data_cycle_count p' = word_join (take_bit 28 (r (Mmio (e_regs e + er_perf_dat_hi))))
                                       (r (Mmio (e_regs e + er_perf_dat_lo))) \<and>
     p_pending_count p' = word_join (take_bit 28 (r (Mmio (e_regs e + er_perf_pnd_hi))))
                                    (r (Mmio (e_regs e + er_perf_pnd_lo))) \<and>
     (p_clock_cycle_count p' = word_join (r (Mmio (e_regs e + er_perf_cyc_hi)))
                                         (r (Mmio (e_regs e + er_perf_cyc_lo)))
        \<longleftrightarrow> unat (r (Mmio (e_regs e + er_perf_cyc_hi))) < 2 ^ 28)"
proof -
  have iter: "ucast (build_u64 0 (ucast w)) = w" for w :: u32
    using build_u64_join [of 0 w] by (auto simp: word_join_def intro: bit_word_eqI simp: bit_simps)
  have join_eq: "word_join (take_bit 28 hi) lo = word_join hi lo \<longleftrightarrow> unat hi < 2 ^ 28" for hi lo
  proof
    assume eq: "word_join (take_bit 28 hi) lo = word_join hi lo"
    have "drop_bit 32 (word_join h lo) = ucast h" for h :: u32
      by (rule bit_word_eqI) (auto simp: word_join_def bit_simps dest: bit_imp_le_length)
    with eq have "(ucast (take_bit 28 hi) :: u64) = ucast hi" by metis
    moreover have "(ucast (ucast h :: u64) :: u32) = h" for h
      by (rule bit_word_eqI) (auto simp: bit_simps)
    ultimately have "unat (take_bit 28 hi) = unat hi" by metis
    then show "unat hi < 2 ^ 28" unfolding unat_take_bit by (metis mod_less_divisor zero_less_numeral zero_less_power)
  qed (simp add: take_bit_small)
  show ?thesis
    using assms
    by (simp add: get_perf_stats_def Let_def xdma_io build_u64_join iter join_eq)
qed

theorem get_perf_stats_reads_witness:
  "\<exists>p'. e_xdma_perf (fst (get_perf_stats (\<lambda>_ _. 0x10000000)
       (zero_engine\<lparr>e_xdma_perf := Some \<lparr>p_version = 0, p_transfer_size = 0, p_stopped = 0,
          p_iterations = 0, p_clock_cycle_count = 0, p_data_cycle_count = 0, p_pending_count = 0\<rparr>\<rparr>)
       \<lparr>k_trace = [], k_xfers = (\<lambda>_. zero_transfer)\<rparr>)) = Some p' \<and>
     p_clock_cycle_count p' = 0x10000000"
  using get_perf_stats_reads [where r = "\<lambda>_. 0x10000000" and k = "\<lparr>k_trace = [], k_xfers = (\<lambda>_. zero_transfer)\<rparr>"
    and e = "zero_engine\<lparr>e_xdma_perf := Some \<lparr>p_version = 0, p_transfer_size = 0, p_stopped = 0,
          p_iterations = 0, p_clock_cycle_count = 0, p_data_cycle_count = 0, p_pending_count = 0\<rparr>\<rparr>"
    and p = "\<lparr>p_version = 0, p_transfer_size = 0, p_stopped = 0, p_iterations = 0,
       p_clock_cycle_count = 0, p_data_cycle_count = 0, p_pending_count = 0\<rparr>"]
  by (auto simp: word_join_def take_bit_eq_mod)

end
