(* ===== verification/Xdma_Service.thy ===== *)
theory Xdma_Service
  imports Xdma_Engine
begin

text \<open>
  Servicing the completions of an engine and the queue of transfers it works on. The completion
  callback of an asynchronous transfer, \<^verbatim>\<open>cb->io_done\<close>, is the parameter \<open>iod\<close>.
\<close>

section \<open>Servicing completions\<close>

type_synonym io_done = "nat \<Rightarrow> xdma_engine \<Rightarrow> kstate \<Rightarrow> xdma_engine \<times> kstate"

definition engine_transfer_completion ::
    "io_done \<Rightarrow> xdma_engine \<Rightarrow> xfer_id option \<Rightarrow> kstate \<Rightarrow> xfer_id option \<times> xdma_engine \<times> kstate" where
  "engine_transfer_completion iod e transfer k =
     (case transfer of
        None \<Rightarrow> (None, e, k)
      | Some i \<Rightarrow>
          let k = log_event (WakeUp (XferWq i)) k;
              (e, k) = (case x_cb (k_xfers k i) of
                  Some cb \<Rightarrow> if x_last_in_request (k_xfers k i) then iod cb e k else (e, k)
                | None \<Rightarrow> (e, k))
          in (Some i, e, k))"

definition queue_head :: "xdma_engine \<Rightarrow> xfer_id option" where
  "queue_head e = (case e_transfer_list e of [] \<Rightarrow> None | i # _ \<Rightarrow> Some i)"

definition list_del_head :: "xdma_engine \<Rightarrow> xdma_engine" where
  "list_del_head e = e\<lparr>e_transfer_list := tl (e_transfer_list e)\<rparr>"

text \<open>
  The loop of \<^verbatim>\<open>engine_service_transfer_list\<close>. Each round unlinks the head of the queue, so
  the length of the queue bounds the number of rounds as long as the callback queues nothing;
  it is the fuel of the loop, and \<open>service_list_loop_exit\<close> below shows that it never runs out.
\<close>

fun service_list_loop ::
    "nat \<Rightarrow> io_done \<Rightarrow> xdma_engine \<Rightarrow> xfer_id option \<Rightarrow> u32 \<Rightarrow> kstate
     \<Rightarrow> xfer_id option \<times> u32 \<times> xdma_engine \<times> kstate" where
  "service_list_loop 0 iod e transfer n k = (transfer, n, e, k)"
| "service_list_loop (Suc f) iod e transfer n k =
     (case transfer of
        None \<Rightarrow> (None, n, e, k)
      | Some i \<Rightarrow>
          if \<not> x_cyclic (k_xfers k i) \<and> x_desc_num (k_xfers k i) < n
          then let desc_num = x_desc_num (k_xfers k i);
                   e = list_del_head e;
                   e = e\<lparr>e_desc_dequeued := e_desc_dequeued e + desc_num\<rparr>;
                   k = upd_xfer i (\<lambda>x. x\<lparr>x_state := TRANSFER_STATE_COMPLETED\<rparr>) k;
                   (_, e, k) = engine_transfer_completion iod e (Some i) k
               in service_list_loop f iod e (queue_head e) (n - desc_num) k
          else (Some i, n, e, k))"

definition engine_service_transfer_list ::
    "io_done \<Rightarrow> xdma_engine \<Rightarrow> xfer_id option \<Rightarrow> u32 \<Rightarrow> kstate
     \<Rightarrow> xfer_id option \<times> u32 \<times> xdma_engine \<times> kstate" where
  "engine_service_transfer_list iod e transfer n k =
     service_list_loop (Suc (length (e_transfer_list e))) iod e transfer n k"

definition set_state :: "xfer_id \<Rightarrow> transfer_state \<Rightarrow> kstate \<Rightarrow> kstate" where
  "set_state i s k = upd_xfer i (\<lambda>x. x\<lparr>x_state := s\<rparr>) k"

definition engine_err_handle ::
    "device \<Rightarrow> modparams \<Rightarrow> xdma_engine \<Rightarrow> xfer_id \<Rightarrow> kstate \<Rightarrow> int \<times> xdma_engine \<times> kstate" where
  "engine_err_handle hw mp e i k =
     (let k = (if e_status e AND XDMA_STAT_BUSY \<noteq> 0
               then snd (reg_read hw (e_regs e + er_status) k) else k);
          k = set_state i TRANSFER_STATE_FAILED k
      in xdma_engine_stop mp e k)"

definition engine_error :: "xdma_engine \<Rightarrow> bool" where
  "engine_error e \<longleftrightarrow>
     e_dir e = DMA_FROM_DEVICE \<and> e_status e AND XDMA_STAT_C2H_ERR_MASK \<noteq> 0 \<or>
     e_dir e = DMA_TO_DEVICE \<and> e_status e AND XDMA_STAT_H2C_ERR_MASK \<noteq> 0"

text \<open>The scan of the result records for an end of packet: \<open>m\<close> records from address \<open>a\<close>.\<close>

fun eop_scan :: "device \<Rightarrow> addr \<Rightarrow> nat \<Rightarrow> kstate \<Rightarrow> bool \<times> kstate" where
  "eop_scan hw a 0 k = (False, k)"
| "eop_scan hw a (Suc m) k =
     (let (w, k) = mem_read hw a k in
      if w AND RX_STATUS_EOP \<noteq> 0 then (True, k) else eop_scan hw (a + sizeof_xdma_result) m k)"

definition transfer_del ::
    "io_done \<Rightarrow> xdma_engine \<Rightarrow> xfer_id \<Rightarrow> kstate \<Rightarrow> xfer_id option \<times> xdma_engine \<times> kstate" where
  "transfer_del iod e i k = engine_transfer_completion iod (list_del_head e) (Some i) k"

definition engine_service_final_transfer ::
    "device \<Rightarrow> modparams \<Rightarrow> io_done \<Rightarrow> xdma_engine \<Rightarrow> xfer_id option \<Rightarrow> u32 \<Rightarrow> kstate
     \<Rightarrow> xfer_id option \<times> xdma_engine \<times> kstate" where
  "engine_service_final_transfer hw mp iod e transfer n k =
     (case transfer of
        None \<Rightarrow> (None, e, k)
      | Some i \<Rightarrow>
          if engine_error e
          then let (_, e, k) = engine_err_handle hw mp e i k in transfer_del iod e i k
          else if n < x_desc_num (k_xfers k i)
          then if e_eop_flush e
               then let (eop, k) = eop_scan hw (x_res_virt (k_xfers k i)) (nat (sint n)) k;
                        k = (if eop
                             then upd_xfer i (\<lambda>x. x\<lparr>x_flags := x_flags x OR XFER_FLAG_ST_C2H_EOP_RCVED\<rparr>) k
                             else k);
                        k = upd_xfer i (\<lambda>x. x\<lparr>x_desc_cmpl := x_desc_cmpl x + n\<rparr>) k
                    in if x_flags (k_xfers k i) AND XFER_FLAG_ST_C2H_EOP_RCVED = 0 then (None, e, k)
                       else let (_, e, k) = engine_service_shutdown mp e k;
                                k = set_state i TRANSFER_STATE_COMPLETED k;
                                e = e\<lparr>e_desc_dequeued := e_desc_dequeued e + x_desc_cmpl (k_xfers k i)\<rparr>
                            in transfer_del iod e i k
               else let k = set_state i TRANSFER_STATE_FAILED k;
                        e = e\<lparr>e_desc_dequeued := e_desc_dequeued e + x_desc_num (k_xfers k i)\<rparr>;
                        k = upd_xfer i (\<lambda>x. x\<lparr>x_desc_cmpl := n\<rparr>) k
                    in transfer_del iod e i k
          else let k = set_state i TRANSFER_STATE_COMPLETED k;
                   k = upd_xfer i (\<lambda>x. x\<lparr>x_desc_cmpl := x_desc_num x\<rparr>) k;
                   e = e\<lparr>e_desc_dequeued := e_desc_dequeued e + x_desc_num (k_xfers k i)\<rparr>
               in transfer_del iod e i k)"

definition engine_service_perf :: "xdma_engine \<Rightarrow> u32 \<Rightarrow> kstate \<Rightarrow> int \<times> xdma_engine \<times> kstate" where
  "engine_service_perf e desc_completed k =
     (case e_xdma_perf e of
        None \<Rightarrow> (0, e, k)
      | Some p \<Rightarrow>
          let p = (if e_status e AND XDMA_STAT_DESC_COMPLETED \<noteq> 0
                   then p\<lparr>p_iterations := desc_completed\<rparr> else p)
          in if e_status e AND XDMA_STAT_DESC_STOPPED \<noteq> 0
             then (0, e\<lparr>e_xdma_perf := Some (p\<lparr>p_stopped := 1\<rparr>)\<rparr>,
                   log_event (WakeUp (PerfWq (e_regs e))) k)
             else (0, e\<lparr>e_xdma_perf := Some p\<rparr>, k))"

definition engine_service_resume ::
    "device \<Rightarrow> modparams \<Rightarrow> xdma_engine \<Rightarrow> kstate \<Rightarrow> int \<times> xdma_engine \<times> kstate" where
  "engine_service_resume hw mp e k =
     (if \<not> e_running e
      then if e_transfer_list e \<noteq> []
           then let (transfer_started, e, k) = engine_start hw mp e k
                in (if transfer_started = None then - EINVAL else 0, e, k)
           else if e_shutdown e AND ENGINE_SHUTDOWN_REQUEST \<noteq> 0
           then (0, e\<lparr>e_shutdown := e_shutdown e OR ENGINE_SHUTDOWN_IDLE\<rparr>,
                 log_event (WakeUp (ShutdownWq (e_regs e))) k)
           else (0, e, k)
      else if e_transfer_list e = []
      then let (_, e, k) = engine_service_shutdown mp e k in (0, e, k)
      else (0, e, k))"

text \<open>
  The second half of \<^verbatim>\<open>engine_service\<close>, from the test \<^verbatim>\<open>if (!desc_count) goto done\<close> on:
  \<open>n\<close> descriptors have completed since the engine was started.
\<close>

definition engine_service_count ::
    "device \<Rightarrow> modparams \<Rightarrow> io_done \<Rightarrow> xdma_engine \<Rightarrow> u32 \<Rightarrow> kstate \<Rightarrow> int \<times> xdma_engine \<times> kstate" where
  "engine_service_count hw mp iod e n k =
     (let transfer = queue_head e;
          (rv, e, k) = (if transfer \<noteq> None then engine_service_perf e n k else (0, e, k))
      in if rv < 0 then (rv, e, k)
         else let n = n - e_desc_dequeued e;
                  (transfer, n, e, k) = engine_service_transfer_list iod e transfer n k;
                  (transfer, e, k) = engine_service_final_transfer hw mp iod e transfer n k
              in if \<not> e_eop_flush e then engine_service_resume hw mp e k else (0, e, k))"

definition engine_service ::
    "device \<Rightarrow> modparams \<Rightarrow> io_done \<Rightarrow> xdma_engine \<Rightarrow> u32 \<Rightarrow> kstate \<Rightarrow> int \<times> xdma_engine \<times> kstate" where
  "engine_service hw mp iod e desc_writeback k =
     (let desc_count = desc_writeback AND WB_COUNT_MASK;
          err_flag = desc_writeback AND WB_ERR_MASK
      in if \<not> e_running e
         then let (rv, e, k) = engine_status_read hw True False e k
              in if rv < 0 then (rv, e, k) else (0, e, k)
         else let (rv, e, k) = (if desc_count = 0 \<or> err_flag \<noteq> 0
                                then engine_status_read hw True False e k else (0, e, k))
              in if rv < 0 then (rv, e, k)
                 else let (rv, e, k) =
                        (if e_running e \<and> e_status e AND XDMA_STAT_BUSY = 0 \<or>
                            \<not> e_eop_flush e \<and> desc_count \<noteq> 0
                         then engine_service_shutdown mp e k else (0, e, k))
                      in if rv < 0 then (rv, e, k)
                         else let (desc_count, k) =
                                (if desc_count = 0
                                 then reg_read hw (e_regs e + er_completed_desc_count) k
                                 else (desc_count, k));
                                (rv, e, k) = (if desc_count = 0 then (0, e, k)
                                              else engine_service_count hw mp iod e desc_count k)
                              in (if err_flag \<noteq> 0 then - 1 else 0, e, k))"

text \<open>
  The bottom half of the channel interrupt. \<open>msix\<close> and \<open>cfg_bar\<close> are the parent device's
  \<^verbatim>\<open>msix_enabled\<close> and the address of its configuration BAR.
\<close>

definition channel_interrupts_enable :: "addr \<Rightarrow> u32 \<Rightarrow> kstate \<Rightarrow> kstate" where
  "channel_interrupts_enable cfg_bar m k =
     reg_write m (cfg_bar + XDMA_OFS_INT_CTRL + ir_channel_int_enable_w1s) k"

definition engine_service_work ::
    "device \<Rightarrow> modparams \<Rightarrow> io_done \<Rightarrow> bool \<Rightarrow> addr \<Rightarrow> xdma_engine \<Rightarrow> kstate \<Rightarrow> xdma_engine \<times> kstate" where
  "engine_service_work hw mp iod msix cfg_bar e k =
     (if e_magic e \<noteq> MAGIC_ENGINE then (e, k)
      else let (rv, e, k) = engine_service hw mp iod e 0 k
           in if rv < 0 then (e, k)
              else if msix
              then (e, reg_write (e_interrupt_enable_mask_value e)
                         (e_regs e + er_interrupt_enable_mask_w1s) k)
              else (e, channel_interrupts_enable cfg_bar (e_irq_bitmask e) k))"

text \<open>
  Polling the write-back word. \<open>jif\<close> gives the successive readings of \<^verbatim>\<open>jiffies\<close> and
  \<open>hz\<close> the ticks per second; both belong to the kernel. The loop ends when the device
  writes or the clock runs out, so it is a partial function.
\<close>

definition time_after :: "u64 \<Rightarrow> u64 \<Rightarrow> bool" where
  "time_after a b \<longleftrightarrow> sint (b - a) < 0"

definition POLL_TIMEOUT_SECONDS :: u64 where [xdma_consts]: "POLL_TIMEOUT_SECONDS = 10"

partial_function (option) wb_monitor_loop ::
    "device \<Rightarrow> (nat \<Rightarrow> u64) \<Rightarrow> u64 \<Rightarrow> addr \<Rightarrow> u32 \<Rightarrow> nat \<Rightarrow> u32 \<Rightarrow> kstate \<Rightarrow> (u32 \<times> kstate) option" where
  "wb_monitor_loop hw jif timeout wb expected_wb i sched_limit k =
     (let (desc_wb, k) = mem_read hw wb k;
          k = (if desc_wb \<noteq> 0 then mem_write 0 wb k else k)
      in if desc_wb AND WB_ERR_MASK \<noteq> 0 then Some (desc_wb, k)
         else if expected_wb \<le> desc_wb then Some (desc_wb, k)
         else if time_after (jif i) timeout
         then Some (if expected_wb < desc_wb AND WB_COUNT_MASK
                    then expected_wb OR WB_ERR_MASK else desc_wb, k)
         else wb_monitor_loop hw jif timeout wb expected_wb (Suc i) (sched_limit + 1)
                (if sched_limit \<noteq> 0 \<and> sched_limit mod NUM_POLLS_PER_SCHED = 0
                 then log_event Schedule k else k))"

definition engine_service_wb_monitor ::
    "device \<Rightarrow> (nat \<Rightarrow> u64) \<Rightarrow> u64 \<Rightarrow> xdma_engine \<Rightarrow> u32 \<Rightarrow> kstate \<Rightarrow> (u32 \<times> kstate) option" where
  "engine_service_wb_monitor hw jif hz e expected_wb k =
     (if expected_wb = 0 then Some (0, k)
      else wb_monitor_loop hw jif (jif 0 + POLL_TIMEOUT_SECONDS * hz)
             (e_poll_mode_addr_virt e) expected_wb 1 0 k)"

definition engine_service_poll ::
    "device \<Rightarrow> modparams \<Rightarrow> io_done \<Rightarrow> (nat \<Rightarrow> u64) \<Rightarrow> u64 \<Rightarrow> xdma_engine \<Rightarrow> u32 \<Rightarrow> kstate
     \<Rightarrow> (int \<times> xdma_engine \<times> kstate) option" where
  "engine_service_poll hw mp iod jif hz e expected_desc_count k =
     (if e_magic e \<noteq> MAGIC_ENGINE then Some (- EINVAL, e, k)
      else case engine_service_wb_monitor hw jif hz e expected_desc_count k of
        None \<Rightarrow> None
      | Some (desc_wb, k) \<Rightarrow>
          if desc_wb = 0 then Some (0, e, k)
          else Some (engine_service hw mp iod e desc_wb k))"

section \<open>The transfer queue\<close>

definition transfer_abort :: "xdma_engine \<Rightarrow> xfer_id \<Rightarrow> kstate \<Rightarrow> int \<times> xdma_engine \<times> kstate" where
  "transfer_abort e i k =
     (if x_desc_num (k_xfers k i) = 0 then (- EINVAL, e, k)
      else let e = (if queue_head e = Some i then list_del_head e else e);
               k = (if x_state (k_xfers k i) = TRANSFER_STATE_SUBMITTED
                    then set_state i TRANSFER_STATE_ABORTED k else k)
           in (0, e, k))"

text \<open>\<open>offline\<close> is the parent device's \<^verbatim>\<open>XDEV_FLAG_OFFLINE\<close> as \<^verbatim>\<open>xdma_device_flag_check\<close> reads it.\<close>

definition transfer_queue ::
    "device \<Rightarrow> modparams \<Rightarrow> bool \<Rightarrow> xdma_engine \<Rightarrow> xfer_id \<Rightarrow> kstate \<Rightarrow> int \<times> xdma_engine \<times> kstate" where
  "transfer_queue hw mp offline e i k =
     (if x_desc_num (k_xfers k i) = 0 then (- EINVAL, e, k)
      else if offline then (- EBUSY, e, k)
      else if e_shutdown e AND ENGINE_SHUTDOWN_REQUEST \<noteq> 0 then (- EBUSY, e, k)
      else let k = set_state i TRANSFER_STATE_SUBMITTED k;
               e = e\<lparr>e_transfer_list := e_transfer_list e @ [i]\<rparr>
           in if \<not> e_running e
              then let (transfer_started, e, k) = engine_start hw mp e k in (0, e, k)
              else (0, e, k))"

text \<open>
  \<^verbatim>\<open>engine_cyclic_stop\<close> reads the size of the performance buffer first, so it faults (\<open>None\<close>)
  when no performance run has been set up.
\<close>

definition engine_cyclic_stop ::
    "modparams \<Rightarrow> xdma_engine \<Rightarrow> kstate \<Rightarrow> (xfer_id option \<times> xdma_engine \<times> kstate) option" where
  "engine_cyclic_stop mp e k =
     (case e_xdma_perf e of
        None \<Rightarrow> None
      | Some _ \<Rightarrow>
          Some (case queue_head e of
              None \<Rightarrow> (None, e, k)
            | Some i \<Rightarrow>
                let (rv, e, k) = xdma_engine_stop mp e k in
                if rv < 0 then (None, e, k)
                else if x_cyclic (k_xfers k i)
                then let k = (if e_perf_buf_virt e \<noteq> 0
                              then log_event (Release (ResDma (e_perf_buf_virt e))) k else k)
                     in (Some i, list_del_head (e\<lparr>e_perf_buf_virt := 0\<rparr>), k)
                else (Some i, e, k)))"

section \<open>The contract of the completion callback\<close>

text \<open>
  What \<^verbatim>\<open>engine_service\<close> relies on while it runs the callback of a completed asynchronous
  transfer with the engine locked: the callback queues nothing on the engine and leaves the
  end-of-packet mode alone.
\<close>

locale io_done_contract =
  fixes iod :: io_done
  assumes iod_queue: "length (e_transfer_list (fst (iod cb e k))) \<le> length (e_transfer_list e)"
    and iod_eop: "e_eop_flush (fst (iod cb e k)) = e_eop_flush e"
begin

lemma completion_queue:
  "length (e_transfer_list (fst (snd (engine_transfer_completion iod e t k))))
     \<le> length (e_transfer_list e)"
  using iod_queue
  by (auto simp: engine_transfer_completion_def Let_def split: option.splits prod.splits)

lemma completion_eop:
  "e_eop_flush (fst (snd (engine_transfer_completion iod e t k))) = e_eop_flush e"
  using iod_eop
  by (auto simp: engine_transfer_completion_def Let_def split: option.splits prod.splits)

text \<open>The fuel of the loop is enough: it stops only where the loop of the code stops.\<close>

lemma service_list_loop_exit:
  "length (e_transfer_list e) < f \<Longrightarrow>
   service_list_loop f iod e (queue_head e) n k = (t', n', e', k') \<Longrightarrow>
   (case t' of None \<Rightarrow> True
     | Some i \<Rightarrow> x_cyclic (k_xfers k' i) \<or> n' \<le> x_desc_num (k_xfers k' i))"
proof (induction f arbitrary: e n k)
  case (Suc f)
  show ?case
  proof (cases "e_transfer_list e")
    case Nil
    with Suc.prems show ?thesis by (auto simp: queue_head_def)
  next
    case (Cons i q)
    let ?num = "x_desc_num (k_xfers k i)"
    define e1 where
      "e1 = (list_del_head e)\<lparr>e_desc_dequeued := e_desc_dequeued (list_del_head e) + ?num\<rparr>"
    define k1 where "k1 = upd_xfer i (\<lambda>x. x\<lparr>x_state := TRANSFER_STATE_COMPLETED\<rparr>) k"
    obtain t2 e2 k2 where c: "engine_transfer_completion iod e1 (Some i) k1 = (t2, e2, k2)"
      by (cases "engine_transfer_completion iod e1 (Some i) k1")
    have "length (e_transfer_list e2) \<le> length (e_transfer_list e1)"
      using completion_queue [of e1 "Some i" k1] c by simp
    then have len: "length (e_transfer_list e2) < f"
      using Suc.prems(1) Cons by (simp add: e1_def list_del_head_def)
    show ?thesis
      using Suc.prems(2) Suc.IH [OF len] c Cons
      by (auto simp: queue_head_def e1_def [symmetric] k1_def [symmetric] Let_def split: if_splits)
  qed
qed simp

end

section \<open>The transfers a completion count pays for\<close>

text \<open>
  \<open>served X q n\<close> is the longest prefix of the queue \<open>q\<close> all of whose transfers \<open>n\<close> completed
  descriptors cover with at least one to spare; \<open>X\<close> gives the transfers. \<open>desc_sum\<close> adds up
  their descriptors in the code's 32-bit arithmetic.
\<close>

fun served :: "(xfer_id \<Rightarrow> xdma_transfer) \<Rightarrow> xfer_id list \<Rightarrow> u32 \<Rightarrow> xfer_id list" where
  "served X [] n = []"
| "served X (i # q) n =
     (if \<not> x_cyclic (X i) \<and> x_desc_num (X i) < n then i # served X q (n - x_desc_num (X i)) else [])"

definition desc_sum :: "(xfer_id \<Rightarrow> xdma_transfer) \<Rightarrow> xfer_id list \<Rightarrow> u32" where
  "desc_sum X q = (\<Sum>i\<leftarrow>q. x_desc_num (X i))"

definition sync_queue :: "xdma_engine \<Rightarrow> kstate \<Rightarrow> bool" where
  "sync_queue e k \<longleftrightarrow> (\<forall>i\<in>set (e_transfer_list e). x_cb (k_xfers k i) = None)"

definition mark :: "xfer_id set \<Rightarrow> transfer_state \<Rightarrow> (xfer_id \<Rightarrow> xdma_transfer) \<Rightarrow> xfer_id \<Rightarrow> xdma_transfer" where
  "mark S st X = (\<lambda>i. if i \<in> S then (X i)\<lparr>x_state := st\<rparr> else X i)"

lemma mark_frame [simp]:
  "x_desc_num (mark S st X i) = x_desc_num (X i)" "x_cyclic (mark S st X i) = x_cyclic (X i)"
  "x_cb (mark S st X i) = x_cb (X i)" "x_flags (mark S st X i) = x_flags (X i)"
  "x_last_in_request (mark S st X i) = x_last_in_request (X i)"
  by (simp_all add: mark_def)

lemma served_mark [simp]: "served (mark S st X) q n = served X q n"
  by (induction q arbitrary: n) simp_all

lemma served_prefix: "served X q n @ drop (length (served X q n)) q = q"
  by (induction q arbitrary: n) simp_all

lemma set_served: "set (served X q n) \<subseteq> set q"
  by (metis served_prefix set_append Un_upper1)

lemma kstate_swap: "k\<lparr>k_xfers := X, k_trace := T\<rparr> = k\<lparr>k_trace := T, k_xfers := X\<rparr>"
  by simp

lemma completion_sync:
  "x_cb (k_xfers k i) = None \<Longrightarrow>
   engine_transfer_completion iod e (Some i) k = (Some i, e, log_event (WakeUp (XferWq i)) k)"
  by (simp add: engine_transfer_completion_def)

lemma service_list_loop_sync:
  assumes "length (e_transfer_list e) < f" and "sync_queue e k"
  shows "service_list_loop f iod e (queue_head e) n k =
    (let s = served (k_xfers k) (e_transfer_list e) n;
         e' = e\<lparr>e_transfer_list := drop (length s) (e_transfer_list e),
               e_desc_dequeued := e_desc_dequeued e + desc_sum (k_xfers k) s\<rparr>
     in (queue_head e', n - desc_sum (k_xfers k) s, e',
         k\<lparr>k_trace := k_trace k @ map (\<lambda>i. WakeUp (XferWq i)) s,
           k_xfers := mark (set s) TRANSFER_STATE_COMPLETED (k_xfers k)\<rparr>))"
  using assms
proof (induction f arbitrary: e n k)
  case (Suc f)
  show ?case
  proof (cases "e_transfer_list e")
    case Nil
    then show ?thesis by (simp add: queue_head_def desc_sum_def mark_def)
  next
    case (Cons i q)
    have cb: "x_cb (k_xfers k i) = None" using Suc.prems(2) Cons by (simp add: sync_queue_def)
    show ?thesis
    proof (cases "\<not> x_cyclic (k_xfers k i) \<and> x_desc_num (k_xfers k i) < n")
      case False
      then show ?thesis using Cons by (auto simp: queue_head_def desc_sum_def mark_def)
    next
      case True
      define e1 where "e1 = e\<lparr>e_transfer_list := q,
        e_desc_dequeued := e_desc_dequeued e + x_desc_num (k_xfers k i)\<rparr>"
      define k1 where "k1 = k\<lparr>k_trace := k_trace k @ [WakeUp (XferWq i)],
        k_xfers := mark {i} TRANSFER_STATE_COMPLETED (k_xfers k)\<rparr>"
      have step: "service_list_loop (Suc f) iod e (queue_head e) n k
          = service_list_loop f iod e1 (queue_head e1) (n - x_desc_num (k_xfers k i)) k1"
        using True Cons cb
        by (simp add: queue_head_def [of e] Let_def completion_sync e1_def k1_def list_del_head_def
            upd_xfer_def log_event_def mark_def fun_upd_def kstate_swap cong: if_cong)
      have "sync_queue e1 k1"
        using Suc.prems(2) Cons by (simp add: sync_queue_def e1_def k1_def)
      moreover have "length (e_transfer_list e1) < f"
        using Suc.prems(1) Cons by (simp add: e1_def)
      moreover have "mark S TRANSFER_STATE_COMPLETED (mark {i} TRANSFER_STATE_COMPLETED X)
          = mark (insert i S) TRANSFER_STATE_COMPLETED X" for S X
        by (auto simp: mark_def)
      ultimately show ?thesis
        unfolding step using True Cons Suc.IH [of e1 k1]
        by (simp add: e1_def k1_def Let_def desc_sum_def algebra_simps)
    qed
  qed
qed simp

text \<open>The transfers whose waiters were woken, in order.\<close>

fun woken :: "io_event list \<Rightarrow> xfer_id list" where
  "woken [] = []"
| "woken (WakeUp (XferWq i) # t) = i # woken t"
| "woken (_ # t) = woken t"

lemma woken_append [simp]: "woken (t @ t') = woken t @ woken t'"
  by (induction t rule: woken.induct) auto

lemma woken_map [simp]: "woken (map (\<lambda>i. WakeUp (XferWq i)) s) = s"
  by (induction s) simp_all

lemma woken_start_writes [simp]: "woken (start_writes mp e x) = []"
  by (simp add: start_writes_def)

lemma engine_service_perf_frame:
  "\<exists>p t. engine_service_perf e n k = (0, e\<lparr>e_xdma_perf := p\<rparr>, k\<lparr>k_trace := k_trace k @ t\<rparr>)
     \<and> woken t = []"
proof (cases "e_xdma_perf e")
  case None
  then have "e\<lparr>e_xdma_perf := None\<rparr> = e" by (cases e) simp
  with None show ?thesis
    by (intro exI [of _ None] exI [of _ "[]"]) (simp add: engine_service_perf_def)
next
  case (Some p)
  then show ?thesis
    by (auto simp: engine_service_perf_def Let_def log_event_def
        intro: exI [of _ "[]"] exI [of _ "[WakeUp (PerfWq (e_regs e))]"])
qed

lemma engine_service_shutdown_eq:
  "engine_service_shutdown mp e k = (0, e\<lparr>e_running := False\<rparr>,
     k\<lparr>k_trace := k_trace (snd (snd (xdma_engine_stop mp e k))) @ [WakeUp (ShutdownWq (e_regs e))]\<rparr>)"
  by (simp add: engine_service_shutdown_def xdma_engine_stop_eq log_event_def)

text \<open>After a resume the engine runs exactly when there is something left to do.\<close>

lemma engine_service_resume_spec:
  assumes "engine_service_resume hw mp e k = (rv, e', k')"
  shows "rv = 0 \<and> e_transfer_list e' = e_transfer_list e \<and>
    (e_running e' \<longleftrightarrow> e_transfer_list e \<noteq> []) \<and> k_xfers k' = k_xfers k \<and>
    e_eop_flush e' = e_eop_flush e \<and> woken (k_trace k') = woken (k_trace k)"
proof (cases "\<not> e_running e \<and> e_transfer_list e \<noteq> []")
  case True
  then obtain i q where q: "e_transfer_list e = i # q" by (cases "e_transfer_list e") auto
  obtain v w where "engine_start hw mp e k = (Some i,
     e\<lparr>e_shutdown := ENGINE_SHUTDOWN_NONE, e_desc_dequeued := 0, e_status := w, e_running := True\<rparr>,
     k\<lparr>k_trace := k_trace k @ start_writes mp e (k_xfers k i)
         @ [Rd (Mmio (e_regs e + er_status)) v, Rd (Mmio (e_regs e + er_status)) w]\<rparr>)"
    using engine_start_eq True q by blast
  then show ?thesis
    using assms True by (auto simp: engine_service_resume_def)
next
  case False
  then show ?thesis
    using assms
    by (auto simp: engine_service_resume_def engine_service_shutdown_eq xdma_engine_stop_eq Let_def
        split: if_splits)
qed

definition final_state :: "xdma_engine \<Rightarrow> xdma_transfer \<Rightarrow> u32 \<Rightarrow> transfer_state" where
  "final_state e x m =
     (if engine_error e \<or> m < x_desc_num x then TRANSFER_STATE_FAILED else TRANSFER_STATE_COMPLETED)"

lemma engine_service_final_sync:
  assumes "x_cb (k_xfers k i) = None" and "\<not> e_eop_flush e"
    and "engine_service_final_transfer hw mp iod e (Some i) m k = (t', e', k')"
  shows "e_transfer_list e' = tl (e_transfer_list e) \<and> \<not> e_eop_flush e' \<and>
    x_state (k_xfers k' i) = final_state e (k_xfers k i) m \<and> x_cb (k_xfers k' i) = None \<and>
    (\<forall>j. j \<noteq> i \<longrightarrow> k_xfers k' j = k_xfers k j) \<and> woken (k_trace k') = woken (k_trace k) @ [i]"
  using assms
  by (auto simp: engine_service_final_transfer_def transfer_del_def engine_err_handle_def
      xdma_engine_stop_eq set_state_def completion_sync final_state_def list_del_head_def Let_def
      split: if_splits)

section \<open>One service of the engine\<close>

lemma engine_service_count_sync:
  assumes "sync_queue e k" and "\<not> e_eop_flush e" and "distinct (e_transfer_list e)"
    and s: "s = served (k_xfers k) (e_transfer_list e) (n - e_desc_dequeued e)"
    and r: "r = drop (length s) (e_transfer_list e)"
    and run: "engine_service_count hw mp iod e n k = (rv, e', k')"
  shows "e_transfer_list e' = tl r \<and>
    (\<forall>i\<in>set s. x_state (k_xfers k' i) = TRANSFER_STATE_COMPLETED) \<and>
    (r \<noteq> [] \<longrightarrow> x_state (k_xfers k' (hd r)) =
       final_state e (k_xfers k (hd r)) (n - e_desc_dequeued e - desc_sum (k_xfers k) s)) \<and>
    (\<forall>i. i \<notin> set (s @ take 1 r) \<longrightarrow> k_xfers k' i = k_xfers k i) \<and>
    woken (k_trace k') = woken (k_trace k) @ s @ take 1 r \<and>
    (e_running e' \<longleftrightarrow> e_transfer_list e' \<noteq> []) \<and> \<not> e_eop_flush e' \<and>
    (\<forall>i. x_cb (k_xfers k' i) = x_cb (k_xfers k i))"
proof -
  obtain p t where perf: "(if queue_head e \<noteq> None then engine_service_perf e n k else (0, e, k))
      = (0, e\<lparr>e_xdma_perf := p\<rparr>, k\<lparr>k_trace := k_trace k @ t\<rparr>)" and t: "woken t = []"
  proof (cases "queue_head e \<noteq> None")
    case False
    then show ?thesis
      using that [of "e_xdma_perf e" "[]"] by simp
  qed (use engine_service_perf_frame [of e n k] that in auto)
  define e1 where "e1 = e\<lparr>e_xdma_perf := p, e_transfer_list := r,
    e_desc_dequeued := e_desc_dequeued e + desc_sum (k_xfers k) s\<rparr>"
  define k1 where "k1 = k\<lparr>k_trace := (k_trace k @ t) @ map (\<lambda>i. WakeUp (XferWq i)) s,
    k_xfers := mark (set s) TRANSFER_STATE_COMPLETED (k_xfers k)\<rparr>"
  define m where "m = n - e_desc_dequeued e - desc_sum (k_xfers k) s"
  have list: "engine_service_transfer_list iod (e\<lparr>e_xdma_perf := p\<rparr>) (queue_head e)
      (n - e_desc_dequeued e) (k\<lparr>k_trace := k_trace k @ t\<rparr>) = (queue_head e1, m, e1, k1)"
    using service_list_loop_sync [of "e\<lparr>e_xdma_perf := p\<rparr>" "Suc (length (e_transfer_list e))"
        "k\<lparr>k_trace := k_trace k @ t\<rparr>" iod "n - e_desc_dequeued e"] assms(1)
    by (simp add: engine_service_transfer_list_def sync_queue_def queue_head_def Let_def
        e1_def k1_def m_def s r)
  obtain t2 e2 k2 where final:
      "engine_service_final_transfer hw mp iod e1 (queue_head e1) m k1 = (t2, e2, k2)"
    by (cases "engine_service_final_transfer hw mp iod e1 (queue_head e1) m k1")
  have q: "e_transfer_list e = s @ r" unfolding r s by (rule served_prefix [symmetric])
  have e2: "e_transfer_list e2 = tl r \<and> \<not> e_eop_flush e2 \<and>
    (\<forall>i\<in>set s. x_state (k_xfers k2 i) = TRANSFER_STATE_COMPLETED) \<and>
    (r \<noteq> [] \<longrightarrow> x_state (k_xfers k2 (hd r)) = final_state e (k_xfers k (hd r)) m) \<and>
    (\<forall>i. i \<notin> set (s @ take 1 r) \<longrightarrow> k_xfers k2 i = k_xfers k i) \<and>
    woken (k_trace k2) = woken (k_trace k) @ s @ take 1 r \<and>
    (\<forall>i. x_cb (k_xfers k2 i) = x_cb (k_xfers k i))"
  proof (cases r)
    case Nil
    then show ?thesis
      using final assms(2) t
      by (auto simp: queue_head_def e1_def k1_def engine_service_final_transfer_def mark_def)
  next
    case (Cons i r')
    then have i: "i \<notin> set s" "x_cb (k_xfers k1 i) = None"
      using assms(1,3) q by (auto simp: k1_def sync_queue_def)
    have fs: "e_transfer_list e2 = tl (e_transfer_list e1) \<and> \<not> e_eop_flush e2 \<and>
      x_state (k_xfers k2 i) = final_state e1 (k_xfers k1 i) m \<and> x_cb (k_xfers k2 i) = None \<and>
      (\<forall>j. j \<noteq> i \<longrightarrow> k_xfers k2 j = k_xfers k1 j) \<and> woken (k_trace k2) = woken (k_trace k1) @ [i]"
      using engine_service_final_sync [OF i(2), of e1 hw mp iod m t2 e2 k2] final assms(2) Cons
      by (auto simp: queue_head_def e1_def)
    have "x_cb (k_xfers k2 j) = x_cb (k_xfers k j)" for j
      using fs i(2) by (cases "j = i") (auto simp: k1_def)
    moreover have "\<forall>j\<in>set s. j \<noteq> i" using i(1) by blast
    ultimately show ?thesis
      using fs i(1) assms(3) q t Cons
      by (auto simp: e1_def k1_def mark_def final_state_def engine_error_def)
  qed
  have "engine_service_resume hw mp e2 k2 = (rv, e', k')"
    using run perf list final e2 by (simp add: engine_service_count_def Let_def)
  from engine_service_resume_spec [OF this] e2 show ?thesis
    unfolding m_def by simp
qed

text \<open>
  C1. When the engine (not in end-of-packet mode, transfers waited for synchronously) reports
  \<open>n\<close> completed descriptors, the transfers they fully pay for leave the queue from its head, in
  order, all \<^term>\<open>TRANSFER_STATE_COMPLETED\<close>; the next one in line also leaves it, completed
  if exactly its descriptors are left over and failed if the hardware reported an error or
  stopped inside it. Each of them is woken exactly once, in queue order; every other transfer is
  untouched and stays queued; and the engine is left running exactly when transfers remain.
\<close>

theorem engine_service_fifo:
  assumes "sync_queue e k" and "\<not> e_eop_flush e" and "distinct (e_transfer_list e)"
    and s: "s = served (k_xfers k) (e_transfer_list e) (n - e_desc_dequeued e)"
    and r: "r = drop (length s) (e_transfer_list e)"
    and run: "engine_service_count hw mp iod e n k = (rv, e', k')"
  shows "e_transfer_list e' = tl r \<and>
    (\<forall>i\<in>set s. x_state (k_xfers k' i) = TRANSFER_STATE_COMPLETED) \<and>
    (r \<noteq> [] \<longrightarrow> x_state (k_xfers k' (hd r)) =
       final_state e (k_xfers k (hd r)) (n - e_desc_dequeued e - desc_sum (k_xfers k) s)) \<and>
    (\<forall>i. i \<notin> set (s @ take 1 r) \<longrightarrow> k_xfers k' i = k_xfers k i) \<and>
    woken (k_trace k') = woken (k_trace k) @ s @ take 1 r \<and>
    (e_running e' \<longleftrightarrow> e_transfer_list e' \<noteq> [])"
  using engine_service_count_sync [OF assms] by blast

definition example_mp :: modparams where
  "example_mp = \<lparr>poll_mode = False, interrupt_mode = 0, enable_credit_mp = True,
     desc_blen_max = XDMA_DESC_BLEN_MAX\<rparr>"

definition example_queue :: kstate where
  "example_queue = \<lparr>k_trace = [], k_xfers = (\<lambda>i. zero_transfer
     \<lparr>x_desc_num := of_nat i, x_state := TRANSFER_STATE_SUBMITTED\<rparr>)\<rparr>"

text \<open>Two queued transfers of two and three descriptors, all five completed.\<close>

theorem engine_service_fifo_witness:
  "case engine_service_count (\<lambda>_ _. 0) example_mp (\<lambda>_ e k. (e, k))
       (zero_engine\<lparr>e_transfer_list := [2, 3, 9], e_running := True\<rparr>) 5 example_queue of
     (rv, e', k') \<Rightarrow> e_transfer_list e' = [9] \<and> woken (k_trace k') = [2, 3] \<and> e_running e' \<and>
       x_state (k_xfers k' 3) = TRANSFER_STATE_COMPLETED"
proof -
  let ?e = "zero_engine\<lparr>e_transfer_list := [2, 3, 9], e_running := True\<rparr>"
  obtain rv e' k' where run: "engine_service_count (\<lambda>_ _. 0) example_mp (\<lambda>_ e k. (e, k)) ?e 5
      example_queue = (rv, e', k')"
    by (cases "engine_service_count (\<lambda>_ _. 0) example_mp (\<lambda>_ e k. (e, k)) ?e 5 example_queue")
  have s: "served (k_xfers example_queue) [2, 3, 9] 5 = [2]"
    by (simp add: example_queue_def zero_transfer_def)
  show ?thesis
    using engine_service_fifo [OF _ _ _ refl refl run] s
    by (simp add: run) (simp add: zero_engine_def sync_queue_def example_queue_def zero_transfer_def
        final_state_def engine_error_def desc_sum_def)
qed

context io_done_contract
begin

lemma service_list_loop_eop:
  "service_list_loop f iod e t n k = (t', n', e', k') \<Longrightarrow> e_eop_flush e' = e_eop_flush e"
proof (induction f arbitrary: e t n k)
  case (Suc f)
  show ?case
  proof (cases t)
    case (Some i)
    define e1 where "e1 = (list_del_head e)\<lparr>e_desc_dequeued :=
      e_desc_dequeued (list_del_head e) + x_desc_num (k_xfers k i)\<rparr>"
    define k1 where "k1 = upd_xfer i (\<lambda>x. x\<lparr>x_state := TRANSFER_STATE_COMPLETED\<rparr>) k"
    obtain t2 e2 k2 where c: "engine_transfer_completion iod e1 (Some i) k1 = (t2, e2, k2)"
      by (cases "engine_transfer_completion iod e1 (Some i) k1")
    have "e_eop_flush e2 = e_eop_flush e"
      using completion_eop [of e1 "Some i" k1] c by (simp add: e1_def list_del_head_def)
    then show ?thesis
      using Suc.prems Suc.IH c Some
      by (auto simp: e1_def [symmetric] k1_def [symmetric] Let_def split: if_splits)
  qed (use Suc.prems in auto)
qed auto

lemma transfer_del_eop: "e_eop_flush (fst (snd (transfer_del iod e i k))) = e_eop_flush e"
  by (simp add: transfer_del_def completion_eop list_del_head_def)

lemma final_transfer_eop:
  "\<not> e_eop_flush e \<Longrightarrow>
   e_eop_flush (fst (snd (engine_service_final_transfer hw mp iod e t m k))) = e_eop_flush e"
  by (auto simp: engine_service_final_transfer_def engine_err_handle_def xdma_engine_stop_eq Let_def
      transfer_del_eop split: option.splits prod.splits)

lemma service_count_alive:
  assumes "\<not> e_eop_flush e" and "engine_service_count hw mp iod e n k = (rv, e', k')"
  shows "e_running e' \<longleftrightarrow> e_transfer_list e' \<noteq> []"
proof -
  obtain rv1 e1 k1 where perf:
      "(if queue_head e \<noteq> None then engine_service_perf e n k else (0, e, k)) = (rv1, e1, k1)"
    by (metis prod_cases3)
  then have e1: "rv1 = 0" "\<not> e_eop_flush e1"
    using engine_service_perf_frame [of e n k] assms(1) by (auto split: if_splits)
  obtain t2 n2 e2 k2 where list: "engine_service_transfer_list iod e1 (queue_head e)
      (n - e_desc_dequeued e1) k1 = (t2, n2, e2, k2)" by (metis prod_cases4)
  obtain t3 e3 k3 where final:
      "engine_service_final_transfer hw mp iod e2 t2 n2 k2 = (t3, e3, k3)" by (metis prod_cases3)
  have "\<not> e_eop_flush e2"
    using service_list_loop_eop list e1(2) unfolding engine_service_transfer_list_def by blast
  then have "\<not> e_eop_flush e3" using final_transfer_eop [of e2 hw mp t2 n2 k2] final by simp
  then have "engine_service_resume hw mp e3 k3 = (rv, e', k')"
    using assms(2) perf list final e1 by (simp add: engine_service_count_def)
  from engine_service_resume_spec [OF this] show ?thesis by simp
qed

end

lemma engine_service_cases:
  assumes "engine_service hw mp iod e w k = (rv, e', k')"
  obtains (none) "e_transfer_list e' = e_transfer_list e" "k_xfers k' = k_xfers k"
      "e_eop_flush e' = e_eop_flush e"
  | (count) e1 n k1 rv1 where "engine_service_count hw mp iod e1 n k1 = (rv1, e', k')"
      "e_transfer_list e1 = e_transfer_list e" "k_xfers k1 = k_xfers k"
      "e_eop_flush e1 = e_eop_flush e" "e_running e"
  using assms
  by (auto simp: engine_service_def engine_status_read_eq engine_service_shutdown_eq xdma_io Let_def
      split: if_splits prod.splits)

context io_done_contract
begin

lemma service_no_stall:
  assumes "e_running e" and "\<not> e_eop_flush e"
    and "desc_writeback AND WB_COUNT_MASK \<noteq> 0 \<or>
         (\<forall>t. hw t (Mmio (e_regs e + er_completed_desc_count)) \<noteq> 0)"
    and "engine_service hw mp iod e desc_writeback k = (rv, e', k')"
  shows "e_running e' \<longleftrightarrow> e_transfer_list e' \<noteq> []"
proof -
  obtain e1 n k1 rv1 where "engine_service_count hw mp iod e1 n k1 = (rv1, e', k')"
    "\<not> e_eop_flush e1"
    using assms
    by (auto simp: engine_service_def engine_status_read_eq engine_service_shutdown_eq xdma_io Let_def
        split: if_splits prod.splits)
  then show ?thesis using service_count_alive by blast
qed

end

text \<open>
  The one way to stall: when the device stops without completing a descriptor (it reports
  zero), \<^verbatim>\<open>engine_service\<close> stops the engine and returns success without touching the queue, so
  a transfer that an error stopped at its first descriptor stays queued and submitted, nobody is
  woken, and the engine is not restarted; only the submitter's timeout ends the wait.
\<close>

theorem engine_service_zero_count:
  assumes "e_running e" and "\<forall>t. hw t (Mmio (e_regs e + er_completed_desc_count)) = 0"
    and "\<forall>t. hw t (Mmio (e_regs e + er_status_rc)) AND XDMA_STAT_BUSY = 0"
    and "engine_service hw mp iod e 0 k = (rv, e', k')"
  shows "rv = 0 \<and> e_transfer_list e' = e_transfer_list e \<and> k_xfers k' = k_xfers k \<and>
    woken (k_trace k') = woken (k_trace k) \<and> \<not> e_running e'"
  using assms
  by (auto simp: engine_service_def engine_status_read_eq engine_service_shutdown_eq
      xdma_engine_stop_eq xdma_io Let_def split: if_splits)

text \<open>The device reports a descriptor fetch error and no completion.\<close>

theorem engine_service_zero_count_witness:
  "case engine_service (\<lambda>_ l. if l = Mmio er_status_rc then XDMA_STAT_DESC_UNSUPP_REQ else 0)
       example_mp (\<lambda>_ e k. (e, k))
       (zero_engine\<lparr>e_dir := DMA_TO_DEVICE, e_transfer_list := [4], e_running := True\<rparr>) 0 example_queue of
     (rv, e', k') \<Rightarrow> rv = 0 \<and> e_transfer_list e' = [4] \<and> \<not> e_running e' \<and>
       x_state (k_xfers k' 4) = TRANSFER_STATE_SUBMITTED"
proof -
  let ?hw = "\<lambda>_ l. if l = Mmio er_status_rc then XDMA_STAT_DESC_UNSUPP_REQ else 0 :: u32"
  obtain rv e' k' where run: "engine_service ?hw example_mp (\<lambda>_ e k. (e, k))
      (zero_engine\<lparr>e_dir := DMA_TO_DEVICE, e_transfer_list := [4], e_running := True\<rparr>) 0
      example_queue = (rv, e', k')"
    by (metis prod_cases3)
  show ?thesis
    using engine_service_zero_count [OF _ _ _ run]
    by (simp add: run) (simp add: zero_engine_def xdma_consts example_queue_def)
qed

lemma transfer_queue_effect:
  "transfer_queue hw mp offline e i k = (rv, e', k') \<Longrightarrow>
   (if x_desc_num (k_xfers k i) = 0 then rv = - EINVAL \<and> e' = e \<and> k' = k
    else if offline \<or> e_shutdown e AND ENGINE_SHUTDOWN_REQUEST \<noteq> 0
    then rv = - EBUSY \<and> e' = e \<and> k' = k
    else rv = 0 \<and> e_transfer_list e' = e_transfer_list e @ [i] \<and> e_running e' \<and>
      e_eop_flush e' = e_eop_flush e \<and>
      k_xfers k' = (k_xfers k)(i := (k_xfers k i)\<lparr>x_state := TRANSFER_STATE_SUBMITTED\<rparr>) \<and>
      (e_running e \<longrightarrow> k_trace k' = k_trace k) \<and>
      (\<not> e_running e \<longrightarrow>
         (Mmio (e_regs e + er_control), start_control mp e) \<in> set (writes (k_trace k'))))"
proof -
  assume q: "transfer_queue hw mp offline e i k = (rv, e', k')"
  define e1 where "e1 = e\<lparr>e_transfer_list := e_transfer_list e @ [i]\<rparr>"
  obtain j rest where "e_transfer_list e1 = j # rest"
    unfolding e1_def by (cases "e_transfer_list e") auto
  moreover have "start_control mp e1 = start_control mp e"
    by (simp add: e1_def start_control_def)
  ultimately show ?thesis
    using q engine_start_eq [of e1 j rest hw mp "set_state i TRANSFER_STATE_SUBMITTED k"]
    by (cases "e_running e")
      (auto simp: transfer_queue_def e1_def set_state_def upd_xfer_def start_writes_def Let_def
        split: if_splits)
qed

text \<open>
  Queueing a transfer. A transfer without descriptors is refused with \<^term>\<open>- EINVAL\<close>; one for
  an offline device or an engine that is being shut down with \<^term>\<open>- EBUSY\<close>; in these cases
  nothing changes. Otherwise the transfer is marked submitted and appended to the queue, and the
  engine is running afterwards, an idle engine having been started on the head of the queue.
\<close>

theorem transfer_queue_spec:
  "transfer_queue hw mp offline e i k = (rv, e', k') \<Longrightarrow>
   (if x_desc_num (k_xfers k i) = 0 then rv = - EINVAL \<and> e' = e \<and> k' = k
    else if offline \<or> e_shutdown e AND ENGINE_SHUTDOWN_REQUEST \<noteq> 0
    then rv = - EBUSY \<and> e' = e \<and> k' = k
    else rv = 0 \<and> e_transfer_list e' = e_transfer_list e @ [i] \<and> e_running e' \<and>
      k_xfers k' = (k_xfers k)(i := (k_xfers k i)\<lparr>x_state := TRANSFER_STATE_SUBMITTED\<rparr>) \<and>
      (e_running e \<longrightarrow> k_trace k' = k_trace k) \<and>
      (\<not> e_running e \<longrightarrow>
         (Mmio (e_regs e + er_control), start_control mp e) \<in> set (writes (k_trace k'))))"
  by (drule transfer_queue_effect) (auto split: if_splits)

theorem transfer_queue_spec_witness:
  "case transfer_queue (\<lambda>_ _. 0) example_mp False zero_engine 3 example_queue of
     (rv, e', k') \<Rightarrow> rv = 0 \<and> e_transfer_list e' = [3] \<and> e_running e'"
proof -
  obtain rv e' k' where q: "transfer_queue (\<lambda>_ _. 0) example_mp False zero_engine 3 example_queue
      = (rv, e', k')"
    by (metis prod_cases3)
  show ?thesis
    using transfer_queue_spec [OF q]
    by (simp add: q) (simp add: zero_engine_def example_queue_def)
qed

text \<open>
  Aborting a transfer: the head of the queue is unlinked; any other transfer only changes its
  state from submitted to aborted and stays linked in the queue, where a later service still
  finds it.
\<close>

theorem transfer_abort_spec:
  "case transfer_abort e i k of (rv, e', k') \<Rightarrow>
     (if x_desc_num (k_xfers k i) = 0 then rv = - EINVAL \<and> e' = e \<and> k' = k
      else rv = 0 \<and> k_trace k' = k_trace k \<and>
        k_xfers k' = (k_xfers k)(i := (k_xfers k i)\<lparr>x_state :=
          if x_state (k_xfers k i) = TRANSFER_STATE_SUBMITTED then TRANSFER_STATE_ABORTED
          else x_state (k_xfers k i)\<rparr>) \<and>
        e' = e\<lparr>e_transfer_list :=
          if e_transfer_list e \<noteq> [] \<and> hd (e_transfer_list e) = i then tl (e_transfer_list e)
          else e_transfer_list e\<rparr>)"
  by (auto simp: transfer_abort_def queue_head_def list_del_head_def set_state_def Let_def
      split: list.splits)

section \<open>Runs of an engine\<close>

text \<open>
  The events an engine sees, in any order: a caller queues a freshly prepared transfer, the
  interrupt bottom half or the poll thread services it with write-back word \<open>w\<close>, the waiter of
  the transfer in progress times out, aborts it and stops the engine.
\<close>

datatype engine_event = Queue xfer_id | Service u32 | Timeout xfer_id

fun engine_step ::
    "device \<Rightarrow> modparams \<Rightarrow> io_done \<Rightarrow> xdma_engine \<times> kstate \<Rightarrow> engine_event \<Rightarrow> xdma_engine \<times> kstate" where
  "engine_step hw mp iod (e, k) (Queue i) =
     (if x_state (k_xfers k i) = TRANSFER_STATE_SUBMITTED then (e, k)
      else snd (transfer_queue hw mp False e i k))"
| "engine_step hw mp iod (e, k) (Service w) = snd (engine_service hw mp iod e w k)"
| "engine_step hw mp iod (e, k) (Timeout i) =
     (if queue_head e = Some i
      then let (_, e, k) = transfer_abort e i k in snd (xdma_engine_stop mp e k) else (e, k))"

fun engine_inv :: "xdma_engine \<times> kstate \<Rightarrow> bool" where
  "engine_inv (e, k) \<longleftrightarrow>
     distinct (e_transfer_list e) \<and> \<not> e_eop_flush e \<and> (\<forall>i. x_cb (k_xfers k i) = None) \<and>
     (\<forall>i. x_state (k_xfers k i) = TRANSFER_STATE_SUBMITTED \<longleftrightarrow> i \<in> set (e_transfer_list e))"

lemma engine_service_inv:
  assumes "engine_inv (e, k)" and "engine_service hw mp iod e w k = (rv, e', k')"
  shows "engine_inv (e', k')"
  using assms(2)
proof (cases rule: engine_service_cases)
  case none
  then show ?thesis using assms(1) by simp
next
  case (count e1 n k1 rv1)
  define s where "s = served (k_xfers k1) (e_transfer_list e1) (n - e_desc_dequeued e1)"
  define r where "r = drop (length s) (e_transfer_list e1)"
  have q: "e_transfer_list e = s @ r"
    unfolding r_def s_def count(2) by (rule served_prefix [symmetric])
  have "sync_queue e1 k1" "\<not> e_eop_flush e1" "distinct (e_transfer_list e1)"
    using assms(1) count by (auto simp: sync_queue_def)
  note res = engine_service_count_sync [OF this s_def r_def count(1)]
  show ?thesis
  proof (cases r)
    case Nil
    then show ?thesis using res assms(1) q count(2,3) by auto (metis transfer_state.distinct)
  next
    case (Cons i r')
    then show ?thesis
      using res assms(1) q count(2,3)
      by (auto simp: final_state_def) (metis transfer_state.distinct)+
  qed
qed

lemma transfer_queue_inv:
  assumes "engine_inv (e, k)" and "x_state (k_xfers k i) \<noteq> TRANSFER_STATE_SUBMITTED"
    and q: "transfer_queue hw mp False e i k = (rv, e', k')"
  shows "engine_inv (e', k')"
proof (cases "x_desc_num (k_xfers k i) = 0 \<or> e_shutdown e AND ENGINE_SHUTDOWN_REQUEST \<noteq> 0")
  case True
  then have "e' = e" "k' = k" using transfer_queue_effect [OF q] by metis+
  then show ?thesis using assms(1) by simp
next
  case False
  then have "e_transfer_list e' = e_transfer_list e @ [i]" "e_eop_flush e' = e_eop_flush e"
    "k_xfers k' = (k_xfers k)(i := (k_xfers k i)\<lparr>x_state := TRANSFER_STATE_SUBMITTED\<rparr>)"
    using transfer_queue_effect [OF q] by simp_all
  then show ?thesis using assms(1,2) by auto
qed

lemma timeout_inv:
  assumes "engine_inv (e, k)" and "queue_head e = Some i"
    and "transfer_abort e i k = (rv, e', k')"
  shows "engine_inv (e'\<lparr>e_running := False\<rparr>, k'\<lparr>k_trace := t\<rparr>)"
proof (cases "x_desc_num (k_xfers k i) = 0")
  case True
  then show ?thesis using assms by (simp add: transfer_abort_def)
next
  case False
  obtain q where q: "e_transfer_list e = i # q"
    using assms(2) by (cases "e_transfer_list e") (simp_all add: queue_head_def)
  then have "x_state (k_xfers k i) = TRANSFER_STATE_SUBMITTED" using assms(1) by simp
  then have "e' = list_del_head e" "k' = set_state i TRANSFER_STATE_ABORTED k"
    using assms(2,3) False by (simp_all add: transfer_abort_def)
  then show ?thesis
    using assms(1) q by (auto simp: list_del_head_def set_state_def)
qed

lemma engine_step_inv: "engine_inv s \<Longrightarrow> engine_inv (engine_step hw mp iod s ev)"
proof (cases s)
  case (Pair e k)
  assume inv: "engine_inv s"
  show ?thesis
  proof (cases ev)
    case (Queue i)
    obtain rv e' k' where q: "transfer_queue hw mp False e i k = (rv, e', k')" by (metis prod_cases3)
    then show ?thesis
      using inv Pair Queue transfer_queue_inv [OF _ _ q] by simp
  next
    case (Service w)
    obtain rv e' k' where q: "engine_service hw mp iod e w k = (rv, e', k')" by (metis prod_cases3)
    then show ?thesis
      using inv Pair Service engine_service_inv [OF _ q] by simp
  next
    case (Timeout i)
    then show ?thesis
      using inv Pair timeout_inv [of e k i] by (simp add: Let_def xdma_engine_stop_eq split: prod.splits)
  qed
qed

interpretation eng: event_machine "engine_step hw mp iod" engine_inv for hw mp iod
  by unfold_locales (rule engine_step_inv)



section \<open>Polling\<close>

lemma count_mask_le: "w AND WB_COUNT_MASK \<le> (w :: u32)"
  by (simp add: WB_COUNT_MASK_def and_mask_numerals word_le_nat_alt unat_take_bit)

definition wb_result :: "(nat \<Rightarrow> u64) \<Rightarrow> u64 \<Rightarrow> u32 \<Rightarrow> u32 \<Rightarrow> bool" where
  "wb_result jif timeout expected v \<longleftrightarrow>
     v AND WB_ERR_MASK \<noteq> 0 \<or> expected \<le> v \<or> (v < expected \<and> (\<exists>i. time_after (jif i) timeout))"

lemma wb_monitor_loop_returns:
  "time_after (jif n) timeout \<Longrightarrow> i \<le> n \<Longrightarrow>
   \<exists>v k'. wb_monitor_loop hw jif timeout wb expected i sl k = Some (v, k') \<and>
     wb_result jif timeout expected v \<and> k_xfers k' = k_xfers k \<and>
     woken (k_trace k') = woken (k_trace k)"
proof (induction "n - i" arbitrary: i sl k)
  case (0 i sl k)
  let ?v = "hw (k_trace k) (Coherent wb)"
  have "\<not> expected \<le> ?v \<Longrightarrow> \<not> expected < ?v AND WB_COUNT_MASK"
    using count_mask_le [of ?v] by simp
  then show ?case
    using 0 by (subst wb_monitor_loop.simps) (auto simp: xdma_io mem_write_def wb_result_def Let_def word_neq_0_conv)
next
  case (Suc d i sl k)
  let ?v = "hw (k_trace k) (Coherent wb)"
  define k1 where "k1 = (let k1 = snd (mem_read hw wb k);
      k1 = (if ?v \<noteq> 0 then mem_write 0 wb k1 else k1)
    in if sl \<noteq> 0 \<and> sl mod NUM_POLLS_PER_SCHED = 0 then log_event Schedule k1 else k1)"
  have k1: "k_xfers k1 = k_xfers k" "woken (k_trace k1) = woken (k_trace k)"
    by (auto simp: k1_def xdma_io mem_write_def Let_def)
  have mask: "\<not> expected \<le> ?v \<Longrightarrow> \<not> expected < ?v AND WB_COUNT_MASK"
    using count_mask_le [of ?v] by simp
  have "d = n - Suc i" "Suc i \<le> n" using Suc.hyps(2) by auto
  from Suc.hyps(1) [OF this(1) Suc.prems(1) this(2), of "sl + 1" k1]
  obtain v k' where IH: "wb_monitor_loop hw jif timeout wb expected (Suc i) (sl + 1) k1 = Some (v, k')"
    "wb_result jif timeout expected v" "k_xfers k' = k_xfers k1" "woken (k_trace k') = woken (k_trace k1)"
    by blast
  show ?case
    using IH k1 mask
    by (subst wb_monitor_loop.simps)
      (auto simp: xdma_io mem_write_def wb_result_def Let_def k1_def word_neq_0_conv cong: if_cong)
qed

text \<open>
  Polling the write-back word ends: if the clock passes the deadline at some reading, the
  monitor returns, however the device behaves; what it returns has the error flag, or has
  reached the expected count, or is a smaller count read when the deadline had passed (the
  branch of the code that would turn it into an error is never taken). The transfers are
  untouched and nobody is woken.
\<close>

theorem engine_service_wb_monitor_returns:
  assumes "expected \<noteq> 0" and "time_after (jif (Suc n)) (jif 0 + POLL_TIMEOUT_SECONDS * hz)"
  shows "\<exists>v k'. engine_service_wb_monitor hw jif hz e expected k = Some (v, k') \<and>
    (v AND WB_ERR_MASK \<noteq> 0 \<or> expected \<le> v \<or>
     (v < expected \<and> (\<exists>i. time_after (jif i) (jif 0 + POLL_TIMEOUT_SECONDS * hz)))) \<and>
    k_xfers k' = k_xfers k \<and> woken (k_trace k') = woken (k_trace k)"
  using wb_monitor_loop_returns [of jif "Suc n" "jif 0 + POLL_TIMEOUT_SECONDS * hz" 1 hw
      "e_poll_mode_addr_virt e" expected 0 k] assms
  by (auto simp: engine_service_wb_monitor_def wb_result_def)

theorem engine_service_wb_monitor_returns_witness:
  "\<exists>v k'. engine_service_wb_monitor (\<lambda>_ _. 0) (\<lambda>i. of_nat i) 100 zero_engine 4 example_queue
     = Some (v, k') \<and> k_xfers k' = k_xfers example_queue"
  using engine_service_wb_monitor_returns [of 4 "\<lambda>i. of_nat i" 1000 100 "\<lambda>_ _. 0" zero_engine example_queue]
  by (auto simp: time_after_def POLL_TIMEOUT_SECONDS_def)

end
