(* ===== verification/Xdma_Device.thy ===== *)
theory Xdma_Device
  imports Xdma_Service
begin

text \<open>
  The device structure of \<^verbatim>\<open>libxdma.h\<close>, its flags, the interrupt registers and the interrupt
  handlers. Arrays of the structure are functions from indices. A handler that another driver
  registered for a user interrupt is a number; calling it is logged, and what it returns is the
  parameter \<open>uh\<close>.
\<close>

section \<open>Records and flags\<close>

record xdma_user_irq =
  u_user_idx :: nat
  u_events_irq :: bool
  u_handler :: "nat option"
  u_dev :: nat

record xdma_dev =
  v_magic :: u64
  v_pdev :: nat
  v_idx :: int
  v_flags :: u32
  v_bar :: "nat \<Rightarrow> addr"
  v_user_bar_idx :: int
  v_config_bar_idx :: int
  v_bypass_bar_idx :: int
  v_regions_in_use :: bool
  v_got_regions :: bool
  v_user_max :: nat
  v_c2h_channel_max :: nat
  v_h2c_channel_max :: nat
  v_irq_count :: s32
  v_irq_line :: s32
  v_msi_enabled :: bool
  v_msix_enabled :: bool
  v_user_irq :: "nat \<Rightarrow> xdma_user_irq"
  v_mask_irq_user :: u32
  v_engines_num :: nat
  v_mask_irq_h2c :: u32
  v_mask_irq_c2h :: u32
  v_engine_h2c :: "nat \<Rightarrow> xdma_engine"
  v_engine_c2h :: "nat \<Rightarrow> xdma_engine"

definition config_bar :: "xdma_dev \<Rightarrow> addr" where
  "config_bar v = v_bar v (nat (v_config_bar_idx v))"

definition irq_reg :: "xdma_dev \<Rightarrow> addr \<Rightarrow> addr" where
  "irq_reg v off = config_bar v + XDMA_OFS_INT_CTRL + off"

definition xdma_device_flag_check :: "xdma_dev \<Rightarrow> u32 \<Rightarrow> bool" where
  "xdma_device_flag_check v f \<longleftrightarrow> v_flags v AND f \<noteq> 0"

text \<open>The third component counts how many times the lock is released.\<close>

definition xdma_device_flag_test_n_set :: "xdma_dev \<Rightarrow> u32 \<Rightarrow> int \<times> xdma_dev \<times> nat" where
  "xdma_device_flag_test_n_set v f =
     (if v_flags v AND f \<noteq> 0 then (1, v, 2) else (0, v\<lparr>v_flags := v_flags v OR f\<rparr>, 1))"

definition xdma_device_flag_set :: "xdma_dev \<Rightarrow> u32 \<Rightarrow> xdma_dev" where
  "xdma_device_flag_set v f = v\<lparr>v_flags := v_flags v OR f\<rparr>"

definition xdma_device_flag_clear :: "xdma_dev \<Rightarrow> u32 \<Rightarrow> xdma_dev" where
  "xdma_device_flag_clear v f = v\<lparr>v_flags := v_flags v AND NOT f\<rparr>"

section \<open>Interrupt registers\<close>

definition check_nonzero_interrupt_status :: "device \<Rightarrow> xdma_dev \<Rightarrow> kstate \<Rightarrow> kstate" where
  "check_nonzero_interrupt_status hw v k = reg_reads hw
     (map (irq_reg v) [ir_user_int_enable, ir_channel_int_enable, ir_user_int_request,
        ir_channel_int_request, ir_user_int_pending, ir_channel_int_pending]) k"

definition channel_interrupts_disable :: "xdma_dev \<Rightarrow> u32 \<Rightarrow> kstate \<Rightarrow> kstate" where
  "channel_interrupts_disable v m k = reg_write m (irq_reg v ir_channel_int_enable_w1c) k"

definition user_interrupts_enable :: "xdma_dev \<Rightarrow> u32 \<Rightarrow> kstate \<Rightarrow> kstate" where
  "user_interrupts_enable v m k = reg_write m (irq_reg v ir_user_int_enable_w1s) k"

definition user_interrupts_disable :: "xdma_dev \<Rightarrow> u32 \<Rightarrow> kstate \<Rightarrow> kstate" where
  "user_interrupts_disable v m k = reg_write m (irq_reg v ir_user_int_enable_w1c) k"

definition read_interrupts :: "device \<Rightarrow> xdma_dev \<Rightarrow> kstate \<Rightarrow> u32 \<times> kstate" where
  "read_interrupts hw v k =
     (let (hi, k) = reg_read hw (irq_reg v ir_user_int_request) k;
          (lo, k) = reg_read hw (irq_reg v ir_channel_int_request) k
      in (build_u32 hi lo, k))"

section \<open>Interrupt handlers\<close>

definition IRQ_NONE :: int where [xdma_consts]: "IRQ_NONE = 0"
definition IRQ_HANDLED :: int where [xdma_consts]: "IRQ_HANDLED = 1"

definition user_irq_service ::
    "(nat \<Rightarrow> int) \<Rightarrow> nat \<Rightarrow> xdma_dev \<Rightarrow> kstate \<Rightarrow> int \<times> xdma_dev \<times> kstate" where
  "user_irq_service uh u v k =
     (let user_irq = v_user_irq v u in
      case u_handler user_irq of
        Some h \<Rightarrow> (uh h, v, log_event (UserHandler h (u_user_idx user_irq)) k)
      | None \<Rightarrow>
          if \<not> u_events_irq user_irq
          then (IRQ_HANDLED,
                v\<lparr>v_user_irq := (v_user_irq v)(u := user_irq\<lparr>u_events_irq := True\<rparr>)\<rparr>,
                log_event (WakeUp (EventsWq u)) k)
          else (IRQ_HANDLED, v, k))"

text \<open>\<^verbatim>\<open>for (; user < max && user_irq; user++, mask <<= 1)\<close> with \<open>n\<close> users to go.\<close>

fun isr_user_loop ::
    "(nat \<Rightarrow> int) \<Rightarrow> nat \<Rightarrow> nat \<Rightarrow> u32 \<Rightarrow> u32 \<Rightarrow> xdma_dev \<Rightarrow> kstate \<Rightarrow> xdma_dev \<times> kstate" where
  "isr_user_loop uh 0 user m user_irq v k = (v, k)"
| "isr_user_loop uh (Suc n) user m user_irq v k =
     (if user_irq = 0 then (v, k)
      else if user_irq AND m \<noteq> 0
      then let (_, v, k) = user_irq_service uh user v k
           in isr_user_loop uh n (Suc user) (push_bit 1 m) (user_irq AND NOT m) v k
      else isr_user_loop uh n (Suc user) (push_bit 1 m) user_irq v k)"

fun isr_channel_loop ::
    "(nat \<Rightarrow> xdma_engine) \<Rightarrow> nat \<Rightarrow> nat \<Rightarrow> u32 \<Rightarrow> kstate \<Rightarrow> kstate" where
  "isr_channel_loop engines 0 channel m k = k"
| "isr_channel_loop engines (Suc n) channel m k =
     (if m = 0 then k
      else let engine = engines channel in
           if e_irq_bitmask engine AND m \<noteq> 0 \<and> e_magic engine = MAGIC_ENGINE
           then isr_channel_loop engines n (Suc channel) (m AND NOT (e_irq_bitmask engine))
                  (log_event (ScheduleWork (e_regs engine)) k)
           else isr_channel_loop engines n (Suc channel) m k)"

definition xdma_isr ::
    "device \<Rightarrow> (nat \<Rightarrow> int) \<Rightarrow> xdma_dev \<Rightarrow> kstate \<Rightarrow> int \<times> xdma_dev \<times> kstate" where
  "xdma_isr hw uh v k =
     (let (ch_irq, k) = reg_read hw (irq_reg v ir_channel_int_request) k;
          k = (if ch_irq \<noteq> 0 then channel_interrupts_disable v ch_irq k else k);
          (user_irq, k) = reg_read hw (irq_reg v ir_user_int_request) k;
          (v, k) = isr_user_loop uh (v_user_max v) 0 1 user_irq v k;
          k = isr_channel_loop (v_engine_h2c v) (v_h2c_channel_max v) 0
                (ch_irq AND v_mask_irq_h2c v) k;
          k = isr_channel_loop (v_engine_c2h v) (v_c2h_channel_max v) 0
                (ch_irq AND v_mask_irq_c2h v) k
      in (IRQ_HANDLED, v\<lparr>v_irq_count := v_irq_count v + 1\<rparr>, k))"

definition xdma_user_irq_handler ::
    "(nat \<Rightarrow> int) \<Rightarrow> nat \<Rightarrow> xdma_dev \<Rightarrow> kstate \<Rightarrow> int \<times> xdma_dev \<times> kstate" where
  "xdma_user_irq_handler uh u v k = user_irq_service uh u v k"

definition xdma_channel_irq ::
    "device \<Rightarrow> xdma_engine \<Rightarrow> xdma_dev \<Rightarrow> kstate \<Rightarrow> int \<times> xdma_dev \<times> kstate" where
  "xdma_channel_irq hw e v k =
     (let k = reg_write (e_interrupt_enable_mask_value e) (e_regs e + er_interrupt_enable_mask_w1c) k;
          k = snd (reg_read hw (irq_reg v ir_channel_int_pending) k);
          k = log_event (ScheduleWork (e_regs e)) k
      in (IRQ_HANDLED, v\<lparr>v_irq_count := v_irq_count v + 1\<rparr>, k))"

section \<open>What the interrupt handler dispatches\<close>

fun scheduled :: "io_event list \<Rightarrow> addr list" where
  "scheduled [] = []"
| "scheduled (ScheduleWork a # t) = a # scheduled t"
| "scheduled (_ # t) = scheduled t"

lemma scheduled_append [simp]: "scheduled (t @ t') = scheduled t @ scheduled t'"
  by (induction t rule: scheduled.induct) auto

definition fired :: "(nat \<Rightarrow> xdma_engine) \<Rightarrow> nat \<Rightarrow> u32 \<Rightarrow> nat list" where
  "fired engines n m = filter (\<lambda>c. e_irq_bitmask (engines c) AND m \<noteq> 0 \<and>
     e_magic (engines c) = MAGIC_ENGINE) [0..<n]"

definition disjoint_bits :: "(nat \<Rightarrow> xdma_engine) \<Rightarrow> nat \<Rightarrow> bool" where
  "disjoint_bits engines n \<longleftrightarrow>
     (\<forall>i<n. \<forall>j<n. i \<noteq> j \<longrightarrow> e_irq_bitmask (engines i) AND e_irq_bitmask (engines j) = 0)"

lemma and_not_disjoint: "a AND b = 0 \<Longrightarrow> a AND (m AND NOT b) = a AND m" for a b m :: u32
proof (rule bit_word_eqI)
  fix n assume "a AND b = 0"
  then have "\<not> bit (a AND b) n" by simp
  then show "bit (a AND (m AND NOT b)) n = bit (a AND m) n" if "n < LENGTH(32)"
    using that by (auto simp: bit_simps)
qed

lemma isr_channel_loop_trace:
  assumes "disjoint_bits engines (c + n)"
  shows "k_xfers (isr_channel_loop engines n c m k) = k_xfers k \<and>
    k_trace (isr_channel_loop engines n c m k) = k_trace k @
     map (\<lambda>c. ScheduleWork (e_regs (engines c)))
       (filter (\<lambda>c. e_irq_bitmask (engines c) AND m \<noteq> 0 \<and> e_magic (engines c) = MAGIC_ENGINE)
         [c..<c + n])"
  using assms
proof (induction n arbitrary: c m k)
  case (Suc n)
  let ?b = "\<lambda>c. e_irq_bitmask (engines c)"
  have "disjoint_bits engines (Suc c + n)" using Suc.prems by simp
  note IH = Suc.IH [OF this]
  have "?b d AND ?b c = 0" if "Suc c \<le> d" "d < Suc (c + n)" for d
    using Suc.prems that by (auto simp: disjoint_bits_def)
  then have keep: "filter (\<lambda>d. ?b d AND (m AND NOT (?b c)) \<noteq> 0 \<and> e_magic (engines d) = MAGIC_ENGINE)
        [Suc c..<Suc (c + n)]
      = filter (\<lambda>d. ?b d AND m \<noteq> 0 \<and> e_magic (engines d) = MAGIC_ENGINE) [Suc c..<Suc (c + n)]"
    by (intro filter_cong refl) (auto simp: and_not_disjoint)
  have "[c..<c + Suc n] = c # [Suc c..<Suc (c + n)]" by (simp add: upt_conv_Cons)
  then show ?case
    using IH [of "m AND NOT (?b c)" "log_event (ScheduleWork (e_regs (engines c))) k"] IH [of m k] keep
    by (simp add: Let_def)
qed simp

definition flag_user :: "xdma_user_irq \<Rightarrow> xdma_user_irq" where
  "flag_user u = (if u_handler u = None then u\<lparr>u_events_irq := True\<rparr> else u)"

lemma users_id: "f = v_user_irq v \<Longrightarrow> v\<lparr>v_user_irq := f\<rparr> = v"
  by (cases v) simp

lemma flag_user_id: "u_events_irq u \<Longrightarrow> flag_user u = u"
  by (cases u) (simp add: flag_user_def)

lemma user_irq_service_eq:
  assumes "user_irq_service uh u v k = (rv, v', k')"
  shows "v' = v\<lparr>v_user_irq := (v_user_irq v)(u := flag_user (v_user_irq v u))\<rparr> \<and>
    k_xfers k' = k_xfers k \<and> scheduled (k_trace k') = scheduled (k_trace k) \<and>
    writes (k_trace k') = writes (k_trace k)"
proof (cases "u_handler (v_user_irq v u) = None \<and> \<not> u_events_irq (v_user_irq v u)")
  case True
  then show ?thesis using assms by (auto simp: user_irq_service_def flag_user_def)
next
  case False
  then have "flag_user (v_user_irq v u) = v_user_irq v u"
    by (cases "u_handler (v_user_irq v u)") (auto simp: flag_user_id, simp add: flag_user_def)
  then show ?thesis
    using assms False by (auto simp: user_irq_service_def users_id Let_def split: option.splits)
qed

lemma push_bit_Suc_1: "push_bit 1 (push_bit n 1 :: u32) = push_bit (Suc n) 1"
  by (simp add: push_bit_push_bit)

lemma and_push_bit_iff: "(w AND push_bit n 1 \<noteq> 0) \<longleftrightarrow> bit w n" for w :: u32
  by (metis bit_iff_and_push_bit_not_eq_0)

text \<open>
  Each user interrupt line whose request bit is set is flagged (or its registered handler is
  called), and no other.
\<close>

lemma isr_user_loop_effect:
  "isr_user_loop uh n user (push_bit user 1) w v k = (v', k') \<Longrightarrow>
   v' = v\<lparr>v_user_irq := (\<lambda>u. if user \<le> u \<and> u < user + n \<and> bit w u
           then flag_user (v_user_irq v u) else v_user_irq v u)\<rparr> \<and>
   k_xfers k' = k_xfers k \<and> scheduled (k_trace k') = scheduled (k_trace k) \<and>
   writes (k_trace k') = writes (k_trace k)"
proof (induction n arbitrary: user w v k)
  case 0
  have "v\<lparr>v_user_irq := (\<lambda>u. if user \<le> u \<and> u < user \<and> bit w u
      then flag_user (v_user_irq v u) else v_user_irq v u)\<rparr> = v"
    by (rule users_id) (rule ext, auto)
  moreover have "v' = v" "k' = k" using 0 by simp_all
  ultimately show ?case by (simp only: add_0_right)
next
  case (Suc n)
  show ?case
  proof (cases "bit w user")
    case False
    have range: "user \<le> u \<and> u < user + Suc n \<and> bit w u \<longleftrightarrow>
        Suc user \<le> u \<and> u < Suc user + n \<and> bit w u" for u
      using False by (cases "u = user") auto
    consider "w = 0" "v' = v" "k' = k"
      | "isr_user_loop uh n (Suc user) (push_bit (Suc user) 1) w v k = (v', k')"
    proof -
      have "w AND push_bit user 1 = 0" using False and_push_bit_iff by blast
      with Suc.prems that show ?thesis
        by (cases "w = 0") (simp_all only: isr_user_loop.simps push_bit_Suc_1 if_True if_False
            prod.inject simp_thms)
    qed
    then show ?thesis
    proof cases
      case 1
      then show ?thesis by (simp add: users_id)
    next
      case 2
      then show ?thesis using Suc.IH [OF 2] unfolding range by simp
    qed
  next
    case True
    obtain rv v1 k1 where s: "user_irq_service uh user v k = (rv, v1, k1)" by (metis prod_cases3)
    let ?w = "w AND NOT (push_bit user 1)"
    have "isr_user_loop uh n (Suc user) (push_bit (Suc user) 1) ?w v1 k1 = (v', k')"
    proof -
      have "w AND push_bit user 1 \<noteq> 0" using True and_push_bit_iff by blast
      moreover have "w \<noteq> 0" using True by auto
      ultimately show ?thesis
        using Suc.prems s
        by (simp only: isr_user_loop.simps push_bit_Suc_1 if_False if_True Let_def prod.case simp_thms)
    qed
    note IH = Suc.IH [OF this]
    have bits: "bit ?w u \<longleftrightarrow> bit w u \<and> u \<noteq> user" for u
      by (auto simp: bit_simps dest: bit_imp_le_length)
    note v1 = user_irq_service_eq [OF s]
    have fg: "(\<lambda>u. if Suc user \<le> u \<and> u < Suc user + n \<and> bit ?w u then flag_user (v_user_irq v1 u)
          else v_user_irq v1 u)
        = (\<lambda>u. if user \<le> u \<and> u < user + Suc n \<and> bit w u then flag_user (v_user_irq v u)
          else v_user_irq v u)" (is "?f = ?g")
    proof (rule ext)
      fix u show "?f u = ?g u"
        using True v1 bits [of u] by (cases "u = user") auto
    qed
    have "v' = v1\<lparr>v_user_irq := ?g\<rparr>" using IH unfolding fg by (rule conjunct1)
    then have "v' = v\<lparr>v_user_irq := ?g\<rparr>" using v1 by simp
    with IH v1 show ?thesis by (intro conjI) simp_all
  qed
qed

text \<open>
  C24. The interrupt handler: it masks exactly the channel interrupts that fired, before anything
  else is written; it schedules the bottom half of every engine whose request bit is set, once
  each, host-to-card engines first and in channel order, and of no other; and it flags (or hands
  to the registered handler) exactly the user interrupts whose request bit is set among those the
  device has. The engines' request bits have to be disjoint, which \<^verbatim>\<open>engine_init\<close> sees to.
\<close>

theorem xdma_isr_dispatch:
  assumes "disjoint_bits (v_engine_h2c v) (v_h2c_channel_max v)"
    and "disjoint_bits (v_engine_c2h v) (v_c2h_channel_max v)"
    and ch: "ch = hw (k_trace k) (Mmio (irq_reg v ir_channel_int_request))"
    and us: "us = hw (k_trace k @ [Rd (Mmio (irq_reg v ir_channel_int_request)) ch] @
        (if ch = 0 then [] else [Wr (Mmio (irq_reg v ir_channel_int_enable_w1c)) ch]))
      (Mmio (irq_reg v ir_user_int_request))"
    and run: "xdma_isr hw uh v k = (rv, v', k')"
  shows "rv = IRQ_HANDLED \<and> v_irq_count v' = v_irq_count v + 1 \<and> k_xfers k' = k_xfers k \<and>
    writes (k_trace k') = writes (k_trace k) @
      (if ch = 0 then [] else [(Mmio (irq_reg v ir_channel_int_enable_w1c), ch)]) \<and>
    scheduled (k_trace k') = scheduled (k_trace k) @
      map (\<lambda>c. e_regs (v_engine_h2c v c))
        (fired (v_engine_h2c v) (v_h2c_channel_max v) (ch AND v_mask_irq_h2c v)) @
      map (\<lambda>c. e_regs (v_engine_c2h v c))
        (fired (v_engine_c2h v) (v_c2h_channel_max v) (ch AND v_mask_irq_c2h v)) \<and>
    (\<forall>u. v_user_irq v' u =
       (if u < v_user_max v \<and> bit us u then flag_user (v_user_irq v u) else v_user_irq v u))"
proof -
  let ?k1 = "k\<lparr>k_trace := k_trace k @ [Rd (Mmio (irq_reg v ir_channel_int_request)) ch] @
      (if ch = 0 then [] else [Wr (Mmio (irq_reg v ir_channel_int_enable_w1c)) ch]) @
      [Rd (Mmio (irq_reg v ir_user_int_request)) us]\<rparr>"
  obtain v1 k1 where loop: "isr_user_loop uh (v_user_max v) 0 1 us v ?k1 = (v1, k1)"
    by (cases "isr_user_loop uh (v_user_max v) 0 1 us v ?k1")
  then have u: "v1 = v\<lparr>v_user_irq := (\<lambda>u. if u < v_user_max v \<and> bit us u
        then flag_user (v_user_irq v u) else v_user_irq v u)\<rparr> \<and>
      k_xfers k1 = k_xfers k \<and> scheduled (k_trace k1) = scheduled (k_trace ?k1) \<and>
      writes (k_trace k1) = writes (k_trace ?k1)"
    using isr_user_loop_effect [of uh "v_user_max v" 0 us v ?k1 v1 k1] by simp
  have ss: "scheduled (map (\<lambda>c. ScheduleWork (f c)) cs) = map f cs"
    "writes (map (\<lambda>c. ScheduleWork (f c)) cs) = []" for f and cs :: "nat list"
    by (induction cs) simp_all
  let ?m = "\<lambda>mask. ch AND mask"
  let ?k2 = "isr_channel_loop (v_engine_h2c v1) (v_h2c_channel_max v1) 0 (?m (v_mask_irq_h2c v1)) k1"
  have "(rv, v', k') = (IRQ_HANDLED, v1\<lparr>v_irq_count := v_irq_count v1 + 1\<rparr>,
      isr_channel_loop (v_engine_c2h v1) (v_c2h_channel_max v1) 0 (?m (v_mask_irq_c2h v1)) ?k2)"
    using run loop
    by (auto simp: xdma_isr_def channel_interrupts_disable_def xdma_io ch [symmetric] us Let_def
        split: if_splits)
  then show ?thesis
    using u assms(1,2) isr_channel_loop_trace [of "v_engine_h2c v" 0 "v_h2c_channel_max v"]
      isr_channel_loop_trace [of "v_engine_c2h v" 0 "v_c2h_channel_max v"]
    by (simp add: fired_def ss)
qed

definition example_dev :: xdma_dev where
  "example_dev = \<lparr>v_magic = MAGIC_DEVICE, v_pdev = 1, v_idx = 0, v_flags = 0, v_bar = (\<lambda>_. 0),
     v_user_bar_idx = -1, v_config_bar_idx = 0, v_bypass_bar_idx = -1, v_regions_in_use = False,
     v_got_regions = True, v_user_max = 4, v_c2h_channel_max = 1, v_h2c_channel_max = 2,
     v_irq_count = 0, v_irq_line = 0, v_msi_enabled = True, v_msix_enabled = False,
     v_user_irq = (\<lambda>u. \<lparr>u_user_idx = u, u_events_irq = False, u_handler = None, u_dev = 0\<rparr>),
     v_mask_irq_user = 0, v_engines_num = 3, v_mask_irq_h2c = 3, v_mask_irq_c2h = 4,
     v_engine_h2c = (\<lambda>c. zero_engine\<lparr>e_magic := MAGIC_ENGINE, e_irq_bitmask := push_bit c 1,
       e_regs := of_nat c\<rparr>),
     v_engine_c2h = (\<lambda>c. zero_engine\<lparr>e_magic := MAGIC_ENGINE, e_irq_bitmask := 4, e_regs := 9\<rparr>)\<rparr>"

text \<open>Request word 6: the second host-to-card engine and the card-to-host engine; users 1 and 2.\<close>

theorem xdma_isr_dispatch_witness:
  "case xdma_isr (\<lambda>_ _. 6) (\<lambda>_. 1) example_dev \<lparr>k_trace = [], k_xfers = (\<lambda>_. zero_transfer)\<rparr> of
     (rv, v', k') \<Rightarrow> scheduled (k_trace k') = [1, 9] \<and> u_events_irq (v_user_irq v' 2)"
proof -
  obtain rv v' k' where run: "xdma_isr (\<lambda>_ _. 6) (\<lambda>_. 1) example_dev
      \<lparr>k_trace = [], k_xfers = (\<lambda>_. zero_transfer)\<rparr> = (rv, v', k')"
    by (metis prod_cases3)
  have "disjoint_bits (v_engine_h2c example_dev) 2" "disjoint_bits (v_engine_c2h example_dev) 1"
    by (auto simp: disjoint_bits_def example_dev_def less_2_cases_iff)
  then show ?thesis
    using xdma_isr_dispatch [OF _ _ refl refl run]
    by (simp add: run) (simp add: example_dev_def fired_def upt_rec flag_user_def zero_engine_def)
qed

end
