(* ===== verification/Xdma_Bars.thy ===== *)
theory Xdma_Bars
  imports Xdma_Device
begin

text \<open>
  Mapping the BARs of the device and finding out which one holds the XDMA registers. The services
  of the kernel's PCI layer that the driver calls are the fields of \<open>pci\<close>: sizes, addresses and
  return codes, which belong to the kernel and are arbitrary here. A mapping that succeeds is a
  resource acquired, \<^verbatim>\<open>pci_iounmap\<close> releases it.
\<close>

section \<open>Definitions\<close>

record pci =
  pci_resource_len :: "nat \<Rightarrow> nat"
  pci_iomap :: "nat \<Rightarrow> addr"
  pci_enable_device :: int
  pci_request_regions :: int
  pci_set_dma_mask :: "nat \<Rightarrow> int"
  pci_no_msi :: bool
  pci_bus_flags :: "u16 list"
  pci_find_capability :: "nat \<Rightarrow> bool"
  pci_alloc_irq_vectors :: "nat \<Rightarrow> int"
  pci_enable_msi :: int
  pci_irq :: u32
  pci_irq_vector :: "nat \<Rightarrow> u32"
  pci_request_irq :: "u32 \<Rightarrow> int"
  pci_interrupt_pin :: u8
  pci_dma_alloc :: "io_event list \<Rightarrow> nat \<Rightarrow> addr \<times> addr"

definition INT_MAX :: nat where [xdma_consts]: "INT_MAX = 2147483647"

fun unmap_bars_loop :: "nat list \<Rightarrow> xdma_dev \<Rightarrow> kstate \<Rightarrow> xdma_dev \<times> kstate" where
  "unmap_bars_loop [] v k = (v, k)"
| "unmap_bars_loop (i # is) v k =
     (if v_bar v i \<noteq> 0
      then unmap_bars_loop is (v\<lparr>v_bar := (v_bar v)(i := 0)\<rparr>) (log_event (Release (ResBar i)) k)
      else unmap_bars_loop is v k)"

definition unmap_bars :: "xdma_dev \<Rightarrow> kstate \<Rightarrow> xdma_dev \<times> kstate" where
  "unmap_bars v k = unmap_bars_loop [0..<XDMA_BAR_NUM] v k"

definition map_single_bar :: "pci \<Rightarrow> xdma_dev \<Rightarrow> nat \<Rightarrow> kstate \<Rightarrow> int \<times> xdma_dev \<times> kstate" where
  "map_single_bar pd v idx k =
     (let bar_len = pci_resource_len pd idx;
          v = v\<lparr>v_bar := (v_bar v)(idx := 0)\<rparr>
      in if bar_len = 0 then (0, v, k)
         else let map_len = (if INT_MAX < bar_len then INT_MAX else bar_len);
                  bar = pci_iomap pd idx
              in if bar = 0 then (- 1, v, k)
                 else (int map_len, v\<lparr>v_bar := (v_bar v)(idx := bar)\<rparr>,
                       log_event (Acquire (ResBar idx)) k))"

definition is_config_bar :: "device \<Rightarrow> xdma_dev \<Rightarrow> nat \<Rightarrow> kstate \<Rightarrow> bool \<times> kstate" where
  "is_config_bar hw v idx k =
     (let (irq_id, k) = reg_read hw (v_bar v idx + XDMA_OFS_INT_CTRL) k;
          (cfg_id, k) = reg_read hw (v_bar v idx + XDMA_OFS_CONFIG) k
      in (irq_id AND 0xffff0000 = IRQ_BLOCK_ID \<and> cfg_id AND 0xffff0000 = CONFIG_BLOCK_ID, k))"

definition identify_bars :: "xdma_dev \<Rightarrow> nat list \<Rightarrow> nat \<Rightarrow> int \<times> xdma_dev" where
  "identify_bars v bar_id_list config_bar_pos =
     (let num_bars = length bar_id_list in
      if num_bars = 2
      then (0, if config_bar_pos = 0 then v\<lparr>v_bypass_bar_idx := int (bar_id_list ! 1)\<rparr>
               else if config_bar_pos = 1 then v\<lparr>v_user_bar_idx := int (bar_id_list ! 0)\<rparr>
               else v)
      else if num_bars = 3 \<or> num_bars = 4
      then (0, if config_bar_pos = 1 \<or> config_bar_pos = 2
               then v\<lparr>v_user_bar_idx := int (bar_id_list ! 0),
                      v_bypass_bar_idx := int (bar_id_list ! (num_bars - 1))\<rparr>
               else v)
      else (0, v))"

text \<open>
  The loop over the BARs: whether a mapping failed, and the list of the BARs present in the
  order found, with the position in it of the configuration BAR.
\<close>

fun map_bars_loop ::
    "device \<Rightarrow> pci \<Rightarrow> nat list \<Rightarrow> xdma_dev \<Rightarrow> nat list \<Rightarrow> nat \<Rightarrow> kstate
     \<Rightarrow> bool \<times> xdma_dev \<times> nat list \<times> nat \<times> kstate" where
  "map_bars_loop hw pd [] v ids pos k = (True, v, ids, pos, k)"
| "map_bars_loop hw pd (i # is) v ids pos k =
     (let (bar_len, v, k) = map_single_bar pd v i k in
      if bar_len = 0 then map_bars_loop hw pd is v ids pos k
      else if bar_len < 0 then (False, v, ids, pos, k)
      else if int (unat XDMA_BAR_SIZE) \<le> bar_len \<and> v_config_bar_idx v < 0
      then let (config, k) = is_config_bar hw v i k
           in if config
              then map_bars_loop hw pd is (v\<lparr>v_config_bar_idx := int i\<rparr>) (ids @ [i]) (length ids) k
              else map_bars_loop hw pd is v (ids @ [i]) pos k
      else map_bars_loop hw pd is v (ids @ [i]) pos k)"

definition map_bars :: "device \<Rightarrow> pci \<Rightarrow> xdma_dev \<Rightarrow> kstate \<Rightarrow> int \<times> xdma_dev \<times> kstate" where
  "map_bars hw pd v k =
     (let (ok, v, ids, pos, k) = map_bars_loop hw pd [0..<XDMA_BAR_NUM] v [] 0 k in
      if \<not> ok \<or> v_config_bar_idx v < 0
      then let (v, k) = unmap_bars v k in (- EINVAL, v, k)
      else let (rv, v) = identify_bars v ids pos
           in if rv < 0 then (rv, v, k) else (0, v, k))"

section \<open>Every mapping is accounted for\<close>

text \<open>
  \<open>bars_step L v k v' k'\<close>: between the two states only the BARs in \<open>L\<close> were mapped or unmapped,
  and the log accounts for each of them; nothing else was acquired or released.
\<close>

definition mapped :: "xdma_dev \<Rightarrow> nat \<Rightarrow> int" where
  "mapped v i = (if v_bar v i \<noteq> 0 then 1 else 0)"

text \<open>Everything of the device structure but its BARs.\<close>

definition dev_core :: "xdma_dev \<Rightarrow> xdma_dev" where
  "dev_core v = v\<lparr>v_bar := (\<lambda>_. 0), v_user_bar_idx := 0, v_config_bar_idx := 0, v_bypass_bar_idx := 0\<rparr>"

definition bars_step :: "nat set \<Rightarrow> xdma_dev \<Rightarrow> kstate \<Rightarrow> xdma_dev \<Rightarrow> kstate \<Rightarrow> bool" where
  "bars_step L v k v' k' \<longleftrightarrow>
     (\<forall>i. held (k_trace k') (ResBar i) - mapped v' i = held (k_trace k) (ResBar i) - mapped v i) \<and>
     (\<forall>i. i \<notin> L \<longrightarrow> v_bar v' i = v_bar v i) \<and> k_xfers k' = k_xfers k \<and>
     set (k_trace k) \<subseteq> set (k_trace k') \<and> dev_core v' = dev_core v \<and>
     (\<forall>r. (\<forall>i. r \<noteq> ResBar i) \<longrightarrow> held (k_trace k') r = held (k_trace k) r)"

lemma bars_step_refl [simp]: "bars_step L v k v k"
  by (simp add: bars_step_def)

lemma bars_step_trans: "bars_step L v k v1 k1 \<Longrightarrow> bars_step L v1 k1 v2 k2 \<Longrightarrow> bars_step L v k v2 k2"
  unfolding bars_step_def by (metis order_trans)

lemma bars_step_mono: "bars_step L v k v' k' \<Longrightarrow> L \<subseteq> M \<Longrightarrow> bars_step M v k v' k'"
  unfolding bars_step_def by blast

lemma map_single_bar_step:
  assumes "map_single_bar pd v i k = (len, v', k')" and "v_bar v i = 0"
  shows "bars_step {i} v k v' k' \<and> v_config_bar_idx v' = v_config_bar_idx v \<and>
    (0 < len \<longleftrightarrow> v_bar v' i \<noteq> 0) \<and> (0 < len \<longrightarrow> len \<le> int (pci_resource_len pd i))"
  using assms
  by (auto simp: map_single_bar_def bars_step_def mapped_def dev_core_def INT_MAX_def Let_def split: if_splits)

lemma is_config_bar_reads:
  assumes "is_config_bar hw v i k = (c, k')"
  shows "bars_step {} v k v k' \<and> (c \<longrightarrow> (\<exists>a b. a AND 0xffff0000 = IRQ_BLOCK_ID \<and>
    b AND 0xffff0000 = CONFIG_BLOCK_ID \<and>
    k_trace k' = k_trace k @ [Rd (Mmio (v_bar v i + XDMA_OFS_INT_CTRL)) a,
                              Rd (Mmio (v_bar v i + XDMA_OFS_CONFIG)) b]))"
  using assms by (auto simp: is_config_bar_def xdma_io bars_step_def)

text \<open>A BAR that answered with the identifiers of the XDMA configuration space.\<close>

definition config_seen :: "pci \<Rightarrow> io_event list \<Rightarrow> xdma_dev \<Rightarrow> int \<Rightarrow> bool" where
  "config_seen pd t v c \<longleftrightarrow> (\<exists>i a b. c = int i \<and> i < XDMA_BAR_NUM \<and> v_bar v i \<noteq> 0 \<and>
     unat XDMA_BAR_SIZE \<le> pci_resource_len pd i \<and>
     Rd (Mmio (v_bar v i + XDMA_OFS_INT_CTRL)) a \<in> set t \<and> a AND 0xffff0000 = IRQ_BLOCK_ID \<and>
     Rd (Mmio (v_bar v i + XDMA_OFS_CONFIG)) b \<in> set t \<and> b AND 0xffff0000 = CONFIG_BLOCK_ID)"

definition config_ok :: "pci \<Rightarrow> xdma_dev \<Rightarrow> kstate \<Rightarrow> bool" where
  "config_ok pd v k \<longleftrightarrow>
     v_config_bar_idx v < 0 \<or> config_seen pd (k_trace k) v (v_config_bar_idx v)"

lemma config_ok_step:
  assumes "config_ok pd v k" and "bars_step L v k v' k'" and "\<forall>i\<in>L. v_bar v i = 0"
    and "v_config_bar_idx v' = v_config_bar_idx v"
  shows "config_ok pd v' k'"
proof (cases "v_config_bar_idx v < 0")
  case True
  then show ?thesis using assms(4) by (simp add: config_ok_def)
next
  case False
  with assms(1) obtain i a b where i: "v_config_bar_idx v = int i" "i < XDMA_BAR_NUM" "v_bar v i \<noteq> 0"
    "unat XDMA_BAR_SIZE \<le> pci_resource_len pd i"
    "Rd (Mmio (v_bar v i + XDMA_OFS_INT_CTRL)) a \<in> set (k_trace k)" "a AND 0xffff0000 = IRQ_BLOCK_ID"
    "Rd (Mmio (v_bar v i + XDMA_OFS_CONFIG)) b \<in> set (k_trace k)" "b AND 0xffff0000 = CONFIG_BLOCK_ID"
    unfolding config_ok_def config_seen_def by blast
  then have "v_bar v' i = v_bar v i" "set (k_trace k) \<subseteq> set (k_trace k')"
    using assms(2,3) unfolding bars_step_def by blast+
  with i assms(4) show ?thesis unfolding config_ok_def config_seen_def by auto
qed

lemma bars_step_config [simp]:
  "bars_step L v k (v'\<lparr>v_config_bar_idx := c\<rparr>) k' = bars_step L v k v' k'"
  "bars_step L (v\<lparr>v_config_bar_idx := c\<rparr>) k v' k' = bars_step L v k v' k'"
  by (simp_all add: bars_step_def mapped_def dev_core_def)

lemma map_bars_loop_inv:
  "map_bars_loop hw pd L v ids pos k = (ok, v', ids', pos', k') \<Longrightarrow> distinct L \<Longrightarrow>
   set L \<subseteq> {..<XDMA_BAR_NUM} \<Longrightarrow> \<forall>i\<in>set L. v_bar v i = 0 \<Longrightarrow> config_ok pd v k \<Longrightarrow>
   bars_step (set L) v k v' k' \<and> config_ok pd v' k'"
proof (induction L arbitrary: v ids pos k)
  case (Cons i L)
  obtain len v1 k1 where m: "map_single_bar pd v i k = (len, v1, k1)" by (metis prod_cases3)
  have "v_bar v i = 0" using Cons.prems(4) by simp
  note s1 = map_single_bar_step [OF m this]
  have rest: "distinct L" "set L \<subseteq> {..<XDMA_BAR_NUM}" "\<forall>j\<in>set L. v_bar v1 j = 0"
    using s1 Cons.prems(2-4) unfolding bars_step_def by (auto simp: insert_iff)
  have ok1: "config_ok pd v1 k1" 
    using config_ok_step [OF Cons.prems(5), of "{i}" v1 k1] s1 Cons.prems(4) by simp
  have step: "bars_step (set (i # L)) v k v'' k''" if "bars_step (set L) v1 k1 v'' k''" for v'' k''
    using bars_step_trans [OF bars_step_mono bars_step_mono, of "{i}" v k v1 k1 "set (i # L)" "set L" v'' k'']
      s1 that by auto
  note IH = Cons.IH [OF _ rest]
  obtain c k2 where ic: "is_config_bar hw v1 i k1 = (c, k2)" by (cases "is_config_bar hw v1 i k1")
  note ib = is_config_bar_reads [OF ic]
  have ok2: "config_ok pd v1 k2" using config_ok_step [OF ok1] ib by auto
  have step2: "bars_step (set (i # L)) v k v'' k''" if "bars_step (set L) v1 k2 v'' k''" for v'' k''
    using step bars_step_trans [OF bars_step_mono that, of "{}" v1 k1] ib by auto
  consider "len = 0" | "len < 0" | "0 < len" "\<not> (int (unat XDMA_BAR_SIZE) \<le> len \<and> v_config_bar_idx v1 < 0)"
    | "int (unat XDMA_BAR_SIZE) \<le> len" "0 < len" "v_config_bar_idx v1 < 0" "\<not> c"
    | "int (unat XDMA_BAR_SIZE) \<le> len" "0 < len" "v_config_bar_idx v1 < 0" "c" by linarith
  then show ?case
  proof cases
    case 1
    then show ?thesis using Cons.prems(1) m IH [OF _ ok1] step by simp
  next
    case 2
    then show ?thesis using Cons.prems(1) m ok1 step by simp
  next
    case 3
    then show ?thesis using Cons.prems(1) m IH [OF _ ok1] step by (auto split: if_splits)
  next
    case 4
    then show ?thesis using Cons.prems(1) m ic IH [OF _ ok2] step2 by simp
  next
    case 5
    have "int (unat XDMA_BAR_SIZE) \<le> int (pci_resource_len pd i)"
      using 5(1,2) s1 by (meson order_trans)
    then have "unat XDMA_BAR_SIZE \<le> pci_resource_len pd i" by (simp only: of_nat_le_iff)
    moreover have "i < XDMA_BAR_NUM" "v_bar v1 i \<noteq> 0" using 5(2) s1 Cons.prems(3) by auto
    ultimately have "config_ok pd (v1\<lparr>v_config_bar_idx := int i\<rparr>) k2"
      using ib 5(4) unfolding config_ok_def config_seen_def 
      by (auto simp del: of_nat_less_0_iff) blast
    moreover have "map_bars_loop hw pd L (v1\<lparr>v_config_bar_idx := int i\<rparr>) (ids @ [i]) (length ids) k2
        = (ok, v', ids', pos', k')" using 5 Cons.prems(1) m ic by simp
    ultimately show ?thesis using Cons.IH [OF _ rest(1,2)] rest(3) step2 by force
  qed
qed simp

lemma unmap_bars_loop_inv:
  "unmap_bars_loop L v k = (v', k') \<Longrightarrow>
   bars_step (set L) v k v' k' \<and> (\<forall>i\<in>set L. v_bar v' i = 0)"
proof (induction L arbitrary: v k)
  case (Cons i L)
  define v1 where "v1 = (if v_bar v i \<noteq> 0 then v\<lparr>v_bar := (v_bar v)(i := 0)\<rparr> else v)"
  define k1 where "k1 = (if v_bar v i \<noteq> 0 then log_event (Release (ResBar i)) k else k)"
  have "unmap_bars_loop L v1 k1 = (v', k')"
    using Cons.prems by (auto simp: v1_def k1_def split: if_splits)
  note IH = Cons.IH [OF this]
  have "bars_step {i} v k v1 k1" "v_bar v1 i = 0"
    by (auto simp: v1_def k1_def bars_step_def mapped_def dev_core_def)
  moreover have "v_bar v' i = 0"
    using IH calculation(2) unfolding bars_step_def by (cases "i \<in> set L") auto
  ultimately show ?case
    using IH bars_step_trans [OF bars_step_mono bars_step_mono, of "{i}" v k v1 k1 "set (i # L)" "set L"]
    by auto
qed simp

lemma identify_bars_frame:
  "identify_bars v ids pos = (rv, v') \<Longrightarrow> rv = 0 \<and> v_bar v' = v_bar v \<and>
   v_config_bar_idx v' = v_config_bar_idx v \<and> dev_core v' = dev_core v"
  by (auto simp: identify_bars_def dev_core_def Let_def split: if_splits)

lemma map_bars_step:
  assumes "\<forall>i<XDMA_BAR_NUM. v_bar v i = 0" and "v_config_bar_idx v < 0"
    and run: "map_bars hw pd v k = (rv, v', k')"
  shows "bars_step {..<XDMA_BAR_NUM} v k v' k' \<and>
    (if rv = 0 then config_seen pd (k_trace k') v' (v_config_bar_idx v')
     else rv = - EINVAL \<and> (\<forall>i<XDMA_BAR_NUM. v_bar v' i = 0))"
proof -
  obtain ok v1 ids pos k1 where loop: "map_bars_loop hw pd [0..<XDMA_BAR_NUM] v [] 0 k = (ok, v1, ids, pos, k1)"
    by (metis prod_cases5)
  have set: "set [0..<XDMA_BAR_NUM] = {..<XDMA_BAR_NUM}" by auto
  have inv: "bars_step {..<XDMA_BAR_NUM} v k v1 k1" "config_ok pd v1 k1"
    using map_bars_loop_inv [OF loop, unfolded set] assms(1,2) by (auto simp: config_ok_def)
  show ?thesis
  proof (cases "\<not> ok \<or> v_config_bar_idx v1 < 0")
    case True
    obtain v2 k2 where un: "unmap_bars_loop [0..<XDMA_BAR_NUM] v1 k1 = (v2, k2)" by (metis surj_pair)
    note u = unmap_bars_loop_inv [OF un, unfolded set]
    have "rv = - EINVAL" "v' = v2" "k' = k2"
      using run True un loop by (auto simp: map_bars_def unmap_bars_def)
    then show ?thesis
      using u bars_step_trans [OF inv(1)] by (auto simp: EINVAL_def)
  next
    case False
    obtain rv1 v2 where id: "identify_bars v1 ids pos = (rv1, v2)" by (metis surj_pair)
    note f = identify_bars_frame [OF id]
    have "rv = 0" "v' = v2" "k' = k1" using run False loop id f by (auto simp: map_bars_def)
    then show ?thesis
      using inv f False by (auto simp: bars_step_def mapped_def config_ok_def config_seen_def)
  qed
qed

text \<open>
  Mapping the BARs of a freshly allocated device: on success the configuration BAR is one of
  the six, is mapped, is at least 32 KiB long, and answered with the identifiers of the interrupt
  and configuration blocks; on failure no BAR is left mapped. In both cases the log accounts for
  every BAR: it has been mapped once and not unmapped exactly if the structure holds its address,
  so nothing leaks and nothing is unmapped twice.
\<close>

theorem map_bars_accounts:
  assumes "\<forall>i<XDMA_BAR_NUM. v_bar v i = 0" and "v_config_bar_idx v < 0"
    and "map_bars hw pd v k = (rv, v', k')"
  shows "(rv = 0 \<or> rv = - EINVAL) \<and>
    (rv = 0 \<longrightarrow> (\<exists>i a b. v_config_bar_idx v' = int i \<and> i < XDMA_BAR_NUM \<and> v_bar v' i \<noteq> 0 \<and>
       unat XDMA_BAR_SIZE \<le> pci_resource_len pd i \<and>
       Rd (Mmio (v_bar v' i + XDMA_OFS_INT_CTRL)) a \<in> set (k_trace k') \<and>
       a AND 0xffff0000 = IRQ_BLOCK_ID \<and>
       Rd (Mmio (v_bar v' i + XDMA_OFS_CONFIG)) b \<in> set (k_trace k') \<and>
       b AND 0xffff0000 = CONFIG_BLOCK_ID)) \<and>
    (rv \<noteq> 0 \<longrightarrow> (\<forall>i<XDMA_BAR_NUM. v_bar v' i = 0)) \<and>
    (\<forall>i<XDMA_BAR_NUM. held (k_trace k') (ResBar i) =
       held (k_trace k) (ResBar i) + (if v_bar v' i \<noteq> 0 then 1 else 0))"
proof -
  note step = map_bars_step [OF assms]
  have "held (k_trace k') (ResBar i) = held (k_trace k) (ResBar i) + mapped v' i"
    if "i < XDMA_BAR_NUM" for i
  proof -
    have "held (k_trace k') (ResBar i) - mapped v' i = held (k_trace k) (ResBar i) - mapped v i"
      using step unfolding bars_step_def by blast
    then show ?thesis using assms(1) that by (simp add: mapped_def [of v])
  qed
  then show ?thesis
    using step by (auto simp: mapped_def config_seen_def split: if_splits)
qed

definition example_pci :: pci where
  "example_pci = \<lparr>pci_resource_len = (\<lambda>i. if i = 0 then 4096 else if i = 2 then 65536 else 0),
     pci_iomap = (\<lambda>i. 0x10000 * of_nat (Suc i)), pci_enable_device = 0, pci_request_regions = 0,
     pci_set_dma_mask = (\<lambda>_. 0), pci_no_msi = False, pci_bus_flags = [0],
     pci_find_capability = (\<lambda>_. True),
     pci_alloc_irq_vectors = int, pci_enable_msi = 0, pci_irq = 30,
     pci_irq_vector = (\<lambda>i. 40 + of_nat i), pci_request_irq = (\<lambda>_. 0), pci_interrupt_pin = 1,
     pci_dma_alloc = (\<lambda>t n. (0x1000 * of_nat (Suc (length t)), 0x2000 * of_nat (Suc (length t))))\<rparr>"

definition example_bar_hw :: device where
  "example_bar_hw t l = (if l = Mmio 0x32000 then 0x1fc20006 else if l = Mmio 0x33000 then 0x1fc30006 else 0)"

theorem map_bars_accounts_witness:
  "case map_bars example_bar_hw example_pci
       (example_dev\<lparr>v_config_bar_idx := -1\<rparr>) \<lparr>k_trace = [], k_xfers = (\<lambda>_. zero_transfer)\<rparr> of
     (rv, v', k') \<Rightarrow> rv = 0 \<or> rv = - EINVAL"
  using map_bars_accounts [of "example_dev\<lparr>v_config_bar_idx := -1\<rparr>" example_bar_hw example_pci
      "\<lparr>k_trace = [], k_xfers = (\<lambda>_. zero_transfer)\<rparr>"]
  by (auto simp: example_dev_def split: prod.splits)

end
