(* ===== verification/Xdma_Irq.thy ===== *)
theory Xdma_Irq
  imports Xdma_Bars
begin

text \<open>
  Choosing, requesting, programming and releasing the interrupts of the device. A vector that
  \<^verbatim>\<open>request_irq\<close> granted is a resource acquired, \<^verbatim>\<open>free_irq\<close> releases it. The writes to the PCI
  configuration space (\<^verbatim>\<open>pci_check_intr_pend\<close>, \<^verbatim>\<open>pci_keep_intx_enabled\<close>) go to the kernel and are left out.
\<close>

section \<open>MSI and MSI-X\<close>

definition PCI_CAP_ID_MSI :: nat where "PCI_CAP_ID_MSI = 0x05"
definition PCI_CAP_ID_MSIX :: nat where "PCI_CAP_ID_MSIX = 0x11"
definition PCI_BUS_FLAGS_NO_MSI :: u16 where "PCI_BUS_FLAGS_NO_MSI = 1"

definition msi_msix_capable :: "pci \<Rightarrow> nat \<Rightarrow> bool" where
  "msi_msix_capable pd cap =
     (if pci_no_msi pd then False
      else if list_ex (\<lambda>flags. flags AND PCI_BUS_FLAGS_NO_MSI \<noteq> 0) (pci_bus_flags pd) then False
      else pci_find_capability pd cap)"

definition disable_msi_msix :: "xdma_dev \<Rightarrow> kstate \<Rightarrow> xdma_dev \<times> kstate" where
  "disable_msi_msix v k =
     (if v_msix_enabled v then (v\<lparr>v_msix_enabled := False\<rparr>, log_event (Release ResMsix) k)
      else if v_msi_enabled v then (v\<lparr>v_msi_enabled := False\<rparr>, log_event (Release ResMsi) k)
      else (v, k))"

definition enable_msi_msix ::
    "modparams \<Rightarrow> pci \<Rightarrow> xdma_dev \<Rightarrow> kstate \<Rightarrow> int \<times> xdma_dev \<times> kstate" where
  "enable_msi_msix mp pd v k =
     (if (interrupt_mode mp = 3 \<or> interrupt_mode mp = 0) \<and> msi_msix_capable pd PCI_CAP_ID_MSIX
      then let req_nvec = v_c2h_channel_max v + v_h2c_channel_max v + v_user_max v;
               rv = pci_alloc_irq_vectors pd req_nvec
           in (rv, v\<lparr>v_msix_enabled := True\<rparr>, if rv < 0 then k else log_event (Acquire ResMsix) k)
      else if (interrupt_mode mp = 1 \<or> interrupt_mode mp = 0) \<and> msi_msix_capable pd PCI_CAP_ID_MSI
      then let rv = pci_enable_msi pd
           in (rv, v\<lparr>v_msi_enabled := True\<rparr>, if rv < 0 then k else log_event (Acquire ResMsi) k)
      else (0, v, k))"

section \<open>The vector tables\<close>

definition vector_byte :: "nat \<Rightarrow> u32" where
  "vector_byte i = of_nat i AND 0x1f"

text \<open>
  \<^verbatim>\<open>for (k = 0; k < 4 && i < max; i++, k++, shift += 8) val |= (i & 0x1f) << shift\<close>, with \<open>c\<close>
  rounds to go; the result is the word and the value of \<open>i\<close> after the loop.
\<close>

fun pack_vectors :: "nat \<Rightarrow> nat \<Rightarrow> nat \<Rightarrow> nat \<Rightarrow> u32 \<Rightarrow> u32 \<times> nat" where
  "pack_vectors 0 i mx shift val = (val, i)"
| "pack_vectors (Suc c) i mx shift val =
     (if i < mx
      then pack_vectors c (Suc i) mx (shift + 8) (val OR push_bit shift (vector_byte i))
      else (val, i))"

lemma pack_vectors_next: "snd (pack_vectors c i mx shift val) = (if i < mx then min (i + c) mx else i)"
  by (induction c i mx shift val rule: pack_vectors.induct) auto

function prog_vectors :: "bool \<Rightarrow> addr \<Rightarrow> nat \<Rightarrow> nat \<Rightarrow> nat \<Rightarrow> kstate \<Rightarrow> kstate" where
  "prog_vectors clear table i mx j k =
     (if i < mx
      then let (val, i') = (if clear then (0, i + 4) else pack_vectors 4 i mx 0 0)
           in prog_vectors clear table i' mx (Suc j) (reg_write val (table + 4 * of_nat j) k)
      else k)"
  by pat_completeness auto

termination
proof (relation "measure (\<lambda>(_, _, i, mx, _). mx - i)")
  fix clear and table :: addr and i mx j k and x :: "u32 \<times> nat" and val i'
  assume "i < mx" "x = (if clear then (0, i + 4) else pack_vectors 4 i mx 0 0)" "(val, i') = x"
  then have "i < i'"
    using pack_vectors_next [of 4 i mx 0 0] by (cases clear) (auto simp: prod_eq_iff)
  then show "((clear, table, i', mx, Suc j, reg_write val (table + 4 * of_nat j) k),
      (clear, table, i, mx, j, k)) \<in> measure (\<lambda>(_, _, i, mx, _). mx - i)"
    using \<open>i < mx\<close> by auto
qed simp

declare prog_vectors.simps [simp del]

definition prog_irq_msix_user :: "xdma_dev \<Rightarrow> bool \<Rightarrow> kstate \<Rightarrow> kstate" where
  "prog_irq_msix_user v clear k =
     (let i = v_c2h_channel_max v + v_h2c_channel_max v; mx = i + v_user_max v
      in prog_vectors clear (irq_reg v ir_user_msi_vector) i mx 0 k)"

definition prog_irq_msix_channel :: "xdma_dev \<Rightarrow> bool \<Rightarrow> kstate \<Rightarrow> kstate" where
  "prog_irq_msix_channel v clear k =
     prog_vectors clear (irq_reg v ir_channel_msi_vector) 0
       (v_c2h_channel_max v + v_h2c_channel_max v) 0 k"

section \<open>Requesting and releasing\<close>

definition request_irq :: "pci \<Rightarrow> u32 \<Rightarrow> kstate \<Rightarrow> int \<times> kstate" where
  "request_irq pd vec k =
     (let rv = pci_request_irq pd vec
      in (rv, if rv = 0 then log_event (Acquire (ResIrq vec)) k else k))"

definition free_irq :: "u32 \<Rightarrow> kstate \<Rightarrow> kstate" where
  "free_irq vec k = log_event (Release (ResIrq vec)) k"

text \<open>The loop over the engines of one direction, whose vectors start at \<open>base\<close>.\<close>

fun irq_channel_setup_loop ::
    "pci \<Rightarrow> nat \<Rightarrow> nat list \<Rightarrow> (nat \<Rightarrow> xdma_engine) \<Rightarrow> kstate \<Rightarrow> int \<times> (nat \<Rightarrow> xdma_engine) \<times> kstate" where
  "irq_channel_setup_loop pd base [] engines k = (0, engines, k)"
| "irq_channel_setup_loop pd base (i # is) engines k =
     (let vector = pci_irq_vector pd (base + i);
          (rv, k) = request_irq pd vector k
      in if rv \<noteq> 0 then (rv, engines, k)
         else irq_channel_setup_loop pd base is
                (engines(i := (engines i)\<lparr>e_msix_irq_line := vector\<rparr>)) k)"

definition irq_msix_channel_setup :: "pci \<Rightarrow> xdma_dev \<Rightarrow> kstate \<Rightarrow> int \<times> xdma_dev \<times> kstate" where
  "irq_msix_channel_setup pd v k =
     (if \<not> v_msix_enabled v then (0, v, k)
      else let (rv, engines, k) =
             irq_channel_setup_loop pd 0 [0..<v_h2c_channel_max v] (v_engine_h2c v) k;
               v = v\<lparr>v_engine_h2c := engines\<rparr>
           in if rv \<noteq> 0 then (rv, v, k)
              else let (rv, engines, k) =
                irq_channel_setup_loop pd (v_h2c_channel_max v) [0..<v_c2h_channel_max v]
                  (v_engine_c2h v) k
              in (rv, v\<lparr>v_engine_c2h := engines\<rparr>, k))"

fun irq_channel_free_loop :: "nat list \<Rightarrow> (nat \<Rightarrow> xdma_engine) \<Rightarrow> kstate \<Rightarrow> kstate" where
  "irq_channel_free_loop [] engines k = k"
| "irq_channel_free_loop (i # is) engines k =
     (if e_msix_irq_line (engines i) = 0 then k
      else irq_channel_free_loop is engines (free_irq (e_msix_irq_line (engines i)) k))"

definition irq_msix_channel_teardown :: "xdma_dev \<Rightarrow> kstate \<Rightarrow> kstate" where
  "irq_msix_channel_teardown v k =
     (if \<not> v_msix_enabled v then k
      else let k = prog_irq_msix_channel v True k;
               k = irq_channel_free_loop [0..<v_h2c_channel_max v] (v_engine_h2c v) k
           in irq_channel_free_loop [0..<v_c2h_channel_max v] (v_engine_c2h v) k)"

fun irq_user_setup_loop :: "pci \<Rightarrow> nat \<Rightarrow> nat list \<Rightarrow> kstate \<Rightarrow> int \<times> nat \<times> kstate" where
  "irq_user_setup_loop pd j [] k = (0, j, k)"
| "irq_user_setup_loop pd j (i # is) k =
     (let (rv, k) = request_irq pd (pci_irq_vector pd j) k
      in if rv \<noteq> 0 then (rv, j, k) else irq_user_setup_loop pd (Suc j) is k)"

text \<open>The clean-up loop \<^verbatim>\<open>for (i--, j--; i >= 0; i--, j--)\<close> over the \<open>n\<close> vectors below \<open>j\<close>.\<close>

fun irq_user_undo :: "pci \<Rightarrow> nat \<Rightarrow> nat \<Rightarrow> kstate \<Rightarrow> kstate" where
  "irq_user_undo pd 0 j k = k"
| "irq_user_undo pd (Suc n) j k =
     irq_user_undo pd n (j - 1) (free_irq (pci_irq_vector pd (j - 1)) k)"

definition irq_msix_user_setup :: "pci \<Rightarrow> xdma_dev \<Rightarrow> kstate \<Rightarrow> int \<times> kstate" where
  "irq_msix_user_setup pd v k =
     (let j0 = v_h2c_channel_max v + v_c2h_channel_max v;
          (rv, j, k) = irq_user_setup_loop pd j0 [0..<v_user_max v] k
      in (rv, if rv \<noteq> 0 then irq_user_undo pd (j - j0) j k else k))"

definition irq_msix_user_teardown :: "pci \<Rightarrow> xdma_dev \<Rightarrow> kstate \<Rightarrow> kstate" where
  "irq_msix_user_teardown pd v k =
     (if \<not> v_msix_enabled v then k
      else let j = v_h2c_channel_max v + v_c2h_channel_max v;
               k = prog_irq_msix_user v True k
           in fold (\<lambda>i. free_irq (pci_irq_vector pd (j + i))) [0..<v_user_max v] k)"

definition irq_msi_setup :: "pci \<Rightarrow> xdma_dev \<Rightarrow> kstate \<Rightarrow> int \<times> xdma_dev \<times> kstate" where
  "irq_msi_setup pd v k =
     (let (rv, k) = request_irq pd (pci_irq pd) k in (rv, v\<lparr>v_irq_line := pci_irq pd\<rparr>, k))"

definition irq_legacy_setup :: "pci \<Rightarrow> xdma_dev \<Rightarrow> kstate \<Rightarrow> int \<times> xdma_dev \<times> kstate" where
  "irq_legacy_setup pd v k =
     (let val = pci_interrupt_pin pd in
      if val = 0 then (- EINVAL, v, k)
      else let k = (if 1 < val
                    then let val = ucast (val - 1) :: u32;
                             w = push_bit 24 val OR push_bit 16 val OR push_bit 8 val OR val
                         in fold (\<lambda>off. reg_write w (config_bar v + off))
                              [0x2080, 0x2084, 0x2088, 0x208C, 0x20A0, 0x20A4] k
                    else k);
               (rv, k) = request_irq pd (pci_irq pd) k
           in (rv, v\<lparr>v_irq_line := pci_irq pd\<rparr>, k))"

definition irq_teardown :: "pci \<Rightarrow> xdma_dev \<Rightarrow> kstate \<Rightarrow> kstate" where
  "irq_teardown pd v k =
     (if v_msix_enabled v
      then irq_msix_user_teardown pd v (irq_msix_channel_teardown v k)
      else if v_irq_line v \<noteq> - 1 then free_irq (v_irq_line v) k else k)"

definition irq_setup :: "pci \<Rightarrow> xdma_dev \<Rightarrow> kstate \<Rightarrow> int \<times> xdma_dev \<times> kstate" where
  "irq_setup pd v k =
     (if v_msix_enabled v
      then let (rv, v, k) = irq_msix_channel_setup pd v k in
           if rv \<noteq> 0 then (rv, v, k)
           else let (rv, k) = irq_msix_user_setup pd v k in
                if rv \<noteq> 0 then (rv, v, k)
                else (0, v, prog_irq_msix_user v False (prog_irq_msix_channel v False k))
      else if v_msi_enabled v then irq_msi_setup pd v k
      else irq_legacy_setup pd v k)"

section \<open>The programmed vectors\<close>

lemma bit_push_bit_u32: "bit (push_bit s (x :: u32)) n \<longleftrightarrow> s \<le> n \<and> n < 32 \<and> bit x (n - s)"
  by (auto simp: bit_simps)

lemma bit_pack_vectors:
  "bit (fst (pack_vectors c i mx s v)) n \<longleftrightarrow> bit v n \<or>
     (\<exists>q<c. i + q < mx \<and> s + 8 * q \<le> n \<and> n < 32 \<and>
        bit (vector_byte (i + q)) (n - (s + 8 * q)))"
proof (induction c i mx s v rule: pack_vectors.induct)
  case (2 c i mx s v)
  show ?case
  proof (cases "i < mx")
    case True
    have split: "(\<exists>q<Suc c. P q) \<longleftrightarrow> P 0 \<or> (\<exists>q<c. P (Suc q))" for P
      by (metis less_Suc_eq_0_disj)
    show ?thesis
      using 2 [OF True] True
      by (simp add: split bit_or_iff bit_push_bit_u32 algebra_simps)
  qed auto
qed simp

lemma low_byte_bit: "bit (vector_byte i) n \<Longrightarrow> n < 8"
proof -
  have "(0x1f :: u32) = mask 5" by (simp add: mask_eq_exp_minus_1)
  then show "bit (vector_byte i) n \<Longrightarrow> n < 8" by (simp add: vector_byte_def bit_simps)
qed

lemma pack_vectors_byte:
  assumes "q < 4" and "i + q < mx"
  shows "drop_bit (8 * q) (fst (pack_vectors 4 i mx 0 0)) AND 0xff = vector_byte (i + q)"
proof (rule bit_word_eqI)
  fix n assume "n < LENGTH(32)"
  have only: "p = q" if "p < 4" "8 * p \<le> 8 * q + n" "n < 8"
      "bit (vector_byte (i + p)) (8 * q + n - 8 * p)" for p
    using low_byte_bit [OF that(4)] that(2,3) by linarith
  have "bit (drop_bit (8 * q) (fst (pack_vectors 4 i mx 0 0)) AND 0xff) n \<longleftrightarrow>
      n < 8 \<and> bit (fst (pack_vectors 4 i mx 0 0)) (8 * q + n)"
    by (auto simp: and_mask_numerals bit_simps)
  also have "\<dots> \<longleftrightarrow> n < 8 \<and> bit (vector_byte (i + q)) n"
  proof (cases "n < 8")
    case True
    have "(\<exists>p<4. i + p < mx \<and> 0 + 8 * p \<le> 8 * q + n \<and> 8 * q + n < 32 \<and>
        bit (vector_byte (i + p)) (8 * q + n - (0 + 8 * p))) \<longleftrightarrow> bit (vector_byte (i + q)) n"
      (is "?L \<longleftrightarrow> ?R")
    proof
      assume ?L
      then obtain p where "p < 4" "8 * p \<le> 8 * q + n" "bit (vector_byte (i + p)) (8 * q + n - 8 * p)"
        by auto
      moreover from this have "p = q" using only True by blast
      ultimately show ?R by simp
    next
      assume ?R
      then show ?L using assms True by (intro exI [of _ q]) simp
    qed
    then show ?thesis unfolding bit_pack_vectors by simp
  qed simp
  finally show "bit (drop_bit (8 * q) (fst (pack_vectors 4 i mx 0 0)) AND 0xff) n
      = bit (vector_byte (i + q)) n"
    using low_byte_bit by blast
qed

lemma prog_vectors_writes:
  "writes (k_trace (prog_vectors False table i mx j k)) = writes (k_trace k) @
     map (\<lambda>m. (Mmio (table + 4 * of_nat (j + m)), fst (pack_vectors 4 (i + 4 * m) mx 0 0)))
       [0..<(mx - i + 3) div 4]"
proof (induction "(mx - i + 3) div 4" arbitrary: i j k)
  case 0
  then have "\<not> i < mx" by presburger
  then show ?case using 0 by (subst prog_vectors.simps) simp
next
  case (Suc c)
  then have i: "i < mx" by presburger
  obtain w where w: "pack_vectors 4 i mx 0 0 = (w, min (i + 4) mx)"
    using pack_vectors_next [of 4 i mx 0 0] i by (metis prod.collapse)
  have c: "c = (mx - min (i + 4) mx + 3) div 4" using Suc.hyps(2) i by (simp add: min_def) linarith
  have cons: "[0..<Suc c] = 0 # map Suc [0..<c]" by (simp add: upt_conv_Cons map_Suc_upt)
  have eq: "pack_vectors 4 (min (i + 4) mx + 4 * m) mx 0 0 = pack_vectors 4 (i + 4 * Suc m) mx 0 0"
    if "m < c" for m
    using that c by (simp add: min_def add.assoc split: if_splits)
  let ?f = "\<lambda>m. (Mmio (table + 4 * of_nat (j + m)), fst (pack_vectors 4 (i + 4 * m) mx 0 0))"
  let ?k = "reg_write w (table + 4 * of_nat j) k"
  have step: "prog_vectors False table i mx j k = prog_vectors False table (min (i + 4) mx) mx (Suc j) ?k"
    using i w by (subst prog_vectors.simps) simp
  have "map (\<lambda>m. (Mmio (table + 4 * of_nat (Suc j + m)),
      fst (pack_vectors 4 (min (i + 4) mx + 4 * m) mx 0 0))) [0..<c] = map (?f \<circ> Suc) [0..<c]"
    by (intro map_cong refl) (simp only: set_upt atLeastLessThan_iff eq comp_def add_Suc_right add_Suc)
  then have "writes (k_trace (prog_vectors False table i mx j k))
      = writes (k_trace ?k) @ map (?f \<circ> Suc) [0..<c]"
    unfolding step Suc.hyps(1) [OF c] c [symmetric] by (simp only:)
  moreover have "writes (k_trace ?k) = writes (k_trace k) @ [?f 0]" using w by simp
  ultimately show ?case
    unfolding Suc.hyps(2) [symmetric] cons by simp
qed

text \<open>
  The MSI-X table of the user interrupts: after \<^verbatim>\<open>prog_irq_msix_user\<close> the byte of user
  interrupt \<open>u\<close> holds the number of its vector, which follows those of all the channels; the
  registers are written once each and in order.
\<close>

theorem prog_irq_msix_user_vectors:
  assumes "u < v_user_max v"
  shows "(\<exists>w. (Mmio (irq_reg v ir_user_msi_vector + 4 * of_nat (u div 4)), w)
      \<in> set (writes (k_trace (prog_irq_msix_user v False k))) \<and>
    drop_bit (8 * (u mod 4)) w AND 0xff =
      of_nat (v_c2h_channel_max v + v_h2c_channel_max v + u) AND 0x1f) \<and>
    map fst (writes (k_trace (prog_irq_msix_user v False k))) = map fst (writes (k_trace k)) @
      map (\<lambda>j. Mmio (irq_reg v ir_user_msi_vector + 4 * of_nat j)) [0..<(v_user_max v + 3) div 4]"
proof -
  let ?i = "v_c2h_channel_max v + v_h2c_channel_max v"
  let ?w = "fst (pack_vectors 4 (?i + 4 * (u div 4)) (?i + v_user_max v) 0 0)"
  note wr = prog_vectors_writes [of "irq_reg v ir_user_msi_vector" ?i "?i + v_user_max v" 0 k]
  have "?i + 4 * (u div 4) + u mod 4 = ?i + u" by simp
  then have "drop_bit (8 * (u mod 4)) ?w AND 0xff = vector_byte (?i + u)"
    using pack_vectors_byte [of "u mod 4" "?i + 4 * (u div 4)" "?i + v_user_max v"] assms
    by (simp add: ac_simps)
  moreover have "u div 4 < (v_user_max v + 3) div 4" using assms by presburger
  then have "(Mmio (irq_reg v ir_user_msi_vector + 4 * of_nat (u div 4)), ?w)
      \<in> set (writes (k_trace (prog_irq_msix_user v False k)))"
    unfolding prog_irq_msix_user_def Let_def wr by (auto simp: image_iff)
  moreover have "map fst (writes (k_trace (prog_irq_msix_user v False k))) = map fst (writes (k_trace k)) @
      map (\<lambda>j. Mmio (irq_reg v ir_user_msi_vector + 4 * of_nat j)) [0..<(v_user_max v + 3) div 4]"
    unfolding prog_irq_msix_user_def Let_def wr by (simp add: comp_def)
  ultimately show ?thesis
    unfolding vector_byte_def by blast
qed

theorem prog_irq_msix_user_vectors_witness:
  "\<exists>w. (Mmio (irq_reg example_dev ir_user_msi_vector + 4 * of_nat (3 div 4)), w)
      \<in> set (writes (k_trace (prog_irq_msix_user example_dev False
           \<lparr>k_trace = [], k_xfers = (\<lambda>_. zero_transfer)\<rparr>))) \<and>
    drop_bit (8 * (3 mod 4)) w AND 0xff = 6"
  using prog_irq_msix_user_vectors [of 3 example_dev "\<lparr>k_trace = [], k_xfers = (\<lambda>_. zero_transfer)\<rparr>"]
  by (simp add: example_dev_def)

section \<open>Balance of the requested interrupts\<close>

lemma irq_user_setup_loop_trace:
  "irq_user_setup_loop pd j L k = (rv, j', k') \<Longrightarrow>
   k_trace k' = k_trace k @ map (\<lambda>t. Acquire (ResIrq (pci_irq_vector pd t))) [j..<j'] \<and>
   j \<le> j' \<and> (rv = 0 \<longrightarrow> j' = j + length L)"
proof (induction L arbitrary: j k)
  case (Cons i L)
  show ?case
  proof (cases "pci_request_irq pd (pci_irq_vector pd j) = 0")
    case True
    with Cons.prems have run: "irq_user_setup_loop pd (Suc j) L
        (log_event (Acquire (ResIrq (pci_irq_vector pd j))) k) = (rv, j', k')"
      by (simp add: request_irq_def)
    have "[j..<j'] = j # [Suc j..<j']" using Cons.IH [OF run] by (simp add: upt_conv_Cons)
    then show ?thesis using Cons.IH [OF run] by simp
  next
    case False
    then show ?thesis using Cons.prems by (auto simp: request_irq_def)
  qed
qed simp

lemma irq_user_undo_trace:
  "n \<le> j \<Longrightarrow> k_trace (irq_user_undo pd n j k) =
     k_trace k @ map (\<lambda>t. Release (ResIrq (pci_irq_vector pd t))) (rev [j - n..<j])"
proof (induction n arbitrary: j k)
  case (Suc n)
  then have "[j - Suc n..<j] = [j - 1 - n..<j - 1] @ [j - 1]"
    by (cases j) (simp_all add: upt_Suc)
  then show ?case using Suc by (simp add: free_irq_def)
qed simp

text \<open>
  Requesting the user interrupts in MSI-X mode is all or nothing: when a vector is refused,
  the ones granted before it are freed again, each exactly once, and the error is returned; when
  none is, all of them are held afterwards.
\<close>

theorem irq_msix_user_setup_all_or_nothing:
  "irq_msix_user_setup pd v k = (rv, k') \<Longrightarrow>
   (rv \<noteq> 0 \<longrightarrow> (\<forall>r. held (k_trace k') r = held (k_trace k) r)) \<and>
   (rv = 0 \<longrightarrow> (\<forall>r. held (k_trace k') r = held (k_trace k) r +
      held (map (\<lambda>i. Acquire (ResIrq (pci_irq_vector pd i)))
        [v_h2c_channel_max v + v_c2h_channel_max v
          ..<v_h2c_channel_max v + v_c2h_channel_max v + v_user_max v]) r))"
proof -
  assume run: "irq_msix_user_setup pd v k = (rv, k')"
  let ?j = "v_h2c_channel_max v + v_c2h_channel_max v"
  obtain rv1 j1 k1 where loop: "irq_user_setup_loop pd ?j [0..<v_user_max v] k = (rv1, j1, k1)"
    by (metis prod_cases3)
  note tr = irq_user_setup_loop_trace [OF loop]
  have undo: "held (k_trace (irq_user_undo pd (j1 - ?j) j1 k1)) r = held (k_trace k) r" for r
    using tr by (simp add: irq_user_undo_trace held_release_rev)
  have rv: "rv = rv1" "k' = (if rv1 \<noteq> 0 then irq_user_undo pd (j1 - ?j) j1 k1 else k1)"
    using run loop by (auto simp: irq_msix_user_setup_def)
  show ?thesis
    using tr undo rv by (cases "rv1 = 0") (auto simp: add.assoc)
qed

theorem irq_msix_user_setup_all_or_nothing_witness:
  "case irq_msix_user_setup (example_pci\<lparr>pci_request_irq := \<lambda>v. if v = 45 then - EBUSY else 0\<rparr>)
       example_dev \<lparr>k_trace = [], k_xfers = (\<lambda>_. zero_transfer)\<rparr> of
     (rv, k') \<Rightarrow> rv = - EBUSY \<and> held (k_trace k') (ResIrq 43) = 0"
proof -
  let ?pd = "example_pci\<lparr>pci_request_irq := \<lambda>v. if v = 45 then - EBUSY else 0\<rparr>"
  let ?k = "\<lparr>k_trace = [], k_xfers = (\<lambda>_. zero_transfer)\<rparr>"
  obtain rv k' where run: "irq_msix_user_setup ?pd example_dev ?k = (rv, k')" by (metis surj_pair)
  then have "rv = - EBUSY"
    by (simp add: irq_msix_user_setup_def example_dev_def example_pci_def upt_rec request_irq_def EBUSY_def)
  then show ?thesis
    using irq_msix_user_setup_all_or_nothing [OF run] by (simp add: run EBUSY_def)
qed

lemma irq_channel_setup_loop_trace:
  "irq_channel_setup_loop pd base L engines k = (0, engines', k') \<Longrightarrow>
   k_trace k' = k_trace k @ map (\<lambda>i. Acquire (ResIrq (pci_irq_vector pd (base + i)))) L \<and>
   (\<forall>i. e_msix_irq_line (engines' i) =
      (if i \<in> set L then pci_irq_vector pd (base + i) else e_msix_irq_line (engines i)))"
proof (induction L arbitrary: engines k)
  case (Cons i L)
  show ?case
  proof (cases "pci_request_irq pd (pci_irq_vector pd (base + i)) = 0")
    case True
    with Cons.prems have run: "irq_channel_setup_loop pd base L
        (engines(i := (engines i)\<lparr>e_msix_irq_line := pci_irq_vector pd (base + i)\<rparr>))
        (log_event (Acquire (ResIrq (pci_irq_vector pd (base + i)))) k) = (0, engines', k')"
      by (simp add: request_irq_def Let_def)
    show ?thesis using Cons.IH [OF run] by auto
  next
    case False
    then show ?thesis using Cons.prems by (simp add: request_irq_def Let_def)
  qed
qed simp

lemma irq_channel_free_loop_trace:
  "\<forall>i\<in>set L. e_msix_irq_line (engines i) \<noteq> 0 \<Longrightarrow>
   k_trace (irq_channel_free_loop L engines k) =
     k_trace k @ map (\<lambda>i. Release (ResIrq (e_msix_irq_line (engines i)))) L"
  by (induction L arbitrary: k) (simp_all add: free_irq_def)

lemma prog_vectors_held [simp]:
  "held (k_trace (prog_vectors clear table i mx j k)) r = held (k_trace k) r"
proof (induction clear table i mx j k rule: prog_vectors.induct)
  case (1 clear table i mx j k)
  obtain w i' where wi: "(if clear then (0, i + 4) else pack_vectors 4 i mx 0 0) = (w, i')" by (metis surj_pair)
  show ?case
  proof (cases "i < mx")
    case True
    then show ?thesis
      using 1 [OF True wi [symmetric] refl] wi by (subst prog_vectors.simps) (simp add: xdma_io)
  qed (subst prog_vectors.simps, simp)
qed

lemma free_fold_trace:
  "k_trace (fold (\<lambda>i. free_irq (f i)) L k) = k_trace k @ map (\<lambda>i. Release (ResIrq (f i))) L"
  by (induction L arbitrary: k) (simp_all add: free_irq_def)

lemma irq_user_teardown_held:
  "v_msix_enabled v \<Longrightarrow> held (k_trace (irq_msix_user_teardown pd v k)) r = held (k_trace k) r -
     held (map (\<lambda>i. Acquire (ResIrq (pci_irq_vector pd (v_h2c_channel_max v + v_c2h_channel_max v + i))))
       [0..<v_user_max v]) r"
  by (simp add: irq_msix_user_teardown_def prog_irq_msix_user_def free_fold_trace held_release_acquire Let_def)

lemma map_shift_upt: "map (\<lambda>i. f (j + i)) [0..<n] = map f [j..<j + n]"
proof -
  have "map f [j..<j + n] = map f (map (\<lambda>i. i + j) [0..<n])" by (simp add: map_add_upt add.commute)
  then show ?thesis by (simp add: comp_def add.commute)
qed

lemma irq_msix_roundtrip:
  assumes "v_msix_enabled v" and vec: "\<forall>n<v_h2c_channel_max v + v_c2h_channel_max v. pci_irq_vector pd n \<noteq> 0"
    and run: "irq_setup pd v k = (0, v', k')"
  shows "held (k_trace (irq_teardown pd v' k')) r = held (k_trace k) r"
proof -
  let ?h = "v_h2c_channel_max v" and ?c = "v_c2h_channel_max v"
  obtain rv1 eh k1 where h: "irq_channel_setup_loop pd 0 [0..<?h] (v_engine_h2c v) k = (rv1, eh, k1)"
    by (metis prod_cases3)
  obtain rv2 ec k2 where c: "irq_channel_setup_loop pd ?h [0..<?c] (v_engine_c2h v) k1 = (rv2, ec, k2)"
    by (metis prod_cases3)
  define v2 where "v2 = v\<lparr>v_engine_h2c := eh, v_engine_c2h := ec\<rparr>"
  obtain rv3 j3 k3 where u: "irq_user_setup_loop pd (?h + ?c) [0..<v_user_max v] k2 = (rv3, j3, k3)"
    by (metis prod_cases3)
  have rvs: "rv1 = 0" "rv2 = 0" "rv3 = 0" "v' = v2"
    "k' = prog_irq_msix_user v2 False (prog_irq_msix_channel v2 False k3)"
    using run assms(1) h c u
    by (auto simp: irq_setup_def irq_msix_channel_setup_def irq_msix_user_setup_def v2_def
        Let_def split: if_splits)
  note th = irq_channel_setup_loop_trace [OF h [unfolded rvs]]
  note tc = irq_channel_setup_loop_trace [OF c [unfolded rvs]]
  note tu = irq_user_setup_loop_trace [OF u]
  have held3: "held (k_trace k') r = held (k_trace k) r
      + held (map (\<lambda>i. Acquire (ResIrq (pci_irq_vector pd i))) [0..<?h]) r
      + held (map (\<lambda>i. Acquire (ResIrq (pci_irq_vector pd (?h + i)))) [0..<?c]) r
      + held (map (\<lambda>i. Acquire (ResIrq (pci_irq_vector pd i))) [?h + ?c..<?h + ?c + v_user_max v]) r"
    using th tc tu rvs by (simp add: prog_irq_msix_user_def prog_irq_msix_channel_def Let_def)
  have lines: "\<forall>i\<in>set [0..<?h]. e_msix_irq_line (eh i) \<noteq> 0" "\<forall>i\<in>set [0..<?c]. e_msix_irq_line (ec i) \<noteq> 0"
    using th tc vec by auto
  have relh: "map (\<lambda>i. Release (ResIrq (e_msix_irq_line (eh i)))) [0..<?h]
      = map (\<lambda>i. Release (ResIrq (pci_irq_vector pd i))) [0..<?h]" using th by simp
  have relc: "map (\<lambda>i. Release (ResIrq (e_msix_irq_line (ec i)))) [0..<?c]
      = map (\<lambda>i. Release (ResIrq (pci_irq_vector pd (?h + i)))) [0..<?c]" using tc by simp
  show ?thesis
    using held3 rvs(4) assms(1) lines
    by (simp add: irq_teardown_def irq_user_teardown_held irq_msix_channel_teardown_def v2_def Let_def
        prog_irq_msix_channel_def irq_channel_free_loop_trace relh relc held_release_acquire
        map_shift_upt [of "\<lambda>i. Acquire (ResIrq (pci_irq_vector pd i))"])
qed

lemma reg_write_fold_held [simp]:
  "held (k_trace (fold (\<lambda>off. reg_write w (a + off)) L k)) r = held (k_trace k) r"
  by (induction L arbitrary: k) (simp_all add: xdma_io)

lemma irq_setup_balanced:
  assumes "\<forall>n<v_h2c_channel_max v + v_c2h_channel_max v. pci_irq_vector pd n \<noteq> 0"
    and "pci_irq pd \<noteq> - 1"
    and "irq_setup pd v k = (0, v', k')"
  shows "held (k_trace (irq_teardown pd v' k')) r = held (k_trace k) r"
proof (cases "v_msix_enabled v")
  case True
  then show ?thesis using irq_msix_roundtrip assms by blast
next
  case False
  then show ?thesis
    using assms
    by (auto simp: irq_setup_def irq_msi_setup_def irq_legacy_setup_def irq_teardown_def request_irq_def
        free_irq_def EINVAL_def Let_def split: if_splits)
qed

text \<open>
  Setting up the interrupts and tearing them down again is balanced in every mode (MSI-X, MSI,
  legacy): whatever \<^verbatim>\<open>irq_setup\<close> acquired when it succeeded, \<^verbatim>\<open>irq_teardown\<close> releases exactly once.
  Interrupt numbers are assumed not to be 0 (MSI-X) or -1 (otherwise), the values the code uses
  for no interrupt.
\<close>

theorem irq_setup_teardown:
  assumes "\<forall>n<v_h2c_channel_max v + v_c2h_channel_max v. pci_irq_vector pd n \<noteq> 0"
    and "pci_irq pd \<noteq> - 1"
    and "irq_setup pd v k = (0, v', k')"
  shows "held (k_trace (irq_teardown pd v' k')) r = held (k_trace k) r"
  using assms by (rule irq_setup_balanced)

theorem irq_setup_teardown_witness:
  "case irq_setup example_pci (example_dev\<lparr>v_msix_enabled := True\<rparr>)
       \<lparr>k_trace = [], k_xfers = (\<lambda>_. zero_transfer)\<rparr> of
     (rv, v', k') \<Rightarrow> rv = 0 \<and> held (k_trace (irq_teardown example_pci v' k')) (ResIrq 41) = 0"
proof -
  let ?v = "example_dev\<lparr>v_msix_enabled := True\<rparr>"
  let ?k = "\<lparr>k_trace = [], k_xfers = (\<lambda>_. zero_transfer)\<rparr>"
  obtain rv v' k' where run: "irq_setup example_pci ?v ?k = (rv, v', k')" by (metis prod_cases3)
  then have "rv = 0"
    by (auto simp: irq_setup_def irq_msix_channel_setup_def irq_msix_user_setup_def example_dev_def
        example_pci_def upt_rec request_irq_def Let_def)
  moreover have "\<forall>n<3. pci_irq_vector example_pci n \<noteq> 0"
    by (auto simp: example_pci_def numeral_3_eq_3 less_Suc_eq)
  then have "\<forall>n<v_h2c_channel_max ?v + v_c2h_channel_max ?v. pci_irq_vector example_pci n \<noteq> 0"
    by (simp add: example_dev_def)
  ultimately show ?thesis
    using irq_setup_teardown [of ?v example_pci ?k v' k' "ResIrq 41"] run
    by (simp add: example_pci_def)
qed

text \<open>
  The channel interrupts have no such clean-up: when the second of two vectors is refused,
  \<^verbatim>\<open>irq_setup\<close> returns the error with the first one still held.
\<close>

theorem irq_setup_leaks_channel_irq:
  "case irq_setup (example_pci\<lparr>pci_request_irq := \<lambda>v. if v = 41 then - EBUSY else 0\<rparr>)
       (example_dev\<lparr>v_msix_enabled := True\<rparr>) \<lparr>k_trace = [], k_xfers = (\<lambda>_. zero_transfer)\<rparr> of
     (rv, v', k') \<Rightarrow> rv = - EBUSY \<and> held (k_trace k') (ResIrq 40) = 1"
  by (simp add: irq_setup_def irq_msix_channel_setup_def example_dev_def example_pci_def upt_rec
      request_irq_def EBUSY_def Let_def)

end
