(* ===== verification/Xdma_Thread.thy ===== *)
theory Xdma_Thread
  imports Xdma_Service
begin

text \<open>
  The polling threads of \<^verbatim>\<open>xdma_thread.c\<close>: the pool, the assignment of engines to threads and the
  work a thread does in one round. Engines are named by the address of their registers. A thread
  whose task has been created is a resource held until \<^verbatim>\<open>kthread_stop\<close>; \<open>kcreate\<close> says for which
  CPU the kernel can create one.
\<close>

section \<open>Definitions\<close>

record xdma_kthread =
  t_cpu :: nat
  t_id :: nat
  t_schedule :: bool
  t_task :: bool
  t_work_cnt :: u32
  t_work_list :: "addr list"

definition zero_kthread :: xdma_kthread where
  "zero_kthread = \<lparr>t_cpu = 0, t_id = 0, t_schedule = False, t_task = False, t_work_cnt = 0,
     t_work_list = []\<rparr>"

text \<open>The two global variables: the array, if it is allocated, and the number of threads in use.\<close>

record thread_pool =
  cs_threads :: "xdma_kthread list option"
  thread_cnt :: nat

definition xdma_kthread_start ::
    "(nat \<Rightarrow> bool) \<Rightarrow> xdma_kthread \<Rightarrow> nat \<Rightarrow> kstate \<Rightarrow> int \<times> xdma_kthread \<times> kstate" where
  "xdma_kthread_start kcreate thp tid k =
     (if t_task thp then (- EINVAL, thp, k)
      else let thp = thp\<lparr>t_id := tid, t_work_list := []\<rparr> in
           if \<not> kcreate (t_cpu thp) then (- EFAULT, thp\<lparr>t_task := False\<rparr>, k)
           else (0, thp\<lparr>t_task := True\<rparr>, log_event (Acquire (ResThread tid)) k))"

definition xdma_kthread_stop :: "(nat \<Rightarrow> int) \<Rightarrow> xdma_kthread \<Rightarrow> kstate \<Rightarrow> int \<times> xdma_kthread \<times> kstate" where
  "xdma_kthread_stop kstop thp k =
     (if \<not> t_task thp then (0, thp, k)
      else let thp = thp\<lparr>t_schedule := True\<rparr>; rv = kstop (t_id thp) in
           if rv < 0 then (rv, thp, k)
           else (0, thp\<lparr>t_task := False\<rparr>, log_event (Release (ResThread (t_id thp))) k))"

text \<open>\<^verbatim>\<open>list_del\<close> of the engine's link, and the count.\<close>

definition xdma_thread_remove_work :: "thread_pool \<Rightarrow> xdma_engine \<Rightarrow> thread_pool \<times> xdma_engine" where
  "xdma_thread_remove_work p e =
     (case e_cmplthp e of
        None \<Rightarrow> (p, e)
      | Some i \<Rightarrow>
          (p\<lparr>cs_threads := map_option (\<lambda>ts. ts[i := (ts ! i)
               \<lparr>t_work_list := remove1 (e_regs e) (t_work_list (ts ! i)),
                t_work_cnt := t_work_cnt (ts ! i) - 1\<rparr>]) (cs_threads p)\<rparr>,
           e\<lparr>e_cmplthp := None\<rparr>))"

text \<open>
  The choice of a thread: the loop over the threads with \<open>i\<close> the index of the first of \<open>ts\<close>,
  \<open>idx\<close> the best so far (\<open>None\<close> before the first round, where the code has \<^verbatim>\<open>idx == thread_cnt\<close>) and
  \<open>v\<close> the load it is compared with.
\<close>

fun pick_thread :: "xdma_kthread list \<Rightarrow> nat \<Rightarrow> nat option \<Rightarrow> u32 \<Rightarrow> nat option" where
  "pick_thread [] i idx v = idx"
| "pick_thread (thp # ts) i None v = pick_thread ts (Suc i) (Some i) (t_work_cnt thp)"
| "pick_thread (thp # ts) i (Some idx) v =
     (if t_work_cnt thp = 0 then Some i
      else if t_work_cnt thp < v then pick_thread ts (Suc i) (Some i) v
      else pick_thread ts (Suc i) (Some idx) v)"

text \<open>\<open>None\<close> is the access through a null or out-of-range pointer when there are no threads.\<close>

definition xdma_thread_add_work ::
    "thread_pool \<Rightarrow> xdma_engine \<Rightarrow> (thread_pool \<times> xdma_engine) option" where
  "xdma_thread_add_work p e =
     (case cs_threads p of
        None \<Rightarrow> None
      | Some ts \<Rightarrow>
          (case pick_thread (take (thread_cnt p) ts) 0 None 0 of
             None \<Rightarrow> None
           | Some idx \<Rightarrow>
               Some (p\<lparr>cs_threads := Some (ts[idx := (ts ! idx)
                   \<lparr>t_work_list := t_work_list (ts ! idx) @ [e_regs e],
                    t_work_cnt := t_work_cnt (ts ! idx) + 1\<rparr>])\<rparr>,
                 e\<lparr>e_intr_work_cpu := of_nat idx, e_cmplthp := Some idx\<rparr>)))"

text \<open>The loop over the online CPUs; the array has room for \<open>num\<close> threads.\<close>

fun threads_create_loop ::
    "(nat \<Rightarrow> bool) \<Rightarrow> nat \<Rightarrow> nat list \<Rightarrow> nat \<Rightarrow> xdma_kthread list \<Rightarrow> kstate
     \<Rightarrow> int \<times> nat \<times> xdma_kthread list \<times> kstate" where
  "threads_create_loop kcreate num [] cnt ts k = (0, cnt, ts, k)"
| "threads_create_loop kcreate num (cpu # cpus) cnt ts k =
     (let (rv, thp, k) = xdma_kthread_start kcreate ((ts ! cnt)\<lparr>t_cpu := cpu\<rparr>) cnt k;
          ts = ts[cnt := thp]
      in if rv < 0 then (rv, cnt, ts, k)
         else if Suc cnt = num then (0, Suc cnt, ts, k)
         else threads_create_loop kcreate num cpus (Suc cnt) ts k)"

definition xdma_threads_create ::
    "(nat \<Rightarrow> bool) \<Rightarrow> (nat \<Rightarrow> bool) \<Rightarrow> nat list \<Rightarrow> nat \<Rightarrow> thread_pool \<Rightarrow> kstate
     \<Rightarrow> int \<times> thread_pool \<times> kstate" where
  "xdma_threads_create kmem kcreate cpus num_threads p k =
     (if thread_cnt p \<noteq> 0 then (0, p, k)
      else if \<not> kmem num_threads then (- ENOMEM, p\<lparr>cs_threads := None\<rparr>, k)
      else let (rv, cnt, ts, k) =
             threads_create_loop kcreate num_threads cpus 0 (replicate num_threads zero_kthread) k
           in if rv < 0 then (rv, \<lparr>cs_threads = None, thread_cnt = 0\<rparr>, k)
              else (0, \<lparr>cs_threads = Some ts, thread_cnt = cnt\<rparr>, k))"

fun threads_stop_loop :: "(nat \<Rightarrow> int) \<Rightarrow> xdma_kthread list \<Rightarrow> kstate \<Rightarrow> kstate" where
  "threads_stop_loop kstop [] k = k"
| "threads_stop_loop kstop (thp # ts) k =
     threads_stop_loop kstop ts (snd (snd (xdma_kthread_stop kstop thp k)))"

definition xdma_threads_destroy :: "(nat \<Rightarrow> int) \<Rightarrow> thread_pool \<Rightarrow> kstate \<Rightarrow> thread_pool \<times> kstate" where
  "xdma_threads_destroy kstop p k =
     (if thread_cnt p = 0 then (p, k)
      else (\<lparr>cs_threads = None, thread_cnt = 0\<rparr>,
            case cs_threads p of None \<Rightarrow> k
            | Some ts \<Rightarrow> threads_stop_loop kstop (take (thread_cnt p) ts) k))"

section \<open>The work of a thread\<close>

definition xdma_thread_cmpl_status_pend :: "(addr \<Rightarrow> xdma_engine) \<Rightarrow> addr \<Rightarrow> bool" where
  "xdma_thread_cmpl_status_pend E a \<longleftrightarrow> e_transfer_list (E a) \<noteq> []"

text \<open>
  \<^verbatim>\<open>list_entry\<close> never yields a null pointer: with an empty queue the threshold is read from
  whatever lies behind the list head, here the parameter \<open>junk\<close>.
\<close>

definition xdma_thread_cmpl_status_proc ::
    "device \<Rightarrow> modparams \<Rightarrow> io_done \<Rightarrow> (nat \<Rightarrow> u64) \<Rightarrow> u64 \<Rightarrow> u32 \<Rightarrow> xdma_engine \<Rightarrow> kstate
     \<Rightarrow> (xdma_engine \<times> kstate) option" where
  "xdma_thread_cmpl_status_proc hw mp iod jif hz junk e k =
     (let th = (case e_transfer_list e of [] \<Rightarrow> junk | i # _ \<Rightarrow> x_desc_cmpl_th (k_xfers k i))
      in case engine_service_poll hw mp iod jif hz e th k of
           None \<Rightarrow> None
         | Some (_, e, k) \<Rightarrow> Some (e, k))"

definition xthread_work_pending :: "(addr \<Rightarrow> xdma_engine) \<Rightarrow> xdma_kthread \<Rightarrow> bool" where
  "xthread_work_pending E thp \<longleftrightarrow> list_ex (xdma_thread_cmpl_status_pend E) (t_work_list thp)"

fun xthread_proc_loop ::
    "device \<Rightarrow> modparams \<Rightarrow> io_done \<Rightarrow> (nat \<Rightarrow> u64) \<Rightarrow> u64 \<Rightarrow> u32 \<Rightarrow> addr list
     \<Rightarrow> (addr \<Rightarrow> xdma_engine) \<Rightarrow> kstate \<Rightarrow> ((addr \<Rightarrow> xdma_engine) \<times> kstate) option" where
  "xthread_proc_loop hw mp iod jif hz junk [] E k = Some (E, k)"
| "xthread_proc_loop hw mp iod jif hz junk (a # as) E k =
     (case xdma_thread_cmpl_status_proc hw mp iod jif hz junk (E a) k of
        None \<Rightarrow> None
      | Some (e, k) \<Rightarrow> xthread_proc_loop hw mp iod jif hz junk as (E(a := e)) k)"

text \<open>
  One round of \<^verbatim>\<open>xthread_main\<close>. Without pending work the thread sleeps until somebody sets
  \<^verbatim>\<open>schedule\<close>; \<open>woken_up\<close> is what the sleep leaves behind (\<open>None\<close> when it never ends).
\<close>

definition xthread_round ::
    "device \<Rightarrow> modparams \<Rightarrow> io_done \<Rightarrow> (nat \<Rightarrow> u64) \<Rightarrow> u64 \<Rightarrow> u32
     \<Rightarrow> ((addr \<Rightarrow> xdma_engine) \<times> kstate) option \<Rightarrow> xdma_kthread \<Rightarrow> (addr \<Rightarrow> xdma_engine) \<Rightarrow> kstate
     \<Rightarrow> (xdma_kthread \<times> (addr \<Rightarrow> xdma_engine) \<times> kstate) option" where
  "xthread_round hw mp iod jif hz junk woken_up thp E k =
     (case (if xthread_work_pending E thp then Some (E, k) else woken_up) of
        None \<Rightarrow> None
      | Some (E, k) \<Rightarrow>
          let thp = thp\<lparr>t_schedule := False\<rparr> in
          case (if t_work_cnt thp \<noteq> 0
                then xthread_proc_loop hw mp iod jif hz junk (t_work_list thp) E k else Some (E, k)) of
            None \<Rightarrow> None
          | Some (E, k) \<Rightarrow> Some (thp, E, log_event Schedule k))"

section \<open>Assignment of engines\<close>

lemma pick_thread_Some:
  "\<exists>j. pick_thread ts i (Some idx) v = Some j \<and>
     (j = idx \<or> (i \<le> j \<and> j < i + length ts \<and>
        (t_work_cnt (ts ! (j - i)) = 0 \<or> t_work_cnt (ts ! (j - i)) < v))) \<and>
     ((\<exists>t\<in>set ts. t_work_cnt t = 0) \<longrightarrow> i \<le> j \<and> j < i + length ts \<and> t_work_cnt (ts ! (j - i)) = 0)"
proof (induction ts arbitrary: i idx)
  case (Cons thp ts)
  have shift: "(thp # ts) ! (j - i) = ts ! (j - Suc i)" if "Suc i \<le> j" for j
    using that by (cases "j - i") (auto simp: Suc_diff_Suc Suc_le_eq, metis diff_Suc_1 diff_commute diff_Suc_eq_diff_pred)
  consider "t_work_cnt thp = 0" | "t_work_cnt thp \<noteq> 0" "t_work_cnt thp < v"
    | "t_work_cnt thp \<noteq> 0" "\<not> t_work_cnt thp < v" by blast
  then show ?case
  proof cases
    case 1
    then show ?thesis by auto
  next
    case 2
    obtain j where j: "pick_thread ts (Suc i) (Some i) v = Some j"
      "j = i \<or> (Suc i \<le> j \<and> j < Suc i + length ts \<and>
         (t_work_cnt (ts ! (j - Suc i)) = 0 \<or> t_work_cnt (ts ! (j - Suc i)) < v))"
      "(\<exists>t\<in>set ts. t_work_cnt t = 0) \<longrightarrow>
         Suc i \<le> j \<and> j < Suc i + length ts \<and> t_work_cnt (ts ! (j - Suc i)) = 0"
      using Cons.IH by blast
    show ?thesis using 2 j shift [of j] by auto
  next
    case 3
    obtain j where j: "pick_thread ts (Suc i) (Some idx) v = Some j"
      "j = idx \<or> (Suc i \<le> j \<and> j < Suc i + length ts \<and>
         (t_work_cnt (ts ! (j - Suc i)) = 0 \<or> t_work_cnt (ts ! (j - Suc i)) < v))"
      "(\<exists>t\<in>set ts. t_work_cnt t = 0) \<longrightarrow>
         Suc i \<le> j \<and> j < Suc i + length ts \<and> t_work_cnt (ts ! (j - Suc i)) = 0"
      using Cons.IH by blast
    show ?thesis using 3 j shift [of j] by auto
  qed
qed simp

lemma pick_thread_None:
  assumes "ts \<noteq> []"
  shows "\<exists>j<length ts. pick_thread ts 0 None 0 = Some j \<and>
    t_work_cnt (ts ! j) \<le> t_work_cnt (ts ! 0) \<and>
    ((\<exists>t\<in>set ts. t_work_cnt t = 0) \<longrightarrow> t_work_cnt (ts ! j) = 0)"
proof -
  obtain thp rest where ts: "ts = thp # rest" using assms by (cases ts) auto
  obtain j where j: "pick_thread rest 1 (Some 0) (t_work_cnt thp) = Some j"
    "j = 0 \<or> (1 \<le> j \<and> j < 1 + length rest \<and>
       (t_work_cnt (rest ! (j - 1)) = 0 \<or> t_work_cnt (rest ! (j - 1)) < t_work_cnt thp))"
    "(\<exists>t\<in>set rest. t_work_cnt t = 0) \<longrightarrow> 1 \<le> j \<and> j < 1 + length rest \<and> t_work_cnt (rest ! (j - 1)) = 0"
    using pick_thread_Some [of rest 1 0 "t_work_cnt thp"] by blast
  have "j < length ts" using j(2) ts by auto
  moreover have "t_work_cnt (ts ! j) \<le> t_work_cnt (ts ! 0)"
    using j(2) ts by (cases j) auto
  moreover have "t_work_cnt (ts ! j) = 0" if "\<exists>t\<in>set ts. t_work_cnt t = 0"
  proof (cases "\<exists>t\<in>set rest. t_work_cnt t = 0")
    case True
    then show ?thesis using j(3) ts by (cases j) auto
  next
    case False
    then have "t_work_cnt thp = 0" using that ts by auto
    then show ?thesis using j(2) ts by (cases j) auto
  qed
  ultimately show ?thesis using j(1) ts by (intro exI [of _ j]) simp
qed

text \<open>
  Assigning an engine to a polling thread: with at least one thread the assignment succeeds;
  the engine is appended to the work list of one thread of the pool, whose count goes up by one,
  and remembers it; no other thread changes. A thread without work is chosen whenever there is
  one, and in any case one that has no more work than the first thread.
\<close>

theorem xdma_thread_add_work_spec:
  assumes "cs_threads p = Some ts" and "0 < thread_cnt p" and "thread_cnt p \<le> length ts"
  shows "\<exists>idx p' e' ts'. xdma_thread_add_work p e = Some (p', e') \<and> idx < thread_cnt p \<and>
    e_cmplthp e' = Some idx \<and> cs_threads p' = Some ts' \<and> thread_cnt p' = thread_cnt p \<and>
    t_work_list (ts' ! idx) = t_work_list (ts ! idx) @ [e_regs e] \<and>
    t_work_cnt (ts' ! idx) = t_work_cnt (ts ! idx) + 1 \<and>
    length ts' = length ts \<and> (\<forall>i. i \<noteq> idx \<longrightarrow> ts' ! i = ts ! i) \<and>
    t_work_cnt (ts ! idx) \<le> t_work_cnt (ts ! 0) \<and>
    ((\<exists>i<thread_cnt p. t_work_cnt (ts ! i) = 0) \<longrightarrow> t_work_cnt (ts ! idx) = 0)"
proof -
  let ?ts = "take (thread_cnt p) ts"
  obtain j where j: "j < length ?ts" "pick_thread ?ts 0 None 0 = Some j"
    "t_work_cnt (?ts ! j) \<le> t_work_cnt (?ts ! 0)"
    "(\<exists>t\<in>set ?ts. t_work_cnt t = 0) \<longrightarrow> t_work_cnt (?ts ! j) = 0"
  proof -
    have "?ts \<noteq> []" using assms by auto
    from pick_thread_None [OF this] that show ?thesis by blast
  qed
  have "(\<exists>i<thread_cnt p. t_work_cnt (ts ! i) = 0) \<longrightarrow> t_work_cnt (ts ! j) = 0"
  proof safe
    fix i assume i: "i < thread_cnt p" "t_work_cnt (ts ! i) = 0"
    then have "ts ! i \<in> set ?ts" using assms(3) by (metis length_take min_absorb2 nth_mem nth_take)
    then show "t_work_cnt (ts ! j) = 0" using j(1,4) i(2) by auto
  qed
  then show ?thesis
    using j(1-3) assms by (auto simp: xdma_thread_add_work_def)
qed

theorem xdma_thread_add_work_spec_witness:
  "\<exists>p' e'. xdma_thread_add_work \<lparr>cs_threads = Some [zero_kthread\<lparr>t_work_cnt := 2\<rparr>, zero_kthread],
       thread_cnt = 2\<rparr> (zero_engine\<lparr>e_regs := 5\<rparr>) = Some (p', e')"
  using xdma_thread_add_work_spec [of "\<lparr>cs_threads = Some [zero_kthread\<lparr>t_work_cnt := 2\<rparr>, zero_kthread],
       thread_cnt = 2\<rparr>" "[zero_kthread\<lparr>t_work_cnt := 2\<rparr>, zero_kthread]" "zero_engine\<lparr>e_regs := 5\<rparr>"]
  by auto

text \<open>
  The thread chosen need not be the least loaded one: the load compared with is never updated
  after the first thread, so among loads three, one and two the third thread is taken.
\<close>

theorem pick_thread_not_least:
  "pick_thread (map (\<lambda>n. zero_kthread\<lparr>t_work_cnt := n\<rparr>) [3, 1, 2]) 0 None 0 = Some 2"
  by (simp add: zero_kthread_def)

text \<open>
  Removing an engine undoes its assignment: the pool is as before, provided that the engine was
  not already assigned to a thread.
\<close>

theorem xdma_thread_add_remove:
  assumes "xdma_thread_add_work p e = Some (p', e')"
    and "\<forall>ts. cs_threads p = Some ts \<longrightarrow> (\<forall>t\<in>set ts. e_regs e \<notin> set (t_work_list t))"
    and "\<forall>ts. cs_threads p = Some ts \<longrightarrow> thread_cnt p \<le> length ts"
  shows "fst (xdma_thread_remove_work p' e') = p \<and> e_cmplthp (snd (xdma_thread_remove_work p' e')) = None"
proof -
  obtain ts idx where ts: "cs_threads p = Some ts" and idx: "pick_thread (take (thread_cnt p) ts) 0 None 0 = Some idx"
    and res: "p' = p\<lparr>cs_threads := Some (ts[idx := (ts ! idx)
        \<lparr>t_work_list := t_work_list (ts ! idx) @ [e_regs e], t_work_cnt := t_work_cnt (ts ! idx) + 1\<rparr>])\<rparr>"
      "e' = e\<lparr>e_intr_work_cpu := of_nat idx, e_cmplthp := Some idx\<rparr>"
    using assms(1) by (auto simp: xdma_thread_add_work_def split: option.splits)
  have "take (thread_cnt p) ts \<noteq> []" using idx by (cases "take (thread_cnt p) ts") simp_all
  from pick_thread_None [OF this] have len: "idx < length ts" using idx by auto
  then have "e_regs e \<notin> set (t_work_list (ts ! idx))" using assms(2) ts by auto
  then have rm: "remove1 (e_regs e) (t_work_list (ts ! idx) @ [e_regs e]) = t_work_list (ts ! idx)"
    by (simp add: remove1_append)
  have "(ts ! idx)\<lparr>t_work_list := t_work_list (ts ! idx), t_work_cnt := t_work_cnt (ts ! idx)\<rparr> = ts ! idx"
    by (cases "ts ! idx") simp
  moreover have "p\<lparr>cs_threads := Some ts\<rparr> = p" using ts by (cases p) simp
  ultimately show ?thesis
    using len rm res by (simp add: xdma_thread_remove_work_def)
qed

theorem xdma_thread_add_remove_witness:
  "\<exists>p' e'. xdma_thread_add_work \<lparr>cs_threads = Some [zero_kthread], thread_cnt = 1\<rparr> zero_engine
       = Some (p', e') \<and>
     fst (xdma_thread_remove_work p' e') = \<lparr>cs_threads = Some [zero_kthread], thread_cnt = 1\<rparr>"
proof -
  let ?p = "\<lparr>cs_threads = Some [zero_kthread], thread_cnt = 1\<rparr>"
  obtain p' e' where "xdma_thread_add_work ?p zero_engine = Some (p', e')"
    by (simp add: xdma_thread_add_work_def)
  then show ?thesis
    using xdma_thread_add_remove [of ?p zero_engine p' e'] by (auto simp: zero_kthread_def)
qed

section \<open>Creating and destroying the pool\<close>

lemma threads_create_loop_ok:
  "threads_create_loop kcreate num cpus cnt ts k = (0, cnt', ts', k') \<Longrightarrow> length ts = num \<Longrightarrow>
   cnt < num \<Longrightarrow> \<forall>i. cnt \<le> i \<longrightarrow> i < num \<longrightarrow> \<not> t_task (ts ! i) \<Longrightarrow>
   k_trace k' = k_trace k @ map (\<lambda>i. Acquire (ResThread i)) [cnt..<cnt'] \<and> length ts' = num \<and>
   cnt' = min num (cnt + length cpus) \<and> (\<forall>i<cnt. ts' ! i = ts ! i) \<and>
   (\<forall>i. cnt \<le> i \<and> i < cnt' \<longrightarrow> t_task (ts' ! i) \<and> t_id (ts' ! i) = i)"
proof (induction cpus arbitrary: cnt ts k)
  case (Cons cpu cpus)
  let ?thp = "(ts ! cnt)\<lparr>t_cpu := cpu, t_id := cnt, t_work_list := [], t_task := True\<rparr>"
  let ?k = "log_event (Acquire (ResThread cnt)) k"
  have "\<not> t_task (ts ! cnt)" using Cons.prems by simp
  then have kc: "kcreate cpu"
    and run: "(if Suc cnt = num then (0, Suc cnt, ts[cnt := ?thp], ?k)
       else threads_create_loop kcreate num cpus (Suc cnt) (ts[cnt := ?thp]) ?k) = (0, cnt', ts', k')"
    using Cons.prems(1) by (auto simp: xdma_kthread_start_def EFAULT_def Let_def split: if_splits)
  show ?case
  proof (cases "Suc cnt = num")
    case True
    then show ?thesis using run Cons.prems(2,3) by (auto simp: less_Suc_eq nth_list_update)
  next
    case False
    then have IH: "k_trace k' = k_trace ?k @ map (\<lambda>i. Acquire (ResThread i)) [Suc cnt..<cnt']"
      "length ts' = num" "cnt' = min num (Suc cnt + length cpus)"
      "\<forall>i<Suc cnt. ts' ! i = ts[cnt := ?thp] ! i"
      "\<forall>i. Suc cnt \<le> i \<and> i < cnt' \<longrightarrow> t_task (ts' ! i) \<and> t_id (ts' ! i) = i"
      using Cons.IH [of "Suc cnt" "ts[cnt := ?thp]" ?k] run Cons.prems by auto
    have up: "[cnt..<cnt'] = cnt # [Suc cnt..<cnt']"
      using IH(3) Cons.prems(3) False by (simp add: upt_conv_Cons)
    have "t_task (ts' ! cnt) \<and> t_id (ts' ! cnt) = cnt" using IH(4) Cons.prems(2,3) by simp
    then have "\<forall>i. cnt \<le> i \<and> i < cnt' \<longrightarrow> t_task (ts' ! i) \<and> t_id (ts' ! i) = i"
      using IH(5) by (metis Suc_leI le_neq_implies_less)
    moreover have "\<forall>i<cnt. ts' ! i = ts ! i" using IH(4) by simp
    ultimately show ?thesis using IH(1-3) up by simp
  qed
qed auto

lemma threads_stop_loop_trace:
  "\<forall>t\<in>set ts. t_task t \<and> 0 \<le> kstop (t_id t) \<Longrightarrow>
   k_trace (threads_stop_loop kstop ts k) = k_trace k @ map (\<lambda>t. Release (ResThread (t_id t))) ts"
  by (induction ts arbitrary: k) (auto simp: xdma_kthread_stop_def Let_def)

text \<open>
  Creating the pool starts one thread per online CPU, up to the number asked for; destroying it
  stops each of them exactly once and frees the array, so that nothing is held afterwards.
\<close>

theorem xdma_threads_create_destroy:
  assumes "xdma_threads_create kmem kcreate cpus n p k = (0, p', k')" and "thread_cnt p = 0"
    and "0 < n" and "\<forall>i. 0 \<le> kstop i"
  shows "thread_cnt p' = min n (length cpus) \<and>
    (\<forall>r. held (k_trace (snd (xdma_threads_destroy kstop p' k'))) r = held (k_trace k) r) \<and>
    thread_cnt (fst (xdma_threads_destroy kstop p' k')) = 0"
proof -
  obtain rv cnt ts k1 where loop:
    "threads_create_loop kcreate n cpus 0 (replicate n zero_kthread) k = (rv, cnt, ts, k1)"
    by (metis prod_cases4)
  have rv: "rv = 0 \<or> rv < 0"
  proof -
    have "fst (threads_create_loop kcreate n cpus c tl k) \<le> 0" for c tl k
      by (induction kcreate n cpus c tl k rule: threads_create_loop.induct)
        (auto simp: xdma_kthread_start_def EINVAL_def EFAULT_def Let_def split: if_splits)
    from this [of 0 "replicate n zero_kthread" k] loop show ?thesis by auto
  qed
  have res: "rv = 0" "p' = \<lparr>cs_threads = Some ts, thread_cnt = cnt\<rparr>" "k' = k1"
    using assms(1,2) loop rv by (auto simp: xdma_threads_create_def ENOMEM_def split: if_splits)
  note ok = threads_create_loop_ok [OF loop [unfolded res]]
  have facts: "k_trace k1 = k_trace k @ map (\<lambda>i. Acquire (ResThread i)) [0..<cnt]" "length ts = n"
    "cnt = min n (length cpus)" "\<forall>i<cnt. t_task (ts ! i) \<and> t_id (ts ! i) = i"
    using ok assms(3) by (auto simp: zero_kthread_def)
  have ids: "map t_id (take cnt ts) = [0..<cnt]"
    using facts by (intro nth_equalityI) auto
  have "k_trace (threads_stop_loop kstop (take cnt ts) k1) = k_trace k1 @ map (\<lambda>t. Release (ResThread (t_id t))) (take cnt ts)"
    using facts(2-4) assms(4) by (intro threads_stop_loop_trace) (auto simp: in_set_conv_nth)
  also have "map (\<lambda>t. Release (ResThread (t_id t))) (take cnt ts) = map (\<lambda>i. Release (ResThread i)) [0..<cnt]"
    unfolding ids [symmetric] by (simp add: comp_def)
  finally have bal: "held (k_trace (threads_stop_loop kstop (take cnt ts) k1)) r = held (k_trace k) r" for r
    using facts(1) held_release_acquire [of ResThread "[0..<cnt]"] by simp
  then show ?thesis
    using res facts(1,3) by (simp add: xdma_threads_destroy_def)
qed

theorem xdma_threads_create_destroy_witness:
  "case xdma_threads_create (\<lambda>_. True) (\<lambda>_. True) [0, 1, 2] 2 \<lparr>cs_threads = None, thread_cnt = 0\<rparr>
       \<lparr>k_trace = [], k_xfers = (\<lambda>_. zero_transfer)\<rparr> of (rv, p', k') \<Rightarrow> rv = 0 \<and> thread_cnt p' = 2"
proof -
  let ?k = "\<lparr>k_trace = [], k_xfers = (\<lambda>_. zero_transfer)\<rparr>" and ?p = "\<lparr>cs_threads = None, thread_cnt = 0\<rparr>"
  obtain rv p' k' where run: "xdma_threads_create (\<lambda>_. True) (\<lambda>_. True) [0, 1, 2] 2 ?p ?k = (rv, p', k')"
    by (metis prod_cases3)
  then have "rv = 0"
    by (auto simp: xdma_threads_create_def xdma_kthread_start_def zero_kthread_def Let_def eval_nat_numeral)
  then show ?thesis
    using xdma_threads_create_destroy [of "\<lambda>_. True" "\<lambda>_. True" "[0, 1, 2]" 2 ?p ?k p' k' "\<lambda>_. 0"] run
    by simp
qed

text \<open>
  When a thread cannot be created, the array is freed and the count reset while the threads
  already started keep running on it: nothing will ever stop them.
\<close>

theorem xdma_threads_create_leak:
  "case xdma_threads_create (\<lambda>_. True) (\<lambda>cpu. cpu \<noteq> 1) [0, 1] 2 \<lparr>cs_threads = None, thread_cnt = 0\<rparr>
       \<lparr>k_trace = [], k_xfers = (\<lambda>_. zero_transfer)\<rparr> of
     (rv, p', k') \<Rightarrow> rv = - EFAULT \<and> p' = \<lparr>cs_threads = None, thread_cnt = 0\<rparr> \<and>
       held (k_trace k') (ResThread 0) = 1"
  by (simp add: xdma_threads_create_def xdma_kthread_start_def zero_kthread_def EFAULT_def Let_def
      eval_nat_numeral)

end
