(* ===== verification/Xdma_Probe.thy ===== *)
theory Xdma_Probe
  imports Xdma_Irq Xdma_Thread
begin

text \<open>
  Creating and destroying engines: alignments, write-back address, the default register
  configuration, the coherent buffers, and the loop that probes the channels of a device. In
  polled mode an engine is handed to a polling thread; that access faults when there is no thread
  pool, so the functions above it return an option.
\<close>

section \<open>Configuring an engine\<close>

definition engine_alignments :: "device \<Rightarrow> xdma_engine \<Rightarrow> kstate \<Rightarrow> xdma_engine \<times> kstate" where
  "engine_alignments hw e k =
     (let (w, k) = reg_read hw (e_regs e + er_alignments) k;
          align_bytes = drop_bit 16 (w AND 0x00ff0000);
          granularity_bytes = drop_bit 8 (w AND 0x0000ff00);
          address_bits = w AND 0x000000ff
      in (if w \<noteq> 0
          then e\<lparr>e_addr_align := ucast align_bytes, e_len_granularity := ucast granularity_bytes,
                 e_addr_bits := ucast address_bits\<rparr>
          else e\<lparr>e_addr_align := 1, e_len_granularity := 1, e_addr_bits := 64\<rparr>, k))"

definition engine_writeback_setup :: "xdma_engine \<Rightarrow> kstate \<Rightarrow> int \<times> kstate" where
  "engine_writeback_setup e k =
     (let k = mem_write 0 (e_poll_mode_addr_virt e) k;
          k = reg_write (pci_dma_l (e_poll_mode_bus e)) (e_regs e + er_poll_mode_wb_lo) k
      in (0, reg_write (pci_dma_h (e_poll_mode_bus e)) (e_regs e + er_poll_mode_wb_hi) k))"

definition default_interrupts :: "modparams \<Rightarrow> u32" where
  "default_interrupts mp =
     XDMA_CTRL_IE_DESC_ALIGN_MISMATCH OR XDMA_CTRL_IE_MAGIC_STOPPED OR
     XDMA_CTRL_IE_READ_ERROR OR XDMA_CTRL_IE_DESC_ERROR OR
     (if poll_mode mp then 0 else XDMA_CTRL_IE_DESC_STOPPED OR XDMA_CTRL_IE_DESC_COMPLETED)"

definition credit_reg_value :: "xdma_engine \<Rightarrow> u32" where
  "credit_reg_value e = push_bit 16 (push_bit (unat (e_channel e)) 1)"

definition engine_init_regs ::
    "device \<Rightarrow> modparams \<Rightarrow> addr \<Rightarrow> xdma_engine \<Rightarrow> kstate \<Rightarrow> int \<times> xdma_engine \<times> kstate" where
  "engine_init_regs hw mp cfg_bar e k =
     (let k = reg_write XDMA_CTRL_NON_INCR_ADDR (e_regs e + er_control_w1c) k;
          (e, k) = engine_alignments hw e k;
          (rv, k) = (if poll_mode mp then engine_writeback_setup e k else (0, k))
      in if rv \<noteq> 0 then (rv, e, k)
         else let k = reg_write (default_interrupts mp) (e_regs e + er_interrupt_enable_mask) k;
                  e = e\<lparr>e_interrupt_enable_mask_value := default_interrupts mp\<rparr>;
                  k = (if credit_mode mp e
                       then reg_write (credit_reg_value e)
                              (cfg_bar + 6 * TARGET_SPACING + sc_credit_mode_enable_w1s) k
                       else k)
              in (0, e, k))"

text \<open>\<^verbatim>\<open>engine_addrmode_set\<close>; \<open>arg\<close> is what \<^verbatim>\<open>get_user\<close> fetches, \<open>None\<close> when it faults.\<close>

definition engine_addrmode_set ::
    "device \<Rightarrow> xdma_engine \<Rightarrow> u32 option \<Rightarrow> kstate \<Rightarrow> int \<times> xdma_engine \<times> kstate" where
  "engine_addrmode_set hw e arg k =
     (let (rv, e, k) = (case arg of
          None \<Rightarrow> (- EFAULT, e, k)
        | Some dst \<Rightarrow>
            (0, e\<lparr>e_non_incr_addr := (dst \<noteq> 0)\<rparr>,
             reg_write XDMA_CTRL_NON_INCR_ADDR
               (e_regs e + (if dst \<noteq> 0 then er_control_w1s else er_control_w1c)) k));
          (e, k) = engine_alignments hw e k
      in (rv, e, k))"

section \<open>Coherent buffers\<close>

definition dma_alloc :: "pci \<Rightarrow> nat \<Rightarrow> kstate \<Rightarrow> (addr \<times> addr) \<times> kstate" where
  "dma_alloc pd n k =
     (let (virt, bus) = pci_dma_alloc pd (k_trace k) n
      in ((virt, bus), if virt \<noteq> 0 then log_event (Acquire (ResDma virt)) k else k))"

definition dma_free :: "addr \<Rightarrow> kstate \<Rightarrow> kstate" where
  "dma_free virt k = log_event (Release (ResDma virt)) k"

definition engine_free_resource :: "xdma_engine \<Rightarrow> kstate \<Rightarrow> xdma_engine \<times> kstate" where
  "engine_free_resource e k =
     (let (e, k) = (if e_poll_mode_addr_virt e \<noteq> 0
                    then (e\<lparr>e_poll_mode_addr_virt := 0\<rparr>, dma_free (e_poll_mode_addr_virt e) k)
                    else (e, k));
          (e, k) = (if e_desc e \<noteq> 0 then (e\<lparr>e_desc := 0\<rparr>, dma_free (e_desc e) k) else (e, k))
      in if e_cyclic_result e \<noteq> 0
         then (e\<lparr>e_cyclic_result := 0\<rparr>, dma_free (e_cyclic_result e) k) else (e, k))"

definition engine_alloc_resource ::
    "modparams \<Rightarrow> pci \<Rightarrow> xdma_engine \<Rightarrow> kstate \<Rightarrow> int \<times> xdma_engine \<times> kstate" where
  "engine_alloc_resource mp pd e k =
     (let fail = (\<lambda>e k. let (e, k) = engine_free_resource e k in (- ENOMEM, e, k));
          ((virt, bus), k) = dma_alloc pd (2048 * 32) k;
          e = e\<lparr>e_desc := virt, e_desc_bus := bus\<rparr>
      in if e_desc e = 0 then fail e k
         else let (e, k) =
             (if poll_mode mp
              then let ((virt, bus), k) = dma_alloc pd 8 k
                   in (e\<lparr>e_poll_mode_addr_virt := virt, e_poll_mode_bus := bus\<rparr>, k)
              else (e, k))
         in if poll_mode mp \<and> e_poll_mode_addr_virt e = 0 then fail e k
            else if st_c2h e
            then let ((virt, bus), k) = dma_alloc pd (2048 * 32) k;
                     e = e\<lparr>e_cyclic_result := virt, e_cyclic_result_bus := bus\<rparr>
                 in if e_cyclic_result e = 0 then fail e k else (0, e, k)
            else (0, e, k))"

section \<open>Creating and destroying an engine\<close>

function dec :: "nat \<Rightarrow> string" where
  "dec n = (if n < 10 then [''0123456789'' ! n] else dec (n div 10) @ [''0123456789'' ! (n mod 10)])"
  by pat_completeness auto

termination
  by (relation "measure (\<lambda>n. n)") auto

declare dec.simps [simp del]

definition engine_name :: "int \<Rightarrow> dma_data_direction \<Rightarrow> nat \<Rightarrow> bool \<Rightarrow> string" where
  "engine_name idx dir channel streaming =
     take 15 (dec (nat idx) @ ''-'' @ (if dir = DMA_TO_DEVICE then ''H2C'' else ''C2H'') @ dec channel
       @ ''-'' @ (if streaming then ''ST'' else ''MM''))"

text \<open>
  The head of \<^verbatim>\<open>engine_init\<close>: everything up to the allocation. The identifier register tells
  whether the engine is a streaming one.
\<close>

definition engine_setup ::
    "device \<Rightarrow> xdma_engine \<Rightarrow> xdma_dev \<Rightarrow> addr \<Rightarrow> dma_data_direction \<Rightarrow> nat \<Rightarrow> kstate
     \<Rightarrow> xdma_engine \<times> xdma_dev \<times> kstate" where
  "engine_setup hw e v offset dir channel k =
     (let e = e\<lparr>e_magic := MAGIC_ENGINE, e_channel := of_nat channel,
                e_irq_bitmask := push_bit (v_engines_num v * XDMA_ENG_IRQ_NUM) 1,
                e_bypass_offset := of_nat (v_engines_num v) * BYPASS_MODE_SPACING,
                e_regs := config_bar v + offset,
                e_sgdma_regs := config_bar v + offset + SGDMA_OFFSET_FROM_CHANNEL\<rparr>;
          (val, k) = reg_read hw (e_regs e + er_identifier) k;
          e = (if val AND 0x8000 \<noteq> 0 then e\<lparr>e_streaming := True\<rparr> else e);
          e = e\<lparr>e_dir := dir, e_name := engine_name (v_idx v) dir channel (e_streaming e)\<rparr>;
          v = (if dir = DMA_TO_DEVICE
               then v\<lparr>v_mask_irq_h2c := v_mask_irq_h2c v OR e_irq_bitmask e\<rparr>
               else v\<lparr>v_mask_irq_c2h := v_mask_irq_c2h v OR e_irq_bitmask e\<rparr>)
      in (e, v\<lparr>v_engines_num := v_engines_num v + 1\<rparr>, k))"

definition engine_init ::
    "device \<Rightarrow> modparams \<Rightarrow> pci \<Rightarrow> xdma_engine \<Rightarrow> xdma_dev \<Rightarrow> thread_pool \<Rightarrow> addr
     \<Rightarrow> dma_data_direction \<Rightarrow> nat \<Rightarrow> kstate
     \<Rightarrow> (int \<times> xdma_engine \<times> xdma_dev \<times> thread_pool \<times> kstate) option" where
  "engine_init hw mp pd e v p offset dir channel k =
     (let (e, v, k) = engine_setup hw e v offset dir channel k;
          (rv, e, k) = engine_alloc_resource mp pd e k
      in if rv \<noteq> 0 then Some (rv, e, v, p, k)
         else let (rv, e, k) = engine_init_regs hw mp (config_bar v) e k
              in if rv \<noteq> 0 then Some (rv, e, v, p, k)
                 else if poll_mode mp
                 then (case xdma_thread_add_work p e of
                         None \<Rightarrow> None
                       | Some (p, e) \<Rightarrow> Some (0, e, v, p, k))
                 else Some (0, e, v, p, k))"

definition engine_destroy ::
    "modparams \<Rightarrow> xdma_dev \<Rightarrow> thread_pool \<Rightarrow> xdma_engine \<Rightarrow> kstate
     \<Rightarrow> xdma_engine \<times> xdma_dev \<times> thread_pool \<times> kstate" where
  "engine_destroy mp v p e k =
     (let k = reg_write 0 (e_regs e + er_interrupt_enable_mask) k;
          k = (if credit_mode mp e
               then reg_write (credit_reg_value e)
                      (config_bar v + 6 * TARGET_SPACING + sc_credit_mode_enable_w1c) k
               else k);
          (p, e) = (if poll_mode mp then xdma_thread_remove_work p e else (p, e));
          (e, k) = engine_free_resource e k
      in (zero_engine, v\<lparr>v_engines_num := v_engines_num v - 1\<rparr>, p, k))"

section \<open>Probing the channels\<close>

definition get_engine_channel_id :: "device \<Rightarrow> addr \<Rightarrow> kstate \<Rightarrow> u32 \<times> kstate" where
  "get_engine_channel_id hw regs k =
     (let (value, k) = reg_read hw (regs + er_identifier) k
      in (drop_bit 8 (value AND 0x00000f00), k))"

definition get_engine_id :: "device \<Rightarrow> addr \<Rightarrow> kstate \<Rightarrow> u32 \<times> kstate" where
  "get_engine_id hw regs k =
     (let (value, k) = reg_read hw (regs + er_identifier) k
      in (drop_bit 16 (value AND 0xffff0000), k))"

definition dir_engines :: "dma_data_direction \<Rightarrow> xdma_dev \<Rightarrow> nat \<Rightarrow> xdma_engine" where
  "dir_engines dir v = (if dir = DMA_TO_DEVICE then v_engine_h2c v else v_engine_c2h v)"

definition set_engine :: "dma_data_direction \<Rightarrow> nat \<Rightarrow> xdma_engine \<Rightarrow> xdma_dev \<Rightarrow> xdma_dev" where
  "set_engine dir i e v =
     (if dir = DMA_TO_DEVICE then v\<lparr>v_engine_h2c := (v_engine_h2c v)(i := e)\<rparr>
      else v\<lparr>v_engine_c2h := (v_engine_c2h v)(i := e)\<rparr>)"

definition probe_for_engine ::
    "device \<Rightarrow> modparams \<Rightarrow> pci \<Rightarrow> xdma_dev \<Rightarrow> thread_pool \<Rightarrow> dma_data_direction \<Rightarrow> nat \<Rightarrow> kstate
     \<Rightarrow> (int \<times> xdma_dev \<times> thread_pool \<times> kstate) option" where
  "probe_for_engine hw mp pd v p dir channel k =
     (let offset = of_nat channel * CHANNEL_SPACING
            + (if dir = DMA_TO_DEVICE then 0 else H2C_CHANNEL_OFFSET);
          engine_id_expected = (if dir = DMA_TO_DEVICE then XDMA_ID_H2C else XDMA_ID_C2H);
          regs = config_bar v + offset;
          (engine_id, k) = get_engine_id hw regs k;
          (channel_id, k) = get_engine_channel_id hw regs k
      in if engine_id \<noteq> engine_id_expected \<or> channel_id \<noteq> of_nat channel then Some (- EINVAL, v, p, k)
         else (case engine_init hw mp pd (dir_engines dir v channel) v p offset dir channel k of
                 None \<Rightarrow> None
               | Some (rv, e, v, p, k) \<Rightarrow> Some (rv, set_engine dir channel e v, p, k)))"

text \<open>One direction: the loop stops at the first channel that fails; its index is the result.\<close>

fun probe_loop ::
    "device \<Rightarrow> modparams \<Rightarrow> pci \<Rightarrow> dma_data_direction \<Rightarrow> nat \<Rightarrow> nat \<Rightarrow> xdma_dev \<Rightarrow> thread_pool \<Rightarrow> kstate
     \<Rightarrow> (nat \<times> xdma_dev \<times> thread_pool \<times> kstate) option" where
  "probe_loop hw mp pd dir 0 i v p k = Some (i, v, p, k)"
| "probe_loop hw mp pd dir (Suc n) i v p k =
     (case probe_for_engine hw mp pd v p dir i k of
        None \<Rightarrow> None
      | Some (rv, v, p, k) \<Rightarrow>
          if rv \<noteq> 0 then Some (i, v, p, k) else probe_loop hw mp pd dir n (Suc i) v p k)"

definition probe_engines ::
    "device \<Rightarrow> modparams \<Rightarrow> pci \<Rightarrow> xdma_dev \<Rightarrow> thread_pool \<Rightarrow> kstate
     \<Rightarrow> (int \<times> xdma_dev \<times> thread_pool \<times> kstate) option" where
  "probe_engines hw mp pd v p k =
     (case probe_loop hw mp pd DMA_TO_DEVICE (v_h2c_channel_max v) 0 v p k of
        None \<Rightarrow> None
      | Some (i, v, p, k) \<Rightarrow>
          let v = v\<lparr>v_h2c_channel_max := i\<rparr> in
          (case probe_loop hw mp pd DMA_FROM_DEVICE (v_c2h_channel_max v) 0 v p k of
             None \<Rightarrow> None
           | Some (i, v, p, k) \<Rightarrow> Some (0, v\<lparr>v_c2h_channel_max := i\<rparr>, p, k)))"

fun remove_loop ::
    "modparams \<Rightarrow> dma_data_direction \<Rightarrow> nat list \<Rightarrow> xdma_dev \<Rightarrow> thread_pool \<Rightarrow> kstate
     \<Rightarrow> xdma_dev \<times> thread_pool \<times> kstate" where
  "remove_loop mp dir [] v p k = (v, p, k)"
| "remove_loop mp dir (i # is) v p k =
     (if e_magic (dir_engines dir v i) = MAGIC_ENGINE
      then let (e, v, p, k) = engine_destroy mp v p (dir_engines dir v i) k
           in remove_loop mp dir is (set_engine dir i e v) p k
      else remove_loop mp dir is v p k)"

definition remove_engines ::
    "modparams \<Rightarrow> xdma_dev \<Rightarrow> thread_pool \<Rightarrow> kstate \<Rightarrow> xdma_dev \<times> thread_pool \<times> kstate" where
  "remove_engines mp v p k =
     (let (v, p, k) = remove_loop mp DMA_TO_DEVICE [0..<v_h2c_channel_max v] v p k
      in remove_loop mp DMA_FROM_DEVICE [0..<v_c2h_channel_max v] v p k)"

section \<open>What an engine owns\<close>

text \<open>The coherent buffers whose addresses the structure holds, as a count per resource.\<close>

definition owns :: "addr \<Rightarrow> resource \<Rightarrow> int" where
  "owns a r = (if a \<noteq> 0 \<and> r = ResDma a then 1 else 0)"

definition engine_owns :: "xdma_engine \<Rightarrow> resource \<Rightarrow> int" where
  "engine_owns e r = owns (e_desc e) r + owns (e_poll_mode_addr_virt e) r + owns (e_cyclic_result e) r"

definition bare :: "xdma_engine \<Rightarrow> bool" where
  "bare e \<longleftrightarrow> e_desc e = 0 \<and> e_poll_mode_addr_virt e = 0 \<and> e_cyclic_result e = 0"

lemma bare_owns: "bare e \<Longrightarrow> engine_owns e r = 0"
  by (simp add: bare_def engine_owns_def owns_def)

lemma bare_zero [simp]: "bare zero_engine"
  by (simp add: bare_def zero_engine_def)

lemma held_dma_free: "a \<noteq> 0 \<Longrightarrow> held (k_trace (dma_free a k)) r = held (k_trace k) r - owns a r"
  by (simp add: dma_free_def owns_def)

lemma held_dma_alloc:
  "dma_alloc pd n k = ((a, b), k') \<Longrightarrow>
   held (k_trace k') r = held (k_trace k) r + owns a r \<and> k_xfers k' = k_xfers k"
  by (auto simp: dma_alloc_def owns_def split: prod.splits if_splits)

lemma dma_free_xfers [simp]: "k_xfers (dma_free a k) = k_xfers k"
  by (simp add: dma_free_def)

text \<open>What neither the allocation nor the release of the buffers touches.\<close>

definition same_engine :: "xdma_engine \<Rightarrow> xdma_engine \<Rightarrow> bool" where
  "same_engine e e' \<longleftrightarrow> e_irq_bitmask e' = e_irq_bitmask e \<and> e_magic e' = e_magic e \<and>
     e_regs e' = e_regs e \<and> e_channel e' = e_channel e \<and> e_dir e' = e_dir e \<and>
     e_streaming e' = e_streaming e \<and> e_cmplthp e' = e_cmplthp e"

lemma engine_free_resource_eq:
  assumes "engine_free_resource e k = (e', k')"
  shows "bare e' \<and> same_engine e e' \<and>
    held (k_trace k') r = held (k_trace k) r - engine_owns e r \<and> k_xfers k' = k_xfers k"
  using assms
  by (cases "e_poll_mode_addr_virt e = 0"; cases "e_desc e = 0"; cases "e_cyclic_result e = 0")
    (auto simp: engine_free_resource_def engine_owns_def held_dma_free bare_def owns_def
      same_engine_def Let_def)

lemma engine_alloc_resource_eq:
  assumes "engine_alloc_resource mp pd e k = (rv, e', k')" and "bare e"
  shows "(rv = 0 \<or> rv = - ENOMEM \<and> bare e') \<and>
    held (k_trace k') r = held (k_trace k) r + engine_owns e' r \<and> k_xfers k' = k_xfers k \<and> same_engine e e'"
proof -
  obtain a b k1 where d1: "dma_alloc pd (2048 * 32) k = ((a, b), k1)" by (metis surj_pair)
  define e1 where "e1 = e\<lparr>e_desc := a, e_desc_bus := b\<rparr>"
  obtain a2 b2 k2 where d2: "dma_alloc pd 8 k1 = ((a2, b2), k2)" by (metis surj_pair)
  define e2 where "e2 = (if poll_mode mp then e1\<lparr>e_poll_mode_addr_virt := a2, e_poll_mode_bus := b2\<rparr> else e1)"
  define k3 where "k3 = (if poll_mode mp then k2 else k1)"
  obtain a3 b3 k4 where d3: "dma_alloc pd (2048 * 32) k3 = ((a3, b3), k4)" by (metis surj_pair)
  define e3 where "e3 = e2\<lparr>e_cyclic_result := a3, e_cyclic_result_bus := b3\<rparr>"
  have h1: "held (k_trace k1) r = held (k_trace k) r + engine_owns e1 r"
    "held (k_trace k3) r = held (k_trace k) r + engine_owns e2 r"
    "held (k_trace k4) r = held (k_trace k) r + engine_owns e3 r" for r
    using held_dma_alloc [OF d1] held_dma_alloc [OF d2] held_dma_alloc [OF d3] assms(2)
    by (auto simp: engine_owns_def e1_def e2_def e3_def k3_def bare_def owns_def)
  have x: "k_xfers k1 = k_xfers k" "k_xfers k3 = k_xfers k" "k_xfers k4 = k_xfers k"
    using held_dma_alloc [OF d1] held_dma_alloc [OF d2] held_dma_alloc [OF d3] by (auto simp: k3_def)
  note defs = e1_def e2_def e3_def k3_def
  have st: "st_c2h e2 = st_c2h e" by (simp add: st_c2h_def defs)
  have same: "same_engine e e1" "same_engine e e2" "same_engine e e3"
    by (simp_all add: same_engine_def defs)
  let ?fail = "\<lambda>e k. let (e, k) = engine_free_resource e k in (- ENOMEM, e, k)"
  have run: "engine_alloc_resource mp pd e k =
      (if a = 0 then ?fail e1 k1 else if poll_mode mp \<and> a2 = 0 then ?fail e2 k3
       else if st_c2h e then (if a3 = 0 then ?fail e3 k4 else (0, e3, k4)) else (0, e2, k3))"
    using d1 d2 d3 st
    by (cases "poll_mode mp") (simp_all add: engine_alloc_resource_def Let_def defs)
  consider (f1) "engine_free_resource e1 k1 = (e', k')" "rv = - ENOMEM"
    | (f2) "engine_free_resource e2 k3 = (e', k')" "rv = - ENOMEM"
    | (f3) "engine_free_resource e3 k4 = (e', k')" "rv = - ENOMEM"
    | (ok2) "e' = e2" "k' = k3" "rv = 0" | (ok3) "e' = e3" "k' = k4" "rv = 0"
    using assms(1) unfolding run by (auto simp: Let_def split: prod.splits if_splits)
  then show ?thesis
  proof cases
    case f1
    then show ?thesis using engine_free_resource_eq [OF f1(1), of r] h1 x same
      by (auto simp: bare_owns same_engine_def)
  next
    case f2
    then show ?thesis using engine_free_resource_eq [OF f2(1), of r] h1 x same
      by (auto simp: bare_owns same_engine_def)
  next
    case f3
    then show ?thesis using engine_free_resource_eq [OF f3(1), of r] h1 x same
      by (auto simp: bare_owns same_engine_def)
  next
    case ok2
    then show ?thesis using h1 x same by simp
  next
    case ok3
    then show ?thesis using h1 x same by simp
  qed
qed

lemma engine_init_regs_frame:
  assumes "engine_init_regs hw mp cfg e k = (rv, e', k')"
  shows "rv = 0 \<and> same_engine e e' \<and> engine_owns e' r = engine_owns e r \<and>
    held (k_trace k') r = held (k_trace k) r \<and> k_xfers k' = k_xfers k"
  using assms
  by (auto simp: engine_init_regs_def engine_alignments_def engine_writeback_setup_def mem_write_def
      xdma_io Let_def same_engine_def engine_owns_def split: if_splits)

lemma engine_setup_frame:
  assumes "engine_setup hw e v off dir ch k = (e', v', k')"
  shows "e_magic e' = MAGIC_ENGINE \<and> e_irq_bitmask e' = push_bit (v_engines_num v) 1 \<and>
    (bare e' \<longleftrightarrow> bare e) \<and> v_engines_num v' = v_engines_num v + 1 \<and>
    held (k_trace k') r = held (k_trace k) r \<and> k_xfers k' = k_xfers k"
  using assms
  by (auto simp: engine_setup_def xdma_io Let_def bare_def XDMA_ENG_IRQ_NUM_def split: if_splits)

lemma add_work_frame:
  "xdma_thread_add_work p e = Some (p', e') \<Longrightarrow>
   engine_owns e' r = engine_owns e r \<and> e_magic e' = e_magic e \<and> e_irq_bitmask e' = e_irq_bitmask e"
  by (auto simp: xdma_thread_add_work_def engine_owns_def split: option.splits)

lemma engine_init_eq:
  assumes "engine_init hw mp pd e v p off dir ch k = Some (rv, e', v', p', k')" and "bare e"
  shows "e_magic e' = MAGIC_ENGINE \<and> e_irq_bitmask e' = push_bit (v_engines_num v) 1 \<and>
    v_engines_num v' = v_engines_num v + 1 \<and> v_engine_h2c v' = v_engine_h2c v \<and>
    v_engine_c2h v' = v_engine_c2h v \<and> v_c2h_channel_max v' = v_c2h_channel_max v \<and>
    v_h2c_channel_max v' = v_h2c_channel_max v \<and> (rv \<noteq> 0 \<longrightarrow> bare e') \<and>
    held (k_trace k') r = held (k_trace k) r + engine_owns e' r"
proof -
  obtain e1 v1 k1 where s: "engine_setup hw e v off dir ch k = (e1, v1, k1)" by (metis prod_cases3)
  obtain rv2 e2 k2 where a: "engine_alloc_resource mp pd e1 k1 = (rv2, e2, k2)" by (metis prod_cases3)
  obtain rv3 e3 k3 where i: "engine_init_regs hw mp (config_bar v1) e2 k2 = (rv3, e3, k3)" by (metis prod_cases3)
  note fs = engine_setup_frame [OF s, of r]
  have "bare e1" using fs assms(2) by simp
  note fa = engine_alloc_resource_eq [OF a this, of r] and fi = engine_init_regs_frame [OF i, of r]
  have v1: "v_engine_h2c v1 = v_engine_h2c v" "v_engine_c2h v1 = v_engine_c2h v"
    "v_c2h_channel_max v1 = v_c2h_channel_max v" "v_h2c_channel_max v1 = v_h2c_channel_max v"
    using s by (auto simp: engine_setup_def xdma_io Let_def)
  consider (bad) "rv2 \<noteq> 0" "rv = rv2" "e' = e2" "v' = v1" "k' = k2"
    | (irq) "rv2 = 0" "rv = 0" "e' = e3" "v' = v1" "k' = k3"
    | (poll) "rv2 = 0" "xdma_thread_add_work p e3 = Some (p', e')" "rv = 0" "v' = v1" "k' = k3"
    using assms(1) s a i fi by (auto simp: engine_init_def split: if_splits option.splits prod.splits)
  then show ?thesis
  proof cases
    case bad
    then show ?thesis using fs fa v1 by (auto simp: same_engine_def)
  next
    case irq
    then show ?thesis using fs fa fi v1 by (auto simp: same_engine_def)
  next
    case poll
    then show ?thesis using fs fa fi v1 add_work_frame [OF poll(2)] by (auto simp: same_engine_def)
  qed
qed

section \<open>Probing and removing are balanced\<close>

definition other_dir :: "dma_data_direction \<Rightarrow> dma_data_direction" where
  "other_dir dir = (if dir = DMA_TO_DEVICE then DMA_FROM_DEVICE else DMA_TO_DEVICE)"

lemma set_engine_simps [simp]:
  "dir_engines dir (set_engine dir i e v) = (dir_engines dir v)(i := e)"
  "dir_engines (other_dir dir) (set_engine dir i e v) = dir_engines (other_dir dir) v"
  "v_engines_num (set_engine dir i e v) = v_engines_num v"
  "v_h2c_channel_max (set_engine dir i e v) = v_h2c_channel_max v"
  "v_c2h_channel_max (set_engine dir i e v) = v_c2h_channel_max v"
  by (simp_all add: dir_engines_def set_engine_def other_dir_def)

text \<open>
  What probing one channel leaves behind: nothing held but what the engine of the channel owns;
  an engine that could not be created owns nothing.
\<close>

lemma probe_for_engine_eq:
  assumes "probe_for_engine hw mp pd v p dir ch k = Some (rv, v', p', k')"
    and "bare (dir_engines dir v ch)"
  shows "(\<forall>c. c \<noteq> ch \<longrightarrow> dir_engines dir v' c = dir_engines dir v c) \<and>
    dir_engines (other_dir dir) v' = dir_engines (other_dir dir) v \<and>
    v_h2c_channel_max v' = v_h2c_channel_max v \<and> v_c2h_channel_max v' = v_c2h_channel_max v \<and>
    held (k_trace k') r = held (k_trace k) r + engine_owns (dir_engines dir v' ch) r \<and>
    v_engines_num v \<le> v_engines_num v' \<and>
    (rv \<noteq> 0 \<longrightarrow> bare (dir_engines dir v' ch)) \<and>
    (rv = 0 \<longrightarrow> e_magic (dir_engines dir v' ch) = MAGIC_ENGINE \<and>
       e_irq_bitmask (dir_engines dir v' ch) = push_bit (v_engines_num v) 1 \<and>
       v_engines_num v' = v_engines_num v + 1)"
proof -
  define off where "off = of_nat ch * CHANNEL_SPACING + (if dir = DMA_TO_DEVICE then 0 else H2C_CHANNEL_OFFSET)"
  let ?k = "k\<lparr>k_trace := k_trace k @ [Rd (Mmio (config_bar v + off + er_identifier))
      (hw (k_trace k) (Mmio (config_bar v + off + er_identifier)))]\<rparr>"
  let ?k2 = "?k\<lparr>k_trace := k_trace ?k @ [Rd (Mmio (config_bar v + off + er_identifier))
      (hw (k_trace ?k) (Mmio (config_bar v + off + er_identifier)))]\<rparr>"
  consider (skip) "rv = - EINVAL" "v' = v" "k' = ?k2"
    | (init) e1 v1 where "engine_init hw mp pd (dir_engines dir v ch) v p off dir ch ?k2
         = Some (rv, e1, v1, p', k')" "v' = set_engine dir ch e1 v1"
    using assms(1)
    by (auto simp: probe_for_engine_def get_engine_id_def get_engine_channel_id_def xdma_io Let_def
        off_def split: if_splits option.splits)
  then show ?thesis
  proof cases
    case skip
    then show ?thesis using assms(2) by (simp add: EINVAL_def bare_owns)
  next
    case init
    note ei = engine_init_eq [OF init(1) assms(2), of r]
    have "dir_engines d v1 = dir_engines d v" for d using ei by (simp add: dir_engines_def)
    then show ?thesis using ei init(2) by simp
  qed
qed

definition owned_sum :: "(nat \<Rightarrow> xdma_engine) \<Rightarrow> nat \<Rightarrow> nat \<Rightarrow> resource \<Rightarrow> int" where
  "owned_sum E i j r = (\<Sum>c\<leftarrow>[i..<j]. engine_owns (E c) r)"

definition probed :: "(nat \<Rightarrow> xdma_engine) \<Rightarrow> nat \<Rightarrow> nat \<Rightarrow> nat \<Rightarrow> bool" where
  "probed E i j b \<longleftrightarrow> (\<forall>c. i \<le> c \<and> c < j \<longrightarrow>
     e_magic (E c) = MAGIC_ENGINE \<and> e_irq_bitmask (E c) = push_bit (b + (c - i)) 1)"

lemma probe_loop_eq:
  "probe_loop hw mp pd dir n i v p k = Some (j, v', p', k') \<Longrightarrow>
   \<forall>c\<ge>i. bare (dir_engines dir v c) \<Longrightarrow>
   i \<le> j \<and> j \<le> i + n \<and> (\<forall>c<i. dir_engines dir v' c = dir_engines dir v c) \<and>
   dir_engines (other_dir dir) v' = dir_engines (other_dir dir) v \<and>
   v_h2c_channel_max v' = v_h2c_channel_max v \<and> v_c2h_channel_max v' = v_c2h_channel_max v \<and>
   probed (dir_engines dir v') i j (v_engines_num v) \<and> v_engines_num v + (j - i) \<le> v_engines_num v' \<and>
   (\<forall>c\<ge>j. bare (dir_engines dir v' c)) \<and>
   held (k_trace k') r = held (k_trace k) r + owned_sum (dir_engines dir v') i j r"
proof (induction n arbitrary: i v p k)
  case 0
  then show ?case by (auto simp: owned_sum_def probed_def)
next
  case (Suc n)
  obtain rv v1 p1 k1 where pr: "probe_for_engine hw mp pd v p dir i k = Some (rv, v1, p1, k1)"
    using Suc.prems(1) by (auto split: option.splits prod.splits)
  have "bare (dir_engines dir v i)" using Suc.prems(2) by simp
  note f = probe_for_engine_eq [OF pr this, of r]
  show ?case
  proof (cases "rv = 0")
    case False
    have "bare (dir_engines dir v1 c)" if "i \<le> c" for c
      using f False Suc.prems(2) that by (cases "c = i") auto
    then show ?thesis
      using f False pr Suc.prems by (auto simp: owned_sum_def probed_def bare_owns)
  next
    case True
    then have run: "probe_loop hw mp pd dir n (Suc i) v1 p1 k1 = Some (j, v', p', k')"
      using Suc.prems(1) pr by simp
    have "\<forall>c\<ge>Suc i. bare (dir_engines dir v1 c)" using f Suc.prems(2) by (metis Suc_leD Suc_n_not_le_n)
    note IH = Suc.IH [OF run this]
    have up: "[i..<j] = i # [Suc i..<j]" using IH by (simp add: upt_conv_Cons)
    have same: "dir_engines dir v' i = dir_engines dir v1 i" using IH by simp
    have "probed (dir_engines dir v') i j (v_engines_num v)"
      unfolding probed_def
    proof safe
      fix c assume "i \<le> c" "c < j"
      then consider "c = i" | "Suc i \<le> c" by linarith
      then show "e_magic (dir_engines dir v' c) = MAGIC_ENGINE"
        using IH f True \<open>c < j\<close> same by cases (auto simp: probed_def)
    next
      fix c assume c: "i \<le> c" "c < j"
      then consider "c = i" | "Suc i \<le> c" by linarith
      then show "e_irq_bitmask (dir_engines dir v' c) = push_bit (v_engines_num v + (c - i)) 1"
      proof cases
        case 1
        then show ?thesis using f True same by simp
      next
        case 2
        then have "e_irq_bitmask (dir_engines dir v' c) = push_bit (v_engines_num v + 1 + (c - Suc i)) 1"
          using IH f True c(2) by (simp add: probed_def)
        then show ?thesis using 2 by (simp add: Suc_diff_Suc)
      qed
    qed
    then show ?thesis
      using IH f True up same by (auto simp: owned_sum_def)
  qed
qed

lemma remove_work_frame:
  "engine_owns (snd (xdma_thread_remove_work p e)) r = engine_owns e r"
  by (simp add: xdma_thread_remove_work_def engine_owns_def split: option.splits)

lemma engine_destroy_eq:
  assumes "engine_destroy mp v p e k = (e', v', p', k')"
  shows "e' = zero_engine \<and> v' = v\<lparr>v_engines_num := v_engines_num v - 1\<rparr> \<and>
    held (k_trace k') r = held (k_trace k) r - engine_owns e r"
proof -
  define k1 where "k1 = (let k = reg_write 0 (e_regs e + er_interrupt_enable_mask) k in
    if credit_mode mp e then reg_write (credit_reg_value e)
      (config_bar v + 6 * TARGET_SPACING + sc_credit_mode_enable_w1c) k else k)"
  have k1: "held (k_trace k1) r = held (k_trace k) r" by (simp add: k1_def Let_def)
  obtain p1 e1 where w: "(if poll_mode mp then xdma_thread_remove_work p e else (p, e)) = (p1, e1)"
    by (metis surj_pair)
  have e1: "engine_owns e1 r = engine_owns e r"
    using remove_work_frame [of p e r] w by (auto split: if_splits)
  obtain e2 k2 where f: "engine_free_resource e1 k1 = (e2, k2)" by (metis surj_pair)
  have "(e', v', p', k') = (zero_engine, v\<lparr>v_engines_num := v_engines_num v - 1\<rparr>, p1, k2)"
    using assms w f by (simp add: engine_destroy_def Let_def k1_def split: if_splits)
  then show ?thesis
    using engine_free_resource_eq [OF f, of r] k1 e1 by simp
qed

lemma remove_loop_eq:
  "remove_loop mp dir L v p k = (v', p', k') \<Longrightarrow> distinct L \<Longrightarrow>
   \<forall>c\<in>set L. e_magic (dir_engines dir v c) = MAGIC_ENGINE \<Longrightarrow>
   dir_engines (other_dir dir) v' = dir_engines (other_dir dir) v \<and>
   v_h2c_channel_max v' = v_h2c_channel_max v \<and> v_c2h_channel_max v' = v_c2h_channel_max v \<and>
   held (k_trace k') r = held (k_trace k) r - (\<Sum>c\<leftarrow>L. engine_owns (dir_engines dir v c) r)"
proof (induction L arbitrary: v p k)
  case (Cons i L)
  obtain e1 v1 p1 k1 where d: "engine_destroy mp v p (dir_engines dir v i) k = (e1, v1, p1, k1)"
    by (metis prod_cases4)
  note f = engine_destroy_eq [OF d, of r]
  let ?v = "set_engine dir i e1 v1"
  have run: "remove_loop mp dir L ?v p1 k1 = (v', p', k')"
    using Cons.prems(1,3) d by simp
  have v1: "dir_engines d v1 = dir_engines d v" for d using f by (simp add: dir_engines_def)
  have rest: "dir_engines dir ?v c = dir_engines dir v c" if "c \<in> set L" for c
    using that Cons.prems(2) v1 by auto
  have "\<forall>c\<in>set L. e_magic (dir_engines dir ?v c) = MAGIC_ENGINE" using rest Cons.prems(3) by auto
  note IH = Cons.IH [OF run _ this]
  have "(\<Sum>c\<leftarrow>L. engine_owns (dir_engines dir ?v c) r) = (\<Sum>c\<leftarrow>L. engine_owns (dir_engines dir v c) r)"
    using rest by (intro arg_cong [where f = sum_list] map_cong) simp_all
  then show ?case using IH Cons.prems(2) f v1 by simp
qed simp

lemma push_bit_disjoint: "a \<noteq> b \<Longrightarrow> push_bit a 1 AND push_bit b 1 = (0 :: u32)"
  by (rule bit_word_eqI) (auto simp: bit_simps)

lemma probed_disjoint: "probed E 0 n b \<Longrightarrow> disjoint_bits E n"
  unfolding probed_def disjoint_bits_def
  by (metis (no_types, lifting) add_left_cancel diff_zero le0 push_bit_disjoint)

lemma probe_engines_eq:
  assumes fresh: "\<forall>c. bare (v_engine_h2c v c)" "\<forall>c. bare (v_engine_c2h v c)"
    and run: "probe_engines hw mp pd v p k = Some (rv, v', p', k')"
  shows "rv = 0 \<and> v_h2c_channel_max v' \<le> v_h2c_channel_max v \<and>
    v_c2h_channel_max v' \<le> v_c2h_channel_max v \<and>
    probed (v_engine_h2c v') 0 (v_h2c_channel_max v') (v_engines_num v) \<and>
    (\<exists>b\<ge>v_engines_num v + v_h2c_channel_max v'. probed (v_engine_c2h v') 0 (v_c2h_channel_max v') b) \<and>
    held (k_trace k') r = held (k_trace k) r + owned_sum (v_engine_h2c v') 0 (v_h2c_channel_max v') r
      + owned_sum (v_engine_c2h v') 0 (v_c2h_channel_max v') r"
proof -
  have dirs: "dir_engines DMA_TO_DEVICE = v_engine_h2c" "dir_engines DMA_FROM_DEVICE = v_engine_c2h"
    "other_dir DMA_TO_DEVICE = DMA_FROM_DEVICE" "other_dir DMA_FROM_DEVICE = DMA_TO_DEVICE"
    by (auto simp: dir_engines_def other_dir_def)
  obtain i v1 p1 k1 where h: "probe_loop hw mp pd DMA_TO_DEVICE (v_h2c_channel_max v) 0 v p k = Some (i, v1, p1, k1)"
    using run by (auto simp: probe_engines_def split: option.splits prod.splits)
  have fh: "i \<le> v_h2c_channel_max v" "v_engine_c2h v1 = v_engine_c2h v"
    "v_c2h_channel_max v1 = v_c2h_channel_max v" "probed (v_engine_h2c v1) 0 i (v_engines_num v)"
    "v_engines_num v + i \<le> v_engines_num v1"
    "held (k_trace k1) r = held (k_trace k) r + owned_sum (v_engine_h2c v1) 0 i r"
    using probe_loop_eq [OF h, of r] fresh(1) by (auto simp: dirs)
  let ?v1 = "v1\<lparr>v_h2c_channel_max := i\<rparr>"
  obtain j v2 k2 where c: "probe_loop hw mp pd DMA_FROM_DEVICE (v_c2h_channel_max v1) 0 ?v1 p1 k1 = Some (j, v2, p', k2)"
    and res: "rv = 0" "v' = v2\<lparr>v_c2h_channel_max := j\<rparr>" "k' = k2"
    using run h by (auto simp: probe_engines_def Let_def split: option.splits prod.splits)
  have "j \<le> v_c2h_channel_max v" "v_engine_h2c v2 = v_engine_h2c v1" "v_h2c_channel_max v2 = i"
    "probed (v_engine_c2h v2) 0 j (v_engines_num v1)"
    "held (k_trace k2) r = held (k_trace k1) r + owned_sum (v_engine_c2h v2) 0 j r"
    using probe_loop_eq [OF c, of r] fresh(2) fh(2,3) by (auto simp: dirs)
  then show ?thesis using fh res by auto
qed

text \<open>
  Probing the engines of a fresh device never fails as a whole; it finds at most the channels
  asked for, every engine found carries the engine magic number, and the engines get interrupt
  bits of their own, as the interrupt handler needs. Removing the engines then releases exactly
  the coherent buffers that probing acquired, for whatever pattern of present, missing and
  failing channels, so that nothing is leaked or freed twice.
\<close>

theorem probe_remove_balanced:
  assumes "\<forall>c. bare (v_engine_h2c v c)" and "\<forall>c. bare (v_engine_c2h v c)"
    and "probe_engines hw mp pd v p k = Some (rv, v', p', k')"
  shows "rv = 0 \<and> v_h2c_channel_max v' \<le> v_h2c_channel_max v \<and>
    v_c2h_channel_max v' \<le> v_c2h_channel_max v \<and>
    disjoint_bits (v_engine_h2c v') (v_h2c_channel_max v') \<and>
    disjoint_bits (v_engine_c2h v') (v_c2h_channel_max v') \<and>
    (case remove_engines mp v' p' k' of (v2, p2, k2) \<Rightarrow>
       \<forall>r. held (k_trace k2) r = held (k_trace k) r)"
proof -
  note pe = probe_engines_eq [OF assms]
  have dirs: "dir_engines DMA_TO_DEVICE = v_engine_h2c" "dir_engines DMA_FROM_DEVICE = v_engine_c2h"
    "other_dir DMA_TO_DEVICE = DMA_FROM_DEVICE" by (auto simp: dir_engines_def other_dir_def)
  obtain v1 p1 k1 where r1: "remove_loop mp DMA_TO_DEVICE [0..<v_h2c_channel_max v'] v' p' k' = (v1, p1, k1)"
    by (metis prod_cases3)
  have m1: "\<forall>c\<in>set [0..<v_h2c_channel_max v']. e_magic (dir_engines DMA_TO_DEVICE v' c) = MAGIC_ENGINE"
    using pe by (auto simp: probed_def dirs)
  note f1 = remove_loop_eq [OF r1 _ m1]
  obtain v2 p2 k2 where r2: "remove_loop mp DMA_FROM_DEVICE [0..<v_c2h_channel_max v1] v1 p1 k1 = (v2, p2, k2)"
    by (metis prod_cases3)
  obtain b where c2h: "probed (v_engine_c2h v') 0 (v_c2h_channel_max v') b" using pe by blast
  have m2: "\<forall>c\<in>set [0..<v_c2h_channel_max v1]. e_magic (dir_engines DMA_FROM_DEVICE v1 c) = MAGIC_ENGINE"
    using c2h f1 [of ResDevice] by (simp add: probed_def dirs)
  note f2 = remove_loop_eq [OF r2 _ m2]
  have "held (k_trace k2) r = held (k_trace k) r" for r
    using f1 [of r] f2 [of r] pe [of r] by (simp add: dirs owned_sum_def)
  moreover have "remove_engines mp v' p' k' = (v2, p2, k2)"
    using r1 r2 by (simp add: remove_engines_def)
  ultimately show ?thesis using pe c2h probed_disjoint by simp blast
qed

definition fresh_dev :: xdma_dev where
  "fresh_dev = example_dev\<lparr>v_engines_num := 0, v_mask_irq_h2c := 0, v_mask_irq_c2h := 0,
     v_engine_h2c := (\<lambda>_. zero_engine), v_engine_c2h := (\<lambda>_. zero_engine)\<rparr>"

text \<open>Without the polling threads nothing on the way can fault.\<close>

lemma probe_engines_returns:
  assumes "\<not> poll_mode mp"
  shows "\<exists>rv v' p' k'. probe_engines hw mp pd v p k = Some (rv, v', p', k')"
proof -
  have init: "engine_init hw mp pd e v q off dir ch k \<noteq> None" for hw pd e v q off dir ch k
    using assms by (simp add: engine_init_def split: prod.splits)
  have loop: "\<exists>i' v' q' k'. probe_loop hw mp pd dir n i v q k = Some (i', v', q', k')" for hw pd dir n i v q k
    by (induction n arbitrary: i v q k)
      (auto simp: probe_for_engine_def Let_def init split: option.splits prod.splits if_splits)
  obtain i v1 q1 k1 where h: "probe_loop hw mp pd DMA_TO_DEVICE (v_h2c_channel_max v) 0 v p k = Some (i, v1, q1, k1)"
    using loop by blast
  obtain j v2 q2 k2 where "probe_loop hw mp pd DMA_FROM_DEVICE (v_c2h_channel_max v1) 0
      (v1\<lparr>v_h2c_channel_max := i\<rparr>) q1 k1 = Some (j, v2, q2, k2)" using loop by blast
  then show ?thesis by (simp add: probe_engines_def h Let_def)
qed

text \<open>A device with one host-to-card channel (identifier \<open>1fc0\<close>, channel 0) and nothing else.\<close>

theorem probe_remove_balanced_witness:
  "\<exists>v' p' k'. probe_engines (\<lambda>_ l. if l = Mmio 0 then 0x1fc00006 else 0) example_mp example_pci fresh_dev
       \<lparr>cs_threads = None, thread_cnt = 0\<rparr> \<lparr>k_trace = [], k_xfers = (\<lambda>_. zero_transfer)\<rparr> = Some (0, v', p', k') \<and>
     disjoint_bits (v_engine_h2c v') (v_h2c_channel_max v')"
proof -
  let ?hw = "\<lambda>_ l. if l = Mmio 0 then 0x1fc00006 else 0 :: u32"
  let ?p = "\<lparr>cs_threads = None, thread_cnt = 0\<rparr>" and ?k = "\<lparr>k_trace = [], k_xfers = (\<lambda>_. zero_transfer)\<rparr>"
  have bare: "\<forall>c. bare (v_engine_h2c fresh_dev c)" "\<forall>c. bare (v_engine_c2h fresh_dev c)"
    by (simp_all add: fresh_dev_def)
  have np: "\<not> poll_mode example_mp" by (simp add: example_mp_def)
  obtain rv v' p' k' where run: "probe_engines ?hw example_mp example_pci fresh_dev ?p ?k = Some (rv, v', p', k')"
    using probe_engines_returns [OF np] by blast
  show ?thesis
    using probe_remove_balanced [OF bare run] run by auto
qed

end
