(* ===== verification/Xdma_Open.thy ===== *)
theory Xdma_Open
  imports Xdma_Probe
begin

text \<open>
  Opening and closing a device, taking it offline and online, and the registration of user
  interrupts. The two global lists of devices hold addresses of device structures, which live in
  the store \<open>d_devs\<close>; the services of the scheduler that the polling threads need are the fields
  of \<open>kthreads\<close>. The channel and interrupt counts that a caller passes are natural numbers (the
  callers pass the compile-time maxima).
\<close>

section \<open>The list of devices\<close>

record kthreads =
  kt_kmem :: "nat \<Rightarrow> bool"
  kt_kcreate :: "nat \<Rightarrow> bool"
  kt_cpus :: "nat list"
  kt_kstop :: "nat \<Rightarrow> int"

record driver =
  d_devs :: "nat \<Rightarrow> xdma_dev option"
  xdev_list :: "nat list"
  xdev_rcu_list :: "nat list"
  d_pool :: thread_pool

definition zero_user_irq :: "nat \<Rightarrow> xdma_user_irq" where
  "zero_user_irq i = \<lparr>u_user_idx = i, u_events_irq = False, u_handler = None, u_dev = 0\<rparr>"

text \<open>\<^verbatim>\<open>alloc_dev_instance\<close>; \<open>mem\<close> says whether \<^verbatim>\<open>kzalloc\<close> succeeds, 0 is the null pointer.\<close>

definition alloc_dev_instance :: "bool \<Rightarrow> nat \<Rightarrow> xdma_dev option" where
  "alloc_dev_instance mem pdev =
     (if pdev = 0 then None
      else if \<not> mem then None
      else Some \<lparr>v_magic = MAGIC_DEVICE, v_pdev = pdev, v_idx = 0, v_flags = 0, v_bar = (\<lambda>_. 0),
             v_user_bar_idx = - 1, v_config_bar_idx = - 1, v_bypass_bar_idx = - 1,
             v_regions_in_use = False, v_got_regions = False, v_user_max = 0,
             v_c2h_channel_max = 0, v_h2c_channel_max = 0, v_irq_count = 0, v_irq_line = - 1,
             v_msi_enabled = False, v_msix_enabled = False,
             v_user_irq = (\<lambda>i. zero_user_irq (if i < 16 then i else 0)),
             v_mask_irq_user = 0, v_engines_num = 0, v_mask_irq_h2c = 0, v_mask_irq_c2h = 0,
             v_engine_h2c = (\<lambda>_. zero_engine), v_engine_c2h = (\<lambda>_. zero_engine)\<rparr>)"

definition dev_idx :: "driver \<Rightarrow> nat \<Rightarrow> int" where
  "dev_idx d h = (case d_devs d h of None \<Rightarrow> 0 | Some v \<Rightarrow> v_idx v)"

definition xdev_list_add ::
    "modparams \<Rightarrow> kthreads \<Rightarrow> nat \<Rightarrow> xdma_dev \<Rightarrow> driver \<Rightarrow> kstate \<Rightarrow> int \<times> xdma_dev \<times> driver \<times> kstate" where
  "xdev_list_add mp kt h v d k =
     (let (rv, v, d, k) =
        (if xdev_list d = []
         then let v = v\<lparr>v_idx := 0\<rparr> in
              if poll_mode mp
              then let (rv, p, k) = xdma_threads_create (kt_kmem kt) (kt_kcreate kt) (kt_cpus kt)
                         (v_h2c_channel_max v + v_c2h_channel_max v) (d_pool d) k
                   in (rv, v, d\<lparr>d_pool := p\<rparr>, k)
              else (0, v, d, k)
         else (0, v\<lparr>v_idx := dev_idx d (last (xdev_list d)) + 1\<rparr>, d, k))
      in if rv < 0 then (rv, v, d, k)
         else (0, v, d\<lparr>xdev_list := xdev_list d @ [h], xdev_rcu_list := xdev_rcu_list d @ [h]\<rparr>, k))"

definition xdev_list_remove ::
    "modparams \<Rightarrow> kthreads \<Rightarrow> nat \<Rightarrow> driver \<Rightarrow> kstate \<Rightarrow> driver \<times> kstate" where
  "xdev_list_remove mp kt h d k =
     (let d = d\<lparr>xdev_list := remove1 h (xdev_list d)\<rparr>;
          (d, k) = (if poll_mode mp \<and> xdev_list d = []
                    then let (p, k) = xdma_threads_destroy (kt_kstop kt) (d_pool d) k
                         in (d\<lparr>d_pool := p\<rparr>, k)
                    else (d, k))
      in (d\<lparr>xdev_rcu_list := remove1 h (xdev_rcu_list d)\<rparr>, k))"

definition dev_pdev :: "driver \<Rightarrow> nat \<Rightarrow> nat option" where
  "dev_pdev d h = map_option v_pdev (d_devs d h)"

definition xdev_find_by_pdev :: "driver \<Rightarrow> nat \<Rightarrow> nat option" where
  "xdev_find_by_pdev d pdev = find (\<lambda>h. dev_pdev d h = Some pdev) (xdev_list d)"

definition debug_check_dev_hndl :: "driver \<Rightarrow> nat \<Rightarrow> nat \<Rightarrow> int" where
  "debug_check_dev_hndl d pdev hndl =
     (if pdev = 0 then - EINVAL
      else case xdev_find_by_pdev d pdev of
             None \<Rightarrow> - EINVAL
           | Some xdev \<Rightarrow> if xdev \<noteq> hndl then - EINVAL else 0)"

section \<open>Opening a device\<close>

definition request_regions :: "pci \<Rightarrow> xdma_dev \<Rightarrow> kstate \<Rightarrow> int \<times> xdma_dev \<times> kstate" where
  "request_regions pd v k =
     (let rv = pci_request_regions pd
      in if rv \<noteq> 0 then (rv, v\<lparr>v_regions_in_use := True\<rparr>, k)
         else (rv, v\<lparr>v_got_regions := True\<rparr>, log_event (Acquire ResRegions) k))"

definition set_dma_mask :: "pci \<Rightarrow> int" where
  "set_dma_mask pd =
     (if pci_set_dma_mask pd 64 = 0 then 0 else if pci_set_dma_mask pd 32 = 0 then 0 else - EINVAL)"

definition clamp_max :: "nat \<Rightarrow> nat \<Rightarrow> nat" where
  "clamp_max n limit = (if n = 0 \<or> limit < n then limit else n)"

definition interrupts_off :: "device \<Rightarrow> xdma_dev \<Rightarrow> kstate \<Rightarrow> kstate" where
  "interrupts_off hw v k =
     (let k = channel_interrupts_disable v (NOT 0) k;
          k = user_interrupts_disable v (NOT 0) k
      in snd (read_interrupts hw v k))"

text \<open>The labels at the end of \<^verbatim>\<open>xdma_device_open\<close>, each falling through to the next.\<close>

definition err_regions :: "xdma_dev \<Rightarrow> kstate \<Rightarrow> kstate" where
  "err_regions v k = (if v_regions_in_use v then k else log_event (Release ResDevice) k)"

definition err_map :: "xdma_dev \<Rightarrow> kstate \<Rightarrow> kstate" where
  "err_map v k = err_regions v (if v_got_regions v then log_event (Release ResRegions) k else k)"

definition err_mask :: "xdma_dev \<Rightarrow> kstate \<Rightarrow> kstate" where
  "err_mask v k = (let (v, k) = unmap_bars v k in err_map v k)"

definition err_engines :: "modparams \<Rightarrow> xdma_dev \<Rightarrow> thread_pool \<Rightarrow> kstate \<Rightarrow> thread_pool \<times> kstate" where
  "err_engines mp v p k = (let (v, p, k) = remove_engines mp v p k in (p, err_mask v k))"

definition err_msix :: "modparams \<Rightarrow> xdma_dev \<Rightarrow> thread_pool \<Rightarrow> kstate \<Rightarrow> thread_pool \<times> kstate" where
  "err_msix mp v p k = (let (v, k) = disable_msi_msix v k in err_engines mp v p k)"

text \<open>From the bus-master bit to the return; the first component is the device, if it is kept.\<close>

definition open_engines ::
    "device \<Rightarrow> modparams \<Rightarrow> pci \<Rightarrow> xdma_dev \<Rightarrow> thread_pool \<Rightarrow> kstate
     \<Rightarrow> (xdma_dev option \<times> thread_pool \<times> kstate) option" where
  "open_engines hw mp pd v p k =
     (let k = check_nonzero_interrupt_status hw v k;
          k = interrupts_off hw v k
      in case probe_engines hw mp pd v p k of
           None \<Rightarrow> None
         | Some (rv, v, p, k) \<Rightarrow>
             if rv \<noteq> 0 then Some (None, p, err_mask v k)
             else let (rv, v, k) = enable_msi_msix mp pd v k in
             if rv < 0 then (let (p, k) = err_engines mp v p k in Some (None, p, k))
             else let (rv, v, k) = irq_setup pd v k in
             if rv < 0 then (let (p, k) = err_msix mp v p k in Some (None, p, k))
             else let k = (if poll_mode mp then k
                           else channel_interrupts_enable (config_bar v) (NOT 0) k);
                      k = snd (read_interrupts hw v k)
                  in Some (Some (xdma_device_flag_clear v XDEV_FLAG_OFFLINE), p, k))"

definition open_pci ::
    "device \<Rightarrow> modparams \<Rightarrow> pci \<Rightarrow> xdma_dev \<Rightarrow> thread_pool \<Rightarrow> kstate
     \<Rightarrow> (xdma_dev option \<times> thread_pool \<times> kstate) option" where
  "open_pci hw mp pd v p k =
     (let rv = pci_enable_device pd in
      if rv \<noteq> 0 then Some (None, p, k)
      else let k = log_event (Acquire ResDevice) k;
               (rv, v, k) = request_regions pd v k
           in if rv \<noteq> 0 then Some (None, p, err_regions v k)
              else let (rv, v, k) = map_bars hw pd v k
              in if rv \<noteq> 0 then Some (None, p, err_map v k)
                 else let rv = set_dma_mask pd
                 in if rv \<noteq> 0 then Some (None, p, err_mask v k)
                    else open_engines hw mp pd v p k)"

text \<open>
  \<^verbatim>\<open>xdma_device_open\<close>: the handle (\<open>None\<close> for the null pointer), the three counts as the caller finds
  them afterwards, and the new state. \<open>mem\<close> is the address \<^verbatim>\<open>kzalloc\<close> returns, if it succeeds.
\<close>

definition xdma_device_open ::
    "device \<Rightarrow> modparams \<Rightarrow> pci \<Rightarrow> kthreads \<Rightarrow> nat option \<Rightarrow> nat \<Rightarrow> nat \<times> nat \<times> nat \<Rightarrow> driver \<Rightarrow> kstate
     \<Rightarrow> (nat option \<times> (nat \<times> nat \<times> nat) \<times> driver \<times> kstate) option" where
  "xdma_device_open hw mp pd kt mem pdev cnts d k =
     (case (alloc_dev_instance (mem \<noteq> None) pdev, mem) of
        (Some v, Some h) \<Rightarrow>
          let (user_max, h2c_max, c2h_max) = cnts;
              v = v\<lparr>v_user_max := user_max, v_h2c_channel_max := h2c_max, v_c2h_channel_max := c2h_max\<rparr>;
              v = xdma_device_flag_set v XDEV_FLAG_OFFLINE;
              v = v\<lparr>v_user_max := clamp_max (v_user_max v) MAX_USER_IRQ,
                    v_h2c_channel_max := clamp_max (v_h2c_channel_max v) XDMA_CHANNEL_NUM_MAX,
                    v_c2h_channel_max := clamp_max (v_c2h_channel_max v) XDMA_CHANNEL_NUM_MAX\<rparr>;
              (rv, v, d, k) = xdev_list_add mp kt h v d k
          in if rv < 0 then Some (None, cnts, d, k)
             else (case open_pci hw mp pd v (d_pool d) k of
                     None \<Rightarrow> None
                   | Some (None, p, k) \<Rightarrow>
                       let (d, k) = xdev_list_remove mp kt h (d\<lparr>d_pool := p\<rparr>) k
                       in Some (None, cnts, d, k)
                   | Some (Some v, p, k) \<Rightarrow>
                       Some (Some h, (v_user_max v, v_h2c_channel_max v, v_c2h_channel_max v),
                             d\<lparr>d_pool := p, d_devs := (d_devs d)(h := Some v)\<rparr>, k))
      | _ \<Rightarrow> Some (None, cnts, d, k))"

section \<open>Closing, offline and online\<close>

definition xdma_device_close ::
    "device \<Rightarrow> modparams \<Rightarrow> pci \<Rightarrow> kthreads \<Rightarrow> nat \<Rightarrow> nat option \<Rightarrow> driver \<Rightarrow> kstate \<Rightarrow> driver \<times> kstate" where
  "xdma_device_close hw mp pd kt pdev hndl d k =
     (case hndl of
        None \<Rightarrow> (d, k)
      | Some h \<Rightarrow>
          if debug_check_dev_hndl d pdev h < 0 then (d, k)
          else case d_devs d h of
                 None \<Rightarrow> (d, k)
               | Some v \<Rightarrow>
                   let k = interrupts_off hw v k;
                       k = irq_teardown pd v k;
                       (v, k) = disable_msi_msix v k;
                       (v, p, k) = remove_engines mp v (d_pool d) k;
                       (v, k) = unmap_bars v k;
                       k = (if v_got_regions v then log_event (Release ResRegions) k else k);
                       k = (if v_regions_in_use v then k else log_event (Release ResDevice) k);
                       (d, k) = xdev_list_remove mp kt h (d\<lparr>d_pool := p\<rparr>) k
                   in (d\<lparr>d_devs := (d_devs d)(h := None)\<rparr>, k))"

fun offline_loop :: "modparams \<Rightarrow> dma_data_direction \<Rightarrow> nat list \<Rightarrow> xdma_dev \<Rightarrow> kstate \<Rightarrow> xdma_dev \<times> kstate" where
  "offline_loop mp dir [] v k = (v, k)"
| "offline_loop mp dir (i # is) v k =
     (let e = dir_engines dir v i in
      if e_magic e = MAGIC_ENGINE
      then let e = e\<lparr>e_shutdown := e_shutdown e OR ENGINE_SHUTDOWN_REQUEST\<rparr>;
               (rv, e, k) = xdma_engine_stop mp e k
           in offline_loop mp dir is (set_engine dir i e v) k
      else offline_loop mp dir is v k)"

definition xdma_device_offline ::
    "device \<Rightarrow> modparams \<Rightarrow> pci \<Rightarrow> nat \<Rightarrow> nat option \<Rightarrow> driver \<Rightarrow> kstate \<Rightarrow> driver \<times> kstate" where
  "xdma_device_offline hw mp pd pdev hndl d k =
     (case hndl of
        None \<Rightarrow> (d, k)
      | Some h \<Rightarrow>
          if debug_check_dev_hndl d pdev h < 0 then (d, k)
          else case d_devs d h of
                 None \<Rightarrow> (d, k)
               | Some v \<Rightarrow>
                   let v = xdma_device_flag_set v XDEV_FLAG_OFFLINE;
                       (v, k) = offline_loop mp DMA_TO_DEVICE [0..<v_h2c_channel_max v] v k;
                       (v, k) = offline_loop mp DMA_FROM_DEVICE [0..<v_c2h_channel_max v] v k;
                       k = interrupts_off hw v k;
                       k = irq_teardown pd v k
                   in (d\<lparr>d_devs := (d_devs d)(h := Some v)\<rparr>, k))"

fun online_loop ::
    "device \<Rightarrow> modparams \<Rightarrow> dma_data_direction \<Rightarrow> nat list \<Rightarrow> xdma_dev \<Rightarrow> kstate \<Rightarrow> xdma_dev \<times> kstate" where
  "online_loop hw mp dir [] v k = (v, k)"
| "online_loop hw mp dir (i # is) v k =
     (let e = dir_engines dir v i in
      if e_magic e = MAGIC_ENGINE
      then let (rv, e, k) = engine_init_regs hw mp (config_bar v) e k;
               e = e\<lparr>e_shutdown := e_shutdown e AND NOT ENGINE_SHUTDOWN_REQUEST\<rparr>
           in online_loop hw mp dir is (set_engine dir i e v) k
      else online_loop hw mp dir is v k)"

definition xdma_device_online ::
    "device \<Rightarrow> modparams \<Rightarrow> pci \<Rightarrow> nat \<Rightarrow> nat option \<Rightarrow> driver \<Rightarrow> kstate \<Rightarrow> driver \<times> kstate" where
  "xdma_device_online hw mp pd pdev hndl d k =
     (case hndl of
        None \<Rightarrow> (d, k)
      | Some h \<Rightarrow>
          if debug_check_dev_hndl d pdev h < 0 then (d, k)
          else case d_devs d h of
                 None \<Rightarrow> (d, k)
               | Some v \<Rightarrow>
                   let (v, k) = online_loop hw mp DMA_TO_DEVICE [0..<v_h2c_channel_max v] v k;
                       (v, k) = online_loop hw mp DMA_FROM_DEVICE [0..<v_c2h_channel_max v] v k;
                       (v, k) =
                         (if poll_mode mp then (v, k)
                          else let (rv, v, k) = irq_setup pd v k;
                                   k = channel_interrupts_enable (config_bar v) (NOT 0) k;
                                   k = user_interrupts_enable v (v_mask_irq_user v) k
                               in (v, snd (read_interrupts hw v k)));
                       v = xdma_device_flag_clear v XDEV_FLAG_OFFLINE
                   in (d\<lparr>d_devs := (d_devs d)(h := Some v)\<rparr>, k))"

definition xdma_device_restart :: "driver \<Rightarrow> nat \<Rightarrow> nat option \<Rightarrow> int" where
  "xdma_device_restart d pdev hndl =
     (case hndl of
        None \<Rightarrow> - EINVAL
      | Some h \<Rightarrow> if debug_check_dev_hndl d pdev h < 0 then - EINVAL else - EINVAL)"

section \<open>User interrupts\<close>

text \<open>\<^verbatim>\<open>for (i = 0; i < user_max && mask; i++)\<close> with \<open>n\<close> rounds to go.\<close>

fun isr_register_loop ::
    "nat \<Rightarrow> nat \<Rightarrow> u32 \<Rightarrow> nat option \<Rightarrow> nat \<Rightarrow> (nat \<Rightarrow> xdma_user_irq) \<Rightarrow> nat \<Rightarrow> xdma_user_irq" where
  "isr_register_loop 0 i m handler dev users = users"
| "isr_register_loop (Suc n) i m handler dev users =
     (if m = 0 then users
      else if push_bit i 1 AND m = 0 then isr_register_loop n (Suc i) m handler dev users
      else isr_register_loop n (Suc i) (m AND NOT (push_bit i 1)) handler dev
             (users(i := (users i)\<lparr>u_handler := handler, u_dev := dev\<rparr>)))"

text \<open>The three functions dereference the handle before they check it; \<open>None\<close> is that fault.\<close>

definition xdma_user_isr_register ::
    "nat option \<Rightarrow> u32 \<Rightarrow> nat option \<Rightarrow> nat \<Rightarrow> driver \<Rightarrow> (int \<times> driver) option" where
  "xdma_user_isr_register hndl m handler dev d =
     (case hndl of
        None \<Rightarrow> Some (- EINVAL, d)
      | Some h \<Rightarrow>
          (case d_devs d h of
             None \<Rightarrow> None
           | Some v \<Rightarrow>
               if debug_check_dev_hndl d (v_pdev v) h < 0 then Some (- EINVAL, d)
               else Some (0, d\<lparr>d_devs := (d_devs d)(h := Some (v\<lparr>v_user_irq :=
                      isr_register_loop (v_user_max v) 0 m handler dev (v_user_irq v)\<rparr>))\<rparr>)))"

definition xdma_user_isr_enable ::
    "device \<Rightarrow> nat option \<Rightarrow> u32 \<Rightarrow> driver \<Rightarrow> kstate \<Rightarrow> (int \<times> driver \<times> kstate) option" where
  "xdma_user_isr_enable hw hndl m d k =
     (case hndl of
        None \<Rightarrow> Some (- EINVAL, d, k)
      | Some h \<Rightarrow>
          (case d_devs d h of
             None \<Rightarrow> None
           | Some v \<Rightarrow>
               if debug_check_dev_hndl d (v_pdev v) h < 0 then Some (- EINVAL, d, k)
               else let v = v\<lparr>v_mask_irq_user := v_mask_irq_user v OR m\<rparr>;
                        k = snd (read_interrupts hw v (user_interrupts_enable v m k))
                    in Some (0, d\<lparr>d_devs := (d_devs d)(h := Some v)\<rparr>, k)))"

definition xdma_user_isr_disable ::
    "device \<Rightarrow> nat option \<Rightarrow> u32 \<Rightarrow> driver \<Rightarrow> kstate \<Rightarrow> (int \<times> driver \<times> kstate) option" where
  "xdma_user_isr_disable hw hndl m d k =
     (case hndl of
        None \<Rightarrow> Some (- EINVAL, d, k)
      | Some h \<Rightarrow>
          (case d_devs d h of
             None \<Rightarrow> None
           | Some v \<Rightarrow>
               if debug_check_dev_hndl d (v_pdev v) h < 0 then Some (- EINVAL, d, k)
               else let v = v\<lparr>v_mask_irq_user := v_mask_irq_user v AND NOT m\<rparr>;
                        k = snd (read_interrupts hw v (user_interrupts_disable v m k))
                    in Some (0, d\<lparr>d_devs := (d_devs d)(h := Some v)\<rparr>, k)))"

section \<open>What a device holds\<close>

text \<open>Everything of the device structure that probing and removing engines leaves alone.\<close>

definition dev_rest :: "xdma_dev \<Rightarrow> xdma_dev" where
  "dev_rest v = v\<lparr>v_engine_h2c := (\<lambda>_. zero_engine), v_engine_c2h := (\<lambda>_. zero_engine), v_engines_num := 0,
     v_mask_irq_h2c := 0, v_mask_irq_c2h := 0, v_h2c_channel_max := 0, v_c2h_channel_max := 0\<rparr>"

lemma dev_restD:
  assumes "dev_rest v' = dev_rest v"
  shows "v_bar v' = v_bar v" "v_got_regions v' = v_got_regions v" "v_regions_in_use v' = v_regions_in_use v"
    "v_msix_enabled v' = v_msix_enabled v" "v_msi_enabled v' = v_msi_enabled v" "v_irq_line v' = v_irq_line v"
    "v_user_max v' = v_user_max v" "v_pdev v' = v_pdev v"
  using arg_cong [OF assms, of v_bar] arg_cong [OF assms, of v_got_regions]
    arg_cong [OF assms, of v_regions_in_use] arg_cong [OF assms, of v_msix_enabled]
    arg_cong [OF assms, of v_msi_enabled] arg_cong [OF assms, of v_irq_line]
    arg_cong [OF assms, of v_user_max] arg_cong [OF assms, of v_pdev]
  by (simp_all add: dev_rest_def)

lemma dev_rest_set_engine [simp]: "dev_rest (set_engine dir i e v) = dev_rest v"
  by (simp add: dev_rest_def set_engine_def)

lemma engine_init_rest:
  "engine_init hw mp pd e v p off dir ch k = Some (rv, e', v', p', k') \<Longrightarrow> dev_rest v' = dev_rest v"
  by (auto simp: engine_init_def engine_setup_def dev_rest_def xdma_io Let_def
      split: if_splits prod.splits option.splits)

lemma probe_loop_rest:
  "probe_loop hw mp pd dir n i v p k = Some (j, v', p', k') \<Longrightarrow> dev_rest v' = dev_rest v"
proof (induction n arbitrary: i v p k)
  case (Suc n)
  obtain rv v1 p1 k1 where pr: "probe_for_engine hw mp pd v p dir i k = Some (rv, v1, p1, k1)"
    using Suc.prems by (auto split: option.splits prod.splits)
  then have "dev_rest v1 = dev_rest v"
    by (auto simp: probe_for_engine_def Let_def split: if_splits prod.splits option.splits dest: engine_init_rest)
  then show ?case using Suc pr by (fastforce split: if_splits)
qed simp

lemma probe_engines_rest:
  "probe_engines hw mp pd v p k = Some (rv, v', p', k') \<Longrightarrow> dev_rest v' = dev_rest v"
  by (auto simp: probe_engines_def Let_def split: option.splits prod.splits dest!: probe_loop_rest)
    (simp_all add: dev_rest_def)

lemma remove_loop_rest: "remove_loop mp dir L v p k = (v', p', k') \<Longrightarrow> dev_rest v' = dev_rest v"
proof (induction L arbitrary: v p k)
  case (Cons i L)
  show ?case
  proof (cases "e_magic (dir_engines dir v i) = MAGIC_ENGINE")
    case True
    obtain e1 v1 p1 k1 where d: "engine_destroy mp v p (dir_engines dir v i) k = (e1, v1, p1, k1)"
      by (metis prod_cases4)
    then have "dev_rest v1 = dev_rest v"
      using engine_destroy_eq [OF d] by (simp add: dev_rest_def)
    then show ?thesis using Cons True d by (simp add: Cons.IH)
  qed (use Cons in simp)
qed simp

definition bars_held :: "xdma_dev \<Rightarrow> resource \<Rightarrow> int" where
  "bars_held v r = (case r of ResBar i \<Rightarrow> (if i < XDMA_BAR_NUM then mapped v i else 0) | _ \<Rightarrow> 0)"

definition engines_held :: "xdma_dev \<Rightarrow> resource \<Rightarrow> int" where
  "engines_held v r = owned_sum (v_engine_h2c v) 0 (v_h2c_channel_max v) r
     + owned_sum (v_engine_c2h v) 0 (v_c2h_channel_max v) r"

definition regions_held :: "xdma_dev \<Rightarrow> resource \<Rightarrow> int" where
  "regions_held v r = (if r = ResRegions \<and> v_got_regions v then 1 else 0)
     + (if r = ResDevice \<and> \<not> v_regions_in_use v then 1 else 0)"

definition msi_held :: "xdma_dev \<Rightarrow> resource \<Rightarrow> int" where
  "msi_held v r = (if r = ResMsix \<and> v_msix_enabled v then 1 else 0)
     + (if r = ResMsi \<and> v_msi_enabled v \<and> \<not> v_msix_enabled v then 1 else 0)"

text \<open>The interrupts that \<^verbatim>\<open>irq_teardown\<close> frees, read off its run on an empty log.\<close>

definition irq_held :: "pci \<Rightarrow> xdma_dev \<Rightarrow> resource \<Rightarrow> int" where
  "irq_held pd v r = - held (k_trace (irq_teardown pd v \<lparr>k_trace = [], k_xfers = (\<lambda>_. zero_transfer)\<rparr>)) r"

definition engines_magic :: "xdma_dev \<Rightarrow> bool" where
  "engines_magic v \<longleftrightarrow> (\<forall>c<v_h2c_channel_max v. e_magic (v_engine_h2c v c) = MAGIC_ENGINE) \<and>
     (\<forall>c<v_c2h_channel_max v. e_magic (v_engine_c2h v c) = MAGIC_ENGINE)"

lemma free_loop_held:
  "held (k_trace (irq_channel_free_loop L E k)) r - held (k_trace k) r =
   held (k_trace (irq_channel_free_loop L E k2)) r - held (k_trace k2) r"
proof (induction L arbitrary: k k2)
  case (Cons i L)
  let ?f = "free_irq (e_msix_irq_line (E i))"
  have "held (k_trace (?f k)) r - held (k_trace k) r = held (k_trace (?f k2)) r - held (k_trace k2) r"
    by (simp add: free_irq_def)
  then show ?case using Cons.IH [of "?f k" "?f k2"] by (simp split: if_splits)
qed simp

lemma irq_teardown_held: "held (k_trace (irq_teardown pd v k)) r = held (k_trace k) r - irq_held pd v r"
proof -
  have "held (k_trace (irq_teardown pd v k)) r - held (k_trace k) r =
      held (k_trace (irq_teardown pd v k2)) r - held (k_trace k2) r" for k2
  proof (cases "v_msix_enabled v")
    case True
    let ?h = "irq_channel_free_loop [0..<v_h2c_channel_max v] (v_engine_h2c v)"
    let ?c = "irq_channel_free_loop [0..<v_c2h_channel_max v] (v_engine_c2h v)"
    let ?p = "prog_irq_msix_channel v True"
    have p: "held (k_trace (?p k)) r = held (k_trace k) r" for k by (simp add: prog_irq_msix_channel_def)
    have "held (k_trace (irq_teardown pd v k)) r - held (k_trace (?c (?h (?p k)))) r =
      held (k_trace (irq_teardown pd v k2)) r - held (k_trace (?c (?h (?p k2)))) r"
      using True by (simp add: irq_teardown_def irq_user_teardown_held irq_msix_channel_teardown_def Let_def)
    then show ?thesis
      using free_loop_held [of "[0..<v_c2h_channel_max v]" "v_engine_c2h v" "?h (?p k)" r "?h (?p k2)"]
        free_loop_held [of "[0..<v_h2c_channel_max v]" "v_engine_h2c v" "?p k" r "?p k2"] p [of k] p [of k2]
      by linarith
  qed (simp add: irq_teardown_def free_irq_def)
  from this [of "\<lparr>k_trace = [], k_xfers = (\<lambda>_. zero_transfer)\<rparr>"] show ?thesis by (simp add: irq_held_def)
qed

lemma unmap_bars_held:
  assumes "unmap_bars v k = (v', k')"
  shows "held (k_trace k') r = held (k_trace k) r - bars_held v r \<and> regions_held v' = regions_held v \<and>
    v_got_regions v' = v_got_regions v \<and> v_regions_in_use v' = v_regions_in_use v"
proof -
  have step: "bars_step (set [0..<XDMA_BAR_NUM]) v k v' k'" "\<forall>i\<in>set [0..<XDMA_BAR_NUM]. v_bar v' i = 0"
    using unmap_bars_loop_inv assms unfolding unmap_bars_def by blast+
  have core: "dev_core v' = dev_core v" using step(1) unfolding bars_step_def by blast
  have reg: "v_got_regions v' = v_got_regions v" "v_regions_in_use v' = v_regions_in_use v"
    using arg_cong [OF core, of v_got_regions] arg_cong [OF core, of v_regions_in_use]
    by (simp_all add: dev_core_def)
  have "held (k_trace k') r = held (k_trace k) r - bars_held v r"
  proof (cases "\<exists>i. r = ResBar i")
    case True
    then obtain i where r: "r = ResBar i" by blast
    have "held (k_trace k') r - mapped v' i = held (k_trace k) r - mapped v i"
      "i \<notin> set [0..<XDMA_BAR_NUM] \<Longrightarrow> v_bar v' i = v_bar v i"
      using step(1) unfolding r bars_step_def by blast+
    then show ?thesis using step(2) by (cases "i < XDMA_BAR_NUM") (auto simp: r bars_held_def mapped_def)
  next
    case False
    then show ?thesis using step(1) by (auto simp: bars_step_def bars_held_def split: resource.splits)
  qed
  then show ?thesis using reg by (simp add: regions_held_def fun_eq_iff)
qed

lemma remove_engines_held:
  assumes "remove_engines mp v p k = (v', p', k')" and "engines_magic v"
  shows "held (k_trace k') r = held (k_trace k) r - engines_held v r \<and> dev_rest v' = dev_rest v"
proof -
  have dirs: "dir_engines DMA_TO_DEVICE = v_engine_h2c" "dir_engines DMA_FROM_DEVICE = v_engine_c2h"
    "other_dir DMA_TO_DEVICE = DMA_FROM_DEVICE" by (auto simp: dir_engines_def other_dir_def)
  obtain v1 p1 k1 where r1: "remove_loop mp DMA_TO_DEVICE [0..<v_h2c_channel_max v] v p k = (v1, p1, k1)"
    by (metis prod_cases3)
  have r2: "remove_loop mp DMA_FROM_DEVICE [0..<v_c2h_channel_max v1] v1 p1 k1 = (v', p', k')"
    using assms(1) r1 by (simp add: remove_engines_def)
  have f1: "v_engine_c2h v1 = v_engine_c2h v" "v_c2h_channel_max v1 = v_c2h_channel_max v"
    "held (k_trace k1) r = held (k_trace k) r - owned_sum (v_engine_h2c v) 0 (v_h2c_channel_max v) r"
    using remove_loop_eq [OF r1, of r] assms(2) by (auto simp: dirs engines_magic_def owned_sum_def)
  have "held (k_trace k') r = held (k_trace k1) r - owned_sum (v_engine_c2h v) 0 (v_c2h_channel_max v) r"
    using remove_loop_eq [OF r2, of r] assms(2) f1 by (auto simp: dirs engines_magic_def owned_sum_def)
  moreover have "dev_rest v' = dev_rest v" using remove_loop_rest [OF r1] remove_loop_rest [OF r2] by simp
  ultimately show ?thesis using f1 by (simp add: engines_held_def)
qed

section \<open>Setting up the interrupts\<close>

lemma irq_channel_setup_loop_frame:
  "irq_channel_setup_loop pd base L E k = (rv, E', k') \<Longrightarrow>
   (\<forall>c. e_magic (E' c) = e_magic (E c) \<and> engine_owns (E' c) r = engine_owns (E c) r) \<and>
   ((\<forall>i. r \<noteq> ResIrq i) \<longrightarrow> held (k_trace k') r = held (k_trace k) r)"
proof (induction L arbitrary: E k)
  case (Cons i L)
  define vec where "vec = pci_irq_vector pd (base + i)"
  show ?case
  proof (cases "pci_request_irq pd vec = 0")
    case True
    let ?E = "E(i := (E i)\<lparr>e_msix_irq_line := vec\<rparr>)"
    have "irq_channel_setup_loop pd base L ?E (log_event (Acquire (ResIrq vec)) k) = (rv, E', k')"
      using Cons.prems True by (simp add: request_irq_def vec_def Let_def)
    from Cons.IH [OF this] show ?thesis by (auto simp: engine_owns_def)
  qed (use Cons.prems in \<open>auto simp: request_irq_def vec_def Let_def\<close>)
qed simp

lemma held_map_other:
  "(\<forall>i. r \<noteq> f i) \<Longrightarrow> held (map (\<lambda>i. Acquire (f i)) L) r = 0"
  "(\<forall>i. r \<noteq> f i) \<Longrightarrow> held (map (\<lambda>i. Release (f i)) L) r = 0"
  by (induction L) auto

lemma irq_msix_user_setup_held:
  assumes "irq_msix_user_setup pd v k = (rv, k')" and "\<forall>i. r \<noteq> ResIrq i"
  shows "held (k_trace k') r = held (k_trace k) r"
proof -
  let ?j = "v_h2c_channel_max v + v_c2h_channel_max v"
  obtain rv1 j1 k1 where loop: "irq_user_setup_loop pd ?j [0..<v_user_max v] k = (rv1, j1, k1)"
    by (metis prod_cases3)
  have "k' = (if rv1 \<noteq> 0 then irq_user_undo pd (j1 - ?j) j1 k1 else k1)"
    using assms(1) loop by (auto simp: irq_msix_user_setup_def)
  then show ?thesis
    using irq_user_setup_loop_trace [OF loop] assms(2)
    by (simp add: irq_user_undo_trace held_map_other [of r "\<lambda>t. ResIrq (pci_irq_vector pd t)"])
qed

text \<open>What setting up the interrupts leaves alone; only the vector numbers of the engines change.\<close>

definition same_holdings :: "resource \<Rightarrow> xdma_dev \<Rightarrow> xdma_dev \<Rightarrow> bool" where
  "same_holdings r v v' \<longleftrightarrow> engines_magic v' = engines_magic v \<and> engines_held v' r = engines_held v r \<and>
     v_bar v' = v_bar v \<and> v_got_regions v' = v_got_regions v \<and> v_regions_in_use v' = v_regions_in_use v \<and>
     v_msi_enabled v' = v_msi_enabled v \<and> v_msix_enabled v' = v_msix_enabled v \<and> v_pdev v' = v_pdev v"

lemma irq_msix_channel_setup_frame:
  assumes "irq_msix_channel_setup pd v k = (rv, v', k')"
  shows "same_holdings r v v' \<and> ((\<forall>i. r \<noteq> ResIrq i) \<longrightarrow> held (k_trace k') r = held (k_trace k) r)"
proof (cases "v_msix_enabled v")
  case True
  obtain rv1 eh k1 where h: "irq_channel_setup_loop pd 0 [0..<v_h2c_channel_max v] (v_engine_h2c v) k = (rv1, eh, k1)"
    by (metis prod_cases3)
  obtain rv2 ec k2 where c: "irq_channel_setup_loop pd (v_h2c_channel_max v) [0..<v_c2h_channel_max v]
      (v_engine_c2h v) k1 = (rv2, ec, k2)" by (metis prod_cases3)
  note fh = irq_channel_setup_loop_frame [OF h, of r] and fc = irq_channel_setup_loop_frame [OF c, of r]
  have "same_holdings r v (v\<lparr>v_engine_h2c := eh\<rparr>)"
    using fh by (simp add: same_holdings_def engines_magic_def engines_held_def owned_sum_def)
  moreover have "same_holdings r v (v\<lparr>v_engine_h2c := eh, v_engine_c2h := ec\<rparr>)"
    using fh fc by (simp add: same_holdings_def engines_magic_def engines_held_def owned_sum_def)
  moreover have "(v', k') = (if rv1 \<noteq> 0 then (v\<lparr>v_engine_h2c := eh\<rparr>, k1)
      else (v\<lparr>v_engine_h2c := eh, v_engine_c2h := ec\<rparr>, k2))"
    using assms True h c by (simp add: irq_msix_channel_setup_def Let_def split: if_splits)
  ultimately show ?thesis using fh fc by (simp split: if_splits)
qed (use assms in \<open>simp add: irq_msix_channel_setup_def same_holdings_def\<close>)

lemma irq_setup_frame:
  assumes "irq_setup pd v k = (rv, v', k')"
  shows "same_holdings r v v' \<and> ((\<forall>i. r \<noteq> ResIrq i) \<longrightarrow> held (k_trace k') r = held (k_trace k) r)"
proof (cases "v_msix_enabled v")
  case True
  obtain rv1 v1 k1 where c: "irq_msix_channel_setup pd v k = (rv1, v1, k1)" by (metis prod_cases3)
  obtain rv2 k2 where u: "irq_msix_user_setup pd v1 k1 = (rv2, k2)" by (metis surj_pair)
  have "v' = v1" "k' = (if rv1 \<noteq> 0 then k1 else if rv2 \<noteq> 0 then k2
      else prog_irq_msix_user v1 False (prog_irq_msix_channel v1 False k2))"
    using assms True c u by (auto simp: irq_setup_def split: if_splits)
  then show ?thesis
    using irq_msix_channel_setup_frame [OF c, of r] irq_msix_user_setup_held [OF u, of r]
    by (simp add: prog_irq_msix_user_def prog_irq_msix_channel_def Let_def)
next
  case False
  then have "\<exists>line. v' = v\<lparr>v_irq_line := line\<rparr>"
    using assms by (auto simp: irq_setup_def irq_msi_setup_def irq_legacy_setup_def Let_def
        split: if_splits prod.splits intro: exI [of _ "v_irq_line v"])
  then have "same_holdings r v v'" by (auto simp: same_holdings_def engines_magic_def engines_held_def)
  moreover have "(\<forall>i. r \<noteq> ResIrq i) \<longrightarrow> held (k_trace k') r = held (k_trace k) r"
    using assms False by (auto simp: irq_setup_def irq_msi_setup_def irq_legacy_setup_def request_irq_def
        Let_def split: if_splits)
  ultimately show ?thesis by simp
qed

section \<open>Every exit of opening is balanced\<close>

lemma reg_reads_held [simp]: "held (k_trace (reg_reads hw L k)) r = held (k_trace k) r"
  by (induction L arbitrary: k) (simp_all add: reg_reads_def xdma_io)

lemma bars_held_cong: "v_bar v' = v_bar v \<Longrightarrow> bars_held v' = bars_held v"
  by (auto simp: bars_held_def mapped_def fun_eq_iff split: resource.splits)

lemma holdings_upd [simp]:
  "engines_magic (v\<lparr>v_msi_enabled := a\<rparr>) = engines_magic v"
  "engines_magic (v\<lparr>v_msix_enabled := a\<rparr>) = engines_magic v"
  "engines_magic (v\<lparr>v_flags := f\<rparr>) = engines_magic v"
  "engines_held (v\<lparr>v_msi_enabled := a\<rparr>) = engines_held v"
  "engines_held (v\<lparr>v_msix_enabled := a\<rparr>) = engines_held v"
  "engines_held (v\<lparr>v_flags := f\<rparr>) = engines_held v"
  "regions_held (v\<lparr>v_msi_enabled := a\<rparr>) = regions_held v"
  "regions_held (v\<lparr>v_msix_enabled := a\<rparr>) = regions_held v"
  "regions_held (v\<lparr>v_flags := f\<rparr>) = regions_held v"
  "msi_held (v\<lparr>v_flags := f\<rparr>) = msi_held v"
  by (simp_all add: engines_magic_def engines_held_def [abs_def] regions_held_def [abs_def]
      msi_held_def [abs_def])

lemma bars_held_upd [simp]:
  "bars_held (v\<lparr>v_msi_enabled := a\<rparr>) = bars_held v"
  "bars_held (v\<lparr>v_msix_enabled := a\<rparr>) = bars_held v"
  "bars_held (v\<lparr>v_flags := f\<rparr>) = bars_held v"
  by (rule bars_held_cong, simp)+

lemma read_interrupts_held [simp]: "held (k_trace (snd (read_interrupts hw v k))) r = held (k_trace k) r"
  by (simp add: read_interrupts_def xdma_io Let_def)

lemma interrupts_off_held [simp]: "held (k_trace (interrupts_off hw v k)) r = held (k_trace k) r"
  by (simp add: interrupts_off_def channel_interrupts_disable_def user_interrupts_disable_def Let_def)

lemma err_map_held: "held (k_trace (err_map v k)) r = held (k_trace k) r - regions_held v r"
  by (simp add: err_map_def err_regions_def regions_held_def)

lemma err_mask_held:
  "held (k_trace (err_mask v k)) r = held (k_trace k) r - bars_held v r - regions_held v r"
proof -
  obtain v1 k1 where u: "unmap_bars v k = (v1, k1)" by (metis surj_pair)
  show ?thesis using unmap_bars_held [OF u, of r] by (simp add: err_mask_def u err_map_held)
qed

lemma dev_rest_held:
  assumes "dev_rest v' = dev_rest v"
  shows "regions_held v' = regions_held v" "bars_held v' = bars_held v" "msi_held v' = msi_held v"
  using dev_restD [OF assms] bars_held_cong [of v' v]
  by (simp_all add: regions_held_def [abs_def] msi_held_def [abs_def])

lemma err_engines_held:
  assumes "err_engines mp v p k = (p', k')" and "engines_magic v"
  shows "held (k_trace k') r = held (k_trace k) r - engines_held v r - bars_held v r - regions_held v r"
proof -
  obtain v1 p1 k1 where m: "remove_engines mp v p k = (v1, p1, k1)" by (metis prod_cases3)
  note f = remove_engines_held [OF m assms(2), of r]
  have "k' = err_mask v1 k1" using assms(1) m by (simp add: err_engines_def)
  then show ?thesis using f dev_rest_held [of v1 v] by (simp add: err_mask_held)
qed

lemma disable_msi_msix_held:
  assumes "disable_msi_msix v k = (v', k')"
  shows "held (k_trace k') r = held (k_trace k) r - msi_held v r"
    "\<exists>a b. v' = v\<lparr>v_msi_enabled := a, v_msix_enabled := b\<rparr>"
proof -
  show "held (k_trace k') r = held (k_trace k) r - msi_held v r"
    using assms by (auto simp: disable_msi_msix_def msi_held_def split: if_splits)
  have "v' = v\<lparr>v_msi_enabled := v_msi_enabled v', v_msix_enabled := v_msix_enabled v'\<rparr>"
    using assms by (auto simp: disable_msi_msix_def split: if_splits)
  then show "\<exists>a b. v' = v\<lparr>v_msi_enabled := a, v_msix_enabled := b\<rparr>" by blast
qed

lemma err_msix_held:
  assumes "err_msix mp v p k = (p', k')" and "engines_magic v"
  shows "held (k_trace k') r =
    held (k_trace k) r - msi_held v r - engines_held v r - bars_held v r - regions_held v r"
proof -
  obtain v1 k1 where m: "disable_msi_msix v k = (v1, k1)" by (metis surj_pair)
  obtain a b where v1: "v1 = v\<lparr>v_msi_enabled := a, v_msix_enabled := b\<rparr>"
    using disable_msi_msix_held(2) [OF m] by blast
  have "err_engines mp v1 p k1 = (p', k')" using assms(1) m by (simp add: err_msix_def)
  from err_engines_held [OF this, of r] disable_msi_msix_held(1) [OF m, of r] assms(2) v1
  show ?thesis by simp
qed

lemma same_holdingsD:
  assumes "same_holdings r v v'"
  shows "engines_magic v' = engines_magic v" "engines_held v' r = engines_held v r"
    "regions_held v' = regions_held v" "bars_held v' = bars_held v" "msi_held v' = msi_held v"
  using assms bars_held_cong [of v' v]
  by (simp_all add: same_holdings_def regions_held_def [abs_def] msi_held_def [abs_def])

lemma probe_engines_magic:
  assumes "\<forall>c. bare (v_engine_h2c v c)" and "\<forall>c. bare (v_engine_c2h v c)"
    and "probe_engines hw mp pd v p k = Some (rv, v', p', k')"
  shows "engines_magic v' \<and> held (k_trace k') r = held (k_trace k) r + engines_held v' r \<and> rv = 0 \<and>
    v_h2c_channel_max v' \<le> v_h2c_channel_max v \<and> v_c2h_channel_max v' \<le> v_c2h_channel_max v"
proof -
  note pe = probe_engines_eq [OF assms, of r]
  then obtain b where "probed (v_engine_c2h v') 0 (v_c2h_channel_max v') b" by blast
  then show ?thesis using pe by (simp add: engines_magic_def probed_def engines_held_def)
qed

lemma enable_msi_msix_held:
  assumes "enable_msi_msix mp pd v k = (rv, v', k')" and "\<not> v_msix_enabled v" and "\<not> v_msi_enabled v"
  shows "held (k_trace k') r = held (k_trace k) r + (if rv < 0 then 0 else msi_held v' r)"
    "\<exists>a b. v' = v\<lparr>v_msi_enabled := a, v_msix_enabled := b\<rparr>"
proof -
  show "held (k_trace k') r = held (k_trace k) r + (if rv < 0 then 0 else msi_held v' r)"
    using assms by (auto simp: enable_msi_msix_def msi_held_def Let_def split: if_splits)
  have "v' = v\<lparr>v_msi_enabled := v_msi_enabled v', v_msix_enabled := v_msix_enabled v'\<rparr>"
    using assms by (auto simp: enable_msi_msix_def Let_def split: if_splits)
  then show "\<exists>a b. v' = v\<lparr>v_msi_enabled := a, v_msix_enabled := b\<rparr>" by blast
qed

text \<open>The kernel's interrupt numbers, as the kernel documents them: never 0 and never -1, and a request returns 0 or a negative error.\<close>

definition pci_ok :: "pci \<Rightarrow> bool" where
  "pci_ok pd \<longleftrightarrow> (\<forall>n<2 * XDMA_CHANNEL_NUM_MAX. pci_irq_vector pd n \<noteq> 0) \<and> pci_irq pd \<noteq> - 1 \<and>
     (\<forall>vec. pci_request_irq pd vec \<le> 0)"

lemma request_irq_rv: "pci_ok pd \<Longrightarrow> request_irq pd vec k = (rv, k') \<Longrightarrow> rv \<le> 0"
  by (auto simp: request_irq_def pci_ok_def Let_def)

lemma irq_channel_loop_rv: "pci_ok pd \<Longrightarrow> irq_channel_setup_loop pd base L E k = (rv, E', k') \<Longrightarrow> rv \<le> 0"
  by (induction L arbitrary: E k) (auto simp: Let_def request_irq_rv split: prod.splits if_splits)

lemma irq_user_loop_rv: "pci_ok pd \<Longrightarrow> irq_user_setup_loop pd j L k = (rv, j', k') \<Longrightarrow> rv \<le> 0"
  by (induction L arbitrary: j k) (auto simp: Let_def request_irq_rv split: prod.splits if_splits)

lemma irq_channel_setup_rv:
  "pci_ok pd \<Longrightarrow> irq_msix_channel_setup pd v k = (rv, v', k') \<Longrightarrow> rv \<le> 0"
  by (auto simp: irq_msix_channel_setup_def Let_def irq_channel_loop_rv split: prod.splits if_splits)

lemma irq_user_setup_rv: "pci_ok pd \<Longrightarrow> irq_msix_user_setup pd v k = (rv, k') \<Longrightarrow> rv \<le> 0"
  by (auto simp: irq_msix_user_setup_def Let_def irq_user_loop_rv split: prod.splits if_splits)

lemma irq_setup_rv:
  assumes "irq_setup pd v k = (rv, v', k')" and "pci_ok pd"
  shows "rv \<le> 0"
proof (cases "v_msix_enabled v")
  case True
  obtain rv1 v1 k1 where c: "irq_msix_channel_setup pd v k = (rv1, v1, k1)" by (metis prod_cases3)
  obtain rv2 k2 where u: "irq_msix_user_setup pd v1 k1 = (rv2, k2)" by (metis surj_pair)
  have "rv = rv1 \<or> rv = rv2 \<or> rv = 0"
    using assms(1) True c u by (auto simp: irq_setup_def split: if_splits)
  then show ?thesis using irq_channel_setup_rv [OF assms(2) c] irq_user_setup_rv [OF assms(2) u] by auto
next
  case False
  then show ?thesis
    using assms
    by (auto simp: irq_setup_def irq_msi_setup_def irq_legacy_setup_def EINVAL_def Let_def
        intro: request_irq_rv split: if_splits prod.splits)
qed

lemma irq_held_flags [simp]: "irq_held pd (v\<lparr>v_flags := f\<rparr>) = irq_held pd v"
  by (simp add: irq_held_def [abs_def] irq_teardown_def irq_msix_user_teardown_def irq_msix_channel_teardown_def
      prog_irq_msix_user_def prog_irq_msix_channel_def irq_reg_def config_bar_def)

definition dev_held :: "pci \<Rightarrow> xdma_dev \<Rightarrow> resource \<Rightarrow> int" where
  "dev_held pd v r = irq_held pd v r + msi_held v r + engines_held v r + bars_held v r + regions_held v r"

text \<open>
  The part of \<^verbatim>\<open>xdma_device_open\<close> that handles engines and interrupts: either the device holds
  exactly what its structure says, or everything is released but channel interrupts.
\<close>

lemma open_engines_held:
  assumes run: "open_engines hw mp pd v p k = Some (res, p', k')"
    and fresh: "\<forall>c. bare (v_engine_h2c v c)" "\<forall>c. bare (v_engine_c2h v c)"
    and off: "\<not> v_msix_enabled v" "\<not> v_msi_enabled v"
    and max: "v_h2c_channel_max v \<le> XDMA_CHANNEL_NUM_MAX" "v_c2h_channel_max v \<le> XDMA_CHANNEL_NUM_MAX"
    and pd: "pci_ok pd"
  shows "case res of
      None \<Rightarrow> (\<forall>i. r \<noteq> ResIrq i) \<longrightarrow> held (k_trace k') r = held (k_trace k) r - bars_held v r - regions_held v r
    | Some v' \<Rightarrow> held (k_trace k') r = held (k_trace k) r + dev_held pd v' r - bars_held v r - regions_held v r \<and>
        engines_magic v' \<and> v_pdev v' = v_pdev v"
proof -
  define k0 where "k0 = interrupts_off hw v (check_nonzero_interrupt_status hw v k)"
  have k0: "held (k_trace k0) s = held (k_trace k) s" for s
    by (simp add: k0_def check_nonzero_interrupt_status_def)
  obtain rv1 v1 p1 k1 where pr: "probe_engines hw mp pd v p k0 = Some (rv1, v1, p1, k1)"
    using run by (auto simp: open_engines_def k0_def Let_def split: option.splits)
  note f1 = probe_engines_magic [OF fresh pr]
  have rest1: "dev_rest v1 = dev_rest v" by (rule probe_engines_rest [OF pr])
  note d1 = dev_restD [OF rest1] and h1 = dev_rest_held [OF rest1]
  obtain rv2 v2 k2 where en: "enable_msi_msix mp pd v1 k1 = (rv2, v2, k2)" by (metis prod_cases3)
  have off1: "\<not> v_msix_enabled v1" "\<not> v_msi_enabled v1" using off d1 by simp_all
  note f2 = enable_msi_msix_held(1) [OF en off1]
  obtain a b where v2: "v2 = v1\<lparr>v_msi_enabled := a, v_msix_enabled := b\<rparr>"
    using enable_msi_msix_held(2) [OF en off1] by blast
  have m2: "engines_magic v2" using f1 v2 by simp
  have kk1: "held (k_trace k1) s = held (k_trace k) s + engines_held v1 s" for s using f1 k0 by simp
  show ?thesis
  proof (cases "rv2 < 0")
    case True
    obtain p3 k3 where er: "err_engines mp v2 p1 k2 = (p3, k3)" by (metis surj_pair)
    have "res = None" "k' = k3"
      using run pr en er True f1 by (simp_all add: open_engines_def k0_def [symmetric])
    then show ?thesis
      using err_engines_held [OF er m2, of r] f2 [of r] True kk1 h1 v2 by simp
  next
    case False
    obtain rv3 v3 k3 where ir: "irq_setup pd v2 k2 = (rv3, v3, k3)" by (metis prod_cases3)
    note f3 = irq_setup_frame [OF ir, of r]
    note s3 = same_holdingsD [OF conjunct1 [OF f3]]
    show ?thesis
    proof (cases "rv3 < 0")
      case True
      obtain p4 k4 where er: "err_msix mp v3 p1 k3 = (p4, k4)" by (metis surj_pair)
      have "res = None" "k' = k4"
        using run pr en ir er True False f1 by (simp_all add: open_engines_def k0_def [symmetric])
      then show ?thesis
        using err_msix_held [OF er, of r] m2 s3 f2 [of r] f3 False kk1 h1 v2 by simp
    next
      case ok: False
      then have "rv3 = 0" using irq_setup_rv [OF ir pd] by simp
      moreover have "v_h2c_channel_max v2 + v_c2h_channel_max v2 \<le> 2 * XDMA_CHANNEL_NUM_MAX"
        using f1 [of ResDevice] max v2 by simp
      then have "\<forall>n<v_h2c_channel_max v2 + v_c2h_channel_max v2. pci_irq_vector pd n \<noteq> 0"
        using pd unfolding pci_ok_def by (meson order_less_le_trans)
      ultimately have "held (k_trace (irq_teardown pd v3 k3)) r = held (k_trace k2) r"
        using irq_setup_balanced ir pd unfolding pci_ok_def by blast
      then have held3: "held (k_trace k3) r = held (k_trace k2) r + irq_held pd v3 r"
        by (simp add: irq_teardown_held)
      have "res = Some (v3\<lparr>v_flags := v_flags v3 AND NOT XDEV_FLAG_OFFLINE\<rparr>)"
        "held (k_trace k') r = held (k_trace k3) r"
        using run pr en ir False ok f1
        by (auto simp: open_engines_def k0_def [symmetric] xdma_device_flag_clear_def
            channel_interrupts_enable_def Let_def)
      then show ?thesis
        using held3 m2 s3 f2 [of r] f3 False kk1 h1 d1 v2 by (simp add: dev_held_def same_holdings_def)
    qed
  qed
qed

text \<open>A device structure as \<^verbatim>\<open>alloc_dev_instance\<close> leaves it, with the counts clamped.\<close>

definition unopened :: "xdma_dev \<Rightarrow> bool" where
  "unopened v \<longleftrightarrow> (\<forall>c. bare (v_engine_h2c v c)) \<and> (\<forall>c. bare (v_engine_c2h v c)) \<and>
     \<not> v_msix_enabled v \<and> \<not> v_msi_enabled v \<and> \<not> v_got_regions v \<and> \<not> v_regions_in_use v \<and>
     (\<forall>i. v_bar v i = 0) \<and> v_config_bar_idx v < 0 \<and>
     v_h2c_channel_max v \<le> XDMA_CHANNEL_NUM_MAX \<and> v_c2h_channel_max v \<le> XDMA_CHANNEL_NUM_MAX"

lemma dev_coreD:
  assumes "dev_core v' = dev_core v"
  shows "v_engine_h2c v' = v_engine_h2c v" "v_engine_c2h v' = v_engine_c2h v"
    "v_msix_enabled v' = v_msix_enabled v" "v_msi_enabled v' = v_msi_enabled v"
    "v_h2c_channel_max v' = v_h2c_channel_max v" "v_c2h_channel_max v' = v_c2h_channel_max v"
    "v_got_regions v' = v_got_regions v" "v_regions_in_use v' = v_regions_in_use v" "v_pdev v' = v_pdev v"
  using arg_cong [OF assms, of v_engine_h2c] arg_cong [OF assms, of v_engine_c2h]
    arg_cong [OF assms, of v_msix_enabled] arg_cong [OF assms, of v_msi_enabled]
    arg_cong [OF assms, of v_h2c_channel_max] arg_cong [OF assms, of v_c2h_channel_max]
    arg_cong [OF assms, of v_got_regions] arg_cong [OF assms, of v_regions_in_use]
    arg_cong [OF assms, of v_pdev]
  by (simp_all add: dev_core_def)

lemma map_bars_held:
  assumes "map_bars hw pd v k = (rv, v', k')" and "\<forall>i. v_bar v i = 0" and "v_config_bar_idx v < 0"
  shows "held (k_trace k') r = held (k_trace k) r + bars_held v' r \<and> dev_core v' = dev_core v \<and>
    (rv \<noteq> 0 \<longrightarrow> (\<forall>i. v_bar v' i = 0))"
proof -
  have ms: "bars_step {..<XDMA_BAR_NUM} v k v' k' \<and>
      (if rv = 0 then config_seen pd (k_trace k') v' (v_config_bar_idx v')
       else rv = - EINVAL \<and> (\<forall>i<XDMA_BAR_NUM. v_bar v' i = 0))"
    using map_bars_step [of v hw pd k rv v' k'] assms by blast
  then have out: "v_bar v' i = 0" if "\<not> i < XDMA_BAR_NUM" for i
    using that assms(2) unfolding bars_step_def by simp
  have "held (k_trace k') r = held (k_trace k) r + bars_held v' r"
  proof (cases "\<exists>i. r = ResBar i")
    case True
    then obtain i where r: "r = ResBar i" by blast
    have "held (k_trace k') r - mapped v' i = held (k_trace k) r - mapped v i"
      using ms unfolding r bars_step_def by blast
    then show ?thesis using out [of i] assms(2) by (auto simp: r bars_held_def mapped_def)
  next
    case False
    then show ?thesis using ms by (auto simp: bars_step_def bars_held_def split: resource.splits)
  qed
  then show ?thesis using ms out unfolding bars_step_def by (metis (full_types))
qed

lemma open_pci_held:
  assumes run: "open_pci hw mp pd v p k = Some (res, p', k')" and fresh: "unopened v" and pd: "pci_ok pd"
  shows "case res of
      None \<Rightarrow> (\<forall>i. r \<noteq> ResIrq i) \<and> (r = ResDevice \<longrightarrow> pci_request_regions pd = 0) \<longrightarrow>
        held (k_trace k') r = held (k_trace k) r
    | Some v' \<Rightarrow> held (k_trace k') r = held (k_trace k) r + dev_held pd v' r \<and> engines_magic v' \<and> v_pdev v' = v_pdev v"
proof -
  define k1 where "k1 = log_event (Acquire ResDevice) k"
  define v2 where "v2 = v\<lparr>v_got_regions := True\<rparr>"
  define k2 where "k2 = log_event (Acquire ResRegions) k1"
  obtain rv3 v3 k3 where mb: "map_bars hw pd v2 k2 = (rv3, v3, k3)" by (metis prod_cases3)
  have k2: "held (k_trace k2) r = held (k_trace k) r + regions_held v2 r"
    using fresh by (simp add: k2_def k1_def v2_def regions_held_def unopened_def)
  have "\<forall>i. v_bar v2 i = 0" "v_config_bar_idx v2 < 0" using fresh by (simp_all add: unopened_def v2_def)
  note f3 = map_bars_held [OF mb this, of r]
  note c3 = dev_coreD [OF conjunct1 [OF conjunct2 [OF f3]]]
  have r3: "regions_held v3 = regions_held v2" using c3 by (simp add: regions_held_def [abs_def])
  consider (en) "pci_enable_device pd \<noteq> 0" "res = None" "k' = k"
    | (reg) "pci_request_regions pd \<noteq> 0" "res = None" "k' = err_regions (v\<lparr>v_regions_in_use := True\<rparr>) k1"
    | (map) "pci_request_regions pd = 0" "rv3 \<noteq> 0" "res = None" "k' = err_map v3 k3"
    | (mask) "rv3 = 0" "res = None" "k' = err_mask v3 k3"
    | (eng) "open_engines hw mp pd v3 p k3 = Some (res, p', k')"
    using run mb unfolding open_pci_def request_regions_def
    by (auto simp: Let_def k1_def k2_def v2_def split: if_splits)
  then show ?thesis
  proof cases
    case reg
    then show ?thesis by (auto simp: err_regions_def k1_def)
  next
    case map
    then have "bars_held v3 r = 0" using f3 by (auto simp: bars_held_def mapped_def split: resource.splits)
    then show ?thesis using map f3 k2 r3 by (simp add: err_map_held)
  next
    case mask
    then show ?thesis using f3 k2 r3 by (simp add: err_mask_held)
  next
    case eng
    have "unopened v" by (rule fresh)
    then show ?thesis
      using open_engines_held [OF eng, of r] c3 pd f3 k2 r3
      by (auto simp: unopened_def v2_def split: option.splits)
  qed simp
qed

lemma threads_create_held:
  "xdma_threads_create kmem kcreate cpus n p k = (rv, p', k') \<Longrightarrow> \<forall>i. r \<noteq> ResThread i \<Longrightarrow>
   held (k_trace k') r = held (k_trace k) r"
proof -
  assume run: "xdma_threads_create kmem kcreate cpus n p k = (rv, p', k')" and r: "\<forall>i. r \<noteq> ResThread i"
  have "held (k_trace (snd (snd (snd (threads_create_loop kcreate n cpus c ts k))))) r = held (k_trace k) r" for c ts k
    using r by (induction kcreate n cpus c ts k rule: threads_create_loop.induct)
      (auto simp: xdma_kthread_start_def Let_def split: prod.splits if_splits)
  then show ?thesis using run by (auto simp: xdma_threads_create_def split: if_splits prod.splits) (metis snd_conv)+
qed

lemma threads_destroy_held:
  assumes "\<forall>i. r \<noteq> ResThread i"
  shows "held (k_trace (snd (xdma_threads_destroy kstop p k))) r = held (k_trace k) r"
proof -
  have "held (k_trace (threads_stop_loop kstop ts k)) r = held (k_trace k) r" for ts
    using assms by (induction ts arbitrary: k) (auto simp: xdma_kthread_stop_def Let_def)
  then show ?thesis by (simp add: xdma_threads_destroy_def split: option.splits)
qed

lemma xdev_list_add_held:
  assumes "xdev_list_add mp kt h v d k = (rv, v', d', k')" and "\<forall>i. r \<noteq> ResThread i"
  shows "held (k_trace k') r = held (k_trace k) r \<and> d_devs d' = d_devs d \<and>
    (\<exists>i. v' = v\<lparr>v_idx := i\<rparr>) \<and>
    xdev_list d' = xdev_list d @ (if rv < 0 then [] else [h]) \<and>
    xdev_rcu_list d' = xdev_rcu_list d @ (if rv < 0 then [] else [h])"
proof -
  obtain rv1 p1 k1 where c: "xdma_threads_create (kt_kmem kt) (kt_kcreate kt) (kt_cpus kt)
      (v_h2c_channel_max v + v_c2h_channel_max v) (d_pool d) k = (rv1, p1, k1)" by (metis prod_cases3)
  show ?thesis
    using assms(1) c threads_create_held [OF c assms(2)]
    by (auto simp: xdev_list_add_def Let_def split: if_splits)
qed

lemma xdev_list_remove_held:
  assumes "xdev_list_remove mp kt h d k = (d', k')" and "\<forall>i. r \<noteq> ResThread i"
  shows "held (k_trace k') r = held (k_trace k) r \<and> d_devs d' = d_devs d \<and>
    xdev_list d' = remove1 h (xdev_list d) \<and> xdev_rcu_list d' = remove1 h (xdev_rcu_list d)"
proof -
  obtain p1 k1 where c: "xdma_threads_destroy (kt_kstop kt) (d_pool d) k = (p1, k1)" by (metis surj_pair)
  have "held (k_trace k1) r = held (k_trace k) r" using threads_destroy_held [OF assms(2)] c by (metis snd_conv)
  then show ?thesis
    using assms(1) c by (auto simp: xdev_list_remove_def Let_def split: if_splits)
qed

lemma opened_unopened:
  assumes "alloc_dev_instance m pdev = Some v"
  shows "unopened (v\<lparr>v_flags := f, v_user_max := u, v_h2c_channel_max := clamp_max a XDMA_CHANNEL_NUM_MAX,
    v_c2h_channel_max := clamp_max b XDMA_CHANNEL_NUM_MAX, v_idx := i\<rparr>) \<and> v_pdev v = pdev"
  using assms by (auto simp: alloc_dev_instance_def unopened_def clamp_max_def split: if_splits)

text \<open>
  Opening, in one step: the result is either no handle and the lists as before, or the address of
  the new structure, which is linked last into both lists and describes all that is held.
\<close>

lemma xdma_device_open_cases:
  assumes run: "xdma_device_open hw mp pd kt mem pdev cnts d k = Some (hndl, cnts', d', k')"
    and pd: "pci_ok pd" and r: "\<forall>i. r \<noteq> ResThread i"
    and new: "\<forall>h. mem = Some h \<longrightarrow> h \<notin> set (xdev_list d) \<and> h \<notin> set (xdev_rcu_list d)"
  shows "case hndl of
      None \<Rightarrow> cnts' = cnts \<and> d_devs d' = d_devs d \<and> xdev_list d' = xdev_list d \<and>
        xdev_rcu_list d' = xdev_rcu_list d \<and>
        ((\<forall>i. r \<noteq> ResIrq i) \<and> (r = ResDevice \<longrightarrow> pci_request_regions pd = 0) \<longrightarrow>
           held (k_trace k') r = held (k_trace k) r)
    | Some h \<Rightarrow> mem = Some h \<and> pdev \<noteq> 0 \<and> (\<exists>v. d_devs d' = (d_devs d)(h := Some v) \<and> v_pdev v = pdev \<and> engines_magic v \<and>
        cnts' = (v_user_max v, v_h2c_channel_max v, v_c2h_channel_max v) \<and>
        held (k_trace k') r = held (k_trace k) r + dev_held pd v r) \<and>
        xdev_list d' = xdev_list d @ [h] \<and> xdev_rcu_list d' = xdev_rcu_list d @ [h]"
proof (cases "pdev = 0 \<or> mem = None")
  case True
  then have "alloc_dev_instance (mem \<noteq> None) pdev = None" by (auto simp: alloc_dev_instance_def)
  then show ?thesis using run by (simp add: xdma_device_open_def)
next
  case False
  then obtain h v where mem: "mem = Some h" and al: "alloc_dev_instance True pdev = Some v"
    by (auto simp: alloc_dev_instance_def)
  obtain um hm cm where cnts: "cnts = (um, hm, cm)" by (metis prod_cases3)
  define v1 where "v1 = v\<lparr>v_flags := v_flags v OR XDEV_FLAG_OFFLINE, v_user_max := clamp_max um MAX_USER_IRQ,
    v_h2c_channel_max := clamp_max hm XDMA_CHANNEL_NUM_MAX, v_c2h_channel_max := clamp_max cm XDMA_CHANNEL_NUM_MAX\<rparr>"
  obtain rv2 v2 d2 k2 where add: "xdev_list_add mp kt h v1 d k = (rv2, v2, d2, k2)" by (metis prod_cases4)
  note f2 = xdev_list_add_held [OF add r]
  have fresh: "unopened v2" "v_pdev v2 = pdev" using f2 opened_unopened [OF al] by (auto simp: v1_def)
  have run2: "(if rv2 < 0 then Some (None, cnts, d2, k2)
     else (case open_pci hw mp pd v2 (d_pool d2) k2 of
             None \<Rightarrow> None
           | Some (None, p, k) \<Rightarrow>
               let (d, k) = xdev_list_remove mp kt h (d2\<lparr>d_pool := p\<rparr>) k in Some (None, cnts, d, k)
           | Some (Some v, p, k) \<Rightarrow>
               Some (Some h, (v_user_max v, v_h2c_channel_max v, v_c2h_channel_max v),
                     d2\<lparr>d_pool := p, d_devs := (d_devs d2)(h := Some v)\<rparr>, k))) = Some (hndl, cnts', d', k')"
    using run add al unfolding xdma_device_open_def mem cnts
    by (simp add: xdma_device_flag_set_def v1_def)
  show ?thesis
  proof (cases "rv2 < 0")
    case True
    then show ?thesis using run2 f2 by auto
  next
    case ok: False
    then obtain res p3 k3 where op: "open_pci hw mp pd v2 (d_pool d2) k2 = Some (res, p3, k3)"
      using run2 by (auto split: option.splits)
    note f3 = open_pci_held [OF op fresh(1) pd, of r]
    show ?thesis
    proof (cases res)
      case None
      obtain d4 k4 where rm: "xdev_list_remove mp kt h (d2\<lparr>d_pool := p3\<rparr>) k3 = (d4, k4)" by (metis surj_pair)
      have "hndl = None" "cnts' = cnts" "d' = d4" "k' = k4" using run2 ok op None rm by simp_all
      then show ?thesis
        using xdev_list_remove_held [OF rm r] f2 f3 None ok new mem by (simp add: remove1_append)
    next
      case (Some v3)
      have "hndl = Some h" "cnts' = (v_user_max v3, v_h2c_channel_max v3, v_c2h_channel_max v3)"
        "d' = d2\<lparr>d_pool := p3, d_devs := (d_devs d2)(h := Some v3)\<rparr>" "k' = k3"
        using run2 ok op Some by simp_all
      then show ?thesis using f2 f3 Some ok mem False fresh(2) by auto
    qed
  qed
qed

lemma xdma_device_close_held:
  assumes run: "xdma_device_close hw mp pd kt pdev (Some h) d k = (d', k')"
    and chk: "\<not> debug_check_dev_hndl d pdev h < 0" and dev: "d_devs d h = Some v" "engines_magic v"
    and r: "\<forall>i. r \<noteq> ResThread i"
  shows "held (k_trace k') r = held (k_trace k) r - dev_held pd v r \<and> d_devs d' = (d_devs d)(h := None) \<and>
    xdev_list d' = remove1 h (xdev_list d) \<and> xdev_rcu_list d' = remove1 h (xdev_rcu_list d)"
proof -
  let ?k0 = "irq_teardown pd v (interrupts_off hw v k)"
  obtain v1 k1 where m: "disable_msi_msix v ?k0 = (v1, k1)" by (metis surj_pair)
  obtain a b where v1: "v1 = v\<lparr>v_msi_enabled := a, v_msix_enabled := b\<rparr>"
    using disable_msi_msix_held(2) [OF m] by blast
  obtain v2 p2 k2 where e: "remove_engines mp v1 (d_pool d) k1 = (v2, p2, k2)" by (metis prod_cases3)
  have f2: "held (k_trace k2) r = held (k_trace k1) r - engines_held v r" "dev_rest v2 = dev_rest v1"
    using remove_engines_held [OF e, of r] dev(2) v1 by simp_all
  obtain v3 k3 where u: "unmap_bars v2 k2 = (v3, k3)" by (metis surj_pair)
  note f3 = unmap_bars_held [OF u, of r]
  define k4 where "k4 = err_map v3 k3"
  obtain d5 k5 where l: "xdev_list_remove mp kt h (d\<lparr>d_pool := p2\<rparr>) k4 = (d5, k5)" by (metis surj_pair)
  have "d' = d5\<lparr>d_devs := (d_devs d5)(h := None)\<rparr>" "k' = k5"
    using run chk dev(1) m e u l
    by (simp_all add: xdma_device_close_def k4_def err_map_def err_regions_def Let_def)
  then show ?thesis
    using xdev_list_remove_held [OF l r] disable_msi_msix_held(1) [OF m, of r] f2 f3 dev_rest_held [OF f2(2)] v1
    by (simp add: dev_held_def k4_def err_map_held irq_teardown_held)
qed

lemma find_new:
  "find P xs = None \<Longrightarrow> \<forall>x\<in>set xs. Q x = P x \<Longrightarrow> Q h \<Longrightarrow> find Q (xs @ [h]) = Some h"
  by (induction xs) (auto split: if_splits)

lemma irq_setup_granted:
  assumes "\<forall>vec. pci_request_irq pd vec = 0" and "pci_interrupt_pin pd \<noteq> 0"
  shows "fst (irq_setup pd v k) = 0"
proof -
  have c: "fst (irq_channel_setup_loop pd base L E k) = 0" for base L E k
    using assms(1) by (induction L arbitrary: E k) (simp_all add: request_irq_def Let_def)
  have u: "fst (irq_user_setup_loop pd j L k) = 0" for j L k
    using assms(1) by (induction L arbitrary: j k) (simp_all add: request_irq_def Let_def)
  have "fst (irq_msix_channel_setup pd v k) = 0" for v k
    using c by (auto simp: irq_msix_channel_setup_def Let_def split: prod.splits) (metis fst_conv)+
  moreover have "fst (irq_msix_user_setup pd v k) = 0" for v k
    using u [of "v_h2c_channel_max v + v_c2h_channel_max v" "[0..<v_user_max v]" k]
    by (auto simp: irq_msix_user_setup_def Let_def split: prod.splits)
  ultimately show ?thesis
    using assms
    by (auto simp: irq_setup_def irq_msi_setup_def irq_legacy_setup_def request_irq_def Let_def
        split: prod.splits) (metis fst_conv)+
qed
text \<open>In interrupt mode, opening succeeds when the kernel grants every request and the registers are found.\<close>

lemma xdma_device_open_succeeds:
  assumes "\<not> poll_mode mp" and "pdev \<noteq> 0" and "pci_enable_device pd = 0" and "pci_request_regions pd = 0"
    and "pci_set_dma_mask pd 64 = 0" and "\<forall>n. 0 \<le> pci_alloc_irq_vectors pd n" and "0 \<le> pci_enable_msi pd"
    and "\<forall>vec. pci_request_irq pd vec = 0" and "pci_interrupt_pin pd \<noteq> 0"
    and bars: "\<And>v k. v_config_bar_idx v = - 1 \<Longrightarrow> fst (map_bars hw pd v k) = 0"
  shows "\<exists>cnts' d' k'. xdma_device_open hw mp pd kt (Some h) pdev cnts d k = Some (Some h, cnts', d', k')"
proof -
  have eng: "\<exists>v' p' k'. open_engines hw mp pd v p k = Some (Some v', p', k')" for v p k
  proof -
    define k0 where "k0 = interrupts_off hw v (check_nonzero_interrupt_status hw v k)"
    obtain rv1 v1 p1 k1 where pr: "probe_engines hw mp pd v p k0 = Some (rv1, v1, p1, k1)"
      using probe_engines_returns [OF assms(1)] by metis
    have "rv1 = 0" using pr by (auto simp: probe_engines_def Let_def split: option.splits prod.splits)
    obtain rv2 v2 k2 where en: "enable_msi_msix mp pd v1 k1 = (rv2, v2, k2)" by (metis prod_cases3)
    have "rv2 = pci_alloc_irq_vectors pd (v_c2h_channel_max v1 + v_h2c_channel_max v1 + v_user_max v1) \<or>
        rv2 = pci_enable_msi pd \<or> rv2 = 0"
      using en by (auto simp: enable_msi_msix_def Let_def split: if_splits)
    then have "\<not> rv2 < 0" using assms(6,7) by (metis linorder_not_less order_refl)
    obtain rv3 v3 k3 where ir: "irq_setup pd v2 k2 = (rv3, v3, k3)" by (metis prod_cases3)
    have "rv3 = 0" using irq_setup_granted [OF assms(8,9), of v2 k2] ir by simp
    then show ?thesis
      using pr \<open>rv1 = 0\<close> en \<open>\<not> rv2 < 0\<close> ir by (simp add: open_engines_def k0_def [symmetric] Let_def)
  qed
  have pci: "\<exists>v' p' k'. open_pci hw mp pd v p k = Some (Some v', p', k')" if v: "v_config_bar_idx v = - 1" for v p k
  proof -
    let ?v = "v\<lparr>v_got_regions := True\<rparr>" and ?k = "log_event (Acquire ResRegions) (log_event (Acquire ResDevice) k)"
    obtain rv v3 k3 where "map_bars hw pd ?v ?k = (rv, v3, k3)" by (metis prod_cases3)
    moreover from this have "rv = 0" using bars [of ?v ?k] v by simp
    ultimately show ?thesis
      using assms(3-5) eng [of v3 p k3] by (simp add: open_pci_def request_regions_def set_dma_mask_def)
  qed
  obtain v where al: "alloc_dev_instance True pdev = Some v" and vc: "v_config_bar_idx v = - 1"
    using assms(2) by (simp add: alloc_dev_instance_def)
  obtain um hm cm where cnts: "cnts = (um, hm, cm)" by (metis prod_cases3)
  define v1 where "v1 = v\<lparr>v_flags := v_flags v OR XDEV_FLAG_OFFLINE, v_user_max := clamp_max um MAX_USER_IRQ,
    v_h2c_channel_max := clamp_max hm XDMA_CHANNEL_NUM_MAX, v_c2h_channel_max := clamp_max cm XDMA_CHANNEL_NUM_MAX\<rparr>"
  obtain rv2 v2 d2 k2 where add: "xdev_list_add mp kt h v1 d k = (rv2, v2, d2, k2)" by (metis prod_cases4)
  have "rv2 = 0" "v_config_bar_idx v2 = - 1"
    using add assms(1) vc by (auto simp: xdev_list_add_def v1_def Let_def split: if_splits)
  then show ?thesis
    using pci [of v2 "d_pool d2" k2] al add unfolding xdma_device_open_def cnts
    by (auto simp: xdma_device_flag_set_def v1_def)
qed

text \<open>
  A device that could not be opened leaves nothing behind: the device lists and structures are as
  before and every resource acquired on the way is released again, whichever step failed. Three
  exceptions are the code's own: the device stays enabled when its regions are in use (by design),
  channel interrupts leak when one is refused (\<open>irq_setup_leaks_channel_irq\<close>), and polling threads leak when one
  cannot be created.
\<close>

theorem xdma_device_open_fails_clean:
  assumes "xdma_device_open hw mp pd kt mem pdev cnts d k = Some (None, cnts', d', k')" and "pci_ok pd"
    and "\<forall>h. mem = Some h \<longrightarrow> h \<notin> set (xdev_list d) \<and> h \<notin> set (xdev_rcu_list d)"
    and "\<forall>i. r \<noteq> ResThread i" and "\<forall>i. r \<noteq> ResIrq i" and "r = ResDevice \<longrightarrow> pci_request_regions pd = 0"
  shows "cnts' = cnts \<and> d_devs d' = d_devs d \<and> xdev_list d' = xdev_list d \<and>
    xdev_rcu_list d' = xdev_rcu_list d \<and> held (k_trace k') r = held (k_trace k) r"
  using xdma_device_open_cases [of hw mp pd kt mem pdev cnts d k None cnts' d' k' r] assms by auto


definition empty_driver :: driver where
  "empty_driver = \<lparr>d_devs = (\<lambda>_. None), xdev_list = [], xdev_rcu_list = [],
     d_pool = \<lparr>cs_threads = None, thread_cnt = 0\<rparr>\<rparr>"

definition example_kt :: kthreads where
  "example_kt = \<lparr>kt_kmem = (\<lambda>_. True), kt_kcreate = (\<lambda>_. True), kt_cpus = [0, 1], kt_kstop = (\<lambda>_. 0)\<rparr>"


lemma example_map_bars:
  assumes "v_config_bar_idx v = - 1"
  shows "fst (map_bars example_bar_hw example_pci v k) = 0"
  using assms
  by (simp add: map_bars_def XDMA_BAR_NUM_def upt_rec map_single_bar_def is_config_bar_def example_pci_def
    example_bar_hw_def xdma_io xdma_consts identify_bars_def Let_def)

lemma example_pci_ok: "pci_ok example_pci"
  unfolding pci_ok_def XDMA_CHANNEL_NUM_MAX_def
proof (intro conjI allI impI)
  fix n :: nat assume "n < 2 * 4"
  then have "n \<in> set [0..<8]" by simp
  then show "pci_irq_vector example_pci n \<noteq> 0" by (auto simp: upt_rec example_pci_def)
qed (simp_all add: example_pci_def)

lemma example_opens_any:
  "pdev \<noteq> 0 \<Longrightarrow> \<exists>cnts' d' k'. xdma_device_open example_bar_hw example_mp example_pci example_kt (Some 7) pdev cnts d k =
     Some (Some 7, cnts', d', k')"
  by (rule xdma_device_open_succeeds) (simp_all add: example_mp_def example_map_bars, simp_all add: example_pci_def)

lemma example_opens:
  "\<exists>cnts' d' k'. xdma_device_open example_bar_hw example_mp example_pci example_kt (Some 7) 1 (2, 1, 1) empty_driver
     \<lparr>k_trace = [], k_xfers = (\<lambda>_. zero_transfer)\<rparr> = Some (Some 7, cnts', d', k')"
  by (rule example_opens_any) simp

theorem xdma_device_open_fails_clean_witness:
  "case xdma_device_open example_bar_hw example_mp (example_pci\<lparr>pci_enable_device := - EIO\<rparr>) example_kt
       (Some 7) 1 (2, 1, 1) empty_driver \<lparr>k_trace = [], k_xfers = (\<lambda>_. zero_transfer)\<rparr> of
     Some (None, cnts', d', k') \<Rightarrow> cnts' = (2, 1, 1) \<and> xdev_list d' = [] | _ \<Rightarrow> False"
proof -
  let ?pd = "example_pci\<lparr>pci_enable_device := - EIO\<rparr>" and ?k = "\<lparr>k_trace = [], k_xfers = (\<lambda>_. zero_transfer)\<rparr>"
  have "\<exists>cnts' d' k'. xdma_device_open example_bar_hw example_mp ?pd example_kt (Some 7) 1 (2, 1, 1) empty_driver ?k
      = Some (None, cnts', d', k')"
    by (simp add: xdma_device_open_def alloc_dev_instance_def xdev_list_add_def example_mp_def empty_driver_def
        open_pci_def EIO_def Let_def split: prod.splits)
  then obtain cnts' d' k' where run: "xdma_device_open example_bar_hw example_mp ?pd example_kt (Some 7) 1
      (2, 1, 1) empty_driver ?k = Some (None, cnts', d', k')" by blast
  have "pci_ok ?pd" using example_pci_ok by (simp add: pci_ok_def)
  from xdma_device_open_fails_clean [OF run this, of ResMsi] show ?thesis
    unfolding run by (simp add: empty_driver_def)
qed


section \<open>Offline and online\<close>

text \<open>Two devices that hold the same and whose engines have the same interrupt lines.\<close>

definition same_lines :: "xdma_dev \<Rightarrow> xdma_dev \<Rightarrow> bool" where
  "same_lines v v' \<longleftrightarrow> dev_rest v' = dev_rest v \<and> v_h2c_channel_max v' = v_h2c_channel_max v \<and>
     v_c2h_channel_max v' = v_c2h_channel_max v \<and>
     (\<forall>dir c. e_magic (dir_engines dir v' c) = e_magic (dir_engines dir v c) \<and>
        engine_owns (dir_engines dir v' c) = engine_owns (dir_engines dir v c) \<and>
        e_msix_irq_line (dir_engines dir v' c) = e_msix_irq_line (dir_engines dir v c))"

lemma same_lines_refl [simp]: "same_lines v v" by (simp add: same_lines_def)

lemma same_lines_trans: "same_lines u v \<Longrightarrow> same_lines v w \<Longrightarrow> same_lines u w"
  by (simp add: same_lines_def)

lemma dir_engines_set:
  "dir_engines dir' (set_engine dir i e v) =
     (if (dir = DMA_TO_DEVICE) = (dir' = DMA_TO_DEVICE) then (dir_engines dir' v)(i := e) else dir_engines dir' v)"
  by (simp add: dir_engines_def set_engine_def)

lemma same_lines_set_engine:
  assumes "e_magic e = e_magic (dir_engines dir v i)" "engine_owns e = engine_owns (dir_engines dir v i)"
    "e_msix_irq_line e = e_msix_irq_line (dir_engines dir v i)"
  shows "same_lines v (set_engine dir i e v)"
proof -
  have "e_magic (dir_engines dir' (set_engine dir i e v) c) = e_magic (dir_engines dir' v c) \<and>
      engine_owns (dir_engines dir' (set_engine dir i e v) c) = engine_owns (dir_engines dir' v c) \<and>
      e_msix_irq_line (dir_engines dir' (set_engine dir i e v) c) = e_msix_irq_line (dir_engines dir' v c)" for dir' c
  proof (cases "(dir = DMA_TO_DEVICE) = (dir' = DMA_TO_DEVICE)")
    case True
    then have "dir_engines dir' v i = dir_engines dir v i" by (simp add: dir_engines_def)
    then show ?thesis using assms True by (cases "c = i") (simp_all only: dir_engines_set fun_upd_same
        fun_upd_other if_True simp_thms not_False_eq_True)
  qed (simp only: dir_engines_set if_False simp_thms)
  then show ?thesis by (simp only: same_lines_def dev_rest_set_engine set_engine_simps simp_thms)
qed

lemma offline_loop_frame:
  "offline_loop mp dir L v k = (v', k') \<Longrightarrow> same_lines v v' \<and> held (k_trace k') r = held (k_trace k) r"
proof (induction L arbitrary: v k)
  case (Cons i L)
  define e where "e = dir_engines dir v i"
  define e1 where "e1 = e\<lparr>e_shutdown := e_shutdown e OR ENGINE_SHUTDOWN_REQUEST, e_running := False\<rparr>"
  show ?case
  proof (cases "e_magic e = MAGIC_ENGINE")
    case True
    obtain k1 where st: "xdma_engine_stop mp (e\<lparr>e_shutdown := e_shutdown e OR ENGINE_SHUTDOWN_REQUEST\<rparr>) k = (0, e1, k1)"
      and k1: "held (k_trace k1) r = held (k_trace k) r"
      by (simp add: xdma_engine_stop_def Let_def e1_def)
    have "offline_loop mp dir L (set_engine dir i e1 v) k1 = (v', k')"
      using Cons.prems True st by (simp add: e_def [symmetric])
    from Cons.IH [OF this] k1 show ?thesis
      using same_lines_set_engine [of e1 dir v i] same_lines_trans
      by (auto simp: e1_def e_def engine_owns_def [abs_def])
  qed (use Cons in \<open>simp add: e_def\<close>)
qed simp

lemma free_loop_cong:
  "\<forall>i. e_msix_irq_line (E i) = e_msix_irq_line (E' i) \<Longrightarrow> irq_channel_free_loop L E k = irq_channel_free_loop L E' k"
  by (induction L arbitrary: k) simp_all

lemma same_lines_held:
  assumes "same_lines v v'"
  shows "dev_held pd v' r = dev_held pd v r" "irq_held pd v' r = irq_held pd v r" "engines_magic v' = engines_magic v"
proof -
  have rest: "dev_rest v' = dev_rest v" and mx: "v_h2c_channel_max v' = v_h2c_channel_max v"
    "v_c2h_channel_max v' = v_c2h_channel_max v" using assms by (simp_all add: same_lines_def)
  note d = dev_restD [OF rest] and h = dev_rest_held [OF rest]
  have dirs: "dir_engines DMA_TO_DEVICE = v_engine_h2c" "dir_engines DMA_FROM_DEVICE = v_engine_c2h"
    by (auto simp: dir_engines_def)
  have "\<forall>dir c. e_magic (dir_engines dir v' c) = e_magic (dir_engines dir v c) \<and>
        engine_owns (dir_engines dir v' c) = engine_owns (dir_engines dir v c) \<and>
        e_msix_irq_line (dir_engines dir v' c) = e_msix_irq_line (dir_engines dir v c)"
    using assms unfolding same_lines_def by blast
  note all = this [rule_format, of DMA_TO_DEVICE, unfolded dirs] this [rule_format, of DMA_FROM_DEVICE, unfolded dirs]
  have e: "e_magic (v_engine_h2c v' c) = e_magic (v_engine_h2c v c)"
    "e_magic (v_engine_c2h v' c) = e_magic (v_engine_c2h v c)"
    "engine_owns (v_engine_h2c v' c) = engine_owns (v_engine_h2c v c)"
    "engine_owns (v_engine_c2h v' c) = engine_owns (v_engine_c2h v c)"
    "e_msix_irq_line (v_engine_h2c v' c) = e_msix_irq_line (v_engine_h2c v c)"
    "e_msix_irq_line (v_engine_c2h v' c) = e_msix_irq_line (v_engine_c2h v c)" for c
    using all by blast+
  have cfg: "config_bar v' = config_bar v"
    using d(1) arg_cong [OF rest, of v_config_bar_idx] by (simp add: config_bar_def dev_rest_def)
  show mag: "engines_magic v' = engines_magic v" using e mx by (simp add: engines_magic_def)
  have "irq_teardown pd v' k = irq_teardown pd v k" for k
    using free_loop_cong [of "v_engine_h2c v'" "v_engine_h2c v" "[0..<v_h2c_channel_max v]"]
      free_loop_cong [of "v_engine_c2h v'" "v_engine_c2h v" "[0..<v_c2h_channel_max v]"]
    by (simp add: e irq_teardown_def irq_msix_user_teardown_def irq_msix_channel_teardown_def
        prog_irq_msix_user_def prog_irq_msix_channel_def irq_reg_def cfg d mx)
  then show irq: "irq_held pd v' r = irq_held pd v r" by (simp add: irq_held_def)
  have "engines_held v' r = engines_held v r" using e mx by (simp add: engines_held_def owned_sum_def)
  then show "dev_held pd v' r = dev_held pd v r" using h irq by (simp add: dev_held_def)
qed

lemma offline_held:
  assumes "xdma_device_offline hw mp pd pdev (Some h) d k = (d', k')"
    and "\<not> debug_check_dev_hndl d pdev h < 0" and "d_devs d h = Some v"
  shows "\<exists>v'. d' = d\<lparr>d_devs := (d_devs d)(h := Some v')\<rparr> \<and>
    same_lines (xdma_device_flag_set v XDEV_FLAG_OFFLINE) v' \<and>
    held (k_trace k') r = held (k_trace k) r - irq_held pd v r"
proof -
  define v0 where "v0 = xdma_device_flag_set v XDEV_FLAG_OFFLINE"
  obtain v1 k1 where l1: "offline_loop mp DMA_TO_DEVICE [0..<v_h2c_channel_max v0] v0 k = (v1, k1)" by (metis surj_pair)
  obtain v2 k2 where l2: "offline_loop mp DMA_FROM_DEVICE [0..<v_c2h_channel_max v1] v1 k1 = (v2, k2)" by (metis surj_pair)
  note f1 = offline_loop_frame [OF l1, of r] and f2 = offline_loop_frame [OF l2, of r]
  have sl: "same_lines v0 v2" using f1 f2 same_lines_trans by blast
  have "d' = d\<lparr>d_devs := (d_devs d)(h := Some v2)\<rparr>" "k' = irq_teardown pd v2 (interrupts_off hw v2 k2)"
    using assms l1 l2 by (simp_all add: xdma_device_offline_def v0_def [symmetric] Let_def)
  then show ?thesis
    using sl same_lines_held(2) [OF sl, of pd r] f1 f2
    by (auto simp: irq_teardown_held v0_def xdma_device_flag_set_def)
qed

text \<open>
  Taking a device offline and closing it afterwards, as the driver does when a PCI error cannot be
  recovered from, frees the interrupts twice: \<^verbatim>\<open>xdma_device_offline\<close> tears them down and leaves no
  trace of that in the structure, so \<^verbatim>\<open>xdma_device_close\<close> releases everything the device holds and the
  interrupts once more.
\<close>

theorem xdma_device_offline_close:
  assumes "d_devs d h = Some v" and "engines_magic v" and "xdev_find_by_pdev d pdev = Some h"
    and "v_pdev v = pdev" and "pdev \<noteq> 0" and "\<forall>i. r \<noteq> ResThread i"
  shows "case xdma_device_offline hw mp pd pdev (Some h) d k of (d1, k1) \<Rightarrow>
    case xdma_device_close hw mp pd kt pdev (Some h) d1 k1 of (d2, k2) \<Rightarrow>
      held (k_trace k2) r = held (k_trace k) r - dev_held pd v r - irq_held pd v r"
proof -
  have chk: "\<not> debug_check_dev_hndl d pdev h < 0" using assms(3,5) by (simp add: debug_check_dev_hndl_def)
  obtain d1 k1 where off: "xdma_device_offline hw mp pd pdev (Some h) d k = (d1, k1)" by (metis surj_pair)
  obtain v1 where v1: "d1 = d\<lparr>d_devs := (d_devs d)(h := Some v1)\<rparr>"
    and sl: "same_lines (xdma_device_flag_set v XDEV_FLAG_OFFLINE) v1"
    and k1: "held (k_trace k1) r = held (k_trace k) r - irq_held pd v r"
    using offline_held [OF off chk assms(1)] by blast
  have pdev1: "v_pdev v1 = pdev"
    using dev_restD(8) [of v1] sl assms(4) by (simp add: same_lines_def xdma_device_flag_set_def)
  have "dev_pdev d1 = dev_pdev d" using v1 assms(1,4) pdev1 by (auto simp: dev_pdev_def fun_eq_iff)
  then have chk1: "\<not> debug_check_dev_hndl d1 pdev h < 0"
    using assms(3,5) v1 by (simp add: debug_check_dev_hndl_def xdev_find_by_pdev_def)
  obtain d2 k2 where cl: "xdma_device_close hw mp pd kt pdev (Some h) d1 k1 = (d2, k2)" by (metis surj_pair)
  have magic1: "engines_magic v1" using same_lines_held(3) [OF sl] assms(2) by (simp add: xdma_device_flag_set_def)
  have "held (k_trace k2) r = held (k_trace k1) r - dev_held pd v1 r"
    using xdma_device_close_held [OF cl chk1 _ magic1 assms(6)] v1 by simp
  moreover have "dev_held pd v1 r = dev_held pd v r"
    using same_lines_held(1) [OF sl, of pd r] by (simp add: dev_held_def xdma_device_flag_set_def)
  ultimately show ?thesis using k1 off cl by simp
qed

text \<open>A device in legacy mode that holds interrupt 30 and no engines.\<close>

definition legacy_dev :: xdma_dev where
  "legacy_dev = fresh_dev\<lparr>v_irq_line := 30, v_msi_enabled := False, v_h2c_channel_max := 0, v_c2h_channel_max := 0\<rparr>"

theorem xdma_device_offline_close_witness:
  "case xdma_device_offline example_bar_hw example_mp example_pci 1 (Some 7)
       (empty_driver\<lparr>d_devs := (\<lambda>_. None)(7 := Some legacy_dev), xdev_list := [7]\<rparr>)
       \<lparr>k_trace = [Acquire (ResIrq 30)], k_xfers = (\<lambda>_. zero_transfer)\<rparr> of (d1, k1) \<Rightarrow>
     held (k_trace (snd (xdma_device_close example_bar_hw example_mp example_pci example_kt 1 (Some 7) d1 k1))) (ResIrq 30) = - 1"
proof -
  let ?d = "empty_driver\<lparr>d_devs := (\<lambda>_. None)(7 := Some legacy_dev), xdev_list := [7]\<rparr>"
  have dev: "d_devs ?d 7 = Some legacy_dev" "engines_magic legacy_dev" "v_pdev legacy_dev = 1"
    by (simp_all add: legacy_dev_def engines_magic_def fresh_dev_def example_dev_def)
  moreover have "xdev_find_by_pdev ?d 1 = Some 7" using dev by (simp add: xdev_find_by_pdev_def dev_pdev_def)
  moreover have "irq_held example_pci legacy_dev (ResIrq 30) = 1" "dev_held example_pci legacy_dev (ResIrq 30) = 1"
    by (simp_all add: irq_held_def dev_held_def irq_teardown_def legacy_dev_def fresh_dev_def example_dev_def
        free_irq_def msi_held_def engines_held_def owned_sum_def bars_held_def regions_held_def)
  ultimately show ?thesis
    using xdma_device_offline_close [where d = ?d and h = 7 and v = legacy_dev and pdev = 1 and r = "ResIrq 30"
        and hw = example_bar_hw and mp = example_mp and pd = example_pci and kt = example_kt
        and k = "\<lparr>k_trace = [Acquire (ResIrq 30)], k_xfers = (\<lambda>_. zero_transfer)\<rparr>"]
    by (simp split: prod.splits)
qed

section \<open>Registering user interrupts\<close>

lemma isr_register_loop_table:
  "i + n \<le> 32 \<Longrightarrow> isr_register_loop n i m handler dev users =
   (\<lambda>j. if i \<le> j \<and> j < i + n \<and> bit m j then (users j)\<lparr>u_handler := handler, u_dev := dev\<rparr> else users j)"
proof (induction n arbitrary: i m users)
  case (Suc n)
  have bit: "2 ^ i AND m = 0 \<longleftrightarrow> \<not> bit m i" by (simp add: and.commute [of _ m] and_exp_eq_0_iff_not_bit)
  have clear: "bit (m AND NOT (2 ^ i)) j \<longleftrightarrow> bit m j \<and> j \<noteq> i" for j
    using Suc.prems bit_imp_le_length [of m j] by (auto simp: bit_simps)
  have "Suc i + n \<le> 32" using Suc.prems by simp
  note ih = Suc.IH [OF this]
  show ?case
  proof (cases "m = 0")
    case False
    then show ?thesis using ih by (auto simp: bit clear fun_eq_iff le_less_Suc_eq Suc_le_eq not_less dest: le_neq_implies_less)
  qed simp
qed (auto simp: fun_eq_iff)

text \<open>
  C25. Registering a handler for a set of user interrupts, by a loop that clears the bits of the mask it has handled and stops
  when none is left, is the same as assigning it to every interrupt below the limit of the device whose bit is set;
  the others keep theirs, and bits of the mask past the limit are ignored.
\<close>

theorem xdma_user_isr_register_table:
  assumes "d_devs d h = Some v" and "debug_check_dev_hndl d (v_pdev v) h \<ge> 0" and "v_user_max v \<le> 16"
  shows "xdma_user_isr_register (Some h) m handler dev d = Some (0, d\<lparr>d_devs := (d_devs d)(h := Some (v\<lparr>v_user_irq :=
     (\<lambda>j. if j < v_user_max v \<and> bit m j then (v_user_irq v j)\<lparr>u_handler := handler, u_dev := dev\<rparr> else v_user_irq v j)\<rparr>))\<rparr>)"
  using assms isr_register_loop_table [of 0 "v_user_max v" m handler dev "v_user_irq v"]
  by (simp add: xdma_user_isr_register_def)

theorem xdma_user_isr_register_table_witness:
  "\<exists>d'. xdma_user_isr_register (Some 7) 5 (Some 9) 2 (empty_driver\<lparr>d_devs := (\<lambda>_. None)(7 := Some (fresh_dev\<lparr>v_user_max := 2\<rparr>)), xdev_list := [7]\<rparr>)
     = Some (0, d') \<and> map_option (\<lambda>v. (u_handler (v_user_irq v 0), u_handler (v_user_irq v 2) = u_handler (v_user_irq fresh_dev 2))) (d_devs d' 7)
     = Some (Some 9, True)"
proof -
  let ?v = "fresh_dev\<lparr>v_user_max := 2\<rparr>"
  let ?d = "empty_driver\<lparr>d_devs := (\<lambda>_. None)(7 := Some ?v), xdev_list := [7]\<rparr>"
  have "debug_check_dev_hndl ?d (v_pdev ?v) 7 \<ge> 0"
    by (simp add: debug_check_dev_hndl_def xdev_find_by_pdev_def dev_pdev_def fresh_dev_def example_dev_def)
  from xdma_user_isr_register_table [of ?d 7 ?v, OF _ this, of 5 "Some 9" 2] show ?thesis by simp
qed

end
