(* ===== verification/Xdma_Cdev.thy ===== *)
theory Xdma_Cdev
  imports Xdma_Open
begin

text \<open>
  The character devices of \<^verbatim>\<open>xdma_cdev.c\<close>: the structure behind a device node, its checks, and the
  creation and removal of all nodes of a PCI device. The nodes embedded in \<^verbatim>\<open>struct xdma_pci_dev\<close> are named
  by the field they live in. Registering numbers, nodes and names with the kernel may fail and is the
  parameter \<open>cdev_services\<close>; numbers, character devices and nodes held are in the log.
\<close>

section \<open>Records\<close>

datatype cdev_type =
  CHAR_USER | CHAR_CTRL | CHAR_XVC | CHAR_EVENTS | CHAR_XDMA_H2C | CHAR_XDMA_C2H
| CHAR_BYPASS_H2C | CHAR_BYPASS_C2H | CHAR_BYPASS

datatype file_ops = NoFops | CtrlFops | XvcFops | SgdmaFops | EventFops | BypassFops

text \<open>A device and an engine are named as in the device lists: by handle, by direction and channel.\<close>

record xdma_cdev =
  xc_magic :: u64
  xc_xdev :: "nat option"
  xc_cdevno :: "nat \<times> nat"
  xc_name :: string
  xc_fops :: file_ops
  xc_bar :: int
  xc_base :: addr
  xc_engine :: "(dma_data_direction \<times> nat) option"
  xc_user_irq :: "nat option"
  xc_sys_device :: bool

datatype cdev_slot =
  CtrlCdev | SgdmaC2h nat | SgdmaH2c nat | EventsCdev nat | UserCdev | BypassC2h nat | BypassH2c nat
| BypassBase | XvcCdev

record xdma_pci_dev =
  xp_magic :: u64
  xp_pdev :: nat
  xp_xdev :: "nat option"
  xp_major :: nat
  xp_user_max :: nat
  xp_c2h_channel_max :: nat
  xp_h2c_channel_max :: nat
  xp_flags :: u32
  xp_cdevs :: "cdev_slot \<Rightarrow> xdma_cdev"

text \<open>\<^verbatim>\<open>device_create\<close> yields a device, an error pointer (which is not null) or null.\<close>

datatype device_result = DevNull | DevErr | DevOk

record cdev_services =
  cs_class :: bool
  cs_alloc_chrdev :: "io_event list \<Rightarrow> int \<times> nat"
  cs_set_name :: "string \<Rightarrow> int"
  cs_cdev_add :: "nat \<Rightarrow> nat \<Rightarrow> int"
  cs_device_create :: "string \<Rightarrow> device_result"

definition MAGIC_CHAR :: u64 where [xdma_consts]: "MAGIC_CHAR = 0xCCCCCCCC"
definition XDMA_MINOR_BASE :: nat where [xdma_consts]: "XDMA_MINOR_BASE = 0"
definition XVC_BAR_OFFSET_DFLT :: addr where [xdma_consts]: "XVC_BAR_OFFSET_DFLT = 0x40000"

definition XDF_CDEV_USER :: nat where "XDF_CDEV_USER = 0"
definition XDF_CDEV_CTRL :: nat where "XDF_CDEV_CTRL = 1"
definition XDF_CDEV_XVC :: nat where "XDF_CDEV_XVC = 2"
definition XDF_CDEV_EVENT :: nat where "XDF_CDEV_EVENT = 3"
definition XDF_CDEV_SG :: nat where "XDF_CDEV_SG = 4"
definition XDF_CDEV_BYPASS :: nat where "XDF_CDEV_BYPASS = 5"

lemmas xdf_defs = XDF_CDEV_USER_def XDF_CDEV_CTRL_def XDF_CDEV_XVC_def XDF_CDEV_EVENT_def XDF_CDEV_SG_def
  XDF_CDEV_BYPASS_def

definition xpdev_flag_set :: "xdma_pci_dev \<Rightarrow> nat \<Rightarrow> xdma_pci_dev" where
  "xpdev_flag_set xp b = xp\<lparr>xp_flags := xp_flags xp OR push_bit b 1\<rparr>"

definition xpdev_flag_test :: "xdma_pci_dev \<Rightarrow> nat \<Rightarrow> bool" where
  "xpdev_flag_test xp b \<longleftrightarrow> xp_flags xp AND push_bit b 1 \<noteq> 0"

definition put_cdev :: "cdev_slot \<Rightarrow> xdma_cdev \<Rightarrow> xdma_pci_dev \<Rightarrow> xdma_pci_dev" where
  "put_cdev s xc xp = xp\<lparr>xp_cdevs := (xp_cdevs xp)(s := xc)\<rparr>"

section \<open>Checks\<close>

definition cdev_engine :: "xdma_dev \<Rightarrow> xdma_cdev \<Rightarrow> xdma_engine option" where
  "cdev_engine v xc = map_option (\<lambda>(dir, i). dir_engines dir v i) (xc_engine xc)"

text \<open>\<open>None\<close> is the null pointer, for the node and for the device it points to.\<close>

definition xcdev_check :: "(nat \<Rightarrow> xdma_dev option) \<Rightarrow> xdma_cdev option \<Rightarrow> bool \<Rightarrow> int" where
  "xcdev_check devs xcdev check_engine =
     (case xcdev of
        None \<Rightarrow> - EINVAL
      | Some xc \<Rightarrow>
          if xc_magic xc \<noteq> MAGIC_CHAR then - EINVAL
          else (case Option.bind (xc_xdev xc) devs of
                  None \<Rightarrow> - EINVAL
                | Some v \<Rightarrow>
                    if v_magic v \<noteq> MAGIC_DEVICE then - EINVAL
                    else if check_engine
                    then (case cdev_engine v xc of
                            None \<Rightarrow> - EINVAL
                          | Some e \<Rightarrow> if e_magic e \<noteq> MAGIC_ENGINE then - EINVAL else 0)
                    else 0))"

text \<open>Opening sets the file's private data; the previous value is kept when the magic number is wrong.\<close>

definition char_open :: "(cdev_slot \<Rightarrow> xdma_cdev) \<Rightarrow> cdev_slot \<Rightarrow> cdev_slot option \<Rightarrow> int \<times> cdev_slot option" where
  "char_open cdevs s private_data =
     (if xc_magic (cdevs s) \<noteq> MAGIC_CHAR then (- EINVAL, private_data) else (0, Some s))"

definition char_close :: "(nat \<Rightarrow> xdma_dev option) \<Rightarrow> xdma_cdev option \<Rightarrow> int" where
  "char_close devs xcdev =
     (case xcdev of
        None \<Rightarrow> - EINVAL
      | Some xc \<Rightarrow>
          if xc_magic xc \<noteq> MAGIC_CHAR then - EINVAL
          else (case Option.bind (xc_xdev xc) devs of
                  None \<Rightarrow> - EINVAL
                | Some v \<Rightarrow> if v_magic v \<noteq> MAGIC_DEVICE then - EINVAL else 0))"

section \<open>Creating and removing one node\<close>

definition devnode_name :: "cdev_type \<Rightarrow> nat \<Rightarrow> nat \<Rightarrow> string" where
  "devnode_name type idx n = ''xdma'' @ dec idx @
     (case type of
        CHAR_USER \<Rightarrow> ''_user'' | CHAR_CTRL \<Rightarrow> ''_control'' | CHAR_XVC \<Rightarrow> ''_xvc''
      | CHAR_EVENTS \<Rightarrow> ''_events_'' @ dec n | CHAR_XDMA_H2C \<Rightarrow> ''_h2c_'' @ dec n | CHAR_XDMA_C2H \<Rightarrow> ''_c2h_'' @ dec n
      | CHAR_BYPASS_H2C \<Rightarrow> ''_bypass_h2c_'' @ dec n | CHAR_BYPASS_C2H \<Rightarrow> ''_bypass_c2h_'' @ dec n
      | CHAR_BYPASS \<Rightarrow> ''_bypass'')"

definition engine_channel :: "xdma_dev \<Rightarrow> xdma_cdev \<Rightarrow> nat" where
  "engine_channel v xc = (case cdev_engine v xc of Some e \<Rightarrow> unat (e_channel e) | None \<Rightarrow> 0)"

definition config_kobject :: "cdev_services \<Rightarrow> xdma_dev \<Rightarrow> xdma_cdev \<Rightarrow> cdev_type \<Rightarrow> int \<times> xdma_cdev" where
  "config_kobject cs v xc type =
     (let set_name = (\<lambda>n. let nm = devnode_name type (nat (v_idx v)) n; rv = cs_set_name cs nm
                          in (rv, if rv = 0 then xc\<lparr>xc_name := nm\<rparr> else xc))
      in if type \<in> {CHAR_XDMA_H2C, CHAR_XDMA_C2H, CHAR_BYPASS_H2C, CHAR_BYPASS_C2H}
         then if xc_engine xc = None then (- EINVAL, xc) else set_name (engine_channel v xc)
         else if type = CHAR_EVENTS then set_name (nat (xc_bar xc)) else set_name 0)"

definition cdev_ctrl_init :: "xdma_cdev \<Rightarrow> xdma_cdev" where
  "cdev_ctrl_init xc = xc\<lparr>xc_fops := CtrlFops\<rparr>"

definition cdev_xvc_init :: "xdma_cdev \<Rightarrow> xdma_cdev" where
  "cdev_xvc_init xc = xc\<lparr>xc_base := XVC_BAR_OFFSET_DFLT, xc_fops := XvcFops\<rparr>"

definition cdev_sgdma_init :: "xdma_cdev \<Rightarrow> xdma_cdev" where
  "cdev_sgdma_init xc = xc\<lparr>xc_fops := SgdmaFops\<rparr>"

definition cdev_event_init :: "xdma_cdev \<Rightarrow> xdma_cdev" where
  "cdev_event_init xc = xc\<lparr>xc_user_irq := Some (nat (xc_bar xc)), xc_fops := EventFops\<rparr>"

definition cdev_bypass_init :: "xdma_cdev \<Rightarrow> xdma_cdev" where
  "cdev_bypass_init xc = xc\<lparr>xc_fops := BypassFops\<rparr>"

text \<open>The \<^verbatim>\<open>switch\<close> of \<^verbatim>\<open>create_xcdev\<close>: the minor number and the file operations of a type.\<close>

definition minor_init :: "xdma_dev \<Rightarrow> xdma_cdev \<Rightarrow> cdev_type \<Rightarrow> nat \<times> xdma_cdev" where
  "minor_init v xc type =
     (case type of
        CHAR_USER \<Rightarrow> (0, cdev_ctrl_init xc)
      | CHAR_CTRL \<Rightarrow> (1, cdev_ctrl_init xc)
      | CHAR_XVC \<Rightarrow> (2, cdev_xvc_init xc)
      | CHAR_XDMA_H2C \<Rightarrow> (32 + engine_channel v xc, cdev_sgdma_init xc)
      | CHAR_XDMA_C2H \<Rightarrow> (36 + engine_channel v xc, cdev_sgdma_init xc)
      | CHAR_EVENTS \<Rightarrow> (10 + nat (xc_bar xc), cdev_event_init xc)
      | CHAR_BYPASS_H2C \<Rightarrow> (64 + engine_channel v xc, cdev_bypass_init xc)
      | CHAR_BYPASS_C2H \<Rightarrow> (68 + engine_channel v xc, cdev_bypass_init xc)
      | CHAR_BYPASS \<Rightarrow> (100, cdev_bypass_init xc))"

definition create_sys_device ::
    "cdev_services \<Rightarrow> xdma_dev \<Rightarrow> xdma_cdev \<Rightarrow> cdev_type \<Rightarrow> kstate \<Rightarrow> int \<times> xdma_cdev \<times> kstate" where
  "create_sys_device cs v xc type k =
     (let last_param = (if type = CHAR_EVENTS then nat (xc_bar xc) else engine_channel v xc) in
      case cs_device_create cs (devnode_name type (nat (v_idx v)) last_param) of
        DevOk \<Rightarrow> (0, xc\<lparr>xc_sys_device := True\<rparr>,
                  log_event (Acquire (ResNode (fst (xc_cdevno xc)) (snd (xc_cdevno xc)))) k)
      | DevErr \<Rightarrow> (0, xc\<lparr>xc_sys_device := True\<rparr>, k)
      | DevNull \<Rightarrow> (- 1, xc\<lparr>xc_sys_device := False\<rparr>, k))"

definition destroy_xcdev :: "cdev_services \<Rightarrow> xdma_cdev \<Rightarrow> kstate \<Rightarrow> int \<times> kstate" where
  "destroy_xcdev cs xc k =
     (if xc_magic xc \<noteq> MAGIC_CHAR then (- EINVAL, k)
      else if xc_xdev xc = None then (- EINVAL, k)
      else if \<not> cs_class cs then (- EINVAL, k)
      else if \<not> xc_sys_device xc then (- EINVAL, k)
      else let (major, minor) = xc_cdevno xc
           in (0, log_event (Release (ResCdev major minor)) (log_event (Release (ResNode major minor)) k)))"

text \<open>The device numbers are registered with the first node.\<close>

definition alloc_major :: "cdev_services \<Rightarrow> xdma_pci_dev \<Rightarrow> kstate \<Rightarrow> int \<times> xdma_pci_dev \<times> kstate" where
  "alloc_major cs xp k =
     (if xp_major xp = 0
      then let (rv, major) = cs_alloc_chrdev cs (k_trace k)
           in if rv \<noteq> 0 then (rv, xp, k)
              else (0, xp\<lparr>xp_major := major\<rparr>, log_event (Acquire (ResChrdev major XDMA_MINOR_BASE)) k)
      else (0, xp, k))"

definition create_xcdev ::
    "cdev_services \<Rightarrow> xdma_dev \<Rightarrow> cdev_slot \<Rightarrow> int \<Rightarrow> (dma_data_direction \<times> nat) option \<Rightarrow> cdev_type
     \<Rightarrow> xdma_pci_dev \<Rightarrow> kstate \<Rightarrow> int \<times> xdma_pci_dev \<times> kstate" where
  "create_xcdev cs v s bar engine type xp k =
     (let (rv, xp, k) = alloc_major cs xp k in
      if rv \<noteq> 0 then (rv, xp, k)
      else let xc = (xp_cdevs xp s)\<lparr>xc_magic := MAGIC_CHAR, xc_xdev := xp_xdev xp, xc_engine := engine, xc_bar := bar\<rparr>;
               (rv, xc) = config_kobject cs v xc type
           in if rv < 0 then (rv, put_cdev s xc xp, k)
              else let (minor, xc) = minor_init v xc type;
                       major = xp_major xp;
                       xc = xc\<lparr>xc_cdevno := (major, minor)\<rparr>;
                       rv = cs_cdev_add cs major minor
                   in if rv < 0 then (rv, put_cdev s xc xp, log_event (Release (ResChrdev major minor)) k)
                      else let k = log_event (Acquire (ResCdev major minor)) k in
                           if cs_class cs
                           then let (rv, xc, k) = create_sys_device cs v xc type k in
                                if rv < 0
                                then (rv, put_cdev s xc xp, log_event (Release (ResChrdev major minor))
                                        (log_event (Release (ResCdev major minor)) k))
                                else (0, put_cdev s xc xp, k)
                           else (0, put_cdev s xc xp, k))"

section \<open>All nodes of a device\<close>

text \<open>One row per call of \<^verbatim>\<open>create_xcdev\<close>: the field, the BAR, the engine and the type. The loops over channels
  skip the engines that were not found (\<^verbatim>\<open>continue\<close>).\<close>

type_synonym node_spec = "cdev_slot \<times> int \<times> (dma_data_direction \<times> nat) option \<times> cdev_type"

fun create_list ::
    "cdev_services \<Rightarrow> xdma_dev \<Rightarrow> node_spec list \<Rightarrow> xdma_pci_dev \<Rightarrow> kstate \<Rightarrow> int \<times> xdma_pci_dev \<times> kstate" where
  "create_list cs v [] xp k = (0, xp, k)"
| "create_list cs v ((s, bar, engine, type) # sps) xp k =
     (if (case engine of Some (dir, i) \<Rightarrow> e_magic (dir_engines dir v i) \<noteq> MAGIC_ENGINE | None \<Rightarrow> False)
      then create_list cs v sps xp k
      else let (rv, xp, k) = create_xcdev cs v s bar engine type xp k
           in if rv < 0 then (rv, xp, k) else create_list cs v sps xp k)"

fun create_groups ::
    "cdev_services \<Rightarrow> xdma_dev \<Rightarrow> (node_spec list \<times> nat) list \<Rightarrow> xdma_pci_dev \<Rightarrow> kstate
     \<Rightarrow> int \<times> xdma_pci_dev \<times> kstate" where
  "create_groups cs v [] xp k = (0, xp, k)"
| "create_groups cs v ((sps, flag) # gs) xp k =
     (let (rv, xp, k) = create_list cs v sps xp k
      in if rv < 0 then (rv, xp, k) else create_groups cs v gs (xpdev_flag_set xp flag) k)"

definition channel_specs ::
    "(nat \<Rightarrow> cdev_slot) \<Rightarrow> dma_data_direction \<Rightarrow> cdev_type \<Rightarrow> nat \<Rightarrow> node_spec list" where
  "channel_specs mk dir type n = map (\<lambda>i. (mk i, int i, Some (dir, i), type)) [0..<n]"

text \<open>The groups in the order of \<^verbatim>\<open>xpdev_create_interfaces\<close>, each followed by the flag that records it.\<close>

definition interface_groups :: "xdma_dev \<Rightarrow> xdma_pci_dev \<Rightarrow> (node_spec list \<times> nat) list" where
  "interface_groups v xp =
     [([(CtrlCdev, v_config_bar_idx v, None, CHAR_CTRL)], XDF_CDEV_CTRL),
      (map (\<lambda>i. (EventsCdev i, int i, None, CHAR_EVENTS)) [0..<xp_user_max xp], XDF_CDEV_EVENT),
      (channel_specs SgdmaH2c DMA_TO_DEVICE CHAR_XDMA_H2C (xp_h2c_channel_max xp) @
       channel_specs SgdmaC2h DMA_FROM_DEVICE CHAR_XDMA_C2H (xp_c2h_channel_max xp), XDF_CDEV_SG)] @
     (if 0 < v_bypass_bar_idx v
      then [(channel_specs BypassH2c DMA_TO_DEVICE CHAR_BYPASS_H2C (xp_h2c_channel_max xp) @
             channel_specs BypassC2h DMA_FROM_DEVICE CHAR_BYPASS_C2H (xp_c2h_channel_max xp) @
             [(BypassBase, v_bypass_bar_idx v, None, CHAR_BYPASS)], XDF_CDEV_BYPASS)]
      else []) @
     (if 0 \<le> v_user_bar_idx v
      then [([(UserCdev, v_user_bar_idx v, None, CHAR_USER)], XDF_CDEV_USER),
            ([(XvcCdev, v_user_bar_idx v, None, CHAR_XVC)], XDF_CDEV_XVC)]
      else [])"

fun destroy_list :: "cdev_services \<Rightarrow> xdma_pci_dev \<Rightarrow> cdev_slot list \<Rightarrow> kstate \<Rightarrow> kstate" where
  "destroy_list cs xp [] k = k"
| "destroy_list cs xp (s # ss) k = destroy_list cs xp ss (snd (destroy_xcdev cs (xp_cdevs xp s) k))"

definition destroy_if :: "cdev_services \<Rightarrow> xdma_pci_dev \<Rightarrow> nat \<Rightarrow> cdev_slot list \<Rightarrow> kstate \<Rightarrow> kstate" where
  "destroy_if cs xp flag ss k = (if xpdev_flag_test xp flag then destroy_list cs xp ss k else k)"

definition xpdev_destroy_interfaces :: "cdev_services \<Rightarrow> xdma_pci_dev \<Rightarrow> kstate \<Rightarrow> kstate" where
  "xpdev_destroy_interfaces cs xp k =
     (let h2c = [0..<xp_h2c_channel_max xp]; c2h = [0..<xp_c2h_channel_max xp];
          k = destroy_if cs xp XDF_CDEV_SG (map SgdmaH2c h2c @ map SgdmaC2h c2h) k;
          k = destroy_if cs xp XDF_CDEV_EVENT (map EventsCdev [0..<xp_user_max xp]) k;
          k = destroy_if cs xp XDF_CDEV_CTRL [CtrlCdev] k;
          k = destroy_if cs xp XDF_CDEV_USER [UserCdev] k;
          k = destroy_if cs xp XDF_CDEV_XVC [XvcCdev] k;
          k = destroy_if cs xp XDF_CDEV_BYPASS (map BypassH2c h2c @ map BypassC2h c2h @ [BypassBase]) k
      in if xp_major xp \<noteq> 0 then log_event (Release (ResChrdev (xp_major xp) XDMA_MINOR_BASE)) k else k)"

definition xpdev_create_interfaces ::
    "cdev_services \<Rightarrow> xdma_dev \<Rightarrow> xdma_pci_dev \<Rightarrow> kstate \<Rightarrow> int \<times> xdma_pci_dev \<times> kstate" where
  "xpdev_create_interfaces cs v xp k =
     (let (rv, xp, k) = create_groups cs v (interface_groups v xp) xp k
      in if rv < 0 then (- 1, xp, xpdev_destroy_interfaces cs xp k) else (0, xp, k))"

section \<open>The class and the cache of the module\<close>

text \<open>\<open>cls\<close> and \<open>cache\<close> say whether the class and the cache can be created; the globals are \<open>(g_xdma_class, cdev_cache)\<close>.\<close>

definition xdma_cdev_init :: "bool \<Rightarrow> bool \<Rightarrow> kstate \<Rightarrow> int \<times> (bool \<times> bool) \<times> kstate" where
  "xdma_cdev_init cls cache k =
     (if \<not> cls then (- EINVAL, (True, False), k)
      else let k = log_event (Acquire ResClass) k in
           if \<not> cache then (- ENOMEM, (True, False), k)
           else (0, (True, True), log_event (Acquire ResCache) k))"

definition xdma_cdev_cleanup :: "bool \<times> bool \<Rightarrow> kstate \<Rightarrow> kstate" where
  "xdma_cdev_cleanup g k =
     (let k = (if snd g then log_event (Release ResCache) k else k)
      in if fst g then log_event (Release ResClass) k else k)"

section \<open>Creation and removal balance\<close>

definition ready :: "xdma_cdev \<Rightarrow> bool" where
  "ready xc \<longleftrightarrow> xc_magic xc = MAGIC_CHAR \<and> xc_xdev xc \<noteq> None \<and> xc_sys_device xc"

text \<open>What a created node holds.\<close>

definition node_held :: "xdma_cdev \<Rightarrow> resource \<Rightarrow> int" where
  "node_held xc r =
     (if ready xc
      then (if r = ResNode (fst (xc_cdevno xc)) (snd (xc_cdevno xc)) then 1 else 0) +
           (if r = ResCdev (fst (xc_cdevno xc)) (snd (xc_cdevno xc)) then 1 else 0)
      else 0)"

definition slots_held :: "xdma_pci_dev \<Rightarrow> cdev_slot list \<Rightarrow> resource \<Rightarrow> int" where
  "slots_held xp ss r = (\<Sum>s\<leftarrow>ss. node_held (xp_cdevs xp s) r)"

lemma slots_held_simps [simp]:
  "slots_held xp [] r = 0" "slots_held xp (s # ss) r = node_held (xp_cdevs xp s) r + slots_held xp ss r"
  "slots_held xp (ss @ ss') r = slots_held xp ss r + slots_held xp ss' r"
  by (simp_all add: slots_held_def)

lemma slots_held_cong:
  "(\<And>s. s \<in> set ss \<Longrightarrow> xp_cdevs xp' s = xp_cdevs xp s) \<Longrightarrow> slots_held xp' ss r = slots_held xp ss r"
  by (induction ss) simp_all

text \<open>The device numbers, registered once.\<close>

definition region_held :: "xdma_pci_dev \<Rightarrow> xdma_pci_dev \<Rightarrow> resource \<Rightarrow> int" where
  "region_held xp xp' r = (if xp_major xp = 0 \<and> xp_major xp' \<noteq> 0 \<and> r = ResChrdev (xp_major xp') 0 then 1 else 0)"

text \<open>A kernel that hands out device numbers above 0 and never an error pointer for a node.\<close>

definition cs_ok :: "cdev_services \<Rightarrow> bool" where
  "cs_ok cs \<longleftrightarrow> cs_class cs \<and> (\<forall>t. fst (cs_alloc_chrdev cs t) \<le> 0 \<and> snd (cs_alloc_chrdev cs t) \<noteq> 0) \<and> (\<forall>nm. cs_device_create cs nm \<noteq> DevErr)"

lemma destroy_xcdev_held:
  "cs_class cs \<Longrightarrow> held (k_trace (snd (destroy_xcdev cs xc k))) r = held (k_trace k) r - node_held xc r"
  by (cases "xc_cdevno xc") (auto simp: destroy_xcdev_def node_held_def ready_def Let_def)

lemma destroy_list_held:
  "cs_class cs \<Longrightarrow> held (k_trace (destroy_list cs xp ss k)) r = held (k_trace k) r - slots_held xp ss r"
  by (induction ss arbitrary: k) (simp_all add: destroy_xcdev_held)

lemma minor_init_keeps [simp]:
  "xc_magic (snd (minor_init v xc type)) = xc_magic xc" "xc_xdev (snd (minor_init v xc type)) = xc_xdev xc"
  by (simp_all add: minor_init_def cdev_ctrl_init_def cdev_xvc_init_def cdev_sgdma_init_def cdev_event_init_def
      cdev_bypass_init_def split: cdev_type.split)

lemma config_kobject_keeps [simp]:
  "xc_magic (snd (config_kobject cs v xc type)) = xc_magic xc" "xc_xdev (snd (config_kobject cs v xc type)) = xc_xdev xc"
  by (simp_all add: config_kobject_def Let_def)

text \<open>The parts of the structure that creating nodes leaves alone.\<close>

definition same_shape :: "xdma_pci_dev \<Rightarrow> xdma_pci_dev \<Rightarrow> bool" where
  "same_shape xp xp' \<longleftrightarrow> xp_xdev xp' = xp_xdev xp \<and> xp_user_max xp' = xp_user_max xp \<and>
     xp_c2h_channel_max xp' = xp_c2h_channel_max xp \<and> xp_h2c_channel_max xp' = xp_h2c_channel_max xp \<and>
     xp_pdev xp' = xp_pdev xp \<and> xp_magic xp' = xp_magic xp"

lemma same_shape_refl [simp]: "same_shape xp xp" by (simp add: same_shape_def)

lemma same_shape_trans: "same_shape xp xp' \<Longrightarrow> same_shape xp' xp'' \<Longrightarrow> same_shape xp xp''" by (simp add: same_shape_def)

lemma alloc_major_ok:
  assumes "alloc_major cs xp k = (rv, xp', k')" and "cs_ok cs"
  shows "rv \<le> 0" "same_shape xp xp'" "xp_flags xp' = xp_flags xp" "xp_cdevs xp' = xp_cdevs xp"
    "rv = 0 \<Longrightarrow> xp_major xp' \<noteq> 0" "xp_major xp \<noteq> 0 \<Longrightarrow> xp_major xp' = xp_major xp"
    "rv = 0 \<Longrightarrow> held (k_trace k') r = held (k_trace k) r + region_held xp xp' r"
  using assms
  by (auto simp: alloc_major_def cs_ok_def region_held_def same_shape_def XDMA_MINOR_BASE_def
      split: if_splits prod.splits) (metis fst_conv snd_conv less_irrefl)+

lemma create_xcdev_ok:
  assumes "create_xcdev cs v s bar engine type xp k = (rv, xp', k')" and "\<not> rv < 0" and "cs_ok cs" and "xp_xdev xp \<noteq> None"
  shows "held (k_trace k') r = held (k_trace k) r + node_held (xp_cdevs xp' s) r + region_held xp xp' r"
    "\<And>s'. s' \<noteq> s \<Longrightarrow> xp_cdevs xp' s' = xp_cdevs xp s'" "same_shape xp xp'" "xp_flags xp' = xp_flags xp"
    "xp_major xp' \<noteq> 0" "xp_major xp \<noteq> 0 \<Longrightarrow> xp_major xp' = xp_major xp" "ready (xp_cdevs xp' s)"
    "xc_cdevno (xp_cdevs xp' s) = (xp_major xp', fst (minor_init v (snd (config_kobject cs v ((xp_cdevs xp s)\<lparr>xc_magic := MAGIC_CHAR,
        xc_xdev := xp_xdev xp, xc_engine := engine, xc_bar := bar\<rparr>) type)) type))"
proof -
  obtain rv1 xp1 k1 where a: "alloc_major cs xp k = (rv1, xp1, k1)" by (metis prod_cases3)
  note al = alloc_major_ok [OF a assms(3)]
  have rv1: "rv1 = 0" using assms(1,2) al(1) a by (auto simp: create_xcdev_def split: if_splits)
  let ?x1 = "(xp_cdevs xp s)\<lparr>xc_magic := MAGIC_CHAR, xc_xdev := xp_xdev xp, xc_engine := engine, xc_bar := bar\<rparr>"
  define x2 where "x2 = snd (config_kobject cs v ?x1 type)"
  define m where "m = fst (minor_init v x2 type)"
  define x3 where "x3 = (snd (minor_init v x2 type))\<lparr>xc_cdevno := (xp_major xp1, m)\<rparr>"
  have xd: "xp_xdev xp1 = xp_xdev xp" using al(2) by (simp add: same_shape_def)
  have res: "xp' = put_cdev s (x3\<lparr>xc_sys_device := True\<rparr>) xp1"
    "k' = log_event (Acquire (ResNode (xp_major xp1) m)) (log_event (Acquire (ResCdev (xp_major xp1) m)) k1)"
    using assms(1-3) rv1 a xd al(4)
    by (auto simp: create_xcdev_def create_sys_device_def cs_ok_def x2_def m_def x3_def Let_def
        split: prod.splits if_splits device_result.splits)
  have rdy: "ready (x3\<lparr>xc_sys_device := True\<rparr>)" "xc_cdevno x3 = (xp_major xp1, m)"
    using assms(4) by (simp_all add: ready_def x3_def x2_def)
  show "held (k_trace k') r = held (k_trace k) r + node_held (xp_cdevs xp' s) r + region_held xp xp' r"
    using al(7) [OF rv1, of r] rdy by (simp add: res put_cdev_def node_held_def region_held_def)
  show "\<And>s'. s' \<noteq> s \<Longrightarrow> xp_cdevs xp' s' = xp_cdevs xp s'" "same_shape xp xp'" "xp_flags xp' = xp_flags xp"
    "xp_major xp' \<noteq> 0" "xp_major xp \<noteq> 0 \<Longrightarrow> xp_major xp' = xp_major xp" "ready (xp_cdevs xp' s)"
    "xc_cdevno (xp_cdevs xp' s) = (xp_major xp', fst (minor_init v (snd (config_kobject cs v ?x1 type)) type))"
    using al rv1 rdy by (simp_all add: res put_cdev_def same_shape_def m_def x2_def)
qed

lemma region_held_trans:
  "xp_major xp1 = xp_major xp \<or> xp_major xp = 0 \<Longrightarrow> xp_major xp1 \<noteq> 0 \<longrightarrow> xp_major xp2 = xp_major xp1 \<Longrightarrow>
   region_held xp xp1 r + region_held xp1 xp2 r = region_held xp xp2 r"
  by (auto simp: region_held_def)

definition slots_of :: "node_spec list \<Rightarrow> cdev_slot list" where
  "slots_of sps = map fst sps"

text \<open>What a successful loop has done: it holds the nodes that are ready afterwards, and nothing else.\<close>

definition created :: "cdev_slot list \<Rightarrow> xdma_pci_dev \<Rightarrow> kstate \<Rightarrow> xdma_pci_dev \<Rightarrow> kstate \<Rightarrow> bool" where
  "created ss xp k xp' k' \<longleftrightarrow>
     (\<forall>r. held (k_trace k') r = held (k_trace k) r + slots_held xp' ss r + region_held xp xp' r) \<and>
     (\<forall>s. s \<notin> set ss \<longrightarrow> xp_cdevs xp' s = xp_cdevs xp s) \<and> same_shape xp xp' \<and>
     (xp_major xp \<noteq> 0 \<longrightarrow> xp_major xp' = xp_major xp)"

lemma created_trans:
  assumes "created ss xp k xp1 k1" and "created ss' xp1 k1 xp2 k2" and "set ss \<inter> set ss' = {}"
  shows "created (ss @ ss') xp k xp2 k2"
proof -
  have "slots_held xp2 ss r = slots_held xp1 ss r" for r
    by (rule slots_held_cong) (use assms in \<open>auto simp: created_def\<close>)
  moreover have "region_held xp xp1 r + region_held xp1 xp2 r = region_held xp xp2 r" for r
    by (rule region_held_trans) (use assms in \<open>auto simp: created_def\<close>)
  ultimately show ?thesis
    using assms same_shape_trans [of xp xp1 xp2] by (auto simp: created_def algebra_simps)
qed

lemma create_list_ok:
  assumes "create_list cs v sps xp k = (rv, xp', k')" and "\<not> rv < 0" and "cs_ok cs" and "xp_xdev xp \<noteq> None"
    and "distinct (slots_of sps)" and "\<forall>s \<in> set (slots_of sps). \<not> ready (xp_cdevs xp s)"
  shows "created (slots_of sps) xp k xp' k' \<and> xp_flags xp' = xp_flags xp"
  using assms
proof (induction cs v sps xp k rule: create_list.induct)
  case (1 cs v xp k)
  then show ?case by (auto simp: created_def slots_of_def region_held_def)
next
  case (2 cs v s bar engine type sps xp k)
  show ?case
  proof (cases "case engine of Some (dir, i) \<Rightarrow> e_magic (dir_engines dir v i) \<noteq> MAGIC_ENGINE | None \<Rightarrow> False")
    case True
    then have rest: "create_list cs v sps xp k = (rv, xp', k')" using 2(3) by (auto split: option.splits)
    have c: "created (slots_of sps) xp k xp' k' \<and> xp_flags xp' = xp_flags xp"
      by (rule 2(1) [OF True rest]) (use 2(4-8) in \<open>simp_all add: slots_of_def\<close>)
    moreover have "node_held (xp_cdevs xp' s) r = 0" for r
    proof -
      have "xp_cdevs xp' s = xp_cdevs xp s" using c 2(7) by (simp add: created_def slots_of_def)
      then show ?thesis using 2(8) by (simp add: node_held_def slots_of_def)
    qed
    ultimately show ?thesis by (simp add: created_def slots_of_def)
  next
    case False
    obtain rv1 xp1 k1 where one: "create_xcdev cs v s bar engine type xp k = (rv1, xp1, k1)" by (metis prod_cases3)
    have ok: "\<not> rv1 < 0" and rest: "create_list cs v sps xp1 k1 = (rv, xp', k')"
      using 2(3,4) False one by (auto split: if_splits option.splits)
    note c1 = create_xcdev_ok [OF one ok 2(5,6)]
    have nr: "\<not> ready (xp_cdevs xp1 s')" if "s' \<in> set (slots_of sps)" for s'
    proof -
      have "s' \<noteq> s" using that 2(7) by (simp add: slots_of_def) (metis)
      from c1(2) [OF this] show ?thesis using that 2(8) by (auto simp: slots_of_def)
    qed
    have c: "created (slots_of sps) xp1 k1 xp' k' \<and> xp_flags xp' = xp_flags xp1"
      by (rule 2(2) [OF False one [symmetric] refl refl ok rest])
        (use 2(4-7) c1(3) nr in \<open>simp_all add: slots_of_def same_shape_def\<close>)
    have "created [s] xp k xp1 k1" using c1 by (simp add: created_def)
    from created_trans [OF this] c show ?thesis using 2(7) c1(4) by (simp add: slots_of_def)
  qed
qed

lemma flag_set_simps [simp]:
  "xp_cdevs (xpdev_flag_set xp b) = xp_cdevs xp" "xp_major (xpdev_flag_set xp b) = xp_major xp"
  "xp_flags (xpdev_flag_set xp b) = xp_flags xp OR push_bit b 1" "same_shape (xpdev_flag_set xp b) xp' = same_shape xp xp'"
  "slots_held (xpdev_flag_set xp b) ss r = slots_held xp ss r" "xp_xdev (xpdev_flag_set xp b) = xp_xdev xp"
  by (simp_all add: xpdev_flag_set_def same_shape_def slots_held_def)

lemma created_flag_set [simp]: "created ss (xpdev_flag_set xp b) k xp' k' = created ss xp k xp' k'"
  by (simp add: created_def region_held_def)

lemma create_groups_ok:
  assumes "create_groups cs v gs xp k = (rv, xp', k')" and "\<not> rv < 0" and "cs_ok cs" and "xp_xdev xp \<noteq> None"
    and "distinct (slots_of (concat (map fst gs)))" and "\<forall>s \<in> set (slots_of (concat (map fst gs))). \<not> ready (xp_cdevs xp s)"
  shows "created (slots_of (concat (map fst gs))) xp k xp' k' \<and>
    xp_flags xp' = fold (\<lambda>b w. w OR push_bit b 1) (map snd gs) (xp_flags xp)"
  using assms
proof (induction cs v gs xp k rule: create_groups.induct)
  case (1 cs v xp k)
  then show ?case by (auto simp: created_def slots_of_def region_held_def)
next
  case (2 cs v sps flag gs xp k)
  obtain rv1 xp1 k1 where one: "create_list cs v sps xp k = (rv1, xp1, k1)" by (metis prod_cases3)
  have ok: "\<not> rv1 < 0" and rest: "create_groups cs v gs (xpdev_flag_set xp1 flag) k1 = (rv, xp', k')"
    using 2(2,3) one by (auto split: if_splits)
  have c1: "created (slots_of sps) xp k xp1 k1" "xp_flags xp1 = xp_flags xp"
    using create_list_ok [OF one ok 2(4,5)] 2(6,7) by (auto simp: slots_of_def)
  have dj: "set (slots_of sps) \<inter> set (slots_of (concat (map fst gs))) = {}" using 2(6) by (auto simp: slots_of_def)
  have nr: "\<not> ready (xp_cdevs xp1 s)" if "s \<in> set (slots_of (concat (map fst gs)))" for s
  proof -
    have "xp_cdevs xp1 s = xp_cdevs xp s" using c1(1) dj that by (auto simp: created_def)
    then show ?thesis using 2(7) that by (simp add: slots_of_def)
  qed
  have c: "created (slots_of (concat (map fst gs))) (xpdev_flag_set xp1 flag) k1 xp' k' \<and>
      xp_flags xp' = fold (\<lambda>b w. w OR push_bit b 1) (map snd gs) (xp_flags (xpdev_flag_set xp1 flag))"
    by (rule 2(1) [OF one [symmetric] refl refl ok rest])
      (use 2(3-6) c1 nr in \<open>auto simp: slots_of_def created_def same_shape_def\<close>)
  from created_trans [OF c1(1) _ dj] c show ?case using c1(2) by (simp add: slots_of_def)
qed

lemma interface_slots:
  "slots_of (concat (map fst (interface_groups v xp))) =
     [CtrlCdev] @ map EventsCdev [0..<xp_user_max xp] @
     (map SgdmaH2c [0..<xp_h2c_channel_max xp] @ map SgdmaC2h [0..<xp_c2h_channel_max xp]) @
     (if 0 < v_bypass_bar_idx v
      then map BypassH2c [0..<xp_h2c_channel_max xp] @ map BypassC2h [0..<xp_c2h_channel_max xp] @ [BypassBase] else []) @
     (if 0 \<le> v_user_bar_idx v then [UserCdev] @ [XvcCdev] else [])"
  by (simp add: interface_groups_def slots_of_def channel_specs_def comp_def)

lemma interface_slots_distinct: "distinct (slots_of (concat (map fst (interface_groups v xp))))"
  unfolding interface_slots by (auto simp: distinct_map inj_on_def)

lemma interface_flags:
  "fold (\<lambda>b w. w OR push_bit b 1) (map snd (interface_groups v xp)) (0 :: u32) =
     0x1A OR (if 0 < v_bypass_bar_idx v then 0x20 else 0) OR (if 0 \<le> v_user_bar_idx v then 5 else 0)"
  by (simp add: interface_groups_def xdf_defs)

definition fresh_xpdev :: "xdma_pci_dev \<Rightarrow> bool" where
  "fresh_xpdev xp \<longleftrightarrow> xp_flags xp = 0 \<and> xp_major xp = 0 \<and> (\<forall>s. \<not> ready (xp_cdevs xp s))"

lemma create_interfaces_ok:
  assumes "xpdev_create_interfaces cs v xp k = (0, xp', k')" and "cs_ok cs" and "xp_xdev xp \<noteq> None" and "fresh_xpdev xp"
  shows "created (slots_of (concat (map fst (interface_groups v xp)))) xp k xp' k'"
    "xp_flags xp' = 0x1A OR (if 0 < v_bypass_bar_idx v then 0x20 else 0) OR (if 0 \<le> v_user_bar_idx v then 5 else 0)"
proof -
  obtain rv where g: "create_groups cs v (interface_groups v xp) xp k = (rv, xp', k')" "\<not> rv < 0"
    using assms(1) by (auto simp: xpdev_create_interfaces_def split: prod.splits if_splits)
  note ok = create_groups_ok [OF g assms(2,3) interface_slots_distinct]
  from ok assms(4) show "created (slots_of (concat (map fst (interface_groups v xp)))) xp k xp' k'"
    by (auto simp: fresh_xpdev_def)
  from ok assms(4) show "xp_flags xp' = 0x1A OR (if 0 < v_bypass_bar_idx v then 0x20 else 0) OR (if 0 \<le> v_user_bar_idx v then 5 else 0)"
    by (simp add: fresh_xpdev_def interface_flags del: push_bit_of_1)
qed

lemma destroy_if_held:
  "cs_class cs \<Longrightarrow> held (k_trace (destroy_if cs xp b ss k)) r =
     held (k_trace k) r - (if xpdev_flag_test xp b then slots_held xp ss r else 0)"
  by (simp add: destroy_if_def destroy_list_held)

lemma destroy_interfaces_held:
  assumes "cs_class cs"
  shows "held (k_trace (xpdev_destroy_interfaces cs xp k)) r = held (k_trace k) r
    - (if xpdev_flag_test xp XDF_CDEV_SG
       then slots_held xp (map SgdmaH2c [0..<xp_h2c_channel_max xp] @ map SgdmaC2h [0..<xp_c2h_channel_max xp]) r else 0)
    - (if xpdev_flag_test xp XDF_CDEV_EVENT then slots_held xp (map EventsCdev [0..<xp_user_max xp]) r else 0)
    - (if xpdev_flag_test xp XDF_CDEV_CTRL then slots_held xp [CtrlCdev] r else 0)
    - (if xpdev_flag_test xp XDF_CDEV_USER then slots_held xp [UserCdev] r else 0)
    - (if xpdev_flag_test xp XDF_CDEV_XVC then slots_held xp [XvcCdev] r else 0)
    - (if xpdev_flag_test xp XDF_CDEV_BYPASS
       then slots_held xp (map BypassH2c [0..<xp_h2c_channel_max xp] @ map BypassC2h [0..<xp_c2h_channel_max xp] @ [BypassBase]) r else 0)
    - (if xp_major xp \<noteq> 0 \<and> r = ResChrdev (xp_major xp) 0 then 1 else 0)"
  unfolding xpdev_destroy_interfaces_def Let_def
  by (simp add: destroy_if_held [OF assms] XDMA_MINOR_BASE_def)

lemma interfaces_balance:
  assumes "xpdev_create_interfaces cs v xp k = (0, xp', k')" and "cs_ok cs" and "xp_xdev xp \<noteq> None" and "fresh_xpdev xp"
  shows "held (k_trace (xpdev_destroy_interfaces cs xp' k')) r = held (k_trace k) r"
proof -
  note ok = create_interfaces_ok [OF assms]
  have shape: "xp_user_max xp' = xp_user_max xp" "xp_c2h_channel_max xp' = xp_c2h_channel_max xp"
      "xp_h2c_channel_max xp' = xp_h2c_channel_max xp"
    using ok(1) by (auto simp: created_def same_shape_def)
  have h: "held (k_trace k') r = held (k_trace k) r +
      slots_held xp' (slots_of (concat (map fst (interface_groups v xp)))) r + region_held xp xp' r"
    using ok(1) by (simp add: created_def)
  have cls: "cs_class cs" and reg: "region_held xp xp' r = (if xp_major xp' \<noteq> 0 \<and> r = ResChrdev (xp_major xp') 0 then 1 else 0)"
    using assms(2,4) by (auto simp: cs_ok_def fresh_xpdev_def region_held_def)
  show ?thesis
    unfolding destroy_interfaces_held [OF cls] h reg interface_slots
    by (simp add: shape xpdev_flag_test_def ok(2) xdf_defs)
qed

text \<open>
  C26. Removing the interfaces of a device undoes creating them: whatever engines, BARs and user interrupts
  the device has, every character device, node and number range that a successful creation registered is
  given back by \<^verbatim>\<open>xpdev_destroy_interfaces\<close>, and nothing else is.
\<close>

theorem interfaces_create_destroy:
  assumes "xpdev_create_interfaces cs v xp k = (0, xp', k')" and "cs_ok cs" and "xp_xdev xp \<noteq> None" and "fresh_xpdev xp"
  shows "held (k_trace (xpdev_destroy_interfaces cs xp' k')) r = held (k_trace k) r"
  by (rule interfaces_balance [OF assms])

definition zero_cdev :: xdma_cdev where
  "zero_cdev = \<lparr>xc_magic = 0, xc_xdev = None, xc_cdevno = (0, 0), xc_name = [], xc_fops = NoFops, xc_bar = 0,
     xc_base = 0, xc_engine = None, xc_user_irq = None, xc_sys_device = False\<rparr>"

definition example_xpdev :: xdma_pci_dev where
  "example_xpdev = \<lparr>xp_magic = MAGIC_DEVICE, xp_pdev = 7, xp_xdev = Some 3, xp_major = 0, xp_user_max = 2,
     xp_c2h_channel_max = 1, xp_h2c_channel_max = 2, xp_flags = 0, xp_cdevs = (\<lambda>_. zero_cdev)\<rparr>"

definition node_dev :: xdma_dev where
  "node_dev = example_dev\<lparr>v_engine_h2c := (\<lambda>c. zero_engine\<lparr>e_magic := MAGIC_ENGINE, e_channel := of_nat c\<rparr>),
     v_engine_c2h := (\<lambda>_. zero_engine)\<rparr>"

definition example_cs :: cdev_services where
  "example_cs = \<lparr>cs_class = True, cs_alloc_chrdev = (\<lambda>_. (0, 240)), cs_set_name = (\<lambda>_. 0), cs_cdev_add = (\<lambda>_ _. 0),
     cs_device_create = (\<lambda>_. DevOk)\<rparr>"

lemma example_cs_ok: "cs_ok example_cs" by (simp add: cs_ok_def example_cs_def)

lemma example_fresh: "fresh_xpdev example_xpdev"
  by (simp add: fresh_xpdev_def example_xpdev_def ready_def zero_cdev_def MAGIC_CHAR_def)

text \<open>A kernel that grants everything.\<close>

lemma create_xcdev_granted:
  "type \<in> {CHAR_XDMA_H2C, CHAR_XDMA_C2H, CHAR_BYPASS_H2C, CHAR_BYPASS_C2H} \<longrightarrow> engine \<noteq> None \<Longrightarrow>
   fst (create_xcdev example_cs v s bar engine type xp k) = 0"
  by (auto simp: create_xcdev_def alloc_major_def config_kobject_def create_sys_device_def example_cs_def Let_def
      split: prod.splits)

definition spec_engine :: "node_spec \<Rightarrow> bool" where
  "spec_engine = (\<lambda>(s, bar, engine, type).
     type \<in> {CHAR_XDMA_H2C, CHAR_XDMA_C2H, CHAR_BYPASS_H2C, CHAR_BYPASS_C2H} \<longrightarrow> engine \<noteq> None)"

lemma create_list_granted: "\<forall>sp \<in> set sps. spec_engine sp \<Longrightarrow> fst (create_list example_cs v sps xp k) = 0"
proof (induction example_cs v sps xp k rule: create_list.induct)
  case (2 v s bar engine type sps xp k)
  have "fst (create_xcdev example_cs v s bar engine type xp k) = 0"
    by (rule create_xcdev_granted) (use 2(3) in \<open>simp add: spec_engine_def\<close>)
  then show ?case using 2 by (auto simp: Let_def split: prod.splits)
qed simp

lemma create_groups_granted:
  "\<forall>g \<in> set gs. \<forall>sp \<in> set (fst g). spec_engine sp \<Longrightarrow> fst (create_groups example_cs v gs xp k) = 0"
proof (induction example_cs v gs xp k rule: create_groups.induct)
  case (2 v sps flag gs xp k)
  have "fst (create_list example_cs v sps xp k) = 0" using create_list_granted 2(2) by simp
  then show ?case using 2 by (auto simp: Let_def split: prod.splits)
qed simp

lemma create_interfaces_granted: "fst (xpdev_create_interfaces example_cs v xp k) = 0"
proof -
  have "\<forall>g \<in> set (interface_groups v xp). \<forall>sp \<in> set (fst g). spec_engine sp"
    by (auto simp: interface_groups_def channel_specs_def spec_engine_def)
  from create_groups_granted [OF this, of v xp k] show ?thesis by (auto simp: xpdev_create_interfaces_def split: prod.splits)
qed

lemma example_creates: "fst (xpdev_create_interfaces example_cs node_dev example_xpdev \<lparr>k_trace = [], k_xfers = (\<lambda>_. zero_transfer)\<rparr>) = 0"
  by (rule create_interfaces_granted)

theorem interfaces_create_destroy_witness:
  "case xpdev_create_interfaces example_cs node_dev example_xpdev \<lparr>k_trace = [], k_xfers = (\<lambda>_. zero_transfer)\<rparr> of
     (rv, xp', k') \<Rightarrow> held (k_trace (xpdev_destroy_interfaces example_cs xp' k')) (ResCdev 240 10) = 0"
proof -
  let ?k = "\<lparr>k_trace = [], k_xfers = (\<lambda>_. zero_transfer)\<rparr>"
  obtain xp' k' where c: "xpdev_create_interfaces example_cs node_dev example_xpdev ?k = (0, xp', k')"
    using example_creates by (metis prod.collapse)
  have "xp_xdev example_xpdev \<noteq> None" by (simp add: example_xpdev_def)
  from interfaces_create_destroy [OF c example_cs_ok this example_fresh, of "ResCdev 240 10"] show ?thesis by (simp add: c)
qed

section \<open>Device numbers\<close>

fun slot_minor :: "cdev_slot \<Rightarrow> nat" where
  "slot_minor UserCdev = 0" | "slot_minor CtrlCdev = 1" | "slot_minor XvcCdev = 2" | "slot_minor (EventsCdev i) = 10 + i"
| "slot_minor (SgdmaH2c i) = 32 + i" | "slot_minor (SgdmaC2h i) = 36 + i" | "slot_minor (BypassH2c i) = 64 + i"
| "slot_minor (BypassC2h i) = 68 + i" | "slot_minor BypassBase = 100"

text \<open>An engine sits at its own channel number, as \<^verbatim>\<open>engine_init\<close> leaves it.\<close>

definition channels_ok :: "xdma_dev \<Rightarrow> bool" where
  "channels_ok v \<longleftrightarrow> (\<forall>dir. \<forall>i < XDMA_CHANNEL_NUM_MAX. e_magic (dir_engines dir v i) = MAGIC_ENGINE \<longrightarrow> unat (e_channel (dir_engines dir v i)) = i)"

definition spec_minor :: "xdma_dev \<Rightarrow> node_spec \<Rightarrow> nat" where
  "spec_minor v = (\<lambda>(s, bar, engine, type). fst (minor_init v (zero_cdev\<lparr>xc_bar := bar, xc_engine := engine\<rparr>) type))"

lemma minor_init_cong:
  "xc_bar xc = xc_bar xc' \<Longrightarrow> xc_engine xc = xc_engine xc' \<Longrightarrow> fst (minor_init v xc type) = fst (minor_init v xc' type)"
  by (simp add: minor_init_def engine_channel_def cdev_engine_def split: cdev_type.split)

lemma config_kobject_fields [simp]:
  "xc_bar (snd (config_kobject cs v xc type)) = xc_bar xc" "xc_engine (snd (config_kobject cs v xc type)) = xc_engine xc"
  by (simp_all add: config_kobject_def Let_def)

definition numbered :: "xdma_pci_dev \<Rightarrow> bool" where
  "numbered xp \<longleftrightarrow> (\<forall>s. ready (xp_cdevs xp s) \<longrightarrow> xp_major xp \<noteq> 0 \<and> xc_cdevno (xp_cdevs xp s) = (xp_major xp, slot_minor s))"

definition spec_ok :: "xdma_dev \<Rightarrow> node_spec \<Rightarrow> bool" where
  "spec_ok v = (\<lambda>(s, bar, engine, type).
     (case engine of Some (dir, i) \<Rightarrow> e_magic (dir_engines dir v i) = MAGIC_ENGINE | None \<Rightarrow> True) \<longrightarrow>
     spec_minor v (s, bar, engine, type) = slot_minor s)"

lemma create_list_numbered:
  assumes "create_list cs v sps xp k = (rv, xp', k')" and "\<not> rv < 0" and "cs_ok cs" and "xp_xdev xp \<noteq> None"
    and "\<forall>sp \<in> set sps. spec_ok v sp" and "numbered xp"
  shows "numbered xp' \<and> xp_xdev xp' = xp_xdev xp"
  using assms
proof (induction cs v sps xp k rule: create_list.induct)
  case (2 cs v s bar engine type sps xp k)
  show ?case
  proof (cases "case engine of Some (dir, i) \<Rightarrow> e_magic (dir_engines dir v i) \<noteq> MAGIC_ENGINE | None \<Rightarrow> False")
    case True
    then have rest: "create_list cs v sps xp k = (rv, xp', k')" using 2(3) by (auto split: option.splits)
    show ?thesis by (rule 2(1) [OF True rest]) (use 2(4-8) in simp_all)
  next
    case False
    obtain rv1 xp1 k1 where one: "create_xcdev cs v s bar engine type xp k = (rv1, xp1, k1)" by (metis prod_cases3)
    have ok: "\<not> rv1 < 0" and rest: "create_list cs v sps xp1 k1 = (rv, xp', k')"
      using 2(3,4) False one by (auto split: if_splits option.splits)
    note c1 = create_xcdev_ok [OF one ok 2(5,6)]
    have xd: "xp_xdev xp1 = xp_xdev xp" using c1(3) by (simp add: same_shape_def)
    have "spec_minor v (s, bar, engine, type) = slot_minor s"
      using 2(7) False by (auto simp: spec_ok_def split: option.splits)
    then have "xc_cdevno (xp_cdevs xp1 s) = (xp_major xp1, slot_minor s)"
      unfolding c1(8) by (simp add: spec_minor_def) (rule trans [rotated], assumption, rule minor_init_cong, simp_all)
    moreover have "ready (xp_cdevs xp1 s') \<Longrightarrow> s' \<noteq> s \<Longrightarrow> xc_cdevno (xp_cdevs xp1 s') = (xp_major xp1, slot_minor s')" for s'
      using c1(2) [of s'] c1(6) 2(8) by (simp add: numbered_def)
    ultimately have num: "numbered xp1" using c1(5) by (auto simp: numbered_def)
    have "numbered xp' \<and> xp_xdev xp' = xp_xdev xp1"
      by (rule 2(2) [OF False one [symmetric] refl refl ok rest]) (use 2(4-7) num xd in simp_all)
    then show ?thesis using xd by simp
  qed
qed simp

lemma create_groups_numbered:
  assumes "create_groups cs v gs xp k = (rv, xp', k')" and "\<not> rv < 0" and "cs_ok cs" and "xp_xdev xp \<noteq> None"
    and "\<forall>sp \<in> set (concat (map fst gs)). spec_ok v sp" and "numbered xp"
  shows "numbered xp'"
  using assms
proof (induction cs v gs xp k rule: create_groups.induct)
  case (2 cs v sps flag gs xp k)
  obtain rv1 xp1 k1 where one: "create_list cs v sps xp k = (rv1, xp1, k1)" by (metis prod_cases3)
  have ok: "\<not> rv1 < 0" and rest: "create_groups cs v gs (xpdev_flag_set xp1 flag) k1 = (rv, xp', k')"
    using 2(2,3) one by (auto split: if_splits)
  have n1: "numbered xp1 \<and> xp_xdev xp1 = xp_xdev xp"
    by (rule create_list_numbered [OF one ok 2(4,5)]) (use 2(6,7) in auto)
  show ?case
    by (rule 2(1) [OF one [symmetric] refl refl ok rest]) (use 2(3-6) n1 in \<open>simp_all add: numbered_def\<close>)
qed simp

lemma interface_specs_ok:
  "channels_ok v \<Longrightarrow> xp_h2c_channel_max xp \<le> XDMA_CHANNEL_NUM_MAX \<Longrightarrow> xp_c2h_channel_max xp \<le> XDMA_CHANNEL_NUM_MAX \<Longrightarrow>
   \<forall>sp \<in> set (concat (map fst (interface_groups v xp))). spec_ok v sp"
  by (auto simp: interface_groups_def channel_specs_def spec_ok_def spec_minor_def minor_init_def engine_channel_def
      cdev_engine_def channels_ok_def)

fun slot_fits :: "cdev_slot \<Rightarrow> bool" where
  "slot_fits (EventsCdev i) \<longleftrightarrow> i < 16" | "slot_fits (SgdmaH2c i) \<longleftrightarrow> i < 4" | "slot_fits (SgdmaC2h i) \<longleftrightarrow> i < 4"
| "slot_fits (BypassH2c i) \<longleftrightarrow> i < 4" | "slot_fits (BypassC2h i) \<longleftrightarrow> i < 4" | "slot_fits _ \<longleftrightarrow> True"

lemma slot_minor_inj: "slot_minor s = slot_minor s' \<Longrightarrow> slot_fits s \<Longrightarrow> slot_fits s' \<Longrightarrow> s = s'"
  by (cases s; cases s') simp_all

lemma interface_slot_fits:
  "s \<in> set (slots_of (concat (map fst (interface_groups v xp)))) \<Longrightarrow> xp_user_max xp \<le> MAX_USER_IRQ \<Longrightarrow>
   xp_h2c_channel_max xp \<le> XDMA_CHANNEL_NUM_MAX \<Longrightarrow> xp_c2h_channel_max xp \<le> XDMA_CHANNEL_NUM_MAX \<Longrightarrow> slot_fits s"
  unfolding interface_slots by (cases s) (auto simp: MAX_USER_IRQ_def XDMA_CHANNEL_NUM_MAX_def split: if_splits)

text \<open>
  C27. No two interfaces of a device share a device number: within the limits that \<^verbatim>\<open>xdma_device_open\<close> keeps (16 user
  interrupts, 4 channels each way), every node that was created has the minor number its type and
  channel prescribe, and the numbers of different nodes differ.
\<close>

theorem interfaces_minors_distinct:
  assumes "xpdev_create_interfaces cs v xp k = (0, xp', k')" and "cs_ok cs" and "xp_xdev xp \<noteq> None" and "fresh_xpdev xp"
    and "channels_ok v" and "xp_user_max xp \<le> MAX_USER_IRQ"
    and "xp_h2c_channel_max xp \<le> XDMA_CHANNEL_NUM_MAX" and "xp_c2h_channel_max xp \<le> XDMA_CHANNEL_NUM_MAX"
    and "ready (xp_cdevs xp' s)" and "ready (xp_cdevs xp' s')"
  shows "xc_cdevno (xp_cdevs xp' s) = (xp_major xp', slot_minor s) \<and>
    (xc_cdevno (xp_cdevs xp' s) = xc_cdevno (xp_cdevs xp' s') \<longrightarrow> s = s')"
proof -
  note ok = create_interfaces_ok [OF assms(1-4)]
  obtain rv where g: "create_groups cs v (interface_groups v xp) xp k = (rv, xp', k')" "\<not> rv < 0"
    using assms(1) by (auto simp: xpdev_create_interfaces_def split: prod.splits if_splits)
  have "numbered xp'"
    by (rule create_groups_numbered [OF g assms(2,3) interface_specs_ok [OF assms(5,7,8)]])
      (use assms(4) in \<open>simp add: fresh_xpdev_def numbered_def\<close>)
  then have n: "xc_cdevno (xp_cdevs xp' s) = (xp_major xp', slot_minor s)" "xc_cdevno (xp_cdevs xp' s') = (xp_major xp', slot_minor s')"
    using assms(9,10) by (simp_all add: numbered_def)
  have "s \<in> set (slots_of (concat (map fst (interface_groups v xp))))" "s' \<in> set (slots_of (concat (map fst (interface_groups v xp))))"
    using ok(1) assms(4,9,10) by (auto simp: created_def fresh_xpdev_def)
  then have "slot_fits s" "slot_fits s'" using interface_slot_fits [OF _ assms(6-8)] by blast+
  then show ?thesis using n slot_minor_inj by simp
qed

definition small_xpdev :: xdma_pci_dev where
  "small_xpdev = example_xpdev\<lparr>xp_user_max := 1, xp_c2h_channel_max := 0, xp_h2c_channel_max := 0\<rparr>"

lemma small_ready:
  "ready (xp_cdevs (fst (snd (xpdev_create_interfaces example_cs node_dev small_xpdev
     \<lparr>k_trace = [], k_xfers = (\<lambda>_. zero_transfer)\<rparr>))) (EventsCdev 0))"
  by (simp add: xpdev_create_interfaces_def interface_groups_def node_dev_def example_dev_def small_xpdev_def example_xpdev_def
      channel_specs_def create_xcdev_def alloc_major_def example_cs_def config_kobject_def minor_init_def cdev_ctrl_init_def
      cdev_event_init_def create_sys_device_def put_cdev_def ready_def Let_def)

theorem interfaces_minors_distinct_witness:
  "case xpdev_create_interfaces example_cs node_dev small_xpdev \<lparr>k_trace = [], k_xfers = (\<lambda>_. zero_transfer)\<rparr> of
     (rv, xp', k') \<Rightarrow> ready (xp_cdevs xp' (EventsCdev 0)) \<and> xc_cdevno (xp_cdevs xp' (EventsCdev 0)) = (xp_major xp', 10)"
proof -
  let ?k = "\<lparr>k_trace = [], k_xfers = (\<lambda>_. zero_transfer)\<rparr>"
  obtain xp' k' where c: "xpdev_create_interfaces example_cs node_dev small_xpdev ?k = (0, xp', k')"
    using create_interfaces_granted by (metis prod.collapse)
  have "xp_xdev small_xpdev \<noteq> None" "xp_user_max small_xpdev \<le> MAX_USER_IRQ" "fresh_xpdev small_xpdev"
    "xp_h2c_channel_max small_xpdev \<le> XDMA_CHANNEL_NUM_MAX" "xp_c2h_channel_max small_xpdev \<le> XDMA_CHANNEL_NUM_MAX"
    "channels_ok node_dev"
    using example_fresh
    by (auto simp: small_xpdev_def example_xpdev_def xdma_consts channels_ok_def node_dev_def dir_engines_def zero_engine_def
        unat_of_nat take_bit_nat_def fresh_xpdev_def)
  from interfaces_minors_distinct [OF c example_cs_ok this(1,3,6,2,4,5), of "EventsCdev 0" "EventsCdev 0"]
  show ?thesis using small_ready by (simp add: c)
qed

end
