(* ===== verification/Xdma_Typed.thy ===== *)
theory Xdma_Typed
  imports Xdma_Open
begin

text \<open>
  The typing of an opened device: the limits on its counts, and that every engine with the engine magic number sits
  in the array of its direction at its channel number. \<^verbatim>\<open>probe_one\<close> checks the limits again, the character
  devices derive their numbers from the channels, and the submit functions compare directions.
\<close>

definition engine_typed :: "dma_data_direction \<Rightarrow> nat \<Rightarrow> xdma_engine \<Rightarrow> bool" where
  "engine_typed dir c e \<longleftrightarrow> e_magic e = MAGIC_ENGINE \<longrightarrow> e_channel e = of_nat c \<and> e_dir e = dir"

definition engines_typed :: "xdma_dev \<Rightarrow> bool" where
  "engines_typed v \<longleftrightarrow> (\<forall>c. engine_typed DMA_TO_DEVICE c (v_engine_h2c v c) \<and> engine_typed DMA_FROM_DEVICE c (v_engine_c2h v c))"

definition counts_ok :: "xdma_dev \<Rightarrow> bool" where
  "counts_ok v \<longleftrightarrow> v_user_max v \<le> MAX_USER_IRQ \<and> v_h2c_channel_max v \<le> XDMA_CHANNEL_NUM_MAX \<and>
     v_c2h_channel_max v \<le> XDMA_CHANNEL_NUM_MAX"

section \<open>Creating an engine\<close>

lemma engine_alloc_resource_place:
  "engine_alloc_resource mp pd e k = (rv, e', k') \<Longrightarrow> e_channel e' = e_channel e \<and> e_dir e' = e_dir e"
  by (auto simp: engine_alloc_resource_def engine_free_resource_def Let_def split: if_splits prod.splits)

lemma engine_init_regs_place:
  "engine_init_regs hw mp cfg e k = (rv, e', k') \<Longrightarrow> e_channel e' = e_channel e \<and> e_dir e' = e_dir e"
  by (auto simp: engine_init_regs_def engine_alignments_def engine_writeback_setup_def mem_write_def
      xdma_io Let_def split: if_splits)

lemma add_work_place:
  "xdma_thread_add_work p e = Some (p', e') \<Longrightarrow> e_channel e' = e_channel e \<and> e_dir e' = e_dir e"
  by (auto simp: xdma_thread_add_work_def Let_def split: if_splits option.splits prod.splits)

lemma engine_init_place:
  assumes "engine_init hw mp pd e v p off dir ch k = Some (rv, e', v', p', k')"
  shows "e_channel e' = of_nat ch \<and> e_dir e' = dir \<and> v_engine_h2c v' = v_engine_h2c v \<and> v_engine_c2h v' = v_engine_c2h v"
proof -
  obtain e1 v1 k1 where s: "engine_setup hw e v off dir ch k = (e1, v1, k1)" by (metis prod_cases3)
  obtain rv2 e2 k2 where a: "engine_alloc_resource mp pd e1 k1 = (rv2, e2, k2)" by (metis prod_cases3)
  obtain rv3 e3 k3 where i: "engine_init_regs hw mp (config_bar v1) e2 k2 = (rv3, e3, k3)" by (metis prod_cases3)
  have "e_channel e1 = of_nat ch \<and> e_dir e1 = dir \<and> v_engine_h2c v1 = v_engine_h2c v \<and> v_engine_c2h v1 = v_engine_c2h v"
    using s by (auto simp: engine_setup_def xdma_io Let_def)
  then show ?thesis
    using assms s a i engine_alloc_resource_place [OF a] engine_init_regs_place [OF i] add_work_place [of p e3]
    by (auto simp: engine_init_def split: if_splits option.splits)
qed

lemma probe_for_engine_typed:
  assumes "probe_for_engine hw mp pd v p dir ch k = Some (rv, v', p', k')" and "engines_typed v"
    and "dir = DMA_TO_DEVICE \<or> dir = DMA_FROM_DEVICE"
  shows "engines_typed v'"
proof (cases "\<exists>k0 off e v1. engine_init hw mp pd (dir_engines dir v ch) v p off dir ch k0 = Some (rv, e, v1, p', k') \<and> v' = set_engine dir ch e v1")
  case True
  then obtain k0 off e v1 where i: "engine_init hw mp pd (dir_engines dir v ch) v p off dir ch k0 = Some (rv, e, v1, p', k')"
    and v': "v' = set_engine dir ch e v1" by blast
  then show ?thesis using engine_init_place [OF i] assms(2,3) by (auto simp: engines_typed_def engine_typed_def set_engine_def)
next
  case False
  then have "v' = v"
    using assms(1) by (auto simp: probe_for_engine_def xdma_io get_engine_id_def get_engine_channel_id_def Let_def
        split: if_splits option.splits)
  then show ?thesis using assms(2) by simp
qed

lemma probe_loop_typed:
  "probe_loop hw mp pd dir n i v p k = Some (j, v', p', k') \<Longrightarrow> engines_typed v \<Longrightarrow>
   dir = DMA_TO_DEVICE \<or> dir = DMA_FROM_DEVICE \<Longrightarrow> engines_typed v'"
proof (induction n arbitrary: i v p k)
  case (Suc n)
  obtain rv1 v1 p1 k1 where pr: "probe_for_engine hw mp pd v p dir i k = Some (rv1, v1, p1, k1)"
    using Suc.prems(1) by (auto split: option.splits)
  show ?case
    using Suc.prems(1) pr Suc.IH [OF _ probe_for_engine_typed [OF pr Suc.prems(2,3)] Suc.prems(3)]
      probe_for_engine_typed [OF pr Suc.prems(2,3)]
    by (auto split: if_splits)
qed simp

lemma engines_typed_upd [simp]:
  "engines_typed (v\<lparr>v_h2c_channel_max := n\<rparr>) = engines_typed v" "engines_typed (v\<lparr>v_c2h_channel_max := n\<rparr>) = engines_typed v"
  "engines_typed (v\<lparr>v_msi_enabled := a\<rparr>) = engines_typed v" "engines_typed (v\<lparr>v_msix_enabled := a\<rparr>) = engines_typed v"
  "engines_typed (v\<lparr>v_irq_line := l\<rparr>) = engines_typed v" "engines_typed (v\<lparr>v_flags := f\<rparr>) = engines_typed v"
  "engines_typed (v\<lparr>v_mask_irq_user := w\<rparr>) = engines_typed v" "engines_typed (v\<lparr>v_idx := i\<rparr>) = engines_typed v"
  by (simp_all add: engines_typed_def)

lemma probe_engines_typed:
  assumes "probe_engines hw mp pd v p k = Some (rv, v', p', k')" and "engines_typed v"
  shows "engines_typed v'"
proof -
  obtain i v1 p1 k1 where h: "probe_loop hw mp pd DMA_TO_DEVICE (v_h2c_channel_max v) 0 v p k = Some (i, v1, p1, k1)"
    using assms(1) by (auto simp: probe_engines_def split: option.splits)
  have "engines_typed (v1\<lparr>v_h2c_channel_max := i\<rparr>)" using probe_loop_typed [OF h assms(2)] by simp
  then show ?thesis
    using assms(1) h probe_loop_typed [where v = "v1\<lparr>v_h2c_channel_max := i\<rparr>"]
    by (auto simp: probe_engines_def Let_def split: option.splits)
qed

section \<open>Setting up interrupts\<close>

lemma irq_channel_setup_loop_typed:
  "irq_channel_setup_loop pd b L E k = (rv, E', k') \<Longrightarrow> \<forall>c. engine_typed dir c (E c) \<Longrightarrow> \<forall>c. engine_typed dir c (E' c)"
  by (induction pd b L E k arbitrary: rv E' k' rule: irq_channel_setup_loop.induct)
    (auto simp: engine_typed_def Let_def split: if_splits prod.splits)

lemma irq_setup_typed:
  assumes "irq_setup pd v k = (rv, v', k')" and "engines_typed v"
  shows "engines_typed v' \<and> v_user_max v' = v_user_max v \<and> v_h2c_channel_max v' = v_h2c_channel_max v \<and>
    v_c2h_channel_max v' = v_c2h_channel_max v"
  using assms
  by (auto simp: irq_setup_def irq_msi_setup_def irq_legacy_setup_def irq_msix_channel_setup_def Let_def
      engines_typed_def split: if_splits prod.splits dest: irq_channel_setup_loop_typed)

section \<open>Opening\<close>

lemma open_engines_typed:
  assumes "open_engines hw mp pd v p k = Some (Some v', p', k')"
    and bare: "\<forall>c. bare (v_engine_h2c v c)" "\<forall>c. bare (v_engine_c2h v c)" and "\<not> v_msix_enabled v" "\<not> v_msi_enabled v"
    and "engines_typed v" and "counts_ok v"
  shows "engines_typed v' \<and> counts_ok v' \<and> engines_magic v' \<and> v_user_max v' = v_user_max v"
proof -
  define k0 where "k0 = interrupts_off hw v (check_nonzero_interrupt_status hw v k)"
  obtain rv1 v1 p1 k1 where pr: "probe_engines hw mp pd v p k0 = Some (rv1, v1, p1, k1)"
    using assms(1) by (auto simp: open_engines_def k0_def [symmetric] Let_def split: option.splits)
  note pm = probe_engines_magic [OF bare pr, of ResRegions]
  have rest: "dev_rest v1 = dev_rest v" by (rule probe_engines_rest [OF pr])
  have c1: "engines_typed v1" "counts_ok v1" "\<not> v_msix_enabled v1" "\<not> v_msi_enabled v1" "v_user_max v1 = v_user_max v"
    using probe_engines_typed [OF pr assms(6)] pm dev_restD [OF rest] assms(4,5,7) by (auto simp: counts_ok_def)
  obtain rv2 v2 k2 where en: "enable_msi_msix mp pd v1 k1 = (rv2, v2, k2)" by (metis prod_cases3)
  obtain a b where v2: "v2 = v1\<lparr>v_msi_enabled := a, v_msix_enabled := b\<rparr>" using enable_msi_msix_held(2) [OF en c1(3,4)] by blast
  obtain rv3 v3 k3 where ir: "irq_setup pd v2 k2 = (rv3, v3, k3)" by (metis prod_cases3)
  have "engines_typed v2" "counts_ok v2" "engines_magic v2" using c1 pm by (simp_all add: v2 counts_ok_def)
  then have v3: "engines_typed v3" "counts_ok v3" "engines_magic v3" "v_user_max v3 = v_user_max v"
    using irq_setup_typed [OF ir] irq_setup_frame [OF ir] c1(5) by (auto simp: counts_ok_def same_holdings_def v2)
  have "v' = xdma_device_flag_clear v3 XDEV_FLAG_OFFLINE"
    using assms(1) pr en ir pm by (auto simp: open_engines_def k0_def [symmetric] Let_def split: if_splits prod.splits)
  then show ?thesis using v3 by (simp add: xdma_device_flag_clear_def counts_ok_def)
qed

lemma open_pci_typed:
  assumes "open_pci hw mp pd v p k = Some (Some v', p', k')" and "unopened v" and "engines_typed v" and "counts_ok v"
  shows "engines_typed v' \<and> counts_ok v' \<and> engines_magic v' \<and> v_user_max v' = v_user_max v"
proof -
  let ?v1 = "v\<lparr>v_got_regions := True\<rparr>" and ?k1 = "log_event (Acquire ResRegions) (log_event (Acquire ResDevice) k)"
  obtain rv2 v2 k2 where mb: "map_bars hw pd ?v1 ?k1 = (rv2, v2, k2)" by (metis prod_cases3)
  have core: "dev_core v2 = dev_core ?v1" using map_bars_held [OF mb] assms(2) by (simp add: unopened_def)
  have um: "v_user_max v2 = v_user_max v" using arg_cong [OF core, of v_user_max] by (simp add: dev_core_def)
  have go: "open_engines hw mp pd v2 p k2 = Some (Some v', p', k')"
    using assms(1) mb by (auto simp: open_pci_def request_regions_def Let_def split: if_splits)
  note d = dev_coreD [OF core]
  have bare: "\<forall>c. bare (v_engine_h2c v2 c)" "\<forall>c. bare (v_engine_c2h v2 c)" "\<not> v_msix_enabled v2" "\<not> v_msi_enabled v2"
    and c: "engines_typed v2" "counts_ok v2"
    using d um assms(2-4) by (auto simp: engines_typed_def counts_ok_def unopened_def)
  show ?thesis using open_engines_typed [OF go bare c] um by simp
qed

lemma open_typed:
  assumes run: "xdma_device_open hw mp pd kt mem pdev cnts d k = Some (Some h, (user_max, h2c_max, c2h_max), d', k')"
  shows "\<exists>v. d_devs d' h = Some v \<and> v_user_max v = user_max \<and> v_h2c_channel_max v = h2c_max \<and> v_c2h_channel_max v = c2h_max \<and>
    engines_typed v \<and> counts_ok v \<and> engines_magic v \<and> user_max = clamp_max (fst cnts) MAX_USER_IRQ"
proof -
  obtain v h0 where mem: "mem = Some h0" and al: "alloc_dev_instance True pdev = Some v"
    using run by (auto simp: xdma_device_open_def alloc_dev_instance_def split: if_splits)
  obtain um hm cm where cnts: "cnts = (um, hm, cm)" by (metis prod_cases3)
  define v1 where "v1 = v\<lparr>v_flags := v_flags v OR XDEV_FLAG_OFFLINE, v_user_max := clamp_max um MAX_USER_IRQ,
    v_h2c_channel_max := clamp_max hm XDMA_CHANNEL_NUM_MAX, v_c2h_channel_max := clamp_max cm XDMA_CHANNEL_NUM_MAX\<rparr>"
  obtain rv2 v2 d2 k2 where add: "xdev_list_add mp kt h0 v1 d k = (rv2, v2, d2, k2)" by (metis prod_cases4)
  obtain i where v2: "v2 = v1\<lparr>v_idx := i\<rparr>" using xdev_list_add_held [OF add, of ResRegions] by auto
  have t: "unopened v2" using opened_unopened [OF al] by (simp add: v2 v1_def)
  have "engines_typed v2" "counts_ok v2"
    using al by (auto simp: v2 v1_def counts_ok_def clamp_max_def engines_typed_def engine_typed_def
        alloc_dev_instance_def zero_engine_def MAGIC_ENGINE_def split: if_splits)
  note ty = this
  obtain v3 p3 where op: "open_pci hw mp pd v2 (d_pool d2) k2 = Some (Some v3, p3, k')"
    and res: "h = h0" "user_max = v_user_max v3" "h2c_max = v_h2c_channel_max v3" "c2h_max = v_c2h_channel_max v3"
      "d_devs d' h = Some v3"
    using run add al unfolding xdma_device_open_def mem cnts
    by (auto simp: xdma_device_flag_set_def v1_def [symmetric] Let_def split: if_splits option.splits prod.splits)
  from open_pci_typed [OF op t ty] show ?thesis using res cnts by (simp add: v2 v1_def)
qed

text \<open>
  C15. A device that \<^verbatim>\<open>xdma_device_open\<close> returns is well formed, whatever the hardware identifies itself as: at most 16 user interrupts
  and 4 channels in each direction, and the channels counted are the ones with an engine, each in the array of its
  direction at its own channel number.
\<close>

theorem xdma_device_open_typed:
  assumes "xdma_device_open hw mp pd kt mem pdev cnts d k = Some (Some h, (user_max, h2c_max, c2h_max), d', k')"
  shows "user_max \<le> MAX_USER_IRQ \<and> h2c_max \<le> XDMA_CHANNEL_NUM_MAX \<and> c2h_max \<le> XDMA_CHANNEL_NUM_MAX \<and>
    (\<exists>v. d_devs d' h = Some v \<and> v_user_max v = user_max \<and>
      (\<forall>c < h2c_max. e_magic (v_engine_h2c v c) = MAGIC_ENGINE \<and> e_dir (v_engine_h2c v c) = DMA_TO_DEVICE \<and>
         e_channel (v_engine_h2c v c) = of_nat c) \<and>
      (\<forall>c < c2h_max. e_magic (v_engine_c2h v c) = MAGIC_ENGINE \<and> e_dir (v_engine_c2h v c) = DMA_FROM_DEVICE \<and>
         e_channel (v_engine_c2h v c) = of_nat c))"
proof -
  obtain v where v: "d_devs d' h = Some v" "v_user_max v = user_max" "v_h2c_channel_max v = h2c_max" "v_c2h_channel_max v = c2h_max"
    "engines_typed v" "counts_ok v" "engines_magic v"
    using open_typed [OF assms] by blast
  then show ?thesis by (auto simp: engines_typed_def engine_typed_def counts_ok_def engines_magic_def)
qed

theorem xdma_device_open_typed_witness:
  "\<exists>um hm cm d' k'. xdma_device_open example_bar_hw example_mp example_pci example_kt (Some 7) 1 (2, 1, 1) empty_driver
     \<lparr>k_trace = [], k_xfers = (\<lambda>_. zero_transfer)\<rparr> = Some (Some 7, (um, hm, cm), d', k') \<and> um \<le> MAX_USER_IRQ"
  using example_opens xdma_device_open_typed by (metis prod_cases3)

end
