(* ===== verification/Xdma_Mod.thy ===== *)
theory Xdma_Mod
  imports Xdma_Cdev Xdma_Typed
begin

text \<open>
  The PCI driver of \<^verbatim>\<open>xdma_mod.c\<close>: probing and removing a device, the handlers for bus errors and resets, and
  loading and unloading the module. The module's state is the driver's device lists, the count of devices
  and the structure that each PCI device carries as its driver data.
\<close>

section \<open>State\<close>

record mod_state =
  m_driver :: driver
  xpdev_cnt :: int
  m_drvdata :: "nat \<Rightarrow> xdma_pci_dev option"

definition zero_cdevs :: "cdev_slot \<Rightarrow> xdma_cdev" where
  "zero_cdevs = (\<lambda>_. zero_cdev)"

section \<open>Probing and removal\<close>

text \<open>The allocation is in the log as \<open>ResKmem pdev\<close>.\<close>

definition xpdev_alloc :: "bool \<Rightarrow> nat \<Rightarrow> mod_state \<Rightarrow> kstate \<Rightarrow> xdma_pci_dev option \<times> mod_state \<times> kstate" where
  "xpdev_alloc mem pdev m k =
     (if \<not> mem then (None, m, k)
      else (Some \<lparr>xp_magic = MAGIC_DEVICE, xp_pdev = pdev, xp_xdev = None, xp_major = 0, xp_user_max = MAX_USER_IRQ,
                  xp_c2h_channel_max = XDMA_CHANNEL_NUM_MAX, xp_h2c_channel_max = XDMA_CHANNEL_NUM_MAX,
                  xp_flags = 0, xp_cdevs = zero_cdevs\<rparr>,
            m\<lparr>xpdev_cnt := xpdev_cnt m + 1\<rparr>, log_event (Acquire (ResKmem pdev)) k))"

definition xpdev_free ::
    "device \<Rightarrow> modparams \<Rightarrow> pci \<Rightarrow> kthreads \<Rightarrow> cdev_services \<Rightarrow> xdma_pci_dev \<Rightarrow> mod_state \<Rightarrow> kstate \<Rightarrow> mod_state \<times> kstate" where
  "xpdev_free hw mp pd kt cs xp m k =
     (let xdev = xp_xdev xp;
          k = xpdev_destroy_interfaces cs xp k;
          (d, k) = xdma_device_close hw mp pd kt (xp_pdev xp) xdev (m_driver m) k
      in (m\<lparr>m_driver := d, xpdev_cnt := xpdev_cnt m - 1\<rparr>, log_event (Release (ResKmem (xp_pdev xp))) k))"

definition user_mask :: "nat \<Rightarrow> u32" where
  "user_mask user_max = push_bit (user_max + 1) 1 - 1"

text \<open>
  \<^verbatim>\<open>probe_one\<close>; \<open>xmem\<close> and \<open>mem\<close> are the allocations of the two structures. All failures
  leave through \<^verbatim>\<open>err_out\<close>.
\<close>

definition probe_one ::
    "device \<Rightarrow> modparams \<Rightarrow> pci \<Rightarrow> kthreads \<Rightarrow> cdev_services \<Rightarrow> bool \<Rightarrow> nat option \<Rightarrow> nat \<Rightarrow> mod_state \<Rightarrow> kstate
     \<Rightarrow> (int \<times> mod_state \<times> kstate) option" where
  "probe_one hw mp pd kt cs xmem mem pdev m k =
     (case xpdev_alloc xmem pdev m k of
        (None, m, k) \<Rightarrow> Some (- ENOMEM, m, k)
      | (Some xp, m, k) \<Rightarrow>
          (case xdma_device_open hw mp pd kt mem pdev
                  (xp_user_max xp, xp_h2c_channel_max xp, xp_c2h_channel_max xp) (m_driver m) k of
             None \<Rightarrow> None
           | Some (hndl, (user_max, h2c_max, c2h_max), d, k) \<Rightarrow>
               let m = m\<lparr>m_driver := d\<rparr>;
                   xp = xp\<lparr>xp_user_max := user_max, xp_h2c_channel_max := h2c_max, xp_c2h_channel_max := c2h_max\<rparr>;
                   err_out = (\<lambda>rv xp m k. let (m, k) = xpdev_free hw mp pd kt cs xp m k in Some (rv, m, k))
               in (case hndl of
                     None \<Rightarrow> err_out (- EINVAL) xp m k
                   | Some h \<Rightarrow>
                       if MAX_USER_IRQ < xp_user_max xp then err_out (- EINVAL) xp m k
                       else if XDMA_CHANNEL_NUM_MAX < xp_h2c_channel_max xp then err_out (- EINVAL) xp m k
                       else if XDMA_CHANNEL_NUM_MAX < xp_c2h_channel_max xp then err_out (- EINVAL) xp m k
                       else (case (if xp_user_max xp \<noteq> 0
                                   then xdma_user_isr_enable hw (Some h) (user_mask (xp_user_max xp)) (m_driver m) k
                                   else Some (0, m_driver m, k)) of
                               None \<Rightarrow> None
                             | Some (rv, d, k) \<Rightarrow>
                                 let m = m\<lparr>m_driver := d\<rparr> in
                                 if rv \<noteq> 0 then err_out rv xp m k
                                 else if xdev_find_by_pdev d pdev \<noteq> Some h then err_out (- EINVAL) xp m k
                                 else (case d_devs d h of
                                         None \<Rightarrow> None
                                       | Some v \<Rightarrow>
                                           let xp = xp\<lparr>xp_xdev := Some h\<rparr>;
                                               (rv, xp, k) = xpdev_create_interfaces cs v xp k
                                           in if rv \<noteq> 0 then err_out rv xp m k
                                              else Some (0, m\<lparr>m_drvdata := (m_drvdata m)(pdev := Some xp)\<rparr>, k))))))"

definition remove_one ::
    "device \<Rightarrow> modparams \<Rightarrow> pci \<Rightarrow> kthreads \<Rightarrow> cdev_services \<Rightarrow> nat \<Rightarrow> mod_state \<Rightarrow> kstate \<Rightarrow> mod_state \<times> kstate" where
  "remove_one hw mp pd kt cs pdev m k =
     (if pdev = 0 then (m, k)
      else case m_drvdata m pdev of
             None \<Rightarrow> (m, k)
           | Some xp \<Rightarrow>
               let (m, k) = xpdev_free hw mp pd kt cs xp m k
               in (m\<lparr>m_drvdata := (m_drvdata m)(pdev := None)\<rparr>, k))"

section \<open>Bus errors and resets\<close>

datatype pci_channel_state = pci_channel_io_normal | pci_channel_io_frozen | pci_channel_io_perm_failure

datatype pci_ers_result =
  PCI_ERS_RESULT_CAN_RECOVER | PCI_ERS_RESULT_NEED_RESET | PCI_ERS_RESULT_DISCONNECT | PCI_ERS_RESULT_RECOVERED

text \<open>The handlers follow the driver data of the device; \<open>None\<close> is the null pointer they would dereference.\<close>

definition xdma_error_detected ::
    "device \<Rightarrow> modparams \<Rightarrow> pci \<Rightarrow> nat \<Rightarrow> pci_channel_state \<Rightarrow> mod_state \<Rightarrow> kstate
     \<Rightarrow> (pci_ers_result \<times> mod_state \<times> kstate) option" where
  "xdma_error_detected hw mp pd pdev state m k =
     (case state of
        pci_channel_io_normal \<Rightarrow> Some (PCI_ERS_RESULT_CAN_RECOVER, m, k)
      | pci_channel_io_frozen \<Rightarrow>
          (case m_drvdata m pdev of
             None \<Rightarrow> None
           | Some xp \<Rightarrow>
               let (d, k) = xdma_device_offline hw mp pd pdev (xp_xdev xp) (m_driver m) k
               in Some (PCI_ERS_RESULT_NEED_RESET, m\<lparr>m_driver := d\<rparr>, log_event (Release ResDevice) k))
      | pci_channel_io_perm_failure \<Rightarrow> Some (PCI_ERS_RESULT_DISCONNECT, m, k))"

text \<open>\<open>enable\<close> is the result of \<^verbatim>\<open>pci_enable_device_mem\<close>.\<close>

definition xdma_slot_reset ::
    "device \<Rightarrow> modparams \<Rightarrow> pci \<Rightarrow> int \<Rightarrow> nat \<Rightarrow> mod_state \<Rightarrow> kstate \<Rightarrow> (pci_ers_result \<times> mod_state \<times> kstate) option" where
  "xdma_slot_reset hw mp pd enable pdev m k =
     (if enable \<noteq> 0 then Some (PCI_ERS_RESULT_DISCONNECT, m, k)
      else case m_drvdata m pdev of
             None \<Rightarrow> None
           | Some xp \<Rightarrow>
               let (d, k) = xdma_device_online hw mp pd pdev (xp_xdev xp) (m_driver m) (log_event (Acquire ResDevice) k)
               in Some (PCI_ERS_RESULT_RECOVERED, m\<lparr>m_driver := d\<rparr>, k))"

definition xdma_reset_prepare ::
    "device \<Rightarrow> modparams \<Rightarrow> pci \<Rightarrow> nat \<Rightarrow> mod_state \<Rightarrow> kstate \<Rightarrow> (mod_state \<times> kstate) option" where
  "xdma_reset_prepare hw mp pd pdev m k =
     (case m_drvdata m pdev of
        None \<Rightarrow> None
      | Some xp \<Rightarrow>
          let (d, k) = xdma_device_offline hw mp pd pdev (xp_xdev xp) (m_driver m) k in Some (m\<lparr>m_driver := d\<rparr>, k))"

definition xdma_reset_done ::
    "device \<Rightarrow> modparams \<Rightarrow> pci \<Rightarrow> nat \<Rightarrow> mod_state \<Rightarrow> kstate \<Rightarrow> (mod_state \<times> kstate) option" where
  "xdma_reset_done hw mp pd pdev m k =
     (case m_drvdata m pdev of
        None \<Rightarrow> None
      | Some xp \<Rightarrow>
          let (d, k) = xdma_device_online hw mp pd pdev (xp_xdev xp) (m_driver m) k in Some (m\<lparr>m_driver := d\<rparr>, k))"

section \<open>Loading and unloading\<close>

text \<open>\<open>cls\<close> and \<open>cache\<close> as for \<open>xdma_cdev_init\<close>; \<open>reg\<close> is the result of \<^verbatim>\<open>pci_register_driver\<close>.\<close>

definition xdma_mod_init ::
    "bool \<Rightarrow> bool \<Rightarrow> int \<Rightarrow> modparams \<Rightarrow> kstate \<Rightarrow> int \<times> modparams \<times> (bool \<times> bool) \<times> kstate" where
  "xdma_mod_init cls cache reg mp k =
     (let mp = (if XDMA_DESC_BLEN_MAX < desc_blen_max mp then mp\<lparr>desc_blen_max := XDMA_DESC_BLEN_MAX\<rparr> else mp);
          (rv, g, k) = xdma_cdev_init cls cache k
      in if rv < 0 then (rv, mp, g, k) else (reg, mp, g, k))"

definition xdma_mod_exit :: "bool \<times> bool \<Rightarrow> kstate \<Rightarrow> kstate" where
  "xdma_mod_exit g k = xdma_cdev_cleanup g k"

section \<open>Probing and removing balance\<close>

lemma mask_upd_held [simp]:
  "dev_held pd (v\<lparr>v_mask_irq_user := a\<rparr>) r = dev_held pd v r" "engines_magic (v\<lparr>v_mask_irq_user := a\<rparr>) = engines_magic v"
proof -
  have "bars_held (v\<lparr>v_mask_irq_user := a\<rparr>) = bars_held v" by (rule bars_held_cong) simp
  then show "dev_held pd (v\<lparr>v_mask_irq_user := a\<rparr>) r = dev_held pd v r"
    by (simp add: dev_held_def irq_held_def irq_teardown_def irq_msix_user_teardown_def irq_msix_channel_teardown_def
        prog_irq_msix_user_def prog_irq_msix_channel_def irq_reg_def config_bar_def msi_held_def engines_held_def regions_held_def)
qed (simp add: engines_magic_def)

text \<open>What \<^verbatim>\<open>xdma_user_isr_enable\<close> leaves of the device.\<close>

lemma isr_enable_held:
  assumes "xdma_user_isr_enable hw (Some h) w d k = Some (rv, d', k')" and "d_devs d h = Some v"
  shows "held (k_trace k') r = held (k_trace k) r" "xdev_list d' = xdev_list d" "xdev_rcu_list d' = xdev_rcu_list d"
    "\<exists>a. d_devs d' = (d_devs d)(h := Some (v\<lparr>v_mask_irq_user := a\<rparr>))"
proof -
  show "held (k_trace k') r = held (k_trace k) r" "xdev_list d' = xdev_list d" "xdev_rcu_list d' = xdev_rcu_list d"
    using assms by (auto simp: xdma_user_isr_enable_def user_interrupts_enable_def Let_def split: if_splits)
  have "d_devs d = (d_devs d)(h := Some (v\<lparr>v_mask_irq_user := v_mask_irq_user v\<rparr>))" using assms(2) by (simp add: fun_upd_idem)
  moreover have "d' = d \<or> (\<exists>a. d_devs d' = (d_devs d)(h := Some (v\<lparr>v_mask_irq_user := a\<rparr>)))"
    using assms by (auto simp: xdma_user_isr_enable_def Let_def split: if_splits)
  ultimately show "\<exists>a. d_devs d' = (d_devs d)(h := Some (v\<lparr>v_mask_irq_user := a\<rparr>))" by metis
qed

definition alloced :: "nat \<Rightarrow> nat \<Rightarrow> nat \<times> nat \<times> nat \<Rightarrow> xdma_pci_dev" where
  "alloced pdev h = (\<lambda>(um, hm, cm). \<lparr>xp_magic = MAGIC_DEVICE, xp_pdev = pdev, xp_xdev = Some h, xp_major = 0, xp_user_max = um,
     xp_c2h_channel_max = cm, xp_h2c_channel_max = hm, xp_flags = 0, xp_cdevs = zero_cdevs\<rparr>)"

lemma alloced_fresh: "fresh_xpdev (alloced pdev h cnts)"
  by (simp add: fresh_xpdev_def alloced_def zero_cdevs_def zero_cdev_def ready_def MAGIC_CHAR_def split: prod.splits)

text \<open>
  How far a probe got when its result is 0 or -1: the device was opened, and the interfaces were created or
  their creation failed.
\<close>

lemma probe_one_reaches:
  assumes run: "probe_one hw mp pd kt cs xmem (Some h) pdev m k = Some (rv, m', k')" and rv: "rv = 0 \<or> rv = - 1"
    and pd: "pci_ok pd" and new: "h \<notin> set (xdev_list (m_driver m))" "h \<notin> set (xdev_rcu_list (m_driver m))"
    and dev: "d_devs (m_driver m) h = None" and r: "\<forall>i. r \<noteq> ResThread i"
  obtains v d1 k1 cnts xp' k2 where "pdev \<noteq> 0" "d_devs d1 = (d_devs (m_driver m))(h := Some v)" "engines_magic v" "v_pdev v = pdev"
    "xdev_list d1 = xdev_list (m_driver m) @ [h]" "xdev_rcu_list d1 = xdev_rcu_list (m_driver m) @ [h]"
    "xdev_find_by_pdev d1 pdev = Some h"
    "held (k_trace k1) r = held (k_trace k) r + (if r = ResKmem pdev then 1 else 0) + dev_held pd v r"
    "xpdev_create_interfaces cs v (alloced pdev h cnts) k1 = (rv, xp', k2)"
    "rv = 0 \<Longrightarrow> m' = m\<lparr>m_driver := d1, xpdev_cnt := xpdev_cnt m + 1, m_drvdata := (m_drvdata m)(pdev := Some xp')\<rparr> \<and> k' = k2"
    "rv = - 1 \<Longrightarrow> (m', k') = xpdev_free hw mp pd kt cs xp' (m\<lparr>xpdev_cnt := xpdev_cnt m + 1, m_driver := d1\<rparr>) k2"
proof -
  note simps = probe_one_def xpdev_alloc_def EINVAL_def ENOMEM_def
  have xm: "xmem = True"
  proof (rule ccontr)
    assume "xmem \<noteq> True"
    then show False using run rv by (auto simp: simps)
  qed
  let ?k0 = "log_event (Acquire (ResKmem pdev)) k"
  obtain hndl um hm cm d0 k0 where op: "xdma_device_open hw mp pd kt (Some h) pdev (MAX_USER_IRQ, XDMA_CHANNEL_NUM_MAX, XDMA_CHANNEL_NUM_MAX)
      (m_driver m) ?k0 = Some (hndl, (um, hm, cm), d0, k0)"
    using run xm by (auto simp: simps split: option.splits)
  have hn: "hndl = Some h"
    using run rv xm op xdma_device_open_cases [OF op pd r] new
    by (auto simp: simps Let_def split: option.splits prod.splits)
  obtain v0 where v0: "pdev \<noteq> 0" "d_devs d0 = (d_devs (m_driver m))(h := Some v0)" "v_pdev v0 = pdev" "engines_magic v0"
    "held (k_trace k0) r = held (k_trace ?k0) r + dev_held pd v0 r"
    "xdev_list d0 = xdev_list (m_driver m) @ [h]" "xdev_rcu_list d0 = xdev_rcu_list (m_driver m) @ [h]"
    using xdma_device_open_cases [OF op pd r] new hn by auto
  define en where "en = (if um \<noteq> 0 then xdma_user_isr_enable hw (Some h) (user_mask um) d0 k0 else Some (0, d0, k0))"
  obtain rv1 d1 k1 where e: "en = Some (rv1, d1, k1)"
    using run rv xm op hn by (auto simp: simps en_def Let_def split: option.splits prod.splits if_splits)
  obtain a where d1: "d_devs d1 = (d_devs (m_driver m))(h := Some (v0\<lparr>v_mask_irq_user := a\<rparr>))"
    "xdev_list d1 = xdev_list d0" "xdev_rcu_list d1 = xdev_rcu_list d0" "held (k_trace k1) r = held (k_trace k0) r"
  proof (cases "um = 0")
    case True
    then show ?thesis using that [of "v_mask_irq_user v0"] e v0(2) by (simp add: en_def)
  next
    case False
    then have "xdma_user_isr_enable hw (Some h) (user_mask um) d0 k0 = Some (rv1, d1, k1)" using e by (simp add: en_def)
    from isr_enable_held [OF this, of v0] show ?thesis using that v0(2) by auto
  qed
  let ?v = "v0\<lparr>v_mask_irq_user := a\<rparr>"
  obtain rv2 xp' k2 where c: "xpdev_create_interfaces cs ?v (alloced pdev h (um, hm, cm)) k1 = (rv2, xp', k2)" by (metis prod_cases3)
  have rv1: "rv1 = 0 \<or> rv1 = - EINVAL"
    using e v0(2) by (auto simp: en_def xdma_user_isr_enable_def Let_def split: if_splits)
  have dv: "d_devs d1 h = Some ?v" using d1(1) by simp
  have "rv1 = 0 \<and> xdev_find_by_pdev d1 pdev = Some h \<and> rv2 = rv \<and>
      (rv = 0 \<longrightarrow> m' = m\<lparr>m_driver := d1, xpdev_cnt := xpdev_cnt m + 1, m_drvdata := (m_drvdata m)(pdev := Some xp')\<rparr> \<and> k' = k2) \<and>
      (rv = - 1 \<longrightarrow> (m', k') = xpdev_free hw mp pd kt cs xp' (m\<lparr>xpdev_cnt := xpdev_cnt m + 1, m_driver := d1\<rparr>) k2)"
    using run rv rv1 e [unfolded en_def] dv c [unfolded alloced_def]
    by (simp add: simps xm op hn Let_def split: if_splits prod.splits) auto
  then show thesis using that [of d1 ?v k1 "(um, hm, cm)" xp' k2] v0 d1 c by simp
qed


definition empty_mod :: mod_state where
  "empty_mod = \<lparr>m_driver = empty_driver, xpdev_cnt = 0, m_drvdata = (\<lambda>_. None)\<rparr>"

text \<open>An opened device reaches the creation of its interfaces; \<open>rv\<close> is what that returns.\<close>

lemma example_reaches:
  assumes "\<And>v xp k. 0 < xp_user_max xp \<Longrightarrow> xp_major xp = 0 \<Longrightarrow> fst (xpdev_create_interfaces cs v xp k) = rv"
  shows "\<exists>m1 k1. probe_one example_bar_hw example_mp example_pci example_kt cs True (Some 7) 2 empty_mod
     \<lparr>k_trace = [], k_xfers = (\<lambda>_. zero_transfer)\<rparr> = Some (rv, m1, k1)"
proof -
  let ?k = "log_event (Acquire (ResKmem 2)) \<lparr>k_trace = [], k_xfers = (\<lambda>_. zero_transfer)\<rparr>"
  obtain um hm cm d0 k0 where op: "xdma_device_open example_bar_hw example_mp example_pci example_kt (Some 7) 2
      (MAX_USER_IRQ, XDMA_CHANNEL_NUM_MAX, XDMA_CHANNEL_NUM_MAX) empty_driver ?k = Some (Some 7, (um, hm, cm), d0, k0)"
    using example_opens_any [of 2 "(MAX_USER_IRQ, XDMA_CHANNEL_NUM_MAX, XDMA_CHANNEL_NUM_MAX)" empty_driver ?k]
    by (metis prod_cases3 zero_neq_numeral)
  obtain v where v: "d_devs d0 7 = Some v" "um \<le> MAX_USER_IRQ" "hm \<le> XDMA_CHANNEL_NUM_MAX" "cm \<le> XDMA_CHANNEL_NUM_MAX"
    and um: "0 < um" using open_typed [OF op] by (auto simp: counts_ok_def clamp_max_def MAX_USER_IRQ_def)
  have d0: "d_devs d0 = (\<lambda>_. None)(7 := Some v)" "v_pdev v = 2" "xdev_list d0 = [7]"
    using xdma_device_open_cases [OF op example_pci_ok, of ResRegions] v(1) by (auto simp: empty_driver_def)
  have find: "xdev_find_by_pdev d0 2 = Some 7" using d0 by (simp add: xdev_find_by_pdev_def dev_pdev_def)
  define en where "en = (if um \<noteq> 0 then xdma_user_isr_enable example_bar_hw (Some 7) (user_mask um) d0 k0 else Some (0, d0, k0))"
  have "\<exists>d1 k1 v1. en = Some (0, d1, k1) \<and> d_devs d1 7 = Some v1 \<and> xdev_find_by_pdev d1 2 = Some 7"
    using d0 find v(1)
    by (auto simp: en_def xdma_user_isr_enable_def debug_check_dev_hndl_def Let_def xdev_find_by_pdev_def dev_pdev_def)
  then obtain d1 k1 v1 where e: "en = Some (0, d1, k1)" "d_devs d1 7 = Some v1" "xdev_find_by_pdev d1 2 = Some 7" by blast
  have "fst (xpdev_create_interfaces cs v1 (alloced 2 7 (um, hm, cm)) k1) = rv"
    by (rule assms) (simp_all add: alloced_def um)
  then obtain xp2 k2 where c: "xpdev_create_interfaces cs v1 (alloced 2 7 (um, hm, cm)) k1 = (rv, xp2, k2)"
    by (metis prod.collapse)
  have en: "xdma_user_isr_enable example_bar_hw (Some 7) (user_mask um) d0 k0 = Some (0, d1, k1)" using e(1) um by (simp add: en_def)
  have c': "xpdev_create_interfaces cs v1 \<lparr>xp_magic = MAGIC_DEVICE, xp_pdev = 2, xp_xdev = Some 7, xp_major = 0, xp_user_max = um,
     xp_c2h_channel_max = cm, xp_h2c_channel_max = hm, xp_flags = 0, xp_cdevs = zero_cdevs\<rparr> k1 = (rv, xp2, k2)"
    using c by (simp add: alloced_def)
  show ?thesis
    using v(2-4) um en e(2,3) c' by (cases "rv = 0") (simp_all add: probe_one_def xpdev_alloc_def empty_mod_def op Let_def split: prod.splits)
qed

lemma example_probes:
  "\<exists>m1 k1. probe_one example_bar_hw example_mp example_pci example_kt example_cs True (Some 7) 2 empty_mod
     \<lparr>k_trace = [], k_xfers = (\<lambda>_. zero_transfer)\<rparr> = Some (0, m1, k1)"
  by (rule example_reaches) (rule create_interfaces_granted)


section \<open>A probe that fails after the first node\<close>

text \<open>No other node has the minor number of the control node.\<close>

definition others_differ :: "xdma_pci_dev \<Rightarrow> bool" where
  "others_differ xp \<longleftrightarrow> (\<forall>s. s \<noteq> CtrlCdev \<longrightarrow> xc_sys_device (xp_cdevs xp s) \<longrightarrow> snd (xc_cdevno (xp_cdevs xp s)) \<noteq> 1)"

text \<open>What every further creation, successful or not, leaves of the control node.\<close>

definition ctrl_kept :: "xdma_pci_dev \<Rightarrow> kstate \<Rightarrow> xdma_pci_dev \<Rightarrow> kstate \<Rightarrow> bool" where
  "ctrl_kept xp k xp' k' \<longleftrightarrow> xp_cdevs xp' CtrlCdev = xp_cdevs xp CtrlCdev \<and> xp_major xp' = xp_major xp \<and>
     (xpdev_flag_test xp XDF_CDEV_CTRL \<longrightarrow> xpdev_flag_test xp' XDF_CDEV_CTRL) \<and> xp_xdev xp' = xp_xdev xp \<and> xp_pdev xp' = xp_pdev xp \<and>
     (others_differ xp \<longrightarrow> others_differ xp') \<and> (\<forall>M. held (k_trace k') (ResCdev M 1) = held (k_trace k) (ResCdev M 1))"

lemma ctrl_kept_refl [simp]: "ctrl_kept xp k xp k" by (simp add: ctrl_kept_def)

lemma ctrl_kept_trans: "ctrl_kept xp k xp1 k1 \<Longrightarrow> ctrl_kept xp1 k1 xp2 k2 \<Longrightarrow> ctrl_kept xp k xp2 k2"
  by (simp add: ctrl_kept_def)

lemma minor_not_1: "type \<noteq> CHAR_CTRL \<Longrightarrow> fst (minor_init v xc type) \<noteq> 1"
  by (simp add: minor_init_def split: cdev_type.split)

lemma kobject_minor_sys [simp]:
  "xc_sys_device (snd (config_kobject cs v xc type)) = xc_sys_device xc" "xc_cdevno (snd (config_kobject cs v xc type)) = xc_cdevno xc"
  "xc_sys_device (snd (minor_init v xc type)) = xc_sys_device xc"
  by (simp_all add: config_kobject_def Let_def minor_init_def cdev_ctrl_init_def cdev_xvc_init_def cdev_sgdma_init_def
      cdev_event_init_def cdev_bypass_init_def split: cdev_type.split)

lemma create_xcdev_others:
  assumes "create_xcdev cs v s bar engine type xp k = (rv, xp', k')" and "type \<noteq> CHAR_CTRL" and "xp_major xp \<noteq> 0"
    and "others_differ xp"
  shows "others_differ xp'"
proof -
  have a: "alloc_major cs xp k = (0, xp, k)" using assms(3) by (simp add: alloc_major_def)
  obtain xc where xp': "xp' = put_cdev s xc xp" and xc: "snd (xc_cdevno xc) \<noteq> 1 \<or>
      xc_sys_device xc = xc_sys_device (xp_cdevs xp s) \<and> xc_cdevno xc = xc_cdevno (xp_cdevs xp s)"
  proof -
    let ?x1 = "(xp_cdevs xp s)\<lparr>xc_magic := MAGIC_CHAR, xc_xdev := xp_xdev xp, xc_engine := engine, xc_bar := bar\<rparr>"
    obtain rv2 x2 where c: "config_kobject cs v ?x1 type = (rv2, x2)" by (metis surj_pair)
    obtain mi x3 where m: "minor_init v x2 type = (mi, x3)" by (metis surj_pair)
    have x2: "xc_sys_device x2 = xc_sys_device (xp_cdevs xp s) \<and> xc_cdevno x2 = xc_cdevno (xp_cdevs xp s)"
      using kobject_minor_sys(1,2) [of cs v ?x1 type] c by simp
    have mi: "mi \<noteq> 1" using minor_not_1 [OF assms(2), of v x2] m by simp
    from assms(1) show thesis
      using that [of x2] that [of "x3\<lparr>xc_cdevno := (xp_major xp, mi)\<rparr>"] that [of "x3\<lparr>xc_cdevno := (xp_major xp, mi), xc_sys_device := True\<rparr>"]
        that [of "x3\<lparr>xc_cdevno := (xp_major xp, mi), xc_sys_device := False\<rparr>"] x2 mi
      by (auto simp: create_xcdev_def a c m create_sys_device_def Let_def split: if_splits prod.splits device_result.splits)
  qed
  then show ?thesis using assms(4) by (auto simp: others_differ_def put_cdev_def)
qed

lemma create_xcdev_ctrl_kept:
  assumes "create_xcdev cs v s bar engine type xp k = (rv, xp', k')" and "type \<noteq> CHAR_CTRL" and "s \<noteq> CtrlCdev" and "xp_major xp \<noteq> 0"
  shows "ctrl_kept xp k xp' k'"
proof -
  have "alloc_major cs xp k = (0, xp, k)" using assms(4) by (simp add: alloc_major_def)
  then show ?thesis
    using assms(1-3) minor_not_1 [OF assms(2)] create_xcdev_others [OF assms(1,2,4)]
    by (auto simp: create_xcdev_def create_sys_device_def ctrl_kept_def put_cdev_def xpdev_flag_test_def Let_def
        split: if_splits prod.splits device_result.splits) (metis One_nat_def fst_conv)+
qed

definition spec_not_ctrl :: "node_spec \<Rightarrow> bool" where
  "spec_not_ctrl = (\<lambda>(s, bar, engine, type). s \<noteq> CtrlCdev \<and> type \<noteq> CHAR_CTRL)"

lemma create_list_ctrl_kept:
  "create_list cs v sps xp k = (rv, xp', k') \<Longrightarrow> \<forall>sp \<in> set sps. spec_not_ctrl sp \<Longrightarrow> xp_major xp \<noteq> 0 \<Longrightarrow> ctrl_kept xp k xp' k'"
proof (induction cs v sps xp k rule: create_list.induct)
  case (2 cs v s bar engine type sps xp k)
  show ?case
  proof (cases "case engine of Some (dir, i) \<Rightarrow> e_magic (dir_engines dir v i) \<noteq> MAGIC_ENGINE | None \<Rightarrow> False")
    case True
    then have rest: "create_list cs v sps xp k = (rv, xp', k')" using 2(3) by (auto split: option.splits)
    show ?thesis by (rule 2(1) [OF True rest]) (use 2(4,5) in simp_all)
  next
    case False
    obtain rv1 xp1 k1 where one: "create_xcdev cs v s bar engine type xp k = (rv1, xp1, k1)" by (metis prod_cases3)
    have c1: "ctrl_kept xp k xp1 k1"
      by (rule create_xcdev_ctrl_kept [OF one]) (use 2(4,5) in \<open>simp_all add: spec_not_ctrl_def\<close>)
    show ?thesis
    proof (cases "rv1 < 0")
      case True
      then show ?thesis using 2(3) False one c1 by (auto split: option.splits)
    next
      case ok: False
      then have rest: "create_list cs v sps xp1 k1 = (rv, xp', k')"
        using 2(3) False one by (auto split: option.splits)
      have "ctrl_kept xp1 k1 xp' k'"
        by (rule 2(2) [OF False one [symmetric] refl refl ok rest]) (use 2(4,5) c1 in \<open>simp_all add: ctrl_kept_def\<close>)
      then show ?thesis by (rule ctrl_kept_trans [OF c1])
    qed
  qed
qed simp

lemma flag_set_ctrl_kept: "ctrl_kept xp k (xpdev_flag_set xp b) k"
  by (auto simp: ctrl_kept_def others_differ_def xpdev_flag_test_def xpdev_flag_set_def xdf_defs bit_eq_iff bit_simps)

lemma create_groups_ctrl_kept:
  "create_groups cs v gs xp k = (rv, xp', k') \<Longrightarrow> \<forall>g \<in> set gs. \<forall>sp \<in> set (fst g). spec_not_ctrl sp \<Longrightarrow> xp_major xp \<noteq> 0 \<Longrightarrow>
   ctrl_kept xp k xp' k'"
proof (induction cs v gs xp k rule: create_groups.induct)
  case (2 cs v sps flag gs xp k)
  obtain rv1 xp1 k1 where one: "create_list cs v sps xp k = (rv1, xp1, k1)" by (metis prod_cases3)
  have c1: "ctrl_kept xp k xp1 k1" by (rule create_list_ctrl_kept [OF one]) (use 2(3,4) in simp_all)
  show ?case
  proof (cases "rv1 < 0")
    case True
    then show ?thesis using 2(2) one c1 by simp
  next
    case ok: False
    then have rest: "create_groups cs v gs (xpdev_flag_set xp1 flag) k1 = (rv, xp', k')" using 2(2) one by simp
    have c2: "ctrl_kept xp k (xpdev_flag_set xp1 flag) k1" by (rule ctrl_kept_trans [OF c1 flag_set_ctrl_kept])
    have "ctrl_kept (xpdev_flag_set xp1 flag) k1 xp' k'"
      by (rule 2(1) [OF one [symmetric] refl refl ok rest]) (use 2(3,4) c2 in \<open>simp_all add: ctrl_kept_def\<close>)
    then show ?thesis by (rule ctrl_kept_trans [OF c2])
  qed
qed simp

lemma interface_groups_head:
  "\<exists>gs. interface_groups v xp = ([(CtrlCdev, v_config_bar_idx v, None, CHAR_CTRL)], XDF_CDEV_CTRL) # gs \<and>
     (\<forall>g \<in> set gs. \<forall>sp \<in> set (fst g). spec_not_ctrl sp)"
  by (auto simp: interface_groups_def channel_specs_def spec_not_ctrl_def)

lemma others_not_held: "others_differ xp \<Longrightarrow> CtrlCdev \<notin> set ss \<Longrightarrow> slots_held xp ss (ResCdev M 1) = 0"
proof (induction ss)
  case (Cons s ss)
  have "s \<noteq> CtrlCdev" using Cons.prems(2) by auto
  then have "node_held (xp_cdevs xp s) (ResCdev M 1) = 0"
    using Cons.prems(1) unfolding node_held_def ready_def others_differ_def by auto
  then show ?case using Cons by simp
qed simp

lemma destroy_interfaces_ctrl:
  assumes "cs_class cs" and "others_differ xp" and "xpdev_flag_test xp XDF_CDEV_CTRL" and "ready (xp_cdevs xp CtrlCdev)"
    and "xc_cdevno (xp_cdevs xp CtrlCdev) = (M, 1)"
  shows "held (k_trace (xpdev_destroy_interfaces cs xp k)) (ResCdev M 1) = held (k_trace k) (ResCdev M 1) - 1"
proof -
  have z: "slots_held xp (map SgdmaH2c [0..<xp_h2c_channel_max xp] @ map SgdmaC2h [0..<xp_c2h_channel_max xp]) (ResCdev M 1) = 0"
    "slots_held xp (map EventsCdev [0..<xp_user_max xp]) (ResCdev M 1) = 0" "slots_held xp [UserCdev] (ResCdev M 1) = 0"
    "slots_held xp [XvcCdev] (ResCdev M 1) = 0"
    "slots_held xp (map BypassH2c [0..<xp_h2c_channel_max xp] @ map BypassC2h [0..<xp_c2h_channel_max xp] @ [BypassBase]) (ResCdev M 1) = 0"
    by (rule others_not_held [OF assms(2)], force)+
  have "slots_held xp [CtrlCdev] (ResCdev M 1) = 1" using assms(4,5) by (simp add: node_held_def)
  then show ?thesis unfolding destroy_interfaces_held [OF assms(1)] z using assms(3) by simp
qed

text \<open>A kernel that grants the numbers, names and devices and adds the control node.\<close>

definition ctrl_granted :: "cdev_services \<Rightarrow> nat \<Rightarrow> bool" where
  "ctrl_granted cs M \<longleftrightarrow> cs_class cs \<and> M \<noteq> 0 \<and> (\<forall>t. cs_alloc_chrdev cs t = (0, M)) \<and> (\<forall>nm. cs_set_name cs nm = 0) \<and>
     (\<forall>nm. cs_device_create cs nm = DevOk) \<and> cs_cdev_add cs M 1 = 0"

lemma create_interfaces_fails:
  assumes run: "xpdev_create_interfaces cs v xp k = (- 1, xp', k')" and cs: "ctrl_granted cs M"
    and xp: "xp_xdev xp \<noteq> None" "xp_major xp = 0" "xp_flags xp = 0" "\<forall>s. \<not> xc_sys_device (xp_cdevs xp s)"
  shows "held (k_trace k') (ResCdev M 1) = held (k_trace k) (ResCdev M 1)"
    "held (k_trace (xpdev_destroy_interfaces cs xp' k')) (ResCdev M 1) = held (k_trace k) (ResCdev M 1) - 1"
    "xp_xdev xp' = xp_xdev xp" "xp_pdev xp' = xp_pdev xp"
proof -
  have ok: "cs_ok cs" "cs_class cs" using cs by (auto simp: cs_ok_def ctrl_granted_def)
  obtain rv k1 where g: "create_groups cs v (interface_groups v xp) xp k = (rv, xp', k1)" "rv < 0" "k' = xpdev_destroy_interfaces cs xp' k1"
    using run by (auto simp: xpdev_create_interfaces_def split: prod.splits if_splits)
  obtain gs where gs: "interface_groups v xp = ([(CtrlCdev, v_config_bar_idx v, None, CHAR_CTRL)], XDF_CDEV_CTRL) # gs"
    "\<forall>g \<in> set gs. \<forall>sp \<in> set (fst g). spec_not_ctrl sp" using interface_groups_head by metis
  obtain rv1 xp1 k2 where c: "create_xcdev cs v CtrlCdev (v_config_bar_idx v) None CHAR_CTRL xp k = (rv1, xp1, k2)" by (metis prod_cases3)
  have "rv1 = 0"
    using c cs xp(2) by (auto simp: create_xcdev_def alloc_major_def ctrl_granted_def config_kobject_def create_sys_device_def
        minor_init_def Let_def split: prod.splits)
  then have nn: "\<not> rv1 < 0" by simp
  note c1 = create_xcdev_ok [OF c nn ok(1) xp(1)]
  have M: "xp_major xp1 = M" using c cs xp(2)
    by (auto simp: create_xcdev_def alloc_major_def ctrl_granted_def put_cdev_def create_sys_device_def Let_def split: prod.splits if_splits)
  have rest: "create_groups cs v gs (xpdev_flag_set xp1 XDF_CDEV_CTRL) k2 = (rv, xp', k1)"
    using g(1) gs(1) c nn by simp
  have od: "others_differ xp1" using c1(2) xp(4) by (auto simp: others_differ_def)
  have kept: "ctrl_kept (xpdev_flag_set xp1 XDF_CDEV_CTRL) k2 xp' k1"
    by (rule create_groups_ctrl_kept [OF rest gs(2)]) (use c1(5) in simp)
  have no: "xc_cdevno (xp_cdevs xp1 CtrlCdev) = (M, 1)" using c1(8) M by (simp add: minor_init_def)
  have flag: "xpdev_flag_test (xpdev_flag_set xp1 XDF_CDEV_CTRL) XDF_CDEV_CTRL"
    using c1(4) xp(3) by (simp add: xpdev_flag_test_def xdf_defs)
  have "others_differ (xpdev_flag_set xp1 XDF_CDEV_CTRL)" using od by (simp add: others_differ_def)
  then have x: "others_differ xp'" "xpdev_flag_test xp' XDF_CDEV_CTRL" "ready (xp_cdevs xp' CtrlCdev)"
    "xc_cdevno (xp_cdevs xp' CtrlCdev) = (M, 1)"
    using kept c1(7) no flag by (simp_all add: ctrl_kept_def)
  note d = destroy_interfaces_ctrl [OF ok(2) x]
  have "held (k_trace k1) (ResCdev M 1) = held (k_trace k2) (ResCdev M 1)" using kept by (simp add: ctrl_kept_def)
  moreover have "held (k_trace k2) (ResCdev M 1) = held (k_trace k) (ResCdev M 1) + 1"
    using c1(1) [of "ResCdev M 1"] c1(7) no by (simp add: node_held_def region_held_def)
  ultimately show "held (k_trace k') (ResCdev M 1) = held (k_trace k) (ResCdev M 1)"
    "held (k_trace (xpdev_destroy_interfaces cs xp' k')) (ResCdev M 1) = held (k_trace k) (ResCdev M 1) - 1"
    using d [of k1] d [of k'] g(3) by simp_all
  show "xp_xdev xp' = xp_xdev xp" "xp_pdev xp' = xp_pdev xp" using kept c1(3) by (simp_all add: ctrl_kept_def same_shape_def xpdev_flag_set_def)
qed

text \<open>
  C33. A probe that fails while it creates the interfaces destroys them twice: \<^verbatim>\<open>xpdev_create_interfaces\<close> cleans up before it returns the
  error, and \<^verbatim>\<open>probe_one\<close> then frees the device, which runs the same clean-up over the same, unmarked nodes. The
  control node, created first, has been deleted twice when the probe returns.
\<close>

theorem probe_one_destroys_twice:
  assumes run: "probe_one hw mp pd kt cs xmem (Some h) pdev m k = Some (- 1, m', k')" and "pci_ok pd" and "ctrl_granted cs M"
    and "h \<notin> set (xdev_list (m_driver m))" and "h \<notin> set (xdev_rcu_list (m_driver m))" and "d_devs (m_driver m) h = None"
  shows "held (k_trace k') (ResCdev M 1) = held (k_trace k) (ResCdev M 1) - 1"
proof (rule probe_one_reaches [OF run _ assms(2,4,5,6), of "ResCdev M 1"], goal_cases)
  case (3 v d1 k0 cnts xp' k2)
  have al: "xp_xdev (alloced pdev h cnts) = Some h" "xp_pdev (alloced pdev h cnts) = pdev" "xp_major (alloced pdev h cnts) = 0"
    "xp_flags (alloced pdev h cnts) = 0" "\<forall>s. \<not> xc_sys_device (xp_cdevs (alloced pdev h cnts) s)"
    by (simp_all add: alloced_def zero_cdevs_def zero_cdev_def split: prod.splits)
  note f = create_interfaces_fails [OF 3(9) assms(3) _ al(3-5), unfolded al(1,2), simplified]
  define k3 where "k3 = xpdev_destroy_interfaces cs xp' k2"
  obtain d4 k4 where cl: "xdma_device_close hw mp pd kt pdev (Some h) d1 k3 = (d4, k4)" by (metis surj_pair)
  have chk: "\<not> debug_check_dev_hndl d1 pdev h < 0" using 3(1,7) by (simp add: debug_check_dev_hndl_def)
  have "d_devs d1 h = Some v" using 3(2) by simp
  note close = xdma_device_close_held [OF cl chk this 3(3), of "ResCdev M 1"]
  have "k' = log_event (Release (ResKmem pdev)) k4"
    using 3(11) f(3,4) cl by (simp add: xpdev_free_def k3_def Let_def)
  then show ?case using close f(2) 3(8) by (simp add: k3_def)
qed simp_all

definition failing_cs :: cdev_services where
  "failing_cs = example_cs\<lparr>cs_cdev_add := (\<lambda>major minor. if minor = 1 then 0 else - EIO)\<rparr>"

lemma failing_granted: "ctrl_granted failing_cs 240"
  by (simp add: ctrl_granted_def failing_cs_def example_cs_def)

lemma failing_creates:
  assumes "0 < xp_user_max xp" and "xp_major xp = 0"
  shows "fst (xpdev_create_interfaces failing_cs v xp k) = - 1"
proof -
  obtain n where n: "[0..<xp_user_max xp] = 0 # n" using assms(1) by (metis upt_conv_Cons)
  show ?thesis
    using assms(2)
    by (simp add: xpdev_create_interfaces_def interface_groups_def n create_xcdev_def alloc_major_def failing_cs_def example_cs_def
        config_kobject_def create_sys_device_def minor_init_def EIO_def Let_def split: prod.splits)
qed

lemma example_probe_fails:
  "\<exists>m1 k1. probe_one example_bar_hw example_mp example_pci example_kt failing_cs True (Some 7) 2 empty_mod
     \<lparr>k_trace = [], k_xfers = (\<lambda>_. zero_transfer)\<rparr> = Some (- 1, m1, k1)"
proof (rule example_reaches [of failing_cs], goal_cases)
  case (1 v xp k)
  then show ?case using failing_creates [of xp v k] by simp
qed

theorem probe_one_destroys_twice_witness:
  "case probe_one example_bar_hw example_mp example_pci example_kt failing_cs True (Some 7) 2 empty_mod
       \<lparr>k_trace = [], k_xfers = (\<lambda>_. zero_transfer)\<rparr> of
     Some (rv, m1, k1) \<Rightarrow> rv = - 1 \<and> held (k_trace k1) (ResCdev 240 1) = - 1
   | None \<Rightarrow> False"
proof -
  obtain m1 k1 where run: "probe_one example_bar_hw example_mp example_pci example_kt failing_cs True (Some 7) 2 empty_mod
      \<lparr>k_trace = [], k_xfers = (\<lambda>_. zero_transfer)\<rparr> = Some (- 1, m1, k1)" using example_probe_fails by blast
  from probe_one_destroys_twice [OF run example_pci_ok failing_granted] show ?thesis
    unfolding run by (simp add: empty_mod_def empty_driver_def)
qed

end
