(* ===== verification/Xdma_Ctrl.thy ===== *)
theory Xdma_Ctrl
  imports Xdma_Cdev
begin

text \<open>
  The control, bypass and event nodes: \<^verbatim>\<open>cdev_ctrl.c\<close>, \<^verbatim>\<open>cdev_bypass.c\<close> and \<^verbatim>\<open>cdev_events.c\<close>. What user memory holds and
  whether a copy from or to it succeeds is a parameter of each call; a file position and a user address are
  64-bit words. A node that passes \<^verbatim>\<open>xcdev_check\<close> has a device, which the functions below look up.
\<close>

definition cdev_dev :: "(nat \<Rightarrow> xdma_dev option) \<Rightarrow> xdma_cdev \<Rightarrow> xdma_dev option" where
  "cdev_dev devs xc = Option.bind (xc_xdev xc) devs"

lemma xcdev_checkD:
  "xcdev_check devs xcdev b = 0 \<Longrightarrow> \<exists>xc v. xcdev = Some xc \<and> xc_magic xc = MAGIC_CHAR \<and> cdev_dev devs xc = Some v \<and>
     v_magic v = MAGIC_DEVICE \<and> (b \<longrightarrow> (\<exists>e. cdev_engine v xc = Some e \<and> e_magic e = MAGIC_ENGINE))"
  by (auto simp: xcdev_check_def cdev_dev_def EINVAL_def split: option.splits if_splits)

lemma xcdev_check_cases: "xcdev_check devs xcdev b = 0 \<or> xcdev_check devs xcdev b = - EINVAL"
  by (auto simp: xcdev_check_def split: option.splits)

section \<open>The control node\<close>

definition bar_reg :: "xdma_dev \<Rightarrow> xdma_cdev \<Rightarrow> u64 \<Rightarrow> addr" where
  "bar_reg v xc pos = v_bar v (nat (xc_bar xc)) + pos"

text \<open>
  Reading returns the code, the new position and the word handed to \<^verbatim>\<open>copy_to_user\<close>, whose failure is ignored; the byte
  count of the call is not looked at. \<open>None\<close> is the null pointer behind a device that is gone.
\<close>

definition char_ctrl_read ::
    "device \<Rightarrow> (nat \<Rightarrow> xdma_dev option) \<Rightarrow> xdma_cdev option \<Rightarrow> u64 \<Rightarrow> kstate \<Rightarrow> int \<times> u64 \<times> u32 option \<times> kstate" where
  "char_ctrl_read hw devs xcdev pos k =
     (let rv = xcdev_check devs xcdev False in
      if rv < 0 then (rv, pos, None, k)
      else if pos AND 3 \<noteq> 0 then (- EPROTO, pos, None, k)
      else (case Option.bind xcdev (\<lambda>xc. map_option (\<lambda>v. (xc, v)) (cdev_dev devs xc)) of
              None \<Rightarrow> (rv, pos, None, k)
            | Some (xc, v) \<Rightarrow>
                let (w, k) = reg_read hw (bar_reg v xc pos) k in (4, pos + 4, Some w, k)))"

text \<open>\<open>w\<close> is what the variable holds after \<^verbatim>\<open>copy_from_user\<close>, whether that succeeds or not.\<close>

definition char_ctrl_write ::
    "(nat \<Rightarrow> xdma_dev option) \<Rightarrow> xdma_cdev option \<Rightarrow> u32 \<Rightarrow> u64 \<Rightarrow> kstate \<Rightarrow> int \<times> u64 \<times> kstate" where
  "char_ctrl_write devs xcdev w pos k =
     (let rv = xcdev_check devs xcdev False in
      if rv < 0 then (rv, pos, k)
      else if pos AND 3 \<noteq> 0 then (- EPROTO, pos, k)
      else (case Option.bind xcdev (\<lambda>xc. map_option (\<lambda>v. (xc, v)) (cdev_dev devs xc)) of
              None \<Rightarrow> (rv, pos, k)
            | Some (xc, v) \<Rightarrow> (4, pos + 4, reg_write w (bar_reg v xc pos) k)))"

text \<open>The identity of a PCI function, and the numbers the ioctl reports of it.\<close>

record pci_identity =
  id_vendor :: u16
  id_device :: u16
  id_subsystem_vendor :: u16
  id_subsystem_device :: u16
  id_devfn :: u32
  id_feature_id :: u64

record xdma_ioc_info =
  ioc_magic :: u32
  ioc_command :: u32
  ioc_vendor :: u16
  ioc_device :: u16
  ioc_subsystem_vendor :: u16
  ioc_subsystem_device :: u16
  ioc_dma_engine_version :: u32
  ioc_driver_version :: u32
  ioc_feature_id :: u64
  ioc_domain :: u16
  ioc_bus :: u8
  ioc_dev :: u8
  ioc_func :: u8

definition PCI_BUS_NUM :: "u32 \<Rightarrow> u32" where "PCI_BUS_NUM x = drop_bit 8 x AND 0xff"
definition PCI_SLOT :: "u32 \<Rightarrow> u32" where "PCI_SLOT devfn = drop_bit 3 devfn AND 0x1f"
definition PCI_FUNC :: "u32 \<Rightarrow> u32" where "PCI_FUNC devfn = devfn AND 0x07"

definition DRV_MOD_VERSION_NUMBER :: u32 where
  "DRV_MOD_VERSION_NUMBER = 2020 * 1000 + 1 * 100 + 8"

definition version_info :: "pci_identity \<Rightarrow> xdma_ioc_info" where
  "version_info pid =
     \<lparr>ioc_magic = 0, ioc_command = 0, ioc_vendor = id_vendor pid, ioc_device = id_device pid, ioc_subsystem_vendor = id_subsystem_vendor pid,
      ioc_subsystem_device = id_subsystem_device pid, ioc_dma_engine_version = 0,
      ioc_driver_version = DRV_MOD_VERSION_NUMBER, ioc_feature_id = id_feature_id pid, ioc_domain = 0,
      ioc_bus = ucast (PCI_BUS_NUM (id_devfn pid)), ioc_dev = ucast (PCI_SLOT (id_devfn pid)),
      ioc_func = ucast (PCI_FUNC (id_devfn pid))\<rparr>"

text \<open>\<open>cfu\<close> and \<open>ctu\<close>: whether the copies from and to the user succeed.\<close>

definition version_ioctl :: "pci_identity \<Rightarrow> bool \<Rightarrow> bool \<Rightarrow> int \<times> xdma_ioc_info option" where
  "version_ioctl pid cfu ctu =
     (if \<not> cfu then (- EFAULT, None)
      else if \<not> ctu then (- EFAULT, None) else (0, Some (version_info pid)))"

definition IOC_TYPE :: "u32 \<Rightarrow> u32" where "IOC_TYPE cmd = drop_bit 8 cmd AND 0xff"
definition IOC_DIR :: "u32 \<Rightarrow> u32" where "IOC_DIR cmd = drop_bit 30 cmd AND 3"
definition XDMA_IOC_MAGIC :: u32 where [xdma_consts]: "XDMA_IOC_MAGIC = 0x78"
definition XDMA_XCL_MAGIC :: u32 where [xdma_consts]: "XDMA_XCL_MAGIC = 0x586C0C6C"
definition XDMA_IOCINFO :: u32 where [xdma_consts]: "XDMA_IOCINFO = 0xC0287801"
definition XDMA_IOCOFFLINE :: u32 where [xdma_consts]: "XDMA_IOCOFFLINE = 0x7802"
definition XDMA_IOCONLINE :: u32 where [xdma_consts]: "XDMA_IOCONLINE = 0x7803"

text \<open>
  \<open>ok\<close> is \<^verbatim>\<open>access_ok\<close>; \<open>magic\<close> is the magic number read from the user's structure, if it can be read. The third
  component is what is copied back.
\<close>

definition char_ctrl_ioctl ::
    "device \<Rightarrow> modparams \<Rightarrow> pci \<Rightarrow> pci_identity \<Rightarrow> xdma_cdev option \<Rightarrow> u32 \<Rightarrow> bool \<Rightarrow> u32 option \<Rightarrow> bool \<Rightarrow> bool
     \<Rightarrow> driver \<Rightarrow> kstate \<Rightarrow> int \<times> xdma_ioc_info option \<times> driver \<times> kstate" where
  "char_ctrl_ioctl hw mp pd pid xcdev cmd ok magic cfu ctu d k =
     (let rv = xcdev_check (d_devs d) xcdev False in
      if rv < 0 then (rv, None, d, k)
      else (case Option.bind xcdev (\<lambda>xc. map_option (\<lambda>v. (xc, v)) (cdev_dev (d_devs d) xc)) of
              None \<Rightarrow> (- EINVAL, None, d, k)
            | Some (xc, v) \<Rightarrow>
                if IOC_TYPE cmd \<noteq> XDMA_IOC_MAGIC then (- ENOTTY, None, d, k)
                else if IOC_DIR cmd AND 3 \<noteq> 0 \<and> \<not> ok then (- EFAULT, None, d, k)
                else if cmd = XDMA_IOCINFO
                then (case magic of
                        None \<Rightarrow> (- EFAULT, None, d, k)
                      | Some m \<Rightarrow>
                          if m \<noteq> XDMA_XCL_MAGIC then (- ENOTTY, None, d, k)
                          else let (rv, info) = version_ioctl pid cfu ctu in (rv, info, d, k))
                else if cmd = XDMA_IOCOFFLINE
                then let (d, k) = xdma_device_offline hw mp pd (v_pdev v) (xc_xdev xc) d k in (0, None, d, k)
                else if cmd = XDMA_IOCONLINE
                then let (d, k) = xdma_device_online hw mp pd (v_pdev v) (xc_xdev xc) d k in (0, None, d, k)
                else (- ENOTTY, None, d, k)))"

text \<open>Mapping a BAR: the request, and the mapping made (user address, first physical page, bytes).\<close>

record vm_area =
  vm_start :: u64
  vm_end :: u64
  vm_pgoff :: u64

text \<open>\<open>res\<close> gives the first and the last address of a BAR, \<open>remap\<close> the result of \<^verbatim>\<open>io_remap_pfn_range\<close>.\<close>

definition bridge_mmap ::
    "(int \<Rightarrow> u64 \<times> u64) \<Rightarrow> int \<Rightarrow> (nat \<Rightarrow> xdma_dev option) \<Rightarrow> xdma_cdev option \<Rightarrow> vm_area
     \<Rightarrow> int \<times> (u64 \<times> u64 \<times> u64) option" where
  "bridge_mmap res remap devs xcdev vma =
     (let rv = xcdev_check devs xcdev False in
      if rv < 0 then (rv, None)
      else (case xcdev of
              None \<Rightarrow> (rv, None)
            | Some xc \<Rightarrow>
                let off = push_bit 12 (vm_pgoff vma);
                    phys = fst (res (xc_bar xc)) + off;
                    vsize = vm_end vma - vm_start vma;
                    psize = snd (res (xc_bar xc)) - fst (res (xc_bar xc)) + 1 - off
                in if psize < vsize then (- EINVAL, None)
                   else if remap \<noteq> 0 then (- EAGAIN, None)
                   else (0, Some (vm_start vma, drop_bit 12 phys, vsize))))"

section \<open>The bypass node\<close>

text \<open>
  Copying the descriptors of one transfer; \<open>cu\<close> says for which offsets \<^verbatim>\<open>copy_to_user\<close> succeeds. The list is
  what has been copied, by offset.
\<close>

fun copy_desc_loop ::
    "(nat \<Rightarrow> bool) \<Rightarrow> desc_ring \<Rightarrow> nat \<Rightarrow> nat \<Rightarrow> nat \<Rightarrow> nat \<Rightarrow> int \<Rightarrow> (nat \<times> xdma_desc) list \<Rightarrow> int \<times> nat \<times> (nat \<times> xdma_desc) list" where
  "copy_desc_loop cu ring i 0 off buf_size rc out = (rc, off, out)"
| "copy_desc_loop cu ring i (Suc n) off buf_size rc out =
     (if off + 32 \<le> buf_size
      then if \<not> cu off then copy_desc_loop cu ring (Suc i) n buf_size buf_size (- EINVAL) out
           else copy_desc_loop cu ring (Suc i) n (off + 32) buf_size rc (out @ [(off, ring i)])
      else copy_desc_loop cu ring (Suc i) n off buf_size (- ENOMEM) out)"

definition copy_desc_data ::
    "(nat \<Rightarrow> bool) \<Rightarrow> desc_ring \<Rightarrow> xdma_transfer \<Rightarrow> addr \<Rightarrow> nat \<Rightarrow> nat \<Rightarrow> (nat \<times> xdma_desc) list
     \<Rightarrow> int \<times> nat \<times> (nat \<times> xdma_desc) list" where
  "copy_desc_data cu ring xfer buf off buf_size out =
     (if buf = 0 then (- EINVAL, off, out)
      else copy_desc_loop cu ring (x_desc_virt xfer) (nat (sint (x_desc_num xfer))) off buf_size 0 out)"

text \<open>The walk over the transfers: each overwrites the code of the one before.\<close>

fun bypass_walk ::
    "(nat \<Rightarrow> bool) \<Rightarrow> desc_ring \<Rightarrow> (xfer_id \<Rightarrow> xdma_transfer) \<Rightarrow> addr \<Rightarrow> nat \<Rightarrow> xfer_id list \<Rightarrow> int \<Rightarrow> nat \<Rightarrow> (nat \<times> xdma_desc) list
     \<Rightarrow> int \<times> nat \<times> (nat \<times> xdma_desc) list" where
  "bypass_walk cu ring xfers buf buf_size [] rc off out = (rc, off, out)"
| "bypass_walk cu ring xfers buf buf_size (i # is) rc off out =
     (let (rc, off, out) = copy_desc_data cu ring (xfers i) buf off buf_size out
      in bypass_walk cu ring xfers buf buf_size is rc off out)"

definition char_bypass_read ::
    "(nat \<Rightarrow> bool) \<Rightarrow> (nat \<Rightarrow> xdma_dev option) \<Rightarrow> xdma_cdev option \<Rightarrow> addr \<Rightarrow> nat \<Rightarrow> kstate \<Rightarrow> int \<times> (nat \<times> xdma_desc) list" where
  "char_bypass_read cu devs xcdev buf count k =
     (let rc = xcdev_check devs xcdev True in
      if rc < 0 then (rc, [])
      else (case Option.bind xcdev (\<lambda>xc. Option.bind (cdev_dev devs xc) (\<lambda>v. map_option (\<lambda>e. (v, e)) (cdev_engine v xc))) of
              None \<Rightarrow> (rc, [])
            | Some (v, e) \<Rightarrow>
                if count mod 4 \<noteq> 0 then (- EINVAL, [])
                else if buf = 0 then (- EINVAL, [])
                else if v_bypass_bar_idx v < 0 then (- ENODEV, [])
                else let (rc, off, out) = bypass_walk cu (e_desc_ring e) (k_xfers k) buf count (e_transfer_list e) rc 0 []
                     in if rc < 0 then (rc, out) else (int off, out)))"

text \<open>The base of the bypass window is a pointer to words, so the engine's offset counts words.\<close>

definition bypass_reg :: "xdma_dev \<Rightarrow> xdma_engine \<Rightarrow> addr" where
  "bypass_reg v e = v_bar v (nat (v_bypass_bar_idx v)) + 4 * ucast (e_bypass_offset e)"

text \<open>\<open>cfu off\<close> is the word at an offset of the user's buffer, if it can be read; \<open>n\<close> words are left.\<close>

fun bypass_write_loop :: "(nat \<Rightarrow> u32 option) \<Rightarrow> addr \<Rightarrow> nat \<Rightarrow> nat \<Rightarrow> int \<Rightarrow> kstate \<Rightarrow> int \<times> kstate" where
  "bypass_write_loop cfu reg 0 off rc k = (rc, k)"
| "bypass_write_loop cfu reg (Suc n) off rc k =
     (case cfu off of
        None \<Rightarrow> (- EINVAL, k)
      | Some w \<Rightarrow> bypass_write_loop cfu reg n (off + 4) (int (off + 4)) (reg_write w reg k))"

definition char_bypass_write ::
    "(nat \<Rightarrow> u32 option) \<Rightarrow> (nat \<Rightarrow> xdma_dev option) \<Rightarrow> xdma_cdev option \<Rightarrow> addr \<Rightarrow> nat \<Rightarrow> kstate \<Rightarrow> int \<times> kstate" where
  "char_bypass_write cfu devs xcdev buf count k =
     (let rc = xcdev_check devs xcdev True in
      if rc < 0 then (rc, k)
      else (case Option.bind xcdev (\<lambda>xc. Option.bind (cdev_dev devs xc) (\<lambda>v. map_option (\<lambda>e. (v, e)) (cdev_engine v xc))) of
              None \<Rightarrow> (rc, k)
            | Some (v, e) \<Rightarrow>
                if count mod 4 \<noteq> 0 then (- EINVAL, k)
                else if buf = 0 then (- EINVAL, k)
                else if v_bypass_bar_idx v < 0 then (- ENODEV, k)
                else bypass_write_loop cfu (bypass_reg v e) (count div 4) 0 rc k))"

section \<open>The event nodes\<close>

text \<open>
  What happens while a reader sleeps is the parameter \<open>sleep\<close>: the result of the wait and the device afterwards. The word is
  what is copied to the user.
\<close>

definition char_events_read ::
    "(xdma_dev \<Rightarrow> int \<times> xdma_dev) \<Rightarrow> xdma_cdev option \<Rightarrow> nat \<Rightarrow> u64 \<Rightarrow> driver \<Rightarrow> int \<times> u32 option \<times> driver" where
  "char_events_read sleep xcdev count pos d =
     (let rv = xcdev_check (d_devs d) xcdev False in
      if rv < 0 then (rv, None, d)
      else (case Option.bind xcdev (\<lambda>xc. map_option (\<lambda>v. (xc, v)) (cdev_dev (d_devs d) xc)) of
              None \<Rightarrow> (rv, None, d)
            | Some (xc, v) \<Rightarrow>
                (case xc_user_irq xc of
                   None \<Rightarrow> (- EINVAL, None, d)
                 | Some u \<Rightarrow>
                     if count \<noteq> 4 then (- EPROTO, None, d)
                     else if pos AND 3 \<noteq> 0 then (- EPROTO, None, d)
                     else let (rv, v) = (if u_events_irq (v_user_irq v u) then (0, v) else sleep v);
                              put = (\<lambda>v. d\<lparr>d_devs := (d_devs d)(the (xc_xdev xc) := Some v)\<rparr>)
                          in if rv = - ERESTARTSYS then (- ERESTARTSYS, None, put v)
                             else let irq = v_user_irq v u;
                                      events_user = (if u_events_irq irq then 1 else 0);
                                      v = v\<lparr>v_user_irq := (v_user_irq v)(u := irq\<lparr>u_events_irq := False\<rparr>)\<rparr>
                                  in (4, Some events_user, put v))))"

definition POLLIN_RDNORM :: int where "POLLIN_RDNORM = 0x41"

definition char_events_poll :: "(nat \<Rightarrow> xdma_dev option) \<Rightarrow> xdma_cdev option \<Rightarrow> int" where
  "char_events_poll devs xcdev =
     (let rv = xcdev_check devs xcdev False in
      if rv < 0 then rv
      else (case Option.bind xcdev (\<lambda>xc. map_option (\<lambda>v. (xc, v)) (cdev_dev devs xc)) of
              None \<Rightarrow> rv
            | Some (xc, v) \<Rightarrow>
                (case xc_user_irq xc of
                   None \<Rightarrow> - EINVAL
                 | Some u \<Rightarrow> if u_events_irq (v_user_irq v u) then POLLIN_RDNORM else 0)))"

section \<open>Properties\<close>

text \<open>
  Mapping a BAR into user space is bounded only below its end: a request whose offset lies inside the BAR is
  accepted exactly when it ends inside, but an offset past the end makes the remaining size wrap around, so
  almost any request is then accepted and maps physical pages that do not belong to the device.
\<close>

theorem bridge_mmap_accepts:
  assumes "xcdev_check devs (Some xc) False = 0" and "res (xc_bar xc) = (start, fin)" and "unat start + blen = unat fin + 1"
    and "blen < 2 ^ 64" and "vm_start vma \<le> vm_end vma" and "off = push_bit 12 (vm_pgoff vma)"
    and "vsize = unat (vm_end vma - vm_start vma)"
  shows "bridge_mmap res 0 devs (Some xc) vma =
    (if unat off + vsize \<le> blen \<or> blen < unat off \<and> unat off + vsize \<le> blen + 2 ^ 64
     then (0, Some (vm_start vma, drop_bit 12 (start + off), vm_end vma - vm_start vma)) else (- EINVAL, None))"
proof -
  let ?L = "fin - start + 1"
  have le: "unat ?L = blen"
  proof -
    have "?L = of_nat (unat fin) + 1 - of_nat (unat start)" by simp
    also have "of_nat (unat fin) + 1 = (of_nat (unat fin + 1) :: u64)" by simp
    also have "\<dots> = of_nat (unat start + blen)" by (simp only: assms(3))
    finally have "?L = of_nat blen" by simp
    then show ?thesis using assms(4) by (simp add: unat_of_nat take_bit_nat_def)
  qed
  have p: "unat (?L - off) = (if unat off \<le> blen then blen - unat off else blen + 2 ^ 64 - unat off)"
  proof (cases "unat off \<le> blen")
    case True
    then show ?thesis using le by (simp add: unat_sub_le)
  next
    case False
    then show ?thesis using unat_sub_if' [of ?L off] le by (simp add: word_le_nat_alt)
  qed
  have acc: "\<not> (?L - off < vm_end vma - vm_start vma) \<longleftrightarrow>
      unat off + vsize \<le> blen \<or> blen < unat off \<and> unat off + vsize \<le> blen + 2 ^ 64"
    unfolding not_less word_le_nat_alt p assms(7) using unsigned_less [where 'a = nat, of off] by auto
  show ?thesis
    using assms(1,2,6) acc by (auto simp: bridge_mmap_def Let_def)
qed

lemma bypass_write_loop_eq:
  "bypass_write_loop cfu reg n off rc k =
     (let ws = takeWhile (\<lambda>w. w \<noteq> None) (map (\<lambda>i. cfu (off + 4 * i)) [0..<n]) in
      (if length ws < n then - EINVAL else if n = 0 then rc else int (off + 4 * n),
       k\<lparr>k_trace := k_trace k @ map (\<lambda>w. Wr (Mmio reg) (the w)) ws\<rparr>))"
proof (induction n arbitrary: off rc k)
  case (Suc n)
  have shift: "map (\<lambda>i. cfu (off + 4 * i)) [0..<Suc n] = cfu off # map (\<lambda>i. cfu (off + 4 + 4 * i)) [0..<n]"
    by (simp add: upt_conv_Cons map_Suc_upt [symmetric] comp_def algebra_simps del: upt_Suc)
  show ?case
    unfolding shift using Suc.IH [of "off + 4" "int (off + 4)"]
    by (cases "cfu off") (auto simp: Let_def xdma_io simp del: upt_Suc)
qed simp

text \<open>
  A write to the bypass node sends the words of the user's buffer, in order, to the one register of its engine's window: if all can be read the
  result is the byte count, otherwise the words before the first unreadable one have been sent and the result is an error.
\<close>

theorem char_bypass_write_spec:
  assumes "xcdev_check devs (Some xc) True = 0" and "cdev_dev devs xc = Some v" and "cdev_engine v xc = Some e"
    and "count mod 4 = 0" and "buf \<noteq> 0" and "0 \<le> v_bypass_bar_idx v"
    and "ws = takeWhile (\<lambda>w. w \<noteq> None) (map (\<lambda>i. cfu (4 * i)) [0..<count div 4])"
  shows "char_bypass_write cfu devs (Some xc) buf count k =
    (if length ws = count div 4 then int count else - EINVAL,
     k\<lparr>k_trace := k_trace k @ map (\<lambda>w. Wr (Mmio (bypass_reg v e)) (the w)) ws\<rparr>)"
proof -
  have len: "length ws \<le> count div 4" using length_takeWhile_le [of "\<lambda>w. w \<noteq> None" "map (\<lambda>i. cfu (4 * i)) [0..<count div 4]"] assms(7) by simp
  have c4: "4 * (count div 4) = count" using assms(4) by presburger
  show ?thesis
  proof (cases "count div 4 = 0")
    case True
    then have "count = 0" using c4 by simp
    then show ?thesis using assms True by (simp add: char_bypass_write_def)
  next
    case False
    have "int (0 + 4 * (count div 4)) = int count" using c4 by simp
    then show ?thesis
      using assms(1-6) len [unfolded assms(7)] False
      by (simp add: char_bypass_write_def bypass_write_loop_eq assms(7) Let_def)
  qed
qed

definition example_node :: xdma_cdev where
  "example_node = zero_cdev\<lparr>xc_magic := MAGIC_CHAR, xc_xdev := Some 3, xc_bar := 2, xc_engine := Some (DMA_TO_DEVICE, 0)\<rparr>"

definition example_devs :: "nat \<Rightarrow> xdma_dev option" where
  "example_devs = (\<lambda>_. None)(3 := Some (example_dev\<lparr>v_bypass_bar_idx := 2\<rparr>))"

lemma example_node_check: "xcdev_check example_devs (Some example_node) b = 0"
  by (simp add: xcdev_check_def example_node_def example_devs_def example_dev_def cdev_engine_def dir_engines_def)

theorem bridge_mmap_accepts_witness:
  "bridge_mmap (\<lambda>_. (0xF0000000, 0xF000FFFF)) 0 example_devs (Some example_node) \<lparr>vm_start = 0x10000, vm_end = 0x11000, vm_pgoff = 0x20\<rparr>
   = (0, Some (0x10000, 0xF0020, 0x1000))"
  using bridge_mmap_accepts [where xc = example_node and devs = example_devs and res = "\<lambda>_. (0xF0000000, 0xF000FFFF)" and
      start = "0xF0000000" and fin = "0xF000FFFF" and blen = "0x10000" and
      vma = "\<lparr>vm_start = 0x10000, vm_end = 0x11000, vm_pgoff = 0x20\<rparr>" and off = "0x20000" and vsize = "0x1000"]
    example_node_check [of False]
  by simp

theorem char_bypass_write_spec_witness:
  "char_bypass_write (\<lambda>off. if off < 8 then Some 7 else None) example_devs (Some example_node) 0x1000 12
     \<lparr>k_trace = [], k_xfers = (\<lambda>_. zero_transfer)\<rparr>
   = (- 22, \<lparr>k_trace = [Wr (Mmio 0) 7, Wr (Mmio 0) 7], k_xfers = (\<lambda>_. zero_transfer)\<rparr>)"
proof -
  let ?v = "example_dev\<lparr>v_bypass_bar_idx := 2\<rparr>" and ?e = "zero_engine\<lparr>e_magic := MAGIC_ENGINE, e_irq_bitmask := push_bit 0 1, e_regs := of_nat 0\<rparr>"
  have v: "cdev_dev example_devs example_node = Some ?v" by (simp add: cdev_dev_def example_devs_def example_node_def)
  have e: "cdev_engine ?v example_node = Some ?e" by (simp add: cdev_engine_def example_node_def dir_engines_def example_dev_def)
  have reg: "bypass_reg ?v ?e = 0" by (simp add: bypass_reg_def example_dev_def zero_engine_def)
  have u: "[0..<3] = [0, 1, 2 :: nat]" by (simp add: upt_rec)
  from char_bypass_write_spec [OF example_node_check v e, where count = "12" and buf = "0x1000" and
      cfu = "\<lambda>off. if off < 8 then Some 7 else None" and k = "\<lparr>k_trace = [], k_xfers = (\<lambda>_. zero_transfer)\<rparr>", OF _ _ _ refl]
  show ?thesis unfolding reg by (simp add: u EINVAL_def)
qed

section \<open>The latch of a user event\<close>

text \<open>A user interrupt without a registered handler, or a read of the event node by a reader who is not interrupted.\<close>

datatype user_event = UserIrq | EventRead

definition event_step :: "nat \<Rightarrow> xdma_cdev \<Rightarrow> driver \<times> kstate \<Rightarrow> user_event \<Rightarrow> driver \<times> kstate" where
  "event_step u xc s ev =
     (case ev of
        UserIrq \<Rightarrow> (case d_devs (fst s) (the (xc_xdev xc)) of
                     None \<Rightarrow> s
                   | Some v \<Rightarrow> let (rv, v, k) = user_irq_service (\<lambda>_. 0) u v (snd s)
                               in ((fst s)\<lparr>d_devs := (d_devs (fst s))(the (xc_xdev xc) := Some v)\<rparr>, k))
      | EventRead \<Rightarrow> (snd (snd (char_events_read (\<lambda>v. (- ERESTARTSYS, v)) (Some xc) 4 0 (fst s))), snd s))"

definition event_node :: "nat \<Rightarrow> xdma_cdev \<Rightarrow> driver \<times> kstate \<Rightarrow> bool" where
  "event_node u xc s \<longleftrightarrow> xc_magic xc = MAGIC_CHAR \<and> xc_user_irq xc = Some u \<and>
     (\<exists>h v. xc_xdev xc = Some h \<and> d_devs (fst s) h = Some v \<and> v_magic v = MAGIC_DEVICE \<and> u_handler (v_user_irq v u) = None)"

definition latched :: "nat \<Rightarrow> xdma_cdev \<Rightarrow> driver \<times> kstate \<Rightarrow> bool" where
  "latched u xc s \<longleftrightarrow> char_events_poll (d_devs (fst s)) (Some xc) = POLLIN_RDNORM"

lemma event_node_simps:
  assumes "event_node u xc s"
  obtains h v where "xc_xdev xc = Some h" "d_devs (fst s) h = Some v" "u_handler (v_user_irq v u) = None"
    "latched u xc s \<longleftrightarrow> u_events_irq (v_user_irq v u)" "xcdev_check (d_devs (fst s)) (Some xc) False = 0" "cdev_dev (d_devs (fst s)) xc = Some v"
    "v_magic v = MAGIC_DEVICE"
  using assms by (auto simp: event_node_def latched_def char_events_poll_def xcdev_check_def cdev_dev_def POLLIN_RDNORM_def)

lemma event_step_node:
  assumes "event_node u xc s"
  shows "event_node u xc (event_step u xc s ev) \<and> latched u xc (event_step u xc s ev) = (ev = UserIrq)"
proof (rule event_node_simps [OF assms], goal_cases)
  case (1 h v)
  have xc: "xc_magic xc = MAGIC_CHAR" "xc_user_irq xc = Some u" using assms by (simp_all add: event_node_def)
  show ?case
  proof (cases ev)
    case UserIrq
    then show ?thesis using 1 xc
      by (auto simp: event_step_def user_irq_service_def event_node_def latched_def char_events_poll_def xcdev_check_def cdev_dev_def
          Let_def split: if_splits)
  next
    case EventRead
    then show ?thesis using 1 xc
      by (auto simp: event_step_def char_events_read_def event_node_def latched_def char_events_poll_def xcdev_check_def cdev_dev_def
          POLLIN_RDNORM_def ERESTARTSYS_def Let_def split: if_splits)
  qed
qed

interpretation events: event_machine "event_step u xc" "event_node u xc" for u xc
  by unfold_locales (use event_step_node in blast)

text \<open>
  The event node of a user interrupt is a latch: after any sequence of interrupts and reads it is readable exactly when an interrupt came
  after the last read, however many there were, so no interrupt is lost between a read and the next and several count as one.
\<close>

theorem events_latch:
  assumes "event_node u xc s" and "evs \<noteq> []"
  shows "latched u xc (run (event_step u xc) s evs) \<longleftrightarrow> last evs = UserIrq"
proof -
  obtain es ev where evs: "evs = es @ [ev]" using assms(2) by (metis rev_exhaust)
  have "event_node u xc (run (event_step u xc) s es)" by (rule events.run_invar [OF assms(1)])
  from event_step_node [OF this, of ev] show ?thesis by (simp add: evs)
qed

theorem events_latch_witness:
  "latched 1 (example_node\<lparr>xc_user_irq := Some 1\<rparr>)
     (run (event_step 1 (example_node\<lparr>xc_user_irq := Some 1\<rparr>))
        (empty_driver\<lparr>d_devs := example_devs\<rparr>, \<lparr>k_trace = [], k_xfers = (\<lambda>_. zero_transfer)\<rparr>) [UserIrq, EventRead, UserIrq, UserIrq])"
proof -
  have "event_node 1 (example_node\<lparr>xc_user_irq := Some 1\<rparr>)
      (empty_driver\<lparr>d_devs := example_devs\<rparr>, \<lparr>k_trace = [], k_xfers = (\<lambda>_. zero_transfer)\<rparr>)"
    by (simp add: event_node_def example_node_def example_devs_def example_dev_def)
  from events_latch [OF this, of "[UserIrq, EventRead, UserIrq, UserIrq]"] show ?thesis by simp
qed

end
