(* ===== verification/Xdma_Xvc.thy ===== *)
theory Xdma_Xvc
  imports Xdma_Ctrl
begin

text \<open>
  The virtual cable of \<^verbatim>\<open>cdev_xvc.c\<close>: a request carries two bit strings for the JTAG pins TMS and TDI, which are shifted
  out in words of 32 bits, and the bits that come back on TDO. Buffers are lists of bytes and words are
  little-endian, as on the hosts the driver runs on. \<open>None\<close> is a copy outside of a buffer.
\<close>

section \<open>Bytes and words\<close>

fun le32 :: "u8 list \<Rightarrow> u32" where
  "le32 [] = 0"
| "le32 (b # bs) = ucast b OR push_bit 8 (le32 bs)"

fun le_bytes :: "nat \<Rightarrow> u32 \<Rightarrow> u8 list" where
  "le_bytes 0 w = []"
| "le_bytes (Suc n) w = ucast w # le_bytes n (drop_bit 8 w)"

definition put_bytes :: "u8 list \<Rightarrow> nat \<Rightarrow> u8 list \<Rightarrow> u8 list" where
  "put_bytes buf off bs = take off buf @ bs @ drop (off + length bs) buf"

lemma length_le_bytes [simp]: "length (le_bytes n w) = n"
  by (induction n arbitrary: w) simp_all

section \<open>One shift\<close>

definition COMPLETION_LOOP_MAX :: nat where "COMPLETION_LOOP_MAX = 100"
definition XVC_BAR_LENGTH_REG :: addr where [xdma_consts]: "XVC_BAR_LENGTH_REG = 0x0"
definition XVC_BAR_TMS_REG :: addr where [xdma_consts]: "XVC_BAR_TMS_REG = 0x4"
definition XVC_BAR_TDI_REG :: addr where [xdma_consts]: "XVC_BAR_TDI_REG = 0x8"
definition XVC_BAR_TDO_REG :: addr where [xdma_consts]: "XVC_BAR_TDO_REG = 0xC"
definition XVC_BAR_CTRL_REG :: addr where [xdma_consts]: "XVC_BAR_CTRL_REG = 0x10"
definition XDMA_IOCXVC :: u32 where [xdma_consts]: "XDMA_IOCXVC = 0xD6634401"

text \<open>Polling the control register at most \<open>n\<close> times; false is a time-out.\<close>

fun xvc_poll :: "device \<Rightarrow> addr \<Rightarrow> nat \<Rightarrow> kstate \<Rightarrow> bool \<times> kstate" where
  "xvc_poll hw io 0 k = (False, k)"
| "xvc_poll hw io (Suc n) k =
     (let (control, k) = reg_read hw (io + XVC_BAR_CTRL_REG) k
      in if control AND 1 = 0 then (True, k) else xvc_poll hw io n k)"

definition xvc_shift_bits :: "device \<Rightarrow> addr \<Rightarrow> u32 \<Rightarrow> u32 \<Rightarrow> kstate \<Rightarrow> int \<times> u32 \<times> kstate" where
  "xvc_shift_bits hw io tms_bits tdi_bits k =
     (let k = reg_write tms_bits (io + XVC_BAR_TMS_REG) k;
          k = reg_write tdi_bits (io + XVC_BAR_TDI_REG) k;
          k = reg_write 1 (io + XVC_BAR_CTRL_REG) k;
          (ready, k) = xvc_poll hw io COMPLETION_LOOP_MAX k
      in if \<not> ready then (- ETIMEDOUT, 0, k)
         else let (tdo_bits, k) = reg_read hw (io + XVC_BAR_TDO_REG) k in (0, tdo_bits, k))"

section \<open>The loop over the words\<close>

text \<open>\<open>bits\<close> counts what has been shifted and \<open>left\<close> what is to come, both modulo \<open>2 ^ 32\<close>.\<close>

partial_function (option) xvc_loop ::
    "device \<Rightarrow> addr \<Rightarrow> u8 list \<Rightarrow> u8 list \<Rightarrow> u32 \<Rightarrow> u32 \<Rightarrow> u32 \<Rightarrow> u8 list \<Rightarrow> kstate \<Rightarrow> (int \<times> u8 list \<times> kstate) option" where
  [code]: "xvc_loop hw io tms tdi nbits bits left tdo k =
     (if \<not> bits < nbits then Some (0, tdo, k)
      else let bytes = unat (drop_bit 3 bits);
               (n, k) = (if left < 32 then (unat (drop_bit 3 (left + 7)), reg_write left (io + XVC_BAR_LENGTH_REG) k) else (4, k))
           in if length tms < bytes + n then None
              else let (rv, out, k) = xvc_shift_bits hw io (le32 (take n (drop bytes tms))) (le32 (take n (drop bytes tdi))) k
                   in if rv < 0 then Some (rv, tdo, k)
                      else xvc_loop hw io tms tdi nbits (bits + 32) (left - 32) (put_bytes tdo bytes (le_bytes n out)) k)"

text \<open>
  What the user and the kernel contribute to a request: the bytes of the structure left uncopied and its
  fields, the allocation, the buffers after the copies with the counts left uncopied, the contents of a
  fresh buffer, and the result of the copy back.
\<close>

record xvc_user =
  xu_copy_obj :: int
  xu_opcode :: u32
  xu_length :: u32
  xu_kmalloc :: "nat \<Rightarrow> bool"
  xu_tms :: "nat \<Rightarrow> int \<times> u8 list"
  xu_tdi :: "nat \<Rightarrow> int \<times> u8 list"
  xu_fresh :: "nat \<Rightarrow> u8 list"
  xu_copy_tdo :: int

text \<open>The third of the buffers for a number of bits; the sum wraps around.\<close>

definition xvc_total_bytes :: "u32 \<Rightarrow> nat" where
  "xvc_total_bytes total_bits = unat (drop_bit 3 (total_bits + 7))"

text \<open>From the lock to the unlock: the result and what is copied back.\<close>

definition xvc_transfer ::
    "device \<Rightarrow> addr \<Rightarrow> xvc_user \<Rightarrow> u8 list \<Rightarrow> u8 list \<Rightarrow> kstate \<Rightarrow> (int \<times> u8 list option \<times> kstate) option" where
  "xvc_transfer hw io u tms tdi k =
     (let nbits = xu_length u;
          k = (if 32 \<le> nbits then reg_write 0x20 (io + XVC_BAR_LENGTH_REG) k else k)
      in case xvc_loop hw io tms tdi nbits 0 nbits (xu_fresh u (xvc_total_bytes nbits)) k of
           None \<Rightarrow> None
         | Some (rv, tdo, k) \<Rightarrow>
             Some (if rv < 0 then (rv, None, k)
                   else (xu_copy_tdo u, Some (if xu_opcode u = 2 then tdi else tdo), k)))"

definition xvc_ioctl ::
    "device \<Rightarrow> (nat \<Rightarrow> xdma_dev option) \<Rightarrow> xdma_cdev option \<Rightarrow> u32 \<Rightarrow> xvc_user \<Rightarrow> kstate
     \<Rightarrow> (int \<times> u8 list option \<times> kstate) option" where
  "xvc_ioctl hw devs xcdev cmd u k =
     (let rv = xcdev_check devs xcdev False in
      if rv < 0 then Some (rv, None, k)
      else (case Option.bind xcdev (\<lambda>xc. map_option (\<lambda>v. (xc, v)) (cdev_dev devs xc)) of
              None \<Rightarrow> None
            | Some (xc, v) \<Rightarrow>
                if cmd \<noteq> XDMA_IOCXVC then Some (- ENOIOCTLCMD, None, k)
                else if xu_copy_obj u \<noteq> 0 then Some (xu_copy_obj u, None, k)
                else if xu_opcode u \<noteq> 1 \<and> xu_opcode u \<noteq> 2 then Some (- EINVAL, None, k)
                else let total_bytes = xvc_total_bytes (xu_length u) in
                     if \<not> xu_kmalloc u (total_bytes * 3) then Some (- ENOMEM, None, k)
                     else let k = log_event (Acquire (ResKmem 0)) k;
                              free = log_event (Release (ResKmem 0));
                              (rv, tms) = xu_tms u total_bytes
                          in if rv \<noteq> 0 then Some (rv, None, free k)
                             else let (rv, tdi) = xu_tdi u total_bytes
                                  in if rv \<noteq> 0 then Some (rv, None, free k)
                                     else (case xvc_transfer hw (bar_reg v xc (xc_base xc)) u tms tdi k of
                                             None \<Rightarrow> None
                                           | Some (rv, out, k) \<Rightarrow> Some (rv, out, free k))))"

section \<open>The words of a request\<close>

text \<open>Word \<open>i\<close> of \<open>T\<close> bits: how many bits it has and how many bytes they take.\<close>

definition word_bits :: "nat \<Rightarrow> nat \<Rightarrow> nat" where
  "word_bits T i = min 32 (T - 32 * i)"

definition word_bytes :: "nat \<Rightarrow> nat \<Rightarrow> nat" where
  "word_bytes T i = (word_bits T i + 7) div 8"

definition words_of :: "nat \<Rightarrow> nat" where
  "words_of T = (T + 31) div 32"

definition word_at :: "u8 list \<Rightarrow> nat \<Rightarrow> nat \<Rightarrow> u32" where
  "word_at buf T i = le32 (take (word_bytes T i) (drop (4 * i) buf))"

lemma word_fits: "i < words_of T \<Longrightarrow> 4 * i + word_bytes T i \<le> (T + 7) div 8"
  by (auto simp: words_of_def word_bytes_def word_bits_def min_def)

lemma total_bytes_eq: "unat nbits + 7 < 2 ^ 32 \<Longrightarrow> xvc_total_bytes nbits = (unat nbits + 7) div 8"
proof -
  assume a: "unat nbits + 7 < 2 ^ 32"
  then have "unat (nbits + 7) = unat nbits + 7" by (subst unat_add_lt) simp_all
  then show ?thesis by (simp add: xvc_total_bytes_def unat_drop_bit)
qed

lemma total_bytes_wraps: "2 ^ 32 \<le> unat nbits + 7 \<Longrightarrow> xvc_total_bytes nbits = 0"
proof -
  assume a: "2 ^ 32 \<le> unat nbits + 7"
  have lt: "unat nbits < 2 ^ 32" using unsigned_less [where 'a = nat, of nbits] by simp
  have "unat (nbits + 7) = (unat nbits + 7) mod 2 ^ 32" by (simp add: unat_word_ariths)
  also have "\<dots> = unat nbits + 7 - 2 ^ 32" using a lt by (simp add: mod_if)
  finally show ?thesis using lt by (simp add: xvc_total_bytes_def unat_drop_bit)
qed

text \<open>What one round does before it shifts.\<close>

definition set_length :: "addr \<Rightarrow> nat \<Rightarrow> nat \<Rightarrow> kstate \<Rightarrow> kstate" where
  "set_length io T i k = (if word_bits T i < 32 then reg_write (of_nat (word_bits T i)) (io + XVC_BAR_LENGTH_REG) k else k)"

lemma xvc_loop_round:
  assumes "unat nbits = T" and "T + 32 \<le> 2 ^ 32" and "i < words_of T" and "length tms = (T + 7) div 8"
  shows "xvc_loop hw io tms tdi nbits (of_nat (32 * i)) (of_nat (T - 32 * i)) tdo k =
     (let (rv, out, k) = xvc_shift_bits hw io (word_at tms T i) (word_at tdi T i) (set_length io T i k)
      in if rv < 0 then Some (rv, tdo, k)
         else xvc_loop hw io tms tdi nbits (of_nat (32 * Suc i)) (of_nat (T - 32 * Suc i))
                (put_bytes tdo (4 * i) (le_bytes (word_bytes T i) out)) k)"
proof -
  have i: "32 * i < T" using assms(3) by (simp add: words_of_def)
  have ub: "unat (of_nat (32 * i) :: u32) = 32 * i" by (rule unat_of_nat_small) (use i assms(2) in simp)
  have ul: "unat (of_nat (T - 32 * i) :: u32) = T - 32 * i" by (rule unat_of_nat_small) (use assms(2) in simp)
  have lt: "(of_nat (32 * i) :: u32) < nbits" using ub i assms(1) by (simp add: word_less_nat_alt)
  have small: "(of_nat (T - 32 * i) :: u32) < 32 \<longleftrightarrow> word_bits T i < 32" using ul by (simp add: word_less_nat_alt word_bits_def min_less_iff_disj)
  have u7: "unat (of_nat (T - 32 * i) + 7 :: u32) = T - 32 * i + 7" by (subst unat_add_lt) (use ul i assms(2) in simp_all)
  have bytes: "unat (drop_bit 3 (of_nat (32 * i) :: u32)) = 4 * i" using ub by (simp add: unat_drop_bit)
  have n: "(if (of_nat (T - 32 * i) :: u32) < 32 then unat (drop_bit 3 (of_nat (T - 32 * i) + 7 :: u32)) else 4) = word_bytes T i"
    unfolding small using u7 by (auto simp: unat_drop_bit word_bytes_def word_bits_def)
  have k: "(if (of_nat (T - 32 * i) :: u32) < 32 then reg_write (of_nat (T - 32 * i)) (io + XVC_BAR_LENGTH_REG) k else k) = set_length io T i k"
    unfolding small by (auto simp: set_length_def word_bits_def)
  have nk: "(if (of_nat (T - 32 * i) :: u32) < 32
      then (unat (drop_bit 3 (of_nat (T - 32 * i) + 7 :: u32)), reg_write (of_nat (T - 32 * i)) (io + XVC_BAR_LENGTH_REG) k)
      else (4, k)) = (word_bytes T i, set_length io T i k)" using n k by (auto split: if_splits)
  have fit: "\<not> length tms < 4 * i + word_bytes T i" using word_fits [OF assms(3)] assms(4) by simp
  have up: "(of_nat (32 * i) + 32 :: u32) = of_nat (32 * Suc i)" by simp
  show ?thesis
  proof (cases "32 * Suc i \<le> T")
    case True
    then have down: "(of_nat (T - 32 * i) - 32 :: u32) = of_nat (T - 32 * Suc i)" by (simp add: of_nat_diff)
    show ?thesis
      unfolding xvc_loop.simps [of hw io tms tdi nbits "of_nat (32 * i)"] nk bytes up down
      using lt fit by (simp only: Let_def word_at_def if_False prod.case simp_thms)
  next
    case False
    then have top: "32 * Suc i \<ge> T" by simp
    have "unat (of_nat (32 * Suc i) :: u32) = 32 * Suc i" by (rule unat_of_nat_small) (use i assms(2) in simp)
    then have "\<not> (of_nat (32 * Suc i) :: u32) < nbits" using top assms(1) by (simp add: word_less_nat_alt)
    then have stop: "xvc_loop hw io tms tdi nbits (of_nat (32 * Suc i)) left tdo' k' = Some (0, tdo', k')" for left tdo' k'
      by (simp add: xvc_loop.simps)
    show ?thesis
      unfolding xvc_loop.simps [of hw io tms tdi nbits "of_nat (32 * i)"] nk bytes up stop
      using lt fit by (simp only: Let_def word_at_def if_False prod.case simp_thms)
  qed
qed

lemma xvc_loop_stop:
  assumes "unat nbits = T" and "T + 32 \<le> 2 ^ 32"
  shows "xvc_loop hw io tms tdi nbits (of_nat (32 * words_of T)) left tdo k = Some (0, tdo, k)"
proof -
  have b: "32 * words_of T < T + 32" "T \<le> 32 * words_of T" by (simp_all add: words_of_def)
  have "unat (of_nat (32 * words_of T) :: u32) = 32 * words_of T" by (rule unat_of_nat_small) (use b assms(2) in simp)
  then have "\<not> (of_nat (32 * words_of T) :: u32) < nbits" using b(2) assms(1) by (simp add: word_less_nat_alt)
  then show ?thesis by (simp add: xvc_loop.simps)
qed

lemma xvc_poll_held: "xvc_poll hw io n k = (r, k') \<Longrightarrow> held (k_trace k') x = held (k_trace k) x"
  by (induction n arbitrary: k) (auto simp: xdma_io Let_def split: if_splits)

lemma xvc_shift_held: "xvc_shift_bits hw io a b k = (rv, out, k') \<Longrightarrow> held (k_trace k') x = held (k_trace k) x"
  by (auto simp: xvc_shift_bits_def xdma_io Let_def split: prod.splits if_splits dest!: xvc_poll_held [of _ _ _ _ _ _ x])

lemma xvc_loop_returns:
  assumes "unat nbits = T" and "T + 32 \<le> 2 ^ 32" and "length tms = (T + 7) div 8" and "i \<le> words_of T"
  shows "\<exists>rv tdo' k'. xvc_loop hw io tms tdi nbits (of_nat (32 * i)) (of_nat (T - 32 * i)) tdo k = Some (rv, tdo', k') \<and>
    held (k_trace k') x = held (k_trace k) x"
  using assms(4)
proof (induction "words_of T - i" arbitrary: i tdo k)
  case 0
  then have "i = words_of T" by simp
  then show ?case using xvc_loop_stop [OF assms(1,2)] by auto
next
  case (Suc n)
  then have i: "i < words_of T" by simp
  obtain rv out k1 where s: "xvc_shift_bits hw io (word_at tms T i) (word_at tdi T i) (set_length io T i k) = (rv, out, k1)"
    by (metis prod_cases3)
  have h: "held (k_trace k1) x = held (k_trace k) x"
    using xvc_shift_held [OF s] by (auto simp: set_length_def xdma_io)
  have n: "n = words_of T - Suc i" and le: "Suc i \<le> words_of T" using Suc.hyps(2) i by simp_all
  obtain rv' tdo' k' where IH: "xvc_loop hw io tms tdi nbits (of_nat (32 * Suc i)) (of_nat (T - 32 * Suc i))
      (put_bytes tdo (4 * i) (le_bytes (word_bytes T i) out)) k1 = Some (rv', tdo', k')" "held (k_trace k') x = held (k_trace k1) x"
    using Suc.hyps(1) [OF n le] by blast
  show ?case
    unfolding xvc_loop_round [OF assms(1,2) i assms(3)] s Let_def prod.case IH(1) using IH(2) h by simp
qed

text \<open>A request whose copies succeed.\<close>

definition xvc_copied :: "xvc_user \<Rightarrow> bool" where
  "xvc_copied u \<longleftrightarrow> xu_copy_obj u = 0 \<and> (xu_opcode u = 1 \<or> xu_opcode u = 2) \<and>
     (\<forall>n. xu_kmalloc u n \<and> fst (xu_tms u n) = 0 \<and> length (snd (xu_tms u n)) = n \<and> fst (xu_tdi u n) = 0 \<and>
          length (snd (xu_tdi u n)) = n \<and> length (xu_fresh u n) = n)"

lemma xvc_ioctl_copied:
  assumes "xcdev_check devs (Some xc) False = 0" and "cdev_dev devs xc = Some v" and "xvc_copied u"
    and "nb = xvc_total_bytes (xu_length u)"
  shows "xvc_ioctl hw devs (Some xc) XDMA_IOCXVC u k =
    (case xvc_transfer hw (bar_reg v xc (xc_base xc)) u (snd (xu_tms u nb)) (snd (xu_tdi u nb)) (log_event (Acquire (ResKmem 0)) k) of
       None \<Rightarrow> None
     | Some (rv, out, k) \<Rightarrow> Some (rv, out, log_event (Release (ResKmem 0)) k))"
proof -
  have c: "fst (xu_tms u nb) = 0" "fst (xu_tdi u nb) = 0" "xu_kmalloc u (nb * 3)" "xu_copy_obj u = 0" "xu_opcode u = 1 \<or> xu_opcode u = 2"
    using assms(3) by (auto simp: xvc_copied_def)
  obtain tms tdi where t: "xu_tms u nb = (0, tms)" "xu_tdi u nb = (0, tdi)" using c(1,2) by (metis prod.collapse)
  show ?thesis using assms(1,2) c(3-5) t by (auto simp: xvc_ioctl_def assms(4) [symmetric] Let_def split: option.splits)
qed

lemma xvc_ioctl_bounded:
  assumes "xcdev_check devs (Some xc) False = 0" and "cdev_dev devs xc = Some v" and "xvc_copied u"
  shows "unat (xu_length u) + 32 \<le> 2 ^ 32 \<Longrightarrow>
      \<exists>rv out k'. xvc_ioctl hw devs (Some xc) XDMA_IOCXVC u k = Some (rv, out, k') \<and> held (k_trace k') r = held (k_trace k) r"
    and "2 ^ 32 \<le> unat (xu_length u) + 7 \<Longrightarrow> xvc_ioctl hw devs (Some xc) XDMA_IOCXVC u k = None"
proof -
  define nb where "nb = xvc_total_bytes (xu_length u)"
  let ?tms = "snd (xu_tms u nb)" and ?tdi = "snd (xu_tdi u nb)" and ?io = "bar_reg v xc (xc_base xc)"
  note go = xvc_ioctl_copied [OF assms nb_def, of hw k]
  have len: "length ?tms = nb" using assms(3) by (simp add: xvc_copied_def)
  let ?k0 = "log_event (Acquire (ResKmem 0)) k"
  let ?k1 = "if 32 \<le> xu_length u then reg_write 0x20 (?io + XVC_BAR_LENGTH_REG) ?k0 else ?k0"
  {
    assume a: "unat (xu_length u) + 32 \<le> 2 ^ 32"
    have l: "length ?tms = (unat (xu_length u) + 7) div 8" using len total_bytes_eq [of "xu_length u"] a by (simp add: nb_def)
    obtain rv tdo k2 where loop: "xvc_loop hw ?io ?tms ?tdi (xu_length u) 0 (xu_length u) (xu_fresh u nb) ?k1 = Some (rv, tdo, k2)"
        "held (k_trace k2) r = held (k_trace ?k1) r"
      using xvc_loop_returns [OF refl a l, of 0 hw ?io ?tdi "xu_fresh u nb" ?k1 r] by auto
    have "held (k_trace ?k1) r = held (k_trace k) r + (if r = ResKmem 0 then 1 else 0)" by (simp add: xdma_io)
    then show "\<exists>rv out k'. xvc_ioctl hw devs (Some xc) XDMA_IOCXVC u k = Some (rv, out, k') \<and> held (k_trace k') r = held (k_trace k) r"
      unfolding go using loop by (auto simp: xvc_transfer_def nb_def [symmetric] Let_def)
  }
  assume a: "2 ^ 32 \<le> unat (xu_length u) + 7"
  then have big: "\<not> xu_length u < 32" "xu_length u \<noteq> 0" by (auto simp: word_less_nat_alt)
  have "nb = 0" using total_bytes_wraps [OF a] by (simp add: nb_def)
  then have "xvc_loop hw ?io ?tms ?tdi (xu_length u) 0 (xu_length u) (xu_fresh u nb) ?k1 = None"
    using len big by (simp add: xvc_loop.simps word_neq_0_conv)
  then show "xvc_ioctl hw devs (Some xc) XDMA_IOCXVC u k = None"
    unfolding go by (simp add: xvc_transfer_def nb_def [symmetric] Let_def)
qed


section \<open>What a request sends\<close>

lemma bit_le32: "bit (le32 bs) n \<Longrightarrow> n < 8 * length bs"
proof (induction bs arbitrary: n)
  case (Cons b bs)
  then consider "bit (ucast b :: u32) n" | "n \<ge> 8" "bit (le32 bs) (n - 8)" by (auto simp: bit_simps)
  then show ?case
  proof cases
    case 1
    then have "n < 8" by (auto simp: bit_simps dest: bit_imp_le_length)
    then show ?thesis by simp
  next
    case 2
    then have "n - 8 < 8 * length bs" using Cons.IH by blast
    then show ?thesis using 2 by simp
  qed
qed simp

lemma le_bytes_le32: "length bs \<le> 4 \<Longrightarrow> le_bytes (length bs) (le32 bs) = bs"
proof (induction bs)
  case (Cons b bs)
  have b: "ucast (le32 (b # bs)) = b"
    by (rule bit_word_eqI) (auto simp: bit_simps)
  have "drop_bit 8 (le32 (b # bs)) = le32 bs"
  proof (rule bit_word_eqI)
    fix n assume "n < LENGTH(32)"
    show "bit (drop_bit 8 (le32 (b # bs))) n = bit (le32 bs) n"
      using bit_le32 [of bs n] Cons.prems by (auto simp: bit_simps dest: bit_imp_le_length)
  qed
  then show ?case using b Cons by simp
qed simp

text \<open>A controller that is always ready and returns on TDO the word last written to TDI.\<close>

definition echoes :: "device \<Rightarrow> addr \<Rightarrow> bool" where
  "echoes hw io \<longleftrightarrow> (\<forall>t. hw t (Mmio (io + XVC_BAR_CTRL_REG)) AND 1 = 0) \<and>
     (\<forall>t ws w. writes_to (Mmio (io + XVC_BAR_TDI_REG)) t = ws @ [w] \<longrightarrow> hw t (Mmio (io + XVC_BAR_TDO_REG)) = w)"

lemma xvc_poll_ready:
  "\<forall>t. hw t (Mmio (io + XVC_BAR_CTRL_REG)) AND 1 = 0 \<Longrightarrow> xvc_poll hw io (Suc n) k =
     (True, k\<lparr>k_trace := k_trace k @ [Rd (Mmio (io + XVC_BAR_CTRL_REG)) (hw (k_trace k) (Mmio (io + XVC_BAR_CTRL_REG)))]\<rparr>)"
  by (simp add: xdma_io)

lemma xvc_shift_echo:
  assumes "echoes hw io"
  shows "\<exists>k'. xvc_shift_bits hw io a b k = (0, b, k') \<and>
    writes_to (Mmio (io + XVC_BAR_TMS_REG)) (k_trace k') = writes_to (Mmio (io + XVC_BAR_TMS_REG)) (k_trace k) @ [a] \<and>
    writes_to (Mmio (io + XVC_BAR_TDI_REG)) (k_trace k') = writes_to (Mmio (io + XVC_BAR_TDI_REG)) (k_trace k) @ [b] \<and>
    writes_to (Mmio (io + XVC_BAR_LENGTH_REG)) (k_trace k') = writes_to (Mmio (io + XVC_BAR_LENGTH_REG)) (k_trace k)"
proof -
  have r: "hw t (Mmio (io + XVC_BAR_CTRL_REG)) AND 1 = 0" for t using assms by (simp add: echoes_def)
  have e: "writes_to (Mmio (io + XVC_BAR_TDI_REG)) t = ws @ [w] \<Longrightarrow> hw t (Mmio (io + XVC_BAR_TDO_REG)) = w" for t ws w
    using assms by (simp add: echoes_def)
  define t where "t = k_trace k @ [Wr (Mmio (io + XVC_BAR_TMS_REG)) a, Wr (Mmio (io + XVC_BAR_TDI_REG)) b, Wr (Mmio (io + XVC_BAR_CTRL_REG)) 1]"
  define t2 where "t2 = t @ [Rd (Mmio (io + XVC_BAR_CTRL_REG)) (hw t (Mmio (io + XVC_BAR_CTRL_REG)))]"
  have w: "writes_to (Mmio (io + XVC_BAR_TDI_REG)) t2 = writes_to (Mmio (io + XVC_BAR_TDI_REG)) (k_trace k) @ [b]"
    by (simp add: t2_def t_def xdma_consts)
  have c: "COMPLETION_LOOP_MAX = Suc 99" by (simp add: COMPLETION_LOOP_MAX_def)
  have p: "xvc_poll hw io COMPLETION_LOOP_MAX k' =
      (True, k'\<lparr>k_trace := k_trace k' @ [Rd (Mmio (io + XVC_BAR_CTRL_REG)) (hw (k_trace k') (Mmio (io + XVC_BAR_CTRL_REG)))]\<rparr>)" for k'
    unfolding c by (rule xvc_poll_ready) (use r in blast)
  have "xvc_shift_bits hw io a b k = (0, b, k\<lparr>k_trace := t2 @ [Rd (Mmio (io + XVC_BAR_TDO_REG)) b]\<rparr>)"
    using e [OF w] by (simp add: xvc_shift_bits_def p xdma_io t_def t2_def Let_def)
  then show ?thesis by (simp add: t2_def t_def xdma_consts)
qed

lemma put_word:
  assumes "take (4 * i) tdo = take (4 * i) tdi" and "length tdo = (T + 7) div 8" and "length tdi = (T + 7) div 8" and "i < words_of T"
  shows "take (4 * Suc i) (put_bytes tdo (4 * i) (le_bytes (word_bytes T i) (word_at tdi T i))) = take (4 * Suc i) tdi"
    and "length (put_bytes tdo (4 * i) (le_bytes (word_bytes T i) (word_at tdi T i))) = (T + 7) div 8"
proof -
  let ?n = "word_bytes T i"
  have n: "4 * i + ?n \<le> (T + 7) div 8" "?n \<le> 4" using word_fits [OF assms(4)] by (simp_all add: word_bytes_def word_bits_def)
  obtain d where d: "T = 32 * i + d" using assms(4) by (auto simp: words_of_def intro: that [of "T - 32 * i"])
  have last: "?n = 4 \<or> 4 * i + ?n = (T + 7) div 8" by (auto simp: d word_bytes_def word_bits_def min_def)
  have "length (take ?n (drop (4 * i) tdi)) = ?n" using n(1) assms(3) by simp
  then have eq: "le_bytes ?n (word_at tdi T i) = take ?n (drop (4 * i) tdi)"
    using le_bytes_le32 [of "take ?n (drop (4 * i) tdi)"] n(2) by (simp only: word_at_def)
  have p: "put_bytes tdo (4 * i) (le_bytes ?n (word_at tdi T i)) = take (4 * i + ?n) tdi @ drop (4 * i + ?n) tdo"
    unfolding put_bytes_def length_le_bytes unfolding eq using assms(1) by (simp add: take_add)
  show "take (4 * Suc i) (put_bytes tdo (4 * i) (le_bytes ?n (word_at tdi T i))) = take (4 * Suc i) tdi"
    unfolding p using last n assms(2,3) by (auto simp: take_append add.commute)
  show "length (put_bytes tdo (4 * i) (le_bytes ?n (word_at tdi T i))) = (T + 7) div 8"
    unfolding p using n assms(2,3) by simp
qed

lemma xvc_loop_echo:
  assumes "echoes hw io" and "unat nbits = T" and "T + 32 \<le> 2 ^ 32" and "length tms = (T + 7) div 8" and "length tdi = (T + 7) div 8"
    and "i \<le> words_of T" and "take (4 * i) tdo = take (4 * i) tdi" and "length tdo = (T + 7) div 8"
  shows "\<exists>k'. xvc_loop hw io tms tdi nbits (of_nat (32 * i)) (of_nat (T - 32 * i)) tdo k = Some (0, tdi, k') \<and>
    writes_to (Mmio (io + XVC_BAR_TMS_REG)) (k_trace k') =
      writes_to (Mmio (io + XVC_BAR_TMS_REG)) (k_trace k) @ map (word_at tms T) [i..<words_of T] \<and>
    writes_to (Mmio (io + XVC_BAR_TDI_REG)) (k_trace k') =
      writes_to (Mmio (io + XVC_BAR_TDI_REG)) (k_trace k) @ map (word_at tdi T) [i..<words_of T] \<and>
    writes_to (Mmio (io + XVC_BAR_LENGTH_REG)) (k_trace k') =
      writes_to (Mmio (io + XVC_BAR_LENGTH_REG)) (k_trace k) @ map (\<lambda>j. of_nat (word_bits T j)) (filter (\<lambda>j. word_bits T j < 32) [i..<words_of T])"
  using assms(6-8)
proof (induction "words_of T - i" arbitrary: i tdo k)
  case 0
  then have i: "i = words_of T" by simp
  have "(T + 7) div 8 \<le> 4 * i" by (simp add: i words_of_def)
  then have "tdo = tdi" using 0(3,4) assms(5) by simp
  then show ?case using xvc_loop_stop [OF assms(2,3)] i by simp
next
  case (Suc n)
  then have i: "i < words_of T" by simp
  let ?k0 = "set_length io T i k"
  obtain k1 where s: "xvc_shift_bits hw io (word_at tms T i) (word_at tdi T i) ?k0 = (0, word_at tdi T i, k1)"
    "writes_to (Mmio (io + XVC_BAR_TMS_REG)) (k_trace k1) = writes_to (Mmio (io + XVC_BAR_TMS_REG)) (k_trace ?k0) @ [word_at tms T i]"
    "writes_to (Mmio (io + XVC_BAR_TDI_REG)) (k_trace k1) = writes_to (Mmio (io + XVC_BAR_TDI_REG)) (k_trace ?k0) @ [word_at tdi T i]"
    "writes_to (Mmio (io + XVC_BAR_LENGTH_REG)) (k_trace k1) = writes_to (Mmio (io + XVC_BAR_LENGTH_REG)) (k_trace ?k0)"
    using xvc_shift_echo [OF assms(1)] by blast
  note p = put_word [OF Suc.prems(2,3) assms(5) i]
  have n: "n = words_of T - Suc i" and le: "Suc i \<le> words_of T" using Suc.hyps(2) i by simp_all
  note IH = Suc.hyps(1) [OF n le p, of k1]
  have up: "[i..<words_of T] = i # [Suc i..<words_of T]" by (rule upt_conv_Cons [OF i])
  have k0: "writes_to (Mmio (io + XVC_BAR_TMS_REG)) (k_trace ?k0) = writes_to (Mmio (io + XVC_BAR_TMS_REG)) (k_trace k)"
    "writes_to (Mmio (io + XVC_BAR_TDI_REG)) (k_trace ?k0) = writes_to (Mmio (io + XVC_BAR_TDI_REG)) (k_trace k)"
    "writes_to (Mmio (io + XVC_BAR_LENGTH_REG)) (k_trace ?k0) = writes_to (Mmio (io + XVC_BAR_LENGTH_REG)) (k_trace k) @
       (if word_bits T i < 32 then [of_nat (word_bits T i)] else [])"
    by (simp_all add: set_length_def xdma_io xdma_consts)
  show ?case
    unfolding xvc_loop_round [OF assms(2,3) i assms(4)] s(1) Let_def prod.case up
    using IH s(2-4) k0 by auto
qed

text \<open>
  C19. A request on a controller that wires TDI to TDO gets its own TDI bits back: the words are cut from the buffers, shifted out in order with the
  TMS bits beside them, and put together again without a bit lost or moved, for every length and also when the
  last word is incomplete. The length register holds 32 for the full words and the rest for the last one.
\<close>

theorem xvc_loopback:
  assumes "xcdev_check devs (Some xc) False = 0" and "cdev_dev devs xc = Some v" and "xvc_copied u"
    and "io = bar_reg v xc (xc_base xc)" and "echoes hw io" and "T = unat (xu_length u)" and "T + 32 \<le> 2 ^ 32"
    and "tms = snd (xu_tms u ((T + 7) div 8))" and "tdi = snd (xu_tdi u ((T + 7) div 8))"
  shows "\<exists>k'. xvc_ioctl hw devs (Some xc) XDMA_IOCXVC u k = Some (xu_copy_tdo u, Some tdi, k') \<and>
    writes_to (Mmio (io + XVC_BAR_TMS_REG)) (k_trace k') =
      writes_to (Mmio (io + XVC_BAR_TMS_REG)) (k_trace k) @ map (word_at tms T) [0..<words_of T] \<and>
    writes_to (Mmio (io + XVC_BAR_TDI_REG)) (k_trace k') =
      writes_to (Mmio (io + XVC_BAR_TDI_REG)) (k_trace k) @ map (word_at tdi T) [0..<words_of T] \<and>
    writes_to (Mmio (io + XVC_BAR_LENGTH_REG)) (k_trace k') =
      writes_to (Mmio (io + XVC_BAR_LENGTH_REG)) (k_trace k) @ (if 32 \<le> T then [32] else []) @
        map (\<lambda>j. of_nat (word_bits T j)) (filter (\<lambda>j. word_bits T j < 32) [0..<words_of T])"
proof -
  have nb: "xvc_total_bytes (xu_length u) = (T + 7) div 8" using total_bytes_eq [of "xu_length u"] assms(6,7) by simp
  note go = xvc_ioctl_copied [OF assms(1-3) nb [symmetric], of hw k]
  have len: "length tms = (T + 7) div 8" "length tdi = (T + 7) div 8" "length (xu_fresh u ((T + 7) div 8)) = (T + 7) div 8"
    using assms(3,8,9) by (simp_all add: xvc_copied_def)
  let ?k0 = "log_event (Acquire (ResKmem 0)) k"
  define k1 where "k1 = (if 32 \<le> xu_length u then reg_write 0x20 (io + XVC_BAR_LENGTH_REG) ?k0 else ?k0)"
  have c32: "32 \<le> xu_length u \<longleftrightarrow> 32 \<le> T" using assms(6) by (simp add: word_le_nat_alt)
  have T: "unat (xu_length u) = T" "(of_nat T :: u32) = xu_length u" using assms(6) by simp_all
  obtain k2 where loop: "xvc_loop hw io tms tdi (xu_length u) 0 (xu_length u) (xu_fresh u ((T + 7) div 8)) k1 = Some (0, tdi, k2)"
    and w: "writes_to (Mmio (io + XVC_BAR_TMS_REG)) (k_trace k2) =
      writes_to (Mmio (io + XVC_BAR_TMS_REG)) (k_trace k1) @ map (word_at tms T) [0..<words_of T]"
    "writes_to (Mmio (io + XVC_BAR_TDI_REG)) (k_trace k2) =
      writes_to (Mmio (io + XVC_BAR_TDI_REG)) (k_trace k1) @ map (word_at tdi T) [0..<words_of T]"
    "writes_to (Mmio (io + XVC_BAR_LENGTH_REG)) (k_trace k2) =
      writes_to (Mmio (io + XVC_BAR_LENGTH_REG)) (k_trace k1) @ map (\<lambda>j. of_nat (word_bits T j)) (filter (\<lambda>j. word_bits T j < 32) [0..<words_of T])"
    using xvc_loop_echo [OF assms(5) T(1) assms(7) len(1,2), of 0 "xu_fresh u ((T + 7) div 8)" k1] len(3) T(2) by auto
  have k1: "writes_to (Mmio (io + XVC_BAR_TMS_REG)) (k_trace k1) = writes_to (Mmio (io + XVC_BAR_TMS_REG)) (k_trace k)"
    "writes_to (Mmio (io + XVC_BAR_TDI_REG)) (k_trace k1) = writes_to (Mmio (io + XVC_BAR_TDI_REG)) (k_trace k)"
    "writes_to (Mmio (io + XVC_BAR_LENGTH_REG)) (k_trace k1) = writes_to (Mmio (io + XVC_BAR_LENGTH_REG)) (k_trace k) @ (if 32 \<le> T then [32] else [])"
    by (simp_all add: k1_def c32 xdma_io xdma_consts)
  have "xvc_transfer hw io u tms tdi ?k0 = Some (xu_copy_tdo u, Some tdi, k2)"
    using loop by (simp add: xvc_transfer_def nb k1_def [symmetric])
  then show ?thesis unfolding go using w k1 assms(4,8,9) by simp
qed

definition example_xvc :: "u32 \<Rightarrow> u8 \<Rightarrow> xvc_user" where
  "example_xvc len b = \<lparr>xu_copy_obj = 0, xu_opcode = 1, xu_length = len, xu_kmalloc = (\<lambda>_. True), xu_tms = (\<lambda>n. (0, replicate n 0)),
     xu_tdi = (\<lambda>n. (0, replicate n b)), xu_fresh = (\<lambda>n. replicate n 0), xu_copy_tdo = 0\<rparr>"

lemma example_xvc_copied: "xvc_copied (example_xvc len b)"
  by (simp add: xvc_copied_def example_xvc_def)

lemma example_node_dev: "cdev_dev example_devs example_node = Some (example_dev\<lparr>v_bypass_bar_idx := 2\<rparr>)"
  by (simp add: cdev_dev_def example_devs_def example_node_def)


text \<open>A controller that remembers the last word written to TDI.\<close>

definition echo_hw :: "addr \<Rightarrow> device" where
  "echo_hw io t l = (if l = Mmio (io + XVC_BAR_TDO_REG) then last (writes_to (Mmio (io + XVC_BAR_TDI_REG)) t) else 0)"

lemma echo_hw_echoes: "echoes (echo_hw io) io"
  by (simp add: echoes_def echo_hw_def xdma_consts)

theorem xvc_loopback_witness:
  "\<exists>k'. xvc_ioctl (echo_hw 0) example_devs (Some example_node) XDMA_IOCXVC (example_xvc 40 0xA5)
      \<lparr>k_trace = [], k_xfers = (\<lambda>_. zero_transfer)\<rparr> = Some (0, Some [0xA5, 0xA5, 0xA5, 0xA5, 0xA5], k') \<and>
     writes_to (Mmio 0) (k_trace k') = [32, 8]"
proof -
  let ?u = "example_xvc 40 0xA5" and ?v = "example_dev\<lparr>v_bypass_bar_idx := 2\<rparr>"
  have io: "(0 :: addr) = bar_reg ?v example_node (xc_base example_node)"
    by (simp add: bar_reg_def example_node_def example_dev_def zero_cdev_def)
  have T: "(40 :: nat) = unat (xu_length ?u)" by (simp add: example_xvc_def)
  have words: "[0..<words_of 40] = [0, 1]" by (simp add: words_of_def upt_rec)
  have tdi: "replicate ((40 + 7) div 8) 0xA5 = snd (xu_tdi ?u ((40 + 7) div 8))" by (simp add: example_xvc_def)
  have five: "(40 + 7) div 8 = Suc (Suc (Suc (Suc (Suc 0))))" by simp
  have r5: "replicate ((40 + 7) div 8) x = [x, x, x, x, x]" for x :: u8 unfolding five by simp
  have fits: "(40 :: nat) + 32 \<le> 2 ^ 32" by simp
  note lb = xvc_loopback [OF example_node_check example_node_dev example_xvc_copied io echo_hw_echoes T fits refl tdi,
      of "\<lparr>k_trace = [], k_xfers = (\<lambda>_. zero_transfer)\<rparr>"]
  obtain k' where x: "xvc_ioctl (echo_hw 0) example_devs (Some example_node) XDMA_IOCXVC ?u \<lparr>k_trace = [], k_xfers = (\<lambda>_. zero_transfer)\<rparr>
      = Some (xu_copy_tdo ?u, Some (replicate ((40 + 7) div 8) 0xA5), k')"
    and w: "writes_to (Mmio (0 + XVC_BAR_LENGTH_REG)) (k_trace k') =
      writes_to (Mmio (0 + XVC_BAR_LENGTH_REG)) (k_trace \<lparr>k_trace = [], k_xfers = (\<lambda>_. zero_transfer)\<rparr>) @
      (if 32 \<le> (40 :: nat) then [32] else []) @ map (\<lambda>j. of_nat (word_bits 40 j)) (filter (\<lambda>j. word_bits 40 j < 32) [0..<words_of 40])"
    using lb by blast
  have "xu_copy_tdo ?u = 0" by (simp add: example_xvc_def)
  moreover have "writes_to (Mmio 0) (k_trace k') = [32, 8]"
    using w unfolding words by (simp add: word_bits_def XVC_BAR_LENGTH_REG_def)
  ultimately show ?thesis using x unfolding r5 by auto
qed

end
