(* ===== verification/Xdma_Fifo.thy ===== *)
theory Xdma_Fifo
  imports Xdma_Service
begin

text \<open>
  What an engine promises to the callers of \<^verbatim>\<open>transfer_queue\<close>, as an abstract machine: a queue of
  transfers and the state of each. A new transfer joins at the end; only the transfer at the head
  leaves, with a final state. The functions that work on the real engine implement it.
\<close>

type_synonym fifo = "xfer_id list \<times> (xfer_id \<Rightarrow> transfer_state)"

definition final_states :: "transfer_state set" where
  "final_states = {TRANSFER_STATE_COMPLETED, TRANSFER_STATE_FAILED, TRANSFER_STATE_ABORTED}"

inductive fifo_step :: "fifo \<Rightarrow> fifo \<Rightarrow> bool" where
  enqueue: "i \<notin> set q \<Longrightarrow> fifo_step (q, S) (q @ [i], S(i := TRANSFER_STATE_SUBMITTED))"
| dequeue: "st \<in> final_states \<Longrightarrow> fifo_step (i # q, S) (q, S(i := st))"

inductive_cases fifo_stepE: "fifo_step (q, S) (q', S')"

definition fifo_of :: "xdma_engine \<times> kstate \<Rightarrow> fifo" where
  "fifo_of s = (e_transfer_list (fst s), \<lambda>i. x_state (k_xfers (snd s) i))"

text \<open>A prefix of the queue leaves, all with the same state.\<close>

lemma fifo_drain:
  "st \<in> final_states \<Longrightarrow>
   fifo_step\<^sup>*\<^sup>* (s @ r, S) (r, \<lambda>i. if i \<in> set s then st else S i)"
proof (induction s arbitrary: S)
  case (Cons i s)
  have "fifo_step ((i # s) @ r, S) (s @ r, S(i := st))" using Cons.prems by (simp add: dequeue)
  moreover have "fifo_step\<^sup>*\<^sup>* (s @ r, S(i := st)) (r, \<lambda>j. if j \<in> set s then st else (S(i := st)) j)"
    using Cons by blast
  moreover have "(\<lambda>j. if j \<in> set s then st else (S(i := st)) j) = (\<lambda>j. if j \<in> set (i # s) then st else S j)"
    by auto
  ultimately show ?case by (simp add: converse_rtranclp_into_rtranclp)
qed simp

lemma service_refines:
  assumes inv: "engine_inv (e, k)" and run: "engine_service hw mp iod e w k = (rv, e', k')"
  shows "fifo_step\<^sup>*\<^sup>* (fifo_of (e, k)) (fifo_of (e', k'))"
  using run
proof (cases rule: engine_service_cases)
  case none
  then show ?thesis by (simp add: fifo_of_def)
next
  case (count e1 n k1 rv1)
  define s where "s = served (k_xfers k1) (e_transfer_list e1) (n - e_desc_dequeued e1)"
  define r where "r = drop (length s) (e_transfer_list e1)"
  have q: "e_transfer_list e = s @ r"
    unfolding r_def s_def count(2) by (rule served_prefix [symmetric])
  have "sync_queue e1 k1" "\<not> e_eop_flush e1" "distinct (e_transfer_list e1)"
    using inv count by (auto simp: sync_queue_def)
  note res = engine_service_count_sync [OF this s_def r_def count(1)]
  let ?S = "\<lambda>i. x_state (k_xfers k i)" and ?S' = "\<lambda>i. x_state (k_xfers k' i)"
  let ?S1 = "\<lambda>i. if i \<in> set s then TRANSFER_STATE_COMPLETED else ?S i"
  have drain: "fifo_step\<^sup>*\<^sup>* (s @ r, ?S) (r, ?S1)" by (rule fifo_drain) (simp add: final_states_def)
  show ?thesis
  proof (cases r)
    case Nil
    then have "?S' = ?S1" using res count(3) by (auto simp: fun_eq_iff)
    then show ?thesis using drain q Nil res by (simp add: fifo_of_def)
  next
    case (Cons i r')
    define st where "st = ?S' i"
    have st: "st \<in> final_states" using res Cons by (auto simp: st_def final_states_def final_state_def)
    have "i \<notin> set s" using inv q Cons by simp
    then have "?S' = ?S1(i := st)" using res count(3) Cons by (auto simp: fun_eq_iff st_def)
    then have "fifo_step (r, ?S1) (r', ?S')" using dequeue [OF st, of i r' ?S1] Cons by simp
    then show ?thesis using drain q Cons res by (simp add: fifo_of_def rtranclp.rtrancl_into_rtrancl)
  qed
qed

lemma queue_refines:
  assumes "engine_inv (e, k)" and "x_state (k_xfers k i) \<noteq> TRANSFER_STATE_SUBMITTED"
    and q: "transfer_queue hw mp False e i k = (rv, e', k')"
  shows "fifo_step\<^sup>*\<^sup>* (fifo_of (e, k)) (fifo_of (e', k'))"
proof (cases "x_desc_num (k_xfers k i) = 0 \<or> e_shutdown e AND ENGINE_SHUTDOWN_REQUEST \<noteq> 0")
  case True
  then have "e' = e" "k' = k" using transfer_queue_effect [OF q] by metis+
  then show ?thesis by simp
next
  case False
  then have "e_transfer_list e' = e_transfer_list e @ [i]"
    "k_xfers k' = (k_xfers k)(i := (k_xfers k i)\<lparr>x_state := TRANSFER_STATE_SUBMITTED\<rparr>)"
    using transfer_queue_effect [OF q] by simp_all
  moreover have "i \<notin> set (e_transfer_list e)" using assms(1,2) by simp
  ultimately have "fifo_step (fifo_of (e, k)) (fifo_of (e', k'))"
    using enqueue [of i "e_transfer_list e" "\<lambda>i. x_state (k_xfers k i)"] by (simp add: fifo_of_def fun_upd_def if_distrib cong: if_cong)
  then show ?thesis by simp
qed

lemma timeout_refines:
  assumes "engine_inv (e, k)" and "queue_head e = Some i"
    and "transfer_abort e i k = (rv, e', k')"
  shows "fifo_step\<^sup>*\<^sup>* (fifo_of (e, k)) (fifo_of (e', k'))"
proof (cases "x_desc_num (k_xfers k i) = 0")
  case True
  then show ?thesis using assms by (simp add: transfer_abort_def)
next
  case False
  obtain q where q: "e_transfer_list e = i # q"
    using assms(2) by (cases "e_transfer_list e") (simp_all add: queue_head_def)
  then have "x_state (k_xfers k i) = TRANSFER_STATE_SUBMITTED" using assms(1) by simp
  then have "e' = list_del_head e" "k' = set_state i TRANSFER_STATE_ABORTED k"
    using assms(2,3) False by (simp_all add: transfer_abort_def)
  then have "fifo_step (fifo_of (e, k)) (fifo_of (e', k'))"
    using dequeue [of TRANSFER_STATE_ABORTED i q "\<lambda>i. x_state (k_xfers k i)"] q
    by (simp add: fifo_of_def list_del_head_def set_state_def final_states_def fun_upd_def if_distrib cong: if_cong)
  then show ?thesis by simp
qed

lemma engine_step_refines:
  assumes inv: "engine_inv s"
  shows "fifo_step\<^sup>*\<^sup>* (fifo_of s) (fifo_of (engine_step hw mp iod s ev))"
proof -
  obtain e k where s: "s = (e, k)" by (metis surj_pair)
  show ?thesis
  proof (cases ev)
    case (Queue i)
    obtain rv e' k' where q: "transfer_queue hw mp False e i k = (rv, e', k')" by (metis prod_cases3)
    show ?thesis using inv s Queue q queue_refines [OF _ _ q] by simp
  next
    case (Service w)
    obtain rv e' k' where q: "engine_service hw mp iod e w k = (rv, e', k')" by (metis prod_cases3)
    show ?thesis using inv s Service q service_refines [OF _ q] by simp
  next
    case (Timeout i)
    obtain rv e' k' where q: "transfer_abort e i k = (rv, e', k')" by (metis prod_cases3)
    have "fifo_of (snd (xdma_engine_stop mp e' k')) = fifo_of (e', k')"
      by (simp add: xdma_engine_stop_def fifo_of_def Let_def)
    then show ?thesis using inv s Timeout q timeout_refines [OF _ _ q] by simp
  qed
qed



end
