(* ===== verification/Xdma_Kept.thy ===== *)
theory Xdma_Kept
  imports Xdma_Fifo
begin

text \<open>
  What running an engine leaves alone. Callers that wait for a transfer rely on it: servicing,
  queueing and timing out change the run state of the engine and the state of transfers, and
  neither their geometry, the ring, nor any resource.
\<close>

definition eng_core :: "xdma_engine \<Rightarrow> xdma_engine" where
  "eng_core e = e\<lparr>e_running := False, e_shutdown := 0, e_desc_dequeued := 0, e_status := 0,
     e_transfer_list := [], e_xdma_perf := None\<rparr>"

definition xfer_core :: "xdma_transfer \<Rightarrow> xdma_transfer" where
  "xfer_core x = x\<lparr>x_state := TRANSFER_STATE_NEW, x_flags := 0, x_desc_cmpl := 0\<rparr>"

definition kept :: "xdma_engine \<times> kstate \<Rightarrow> xdma_engine \<times> kstate \<Rightarrow> bool" where
  "kept s s' \<longleftrightarrow> eng_core (fst s') = eng_core (fst s) \<and>
     (\<forall>i. xfer_core (k_xfers (snd s') i) = xfer_core (k_xfers (snd s) i)) \<and>
     (\<forall>r. held (k_trace (snd s')) r = held (k_trace (snd s)) r)"

definition sync :: "kstate \<Rightarrow> bool" where
  "sync k \<longleftrightarrow> (\<forall>i. x_cb (k_xfers k i) = None)"

lemma kept_refl [simp]: "kept s s"
  by (simp add: kept_def)

lemma kept_trans [trans]: "kept s t \<Longrightarrow> kept t u \<Longrightarrow> kept s u"
  by (simp add: kept_def)

lemma xfer_coreD:
  assumes "xfer_core x' = xfer_core x"
  shows "x_cb x' = x_cb x" "x_len x' = x_len x" "x_desc_num x' = x_desc_num x" "x_desc_virt x' = x_desc_virt x"
    "x_last_in_request x' = x_last_in_request x" "x_res_virt x' = x_res_virt x"
  using arg_cong [OF assms, of x_cb] arg_cong [OF assms, of x_len] arg_cong [OF assms, of x_desc_num]
    arg_cong [OF assms, of x_desc_virt] arg_cong [OF assms, of x_last_in_request] arg_cong [OF assms, of x_res_virt]
  by (simp_all add: xfer_core_def)

lemma eng_coreD:
  assumes "eng_core e' = eng_core e"
  shows "e_desc_idx e' = e_desc_idx e" "e_desc_used e' = e_desc_used e" "e_streaming e' = e_streaming e"
    "e_dir e' = e_dir e" "e_non_incr_addr e' = e_non_incr_addr e" "e_eop_flush e' = e_eop_flush e"
    "e_magic e' = e_magic e" "e_desc_ring e' = e_desc_ring e" "e_desc_bus e' = e_desc_bus e"
  using arg_cong [OF assms, of e_desc_idx] arg_cong [OF assms, of e_desc_used] arg_cong [OF assms, of e_streaming]
    arg_cong [OF assms, of e_dir] arg_cong [OF assms, of e_non_incr_addr] arg_cong [OF assms, of e_eop_flush]
    arg_cong [OF assms, of e_magic] arg_cong [OF assms, of e_desc_ring] arg_cong [OF assms, of e_desc_bus]
  by (simp_all add: eng_core_def)

lemma kept_sync: "kept (e, k) (e', k') \<Longrightarrow> sync k \<Longrightarrow> sync k'"
  unfolding kept_def sync_def by (metis snd_conv xfer_coreD(1))

lemma kept_eop: "kept (e, k) (e', k') \<Longrightarrow> e_eop_flush e' = e_eop_flush e"
  using eng_coreD(6) [of e' e] by (simp add: kept_def)

lemma kept_trace:
  "(\<forall>r. held t r = 0) \<Longrightarrow> eng_core e' = eng_core e \<Longrightarrow> kept (e, k) (e', k\<lparr>k_trace := k_trace k @ t\<rparr>)"
  by (simp add: kept_def)

lemma kept_set_state [simp]: "kept (e, k) (e, set_state i st k)"
  by (simp add: kept_def set_state_def xfer_core_def)

lemma kept_stop: "xdma_engine_stop mp e k = (rv, e', k') \<Longrightarrow> kept (e, k) (e', k')"
  by (auto simp: xdma_engine_stop_def kept_def eng_core_def Let_def)

lemma kept_shutdown: "engine_service_shutdown mp e k = (rv, e', k') \<Longrightarrow> kept (e, k) (e', k')"
  by (auto simp: engine_service_shutdown_def xdma_engine_stop_def kept_def eng_core_def Let_def)

lemma kept_status: "engine_status_read hw c False e k = (rv, e', k') \<Longrightarrow> kept (e, k) (e', k')"
  by (auto simp: engine_status_read_def kept_def eng_core_def xdma_io)

lemma kept_start: "engine_start hw mp e k = (t, e', k') \<Longrightarrow> kept (e, k) (e', k')"
  by (auto simp: engine_start_def engine_start_mode_config_def engine_status_read_def kept_def eng_core_def
      xdma_io Let_def split: list.splits if_splits)

lemma kept_perf: "engine_service_perf e n k = (rv, e', k') \<Longrightarrow> kept (e, k) (e', k')"
  by (auto simp: engine_service_perf_def kept_def eng_core_def Let_def split: option.splits if_splits)

lemma kept_completion:
  "engine_transfer_completion iod e t k = (t', e', k') \<Longrightarrow> sync k \<Longrightarrow> kept (e, k) (e', k')"
  by (auto simp: engine_transfer_completion_def kept_def sync_def Let_def split: option.splits)

lemma kept_del: "kept (e, k) (list_del_head e, k)"
  by (simp add: kept_def list_del_head_def eng_core_def)

lemma kept_dequeued: "kept (e, k) (e\<lparr>e_desc_dequeued := n\<rparr>, k)"
  by (simp add: kept_def eng_core_def)

lemma kept_cmpl: "kept (e, k) (e, upd_xfer i (\<lambda>x. x\<lparr>x_desc_cmpl := f x\<rparr>) k)"
  by (simp add: kept_def xfer_core_def)

lemma kept_flags: "kept (e, k) (e, upd_xfer i (\<lambda>x. x\<lparr>x_flags := f x\<rparr>) k)"
  by (simp add: kept_def xfer_core_def)

lemma sync_upd [simp]:
  "sync (set_state i st k) = sync k"
  "sync (upd_xfer i (\<lambda>x. x\<lparr>x_desc_cmpl := f x\<rparr>) k) = sync k"
  "sync (upd_xfer i (\<lambda>x. x\<lparr>x_flags := f x\<rparr>) k) = sync k"
  by (auto simp: sync_def set_state_def)

lemma kept_transfer_del:
  assumes "transfer_del iod e i k = (t', e', k')" and "sync k"
  shows "kept (e, k) (e', k')"
  using kept_trans [OF kept_del kept_completion] assms unfolding transfer_del_def by blast

lemma kept_list_loop:
  "service_list_loop f iod e t n k = (t', n', e', k') \<Longrightarrow> sync k \<Longrightarrow> kept (e, k) (e', k')"
proof (induction f arbitrary: e t n k)
  case (Suc f)
  show ?case
  proof (cases t)
    case (Some i)
    show ?thesis
    proof (cases "\<not> x_cyclic (k_xfers k i) \<and> x_desc_num (k_xfers k i) < n")
      case True
      define e1 where "e1 = (list_del_head e)\<lparr>e_desc_dequeued :=
        e_desc_dequeued (list_del_head e) + x_desc_num (k_xfers k i)\<rparr>"
      define k1 where "k1 = set_state i TRANSFER_STATE_COMPLETED k"
      obtain t2 e2 k2 where c: "engine_transfer_completion iod e1 (Some i) k1 = (t2, e2, k2)"
        by (metis prod_cases3)
      have 1: "kept (e, k) (e1, k1)"
        unfolding e1_def k1_def by (rule kept_trans [OF kept_trans [OF kept_del kept_dequeued] kept_set_state])
      have s1: "sync k1" using Suc.prems(2) by (simp add: k1_def)
      note 2 = kept_completion [OF c s1]
      have s2: "sync k2" by (rule kept_sync [OF 2 s1])
      have run: "service_list_loop f iod e2 (queue_head e2) (n - x_desc_num (k_xfers k i)) k2 = (t', n', e', k')"
        using Suc.prems(1) Some True c by (simp add: e1_def k1_def set_state_def Let_def)
      from kept_trans [OF kept_trans [OF 1 2] Suc.IH [OF run s2]] show ?thesis .
    qed (use Suc.prems Some in auto)
  qed (use Suc.prems in auto)
qed auto

lemma kept_err_handle: "engine_err_handle hw mp e i k = (rv, e', k') \<Longrightarrow> kept (e, k) (e', k')"
  by (auto simp: engine_err_handle_def set_state_def xdma_engine_stop_def kept_def eng_core_def xfer_core_def
      xdma_io Let_def)

lemma kept_settle:
  assumes "sync k" and "transfer_del iod (e\<lparr>e_desc_dequeued := m\<rparr>) i
      (upd_xfer i (\<lambda>x. x\<lparr>x_desc_cmpl := f x\<rparr>) (set_state i st k)) = (t', e', k')"
  shows "kept (e, k) (e', k')"
proof -
  let ?k = "upd_xfer i (\<lambda>x. x\<lparr>x_desc_cmpl := f x\<rparr>) (set_state i st k)"
  have "kept (e, k) (e\<lparr>e_desc_dequeued := m\<rparr>, ?k)"
    by (rule kept_trans [OF kept_dequeued kept_trans [OF kept_set_state kept_cmpl]])
  moreover have "kept (e\<lparr>e_desc_dequeued := m\<rparr>, ?k) (e', k')"
    by (rule kept_transfer_del [OF assms(2)]) (simp add: assms(1))
  ultimately show ?thesis by (rule kept_trans)
qed

lemma kept_final:
  assumes "engine_service_final_transfer hw mp iod e t n k = (t', e', k')" and "sync k" and "\<not> e_eop_flush e"
  shows "kept (e, k) (e', k')"
proof (cases t)
  case None
  then show ?thesis using assms(1) by (simp add: engine_service_final_transfer_def)
next
  case (Some i)
  show ?thesis
  proof (cases "engine_error e")
    case True
    obtain rv1 e1 k1 where h: "engine_err_handle hw mp e i k = (rv1, e1, k1)" by (metis prod_cases3)
    note 1 = kept_err_handle [OF h]
    have "transfer_del iod e1 i k1 = (t', e', k')"
      using assms(1) Some True h by (simp add: engine_service_final_transfer_def)
    from kept_trans [OF 1 kept_transfer_del [OF this kept_sync [OF 1 assms(2)]]] show ?thesis .
  next
    case False
    then obtain m f st where "transfer_del iod (e\<lparr>e_desc_dequeued := m\<rparr>) i
        (upd_xfer i (\<lambda>x. x\<lparr>x_desc_cmpl := f x\<rparr>) (set_state i st k)) = (t', e', k')"
      using assms Some by (auto simp: engine_service_final_transfer_def Let_def split: if_splits)
    then show ?thesis using kept_settle assms(2) by blast
  qed
qed

lemma kept_resume: "engine_service_resume hw mp e k = (rv, e', k') \<Longrightarrow> kept (e, k) (e', k')"
  by (auto simp: engine_service_resume_def Let_def split: if_splits prod.splits
      intro: kept_start kept_shutdown) (auto simp: kept_def eng_core_def)

lemma kept_count:
  assumes "engine_service_count hw mp iod e n k = (rv, e', k')" and "sync k" and "\<not> e_eop_flush e"
  shows "kept (e, k) (e', k')"
proof -
  obtain rv1 e1 k1 where perf: "(if queue_head e \<noteq> None then engine_service_perf e n k else (0, e, k)) = (rv1, e1, k1)"
    by (metis prod_cases3)
  have 1: "kept (e, k) (e1, k1)" and rv1: "rv1 = 0"
    using perf kept_perf [of e n k] engine_service_perf_frame [of e n k] by (auto split: if_splits)
  obtain t2 n2 e2 k2 where list: "engine_service_transfer_list iod e1 (queue_head e)
      (n - e_desc_dequeued e1) k1 = (t2, n2, e2, k2)" by (metis prod_cases4)
  obtain t3 e3 k3 where final: "engine_service_final_transfer hw mp iod e2 t2 n2 k2 = (t3, e3, k3)"
    by (metis prod_cases3)
  have s1: "sync k1" by (rule kept_sync [OF 1 assms(2)])
  note 2 = kept_list_loop [OF list [unfolded engine_service_transfer_list_def] s1]
  have eop: "\<not> e_eop_flush e2" using kept_eop [OF kept_trans [OF 1 2]] assms(3) by simp
  note 3 = kept_final [OF final kept_sync [OF 2 s1] eop]
  have eop3: "\<not> e_eop_flush e3" using kept_eop [OF 3] eop by simp
  then have "engine_service_resume hw mp e3 k3 = (rv, e', k')"
    using assms(1) perf list final rv1 by (simp add: engine_service_count_def)
  from kept_trans [OF kept_trans [OF 1 2] kept_trans [OF 3 kept_resume [OF this]]] show ?thesis .
qed

lemma kept_service:
  assumes "engine_service hw mp iod e w k = (rv, e', k')" and "sync k" and "\<not> e_eop_flush e"
  shows "kept (e, k) (e', k')"
proof (cases "e_running e")
  case False
  then show ?thesis using assms(1) kept_status [of hw True e k]
    by (auto simp: engine_service_def Let_def split: prod.splits if_splits)
next
  case True
  obtain rv1 e1 k1 where st: "(if w AND WB_COUNT_MASK = 0 \<or> w AND WB_ERR_MASK \<noteq> 0
      then engine_status_read hw True False e k else (0, e, k)) = (rv1, e1, k1)" by (metis prod_cases3)
  have 1: "kept (e, k) (e1, k1)" "rv1 = 0"
    using st kept_status [of hw True e k] by (auto simp: engine_status_read_eq Let_def split: if_splits)
  obtain rv2 e2 k2 where sh: "(if e_running e1 \<and> e_status e1 AND XDMA_STAT_BUSY = 0 \<or>
      \<not> e_eop_flush e1 \<and> w AND WB_COUNT_MASK \<noteq> 0 then engine_service_shutdown mp e1 k1 else (0, e1, k1)) = (rv2, e2, k2)"
    by (metis prod_cases3)
  have 2: "kept (e1, k1) (e2, k2)" "rv2 = 0"
    using sh kept_shutdown [of mp e1 k1] by (auto simp: engine_service_shutdown_eq split: if_splits)
  obtain c k3 where rd: "(if w AND WB_COUNT_MASK = 0 then reg_read hw (e_regs e2 + er_completed_desc_count) k2
      else (w AND WB_COUNT_MASK, k2)) = (c, k3)" by (metis surj_pair)
  have 3: "kept (e2, k2) (e2, k3)" using rd by (auto simp: xdma_io kept_def split: if_splits)
  note 13 = kept_trans [OF 1(1) kept_trans [OF 2(1) 3]]
  obtain rv4 e4 k4 where cn: "(if c = 0 then (0, e2, k3) else engine_service_count hw mp iod e2 c k3) = (rv4, e4, k4)"
    by (metis prod_cases3)
  have "\<not> e_eop_flush e2" using kept_eop [OF 13] assms(3) by simp
  then have "kept (e2, k3) (e4, k4)"
    using cn kept_count [of hw mp iod e2 c k3] kept_sync [OF 13 assms(2)] by (auto split: if_splits)
  moreover have "e' = e4" "k' = k4"
    using assms(1) True st 1(2) sh 2(2) rd cn by (simp_all add: engine_service_def Let_def)
  ultimately show ?thesis using kept_trans [OF 13] by blast
qed

lemma kept_queue: "transfer_queue hw mp off e i k = (rv, e', k') \<Longrightarrow> kept (e, k) (e', k')"
proof -
  assume run: "transfer_queue hw mp off e i k = (rv, e', k')"
  let ?e = "e\<lparr>e_transfer_list := e_transfer_list e @ [i]\<rparr>" and ?k = "set_state i TRANSFER_STATE_SUBMITTED k"
  have 1: "kept (e, k) (?e, ?k)"
    by (rule kept_trans [OF kept_set_state [of e k i TRANSFER_STATE_SUBMITTED]]) (simp add: kept_def eng_core_def)
  obtain t e1 k1 where st: "engine_start hw mp ?e ?k = (t, e1, k1)" by (metis prod_cases3)
  show ?thesis
    using run st 1 kept_trans [OF 1 kept_start [OF st]]
    by (auto simp: transfer_queue_def Let_def split: if_splits)
qed

lemma kept_abort: "transfer_abort e i k = (rv, e', k') \<Longrightarrow> kept (e, k) (e', k')"
  by (auto simp: transfer_abort_def Let_def kept_def list_del_head_def eng_core_def set_state_def xfer_core_def
      split: if_splits)

text \<open>Every event of an engine keeps the geometry of its transfers, its ring and all resources.\<close>

lemma kept_step:
  assumes "engine_inv s"
  shows "kept s (engine_step hw mp iod s ev)"
proof -
  obtain e k where s: "s = (e, k)" by (metis surj_pair)
  have sync: "sync k" "\<not> e_eop_flush e" using assms s by (simp_all add: sync_def)
  show ?thesis
  proof (cases ev)
    case (Queue i)
    obtain rv e' k' where q: "transfer_queue hw mp False e i k = (rv, e', k')" by (metis prod_cases3)
    show ?thesis using s Queue q kept_queue [OF q] by simp
  next
    case (Service w)
    obtain rv e' k' where q: "engine_service hw mp iod e w k = (rv, e', k')" by (metis prod_cases3)
    show ?thesis using s Service q kept_service [OF q sync] by simp
  next
    case (Timeout i)
    obtain rv e' k' where q: "transfer_abort e i k = (rv, e', k')" by (metis prod_cases3)
    obtain rv2 e2 k2 where st: "xdma_engine_stop mp e' k' = (rv2, e2, k2)" by (metis prod_cases3)
    show ?thesis using s Timeout q st kept_trans [OF kept_abort [OF q] kept_stop [OF st]] by simp
  qed
qed

lemma kept_run: "engine_inv s \<Longrightarrow> kept s (run (engine_step hw mp iod) s evs)"
proof (induction evs arbitrary: s)
  case (Cons ev evs)
  have "engine_inv (engine_step hw mp iod s ev)" by (rule eng.step_invar [OF Cons.prems])
  from kept_trans [OF kept_step [OF Cons.prems] Cons.IH [OF this]] show ?case by simp
qed simp

end
