(* ===== verification/Xdma_Fetch.thy ===== *)
theory Xdma_Fetch
  imports Xdma_Request "HOL-Library.Sublist"
begin

text \<open>
  What the hardware finds in the descriptor ring. An engine that is started at the bus address of a descriptor follows the
  pointers of the ring until a descriptor asks it to stop; each descriptor makes it move bytes between an address
  of the host and an address of the card. The theory relates what is fetched to what a request asks for, byte by byte.
\<close>

section \<open>Following the chain\<close>

type_synonym move = "addr \<times> addr \<times> u32"

text \<open>Host address, card address and length of the move a descriptor describes.\<close>

definition desc_move :: "dma_data_direction \<Rightarrow> xdma_desc \<Rightarrow> move" where
  "desc_move dir d =
     (if dir = DMA_TO_DEVICE then (desc_src d, desc_dst d, d_bytes d) else (desc_dst d, desc_src d, d_bytes d))"

text \<open>The ring lies at bus address \<open>bus\<close>; \<open>f\<close> bounds the number of descriptors fetched.\<close>

fun fetch_chain :: "nat \<Rightarrow> dma_data_direction \<Rightarrow> desc_ring \<Rightarrow> addr \<Rightarrow> addr \<Rightarrow> move list" where
  "fetch_chain 0 dir ring bus a = []"
| "fetch_chain (Suc f) dir ring bus a =
     (let d = ring (unat ((a - bus) div 32))
      in desc_move dir d #
         (if desc_flags d AND XDMA_DESC_STOPPED \<noteq> 0 then [] else fetch_chain f dir ring bus (desc_next d)))"

text \<open>The moves a transfer is meant to make, and that they are what is fetched.\<close>

definition planned :: "xdma_engine \<Rightarrow> xdma_request_cb \<Rightarrow> nat \<Rightarrow> move" where
  "planned e req i =
     (sw_addr (sdesc_at req (unat (r_sw_desc_idx req) + i)), ep_after e req 0 i,
      sw_len (sdesc_at req (unat (r_sw_desc_idx req) + i)))"

definition plan :: "xdma_engine \<Rightarrow> xdma_request_cb \<Rightarrow> move list" where
  "plan e req = map (planned e req) [0..<xfer_count e req]"

lemma ring_index:
  assumes "i < 2048"
  shows "unat (((bus :: addr) + 32 * of_nat i - bus) div 32) = i"
proof -
  have "unat (32 * of_nat i :: addr) = 32 * i"
    using assms by (simp add: unat_word_ariths unat_of_nat)
  then show ?thesis by (simp add: unat_div)
qed

lemma final_desc_move:
  assumes "e_dir e = DMA_TO_DEVICE \<or> e_dir e = DMA_FROM_DEVICE" and "\<not> st_c2h e"
  shows "desc_move (e_dir e) (final_desc e req n i d) = planned e req i"
  using assms by (auto simp: desc_move_def planned_def final_desc_data st_c2h_def)

lemma fetch_chain_plan:
  assumes dir: "e_dir e = DMA_TO_DEVICE \<or> e_dir e = DMA_FROM_DEVICE" and mm: "\<not> st_c2h e"
    and idx: "unat (e_desc_idx e) + n \<le> 2048" and i: "i < n" and f: "n \<le> f + i"
    and ring: "\<And>j. j < n \<Longrightarrow> \<exists>d. ring (unat (e_desc_idx e) + j) = final_desc e req n j d"
  shows "fetch_chain f (e_dir e) ring (e_desc_bus e) (e_desc_bus e + 32 * of_nat (unat (e_desc_idx e) + i)) =
    map (planned e req) [i..<n]"
  using i f
proof (induction f arbitrary: i)
  case (Suc f)
  let ?b = "unat (e_desc_idx e)"
  have at: "unat ((e_desc_bus e + 32 * of_nat (?b + i) - e_desc_bus e) div 32) = ?b + i"
    by (rule ring_index) (use Suc.prems idx in simp)
  obtain d where d: "ring (?b + i) = final_desc e req n i d" using ring Suc.prems by blast
  have stop: "desc_flags (ring (?b + i)) AND XDMA_DESC_STOPPED \<noteq> 0 \<longleftrightarrow> Suc i = n"
    by (simp add: d final_desc_control(2) flag_desc_def XDMA_DESC_STOPPED_def)
  have hd: "[i..<n] = i # [Suc i..<n]" using Suc.prems(1) by (rule upt_conv_Cons)
  show ?case
  proof (cases "Suc i = n")
    case True
    then show ?thesis unfolding fetch_chain.simps at Let_def using stop hd by (simp add: d final_desc_move [OF dir mm])
  next
    case False
    have "?b < 2048" using idx Suc.prems(1) by simp
    from transfer_at_bus(1) [OF this] have "desc_next (ring (?b + i)) = e_desc_bus e + 32 * of_nat (?b + Suc i)"
      unfolding d final_desc_next using False by (simp add: algebra_simps)
    then show ?thesis unfolding fetch_chain.simps at Let_def
      using stop hd False Suc.IH [of "Suc i"] Suc.prems by (simp add: d final_desc_move [OF dir mm])
  qed
qed simp

lemma transfer_init_fetch:
  assumes "xfer_ready e req" and "e_dir e = DMA_TO_DEVICE \<or> e_dir e = DMA_FROM_DEVICE" and "\<not> st_c2h e"
    and "transfer_init e req t = (rv, e', req', x, t')"
  shows "fetch_chain 2048 (e_dir e) (e_desc_ring e') (e_desc_bus e) (x_desc_bus x) = plan e req"
proof -
  note b = xfer_count_bounds [OF assms(1)]
  let ?n = "xfer_count e req"
  have x: "x_desc_bus x = e_desc_bus e + 32 * of_nat (unat (e_desc_idx e) + 0)"
    "e_desc_ring e' = ring_map (unat (e_desc_idx e)) ?n (final_desc e req ?n) (e_desc_ring e)"
    using transfer_init_eq [OF assms(1), of t] assms(1,4) transfer_at_bus(1) [of e] by (auto simp: xfer_ready_def)
  show ?thesis
    unfolding x(1) plan_def by (rule fetch_chain_plan [OF assms(2,3)]) (use b in \<open>auto simp: x(2)\<close>)
qed

section \<open>Bytes\<close>

text \<open>\<open>span a n\<close>: \<open>n\<close> consecutive addresses; the pairs of addresses between which the bytes of a move go.\<close>

definition span :: "addr \<Rightarrow> nat \<Rightarrow> addr list" where
  "span a n = map (\<lambda>j. a + of_nat j) [0..<n]"

definition move_bytes :: "move list \<Rightarrow> (addr \<times> addr) list" where
  "move_bytes ms = concat (map (\<lambda>(h, c, n). zip (span h (unat n)) (span c (unat n))) ms)"

definition sw_bytes :: "sw_desc list \<Rightarrow> addr list" where
  "sw_bytes ds = concat (map (\<lambda>d. span (sw_addr d) (unat (sw_len d))) ds)"

definition sg_bytes :: "sg_entry list \<Rightarrow> addr list" where
  "sg_bytes sgl = concat (map (\<lambda>sg. span (sg_dma_address sg) (unat (sg_dma_len sg))) sgl)"

lemma length_span [simp]: "length (span a n) = n"
  by (simp add: span_def)

lemma span_0 [simp]: "span a 0 = []"
  by (simp add: span_def)

lemma span_add: "span a (m + n) = span a m @ span (a + of_nat m) n"
  by (induction n) (simp_all add: span_def add.assoc)

lemma move_bytes_append [simp]: "move_bytes (xs @ ys) = move_bytes xs @ move_bytes ys"
  by (simp add: move_bytes_def)

lemma move_bytes_Nil [simp]: "move_bytes [] = []"
  and move_bytes_Cons [simp]: "move_bytes ((h, c, n) # ms) = zip (span h (unat n)) (span c (unat n)) @ move_bytes ms"
  by (simp_all add: move_bytes_def)

text \<open>The pieces of a segment are its bytes, in order.\<close>

lemma covers_bytes: "covers a n ds \<Longrightarrow> sw_bytes ds = span a n"
proof (induction a n ds rule: covers.induct)
  case (2 a n d ds)
  then have n: "n = unat (sw_len d) + (n - unat (sw_len d))" by simp
  have "sw_bytes (d # ds) = span a (unat (sw_len d)) @ span (a + of_nat (unat (sw_len d))) (n - unat (sw_len d))"
    using 2 by (simp add: sw_bytes_def)
  also have "\<dots> = span a n" by (subst n) (rule span_add [symmetric])
  finally show ?case .
qed (simp add: sw_bytes_def)

lemma list_all2_covers_bytes:
  "list_all2 (\<lambda>sg ds. covers (sg_dma_address sg) (unat (sg_dma_len sg)) ds \<and> Q sg ds) sgl dss \<Longrightarrow>
   sw_bytes (concat dss) = sg_bytes sgl"
proof (induction sgl dss rule: list_all2_induct)
  case (Cons sg sgl ds dss)
  have "sw_bytes (ds @ concat dss) = sw_bytes ds @ sw_bytes (concat dss)" by (simp add: sw_bytes_def)
  then show ?case using Cons covers_bytes [of "sg_dma_address sg" "unat (sg_dma_len sg)" ds]
    by (simp add: sg_bytes_def)
qed (simp add: sw_bytes_def sg_bytes_def)

text \<open>The software descriptors \<open>m\<close> to \<open>m + n\<close> of a request, and their lengths.\<close>

definition some_sdesc :: "xdma_request_cb \<Rightarrow> nat \<Rightarrow> nat \<Rightarrow> sw_desc list" where
  "some_sdesc req m n = map (sdesc_at req) [m..<m + n]"

lemma some_sdesc_upd [simp]:
  "some_sdesc (req\<lparr>r_ep_addr := a\<rparr>) = some_sdesc req" "some_sdesc (req\<lparr>r_sw_desc_idx := i\<rparr>) = some_sdesc req"
  by (intro ext, simp add: some_sdesc_def sdesc_at_def cong: if_cong)+

lemma some_sdesc_add: "some_sdesc req m (n + p) = some_sdesc req m n @ some_sdesc req (m + n) p"
  by (simp add: some_sdesc_def upt_add_eq_append [of m "m + n" p] add.assoc [symmetric])

lemma length_sw_bytes: "length (sw_bytes ds) = (\<Sum>d\<leftarrow>ds. unat (sw_len d))"
  by (simp add: sw_bytes_def length_concat comp_def)

text \<open>
  On an engine that advances the card address, the bytes of a transfer go to consecutive addresses of the card from the
  request's address on.
\<close>

lemma plan_bytes_upto:
  assumes "\<not> e_non_incr_addr e"
  shows "move_bytes (map (planned e req) [0..<n]) =
    (let host = sw_bytes (some_sdesc req (unat (r_sw_desc_idx req)) n) in zip host (span (r_ep_addr req) (length host))) \<and>
    ep_after e req 0 n = r_ep_addr req + of_nat (length (sw_bytes (some_sdesc req (unat (r_sw_desc_idx req)) n)))"
proof (induction n)
  case 0
  then show ?case by (simp add: some_sdesc_def sw_bytes_def ep_after_def)
next
  case (Suc n)
  let ?i = "unat (r_sw_desc_idx req)"
  let ?host = "sw_bytes (some_sdesc req ?i n)" and ?sd = "sdesc_at req (?i + n)"
  have host: "sw_bytes (some_sdesc req ?i (Suc n)) = ?host @ span (sw_addr ?sd) (unat (sw_len ?sd))"
    by (simp add: some_sdesc_def sw_bytes_def)
  have ep: "ep_after e req 0 (Suc n) = ep_after e req 0 n + of_nat (unat (sw_len ?sd))"
    using assms by (simp add: ep_after_def bytes_before_def)
  have "move_bytes (map (planned e req) [0..<Suc n]) =
      zip ?host (span (r_ep_addr req) (length ?host)) @
      zip (span (sw_addr ?sd) (unat (sw_len ?sd))) (span (r_ep_addr req + of_nat (length ?host)) (unat (sw_len ?sd)))"
    using Suc by (simp add: planned_def [of e req n] Let_def)
  also have "\<dots> = zip (?host @ span (sw_addr ?sd) (unat (sw_len ?sd)))
      (span (r_ep_addr req) (length ?host + unat (sw_len ?sd)))"
    by (simp add: span_add)
  finally show ?case using Suc ep by (simp add: host Let_def)
qed

text \<open>What is left of a request, and what a transfer takes off it.\<close>

definition left_bytes :: "xdma_request_cb \<Rightarrow> (addr \<times> addr) list" where
  "left_bytes req =
     (let host = sw_bytes (some_sdesc req (unat (r_sw_desc_idx req)) (unat (r_sw_desc_cnt req) - unat (r_sw_desc_idx req)))
      in zip host (span (r_ep_addr req) (length host)))"

lemma left_bytes_step:
  assumes ready: "xfer_ready e req" and incr: "\<not> e_non_incr_addr e"
    and idx: "unat (r_sw_desc_idx req + of_nat (xfer_count e req)) = unat (r_sw_desc_idx req) + xfer_count e req"
  shows "left_bytes req = move_bytes (plan e req) @
    left_bytes (req\<lparr>r_ep_addr := ep_after e req 0 (xfer_count e req), r_sw_desc_idx := r_sw_desc_idx req + of_nat (xfer_count e req)\<rparr>)"
    (is "_ = _ @ left_bytes ?req")
proof -
  let ?n = "xfer_count e req" and ?i = "unat (r_sw_desc_idx req)" and ?c = "unat (r_sw_desc_cnt req)"
  let ?A = "sw_bytes (some_sdesc req ?i ?n)" and ?B = "sw_bytes (some_sdesc req (?i + ?n) (?c - (?i + ?n)))"
  have n: "?c - ?i = ?n + (?c - (?i + ?n))" using xfer_count_bounds(4) [OF ready] by simp
  have AB: "sw_bytes (some_sdesc req ?i (?c - ?i)) = ?A @ ?B"
    unfolding n some_sdesc_add by (simp add: sw_bytes_def)
  note p = plan_bytes_upto [OF incr, of req ?n]
  have "left_bytes ?req = zip ?B (span (r_ep_addr req + of_nat (length ?A)) (length ?B))"
    using p idx by (simp add: left_bytes_def Let_def)
  moreover have "move_bytes (plan e req) = zip ?A (span (r_ep_addr req) (length ?A))"
    using p by (simp add: plan_def Let_def)
  moreover have "left_bytes req = zip (?A @ ?B) (span (r_ep_addr req) (length ?A + length ?B))"
    by (simp add: left_bytes_def AB Let_def)
  ultimately show ?thesis by (simp add: span_add)
qed

end
