(* ===== verification/Xdma_Submit.thy ===== *)
theory Xdma_Submit
  imports Xdma_Open Xdma_Kept Xdma_Fetch
begin

text \<open>
  Submitting a request: the blocking \<^verbatim>\<open>xdma_xfer_submit\<close>, its asynchronous variant and the completion
  of that, and the cyclic transfer of a performance run. What happens while a caller waits for a
  transfer (interrupts, polling threads, other callers) is the parameter \<open>io_wait\<close>; \<open>None\<close> is a wait that
  never ends, and, in the asynchronous functions, an access past the two transfers of a request.
\<close>

section \<open>Scatter lists\<close>

record sg_table =
  sgt_orig :: "sg_entry list"
  sgt_nents :: nat
  sgt_sgl :: "sg_entry list"

record io_services =
  io_kmem :: "nat \<Rightarrow> bool"
  io_map_sg :: "sg_entry list \<Rightarrow> sg_entry list"
  io_wait :: "int \<Rightarrow> xfer_id \<Rightarrow> xdma_engine \<Rightarrow> kstate \<Rightarrow> (xdma_engine \<times> kstate) option"

text \<open>\<^verbatim>\<open>pci_map_sg\<close> yields the mapped entries, none when it fails.\<close>

definition map_sgl ::
    "io_services \<Rightarrow> bool \<Rightarrow> sg_table \<Rightarrow> kstate \<Rightarrow> int \<times> sg_table \<times> kstate" where
  "map_sgl ios dma_mapped sgt k =
     (if \<not> dma_mapped
      then let sgl = io_map_sg ios (sgt_orig sgt); nents = length sgl
           in if nents = 0 then (- EIO, sgt, k)
              else (0, sgt\<lparr>sgt_nents := nents, sgt_sgl := sgl\<rparr>, log_event (Acquire (ResSg nents)) k)
      else if sgt_nents sgt = 0 then (- EIO, sgt, k) else (0, sgt, k))"

definition unmap_sgl :: "bool \<Rightarrow> sg_table \<Rightarrow> kstate \<Rightarrow> sg_table \<times> kstate" where
  "unmap_sgl dma_mapped sgt k =
     (if \<not> dma_mapped \<and> sgt_nents sgt \<noteq> 0
      then (sgt\<lparr>sgt_nents := 0\<rparr>, log_event (Release (ResSg (sgt_nents sgt))) k) else (sgt, k))"

section \<open>Choosing the engine\<close>

definition xfer_dir :: "bool \<Rightarrow> dma_data_direction" where
  "xfer_dir write = (if write then DMA_TO_DEVICE else DMA_FROM_DEVICE)"

definition channel_max :: "xdma_dev \<Rightarrow> bool \<Rightarrow> nat" where
  "channel_max v write = (if write then v_h2c_channel_max v else v_c2h_channel_max v)"

text \<open>The tests that open both submit functions: 0 when the request may go on.\<close>

definition submit_check :: "driver \<Rightarrow> nat \<Rightarrow> xdma_dev \<Rightarrow> nat \<Rightarrow> bool \<Rightarrow> int" where
  "submit_check d h v channel write =
     (if debug_check_dev_hndl d (v_pdev v) h < 0 then - EINVAL
      else if channel_max v write \<le> channel then - EINVAL
      else let engine = dir_engines (xfer_dir write) v channel in
           if e_magic engine \<noteq> MAGIC_ENGINE then - EINVAL
           else if xdma_device_flag_check v XDEV_FLAG_OFFLINE then - EBUSY
           else if e_dir engine \<noteq> xfer_dir write then - EINVAL else 0)"

section \<open>The blocking submission\<close>

text \<open>The lengths in the write-back records of a card-to-host stream: \<open>n\<close> records from address \<open>a\<close>.\<close>

fun sum_lengths :: "device \<Rightarrow> addr \<Rightarrow> nat \<Rightarrow> kstate \<Rightarrow> int \<times> kstate" where
  "sum_lengths hw a 0 k = (0, k)"
| "sum_lengths hw a (Suc n) k =
     (let (w, k) = mem_read hw (a + 4) k;
          (s, k) = sum_lengths hw (a + sizeof_xdma_result) n k
      in (uint w + s, k))"

definition xfer_timeout :: "device \<Rightarrow> modparams \<Rightarrow> xdma_engine \<Rightarrow> xfer_id \<Rightarrow> kstate \<Rightarrow> xdma_engine \<times> kstate" where
  "xfer_timeout hw mp e i k =
     (let (rv, e, k) = engine_status_read hw False True e k in
      if rv = 0
      then let (rv, e, k) = transfer_abort e i k in
           if rv = 0 then snd (xdma_engine_stop mp e k) else (e, k)
      else (e, k))"

text \<open>The \<^verbatim>\<open>switch\<close> over the state of the transfer after the wait: the return code, the bytes it adds and whether
  the rest of the request is dropped.\<close>

definition xfer_result ::
    "device \<Rightarrow> modparams \<Rightarrow> xdma_engine \<Rightarrow> xfer_id \<Rightarrow> kstate \<Rightarrow> int \<times> int \<times> bool \<times> xdma_engine \<times> kstate" where
  "xfer_result hw mp e i k =
     (let xfer = k_xfers k i in
      if x_state xfer = TRANSFER_STATE_COMPLETED
      then if st_c2h e
           then let (n, k) = sum_lengths hw (x_res_virt xfer) (nat (sint (x_desc_cmpl xfer))) k
                in (0, n, e_eop_flush e, e, k)
           else (0, uint (x_len xfer), False, e, k)
      else if x_state xfer = TRANSFER_STATE_FAILED then (- EIO, 0, False, e, k)
      else let (e, k) = xfer_timeout hw mp e i k in (- ERESTARTSYS, 0, False, e, k))"

text \<open>\<^verbatim>\<open>xdma_kthread_wakeup\<close> raises the thread's \<^verbatim>\<open>schedule\<close> flag and wakes it; the threads live outside
  this state, so both are the one event.\<close>

definition wake_thread :: "xdma_engine \<Rightarrow> kstate \<Rightarrow> kstate" where
  "wake_thread e k = (case e_cmplthp e of Some t \<Rightarrow> log_event (WakeUp (ThreadWq t)) k | None \<Rightarrow> k)"

text \<open>Filling in the rest of a transfer once \<^verbatim>\<open>transfer_init\<close> has programmed it.\<close>

definition xfer_prepare :: "bool \<Rightarrow> nat option \<Rightarrow> s32 \<Rightarrow> xdma_transfer \<Rightarrow> xdma_transfer" where
  "xfer_prepare dma_mapped cb nents xfer =
     (let xfer = xfer\<lparr>x_cb := cb\<rparr>;
          xfer = (if \<not> dma_mapped then xfer\<lparr>x_flags := XFER_FLAG_NEED_UNMAP\<rparr> else xfer)
      in if nents = 0 then xfer\<lparr>x_last_in_request := True, x_sgt := True\<rparr> else xfer)"

text \<open>What follows the wait in one round of the loop.\<close>

definition xfer_retire ::
    "device \<Rightarrow> modparams \<Rightarrow> xdma_engine \<Rightarrow> xfer_id \<Rightarrow> sg_table \<Rightarrow> kstate
     \<Rightarrow> int \<times> int \<times> bool \<times> xdma_engine \<times> sg_table \<times> kstate" where
  "xfer_retire hw mp e i sgt k =
     (let (rv, n, flush, e, k) = xfer_result hw mp e i k;
          xfer = k_xfers k i;
          e = e\<lparr>e_desc_used := e_desc_used e - x_desc_num xfer\<rparr>;
          (e, nents, t) = transfer_destroy e xfer (sgt_nents sgt) (k_trace k)
      in (rv, n, flush, e, sgt\<lparr>sgt_nents := nents\<rparr>, k\<lparr>k_trace := t\<rparr>))"

partial_function (option) submit_loop ::
    "device \<Rightarrow> modparams \<Rightarrow> io_services \<Rightarrow> bool \<Rightarrow> int \<Rightarrow> bool \<Rightarrow> xdma_request_cb \<Rightarrow> s32 \<Rightarrow> int \<Rightarrow> sg_table
     \<Rightarrow> xdma_engine \<Rightarrow> kstate \<Rightarrow> (int \<times> int \<times> sg_table \<times> xdma_engine \<times> kstate) option" where
  [code]: "submit_loop hw mp ios offline timeout_ms dma_mapped req nents count sgt e k =
     (if nents = 0 then Some (0, count, sgt, e, k)
      else let (rv, e, req, xfer, t) = transfer_init e req (k_trace k);
               k = k\<lparr>k_trace := t\<rparr>
           in if rv < 0 then Some (rv, count, sgt, e, k)
              else let nents = nents - x_desc_num xfer;
                       k = upd_xfer (r_tfer req) (\<lambda>_. xfer_prepare dma_mapped None nents xfer) k;
                       (rv, e, k) = transfer_queue hw mp offline e (r_tfer req) k
                   in if rv < 0 then Some (rv, count, sgt, e, k)
                      else case io_wait ios timeout_ms (r_tfer req) e (wake_thread e k) of
                             None \<Rightarrow> None
                           | Some (e, k) \<Rightarrow>
                               let (rv, n, flush, e, sgt, k) = xfer_retire hw mp e (r_tfer req) sgt k in
                               if rv < 0 then Some (rv, count + n, sgt, e, k)
                               else submit_loop hw mp ios offline timeout_ms dma_mapped req
                                      (if flush then 0 else nents) (count + n) sgt e k)"

text \<open>
  One round of the loop, labelled with the moves that the engine finds in its ring once the transfer is queued, and the
  runs of the loop as sequences of rounds. \<open>None\<close> is a wait that never ends.
\<close>

type_synonym submit_state = "xdma_request_cb \<times> s32 \<times> int \<times> sg_table \<times> xdma_engine \<times> kstate"
type_synonym submit_result = "int \<times> int \<times> sg_table \<times> xdma_engine \<times> kstate"

definition submit_step ::
    "device \<Rightarrow> modparams \<Rightarrow> io_services \<Rightarrow> bool \<Rightarrow> int \<Rightarrow> bool \<Rightarrow> submit_state
     \<Rightarrow> (move list \<times> (submit_result + submit_state)) option" where
  "submit_step hw mp ios offline timeout_ms dma_mapped s =
     (case s of (req, nents, count, sgt, e, k) \<Rightarrow>
        if nents = 0 then Some ([], Inl (0, count, sgt, e, k))
        else let (rv, e, req, xfer, t) = transfer_init e req (k_trace k);
                 k = k\<lparr>k_trace := t\<rparr>
             in if rv < 0 then Some ([], Inl (rv, count, sgt, e, k))
                else let nents = nents - x_desc_num xfer;
                         k = upd_xfer (r_tfer req) (\<lambda>_. xfer_prepare dma_mapped None nents xfer) k;
                         (rv, e, k) = transfer_queue hw mp offline e (r_tfer req) k
                     in if rv < 0 then Some ([], Inl (rv, count, sgt, e, k))
                        else let mv = fetch_chain 2048 (e_dir e) (e_desc_ring e) (e_desc_bus e) (x_desc_bus xfer)
                             in case io_wait ios timeout_ms (r_tfer req) e (wake_thread e k) of
                                  None \<Rightarrow> None
                                | Some (e, k) \<Rightarrow>
                                    let (rv, n, flush, e, sgt, k) = xfer_retire hw mp e (r_tfer req) sgt k
                                    in if rv < 0 then Some (mv, Inl (rv, count + n, sgt, e, k))
                                       else Some (mv, Inr (req, if flush then 0 else nents, count + n, sgt, e, k)))"

inductive submit_run ::
    "device \<Rightarrow> modparams \<Rightarrow> io_services \<Rightarrow> bool \<Rightarrow> int \<Rightarrow> bool \<Rightarrow> submit_state \<Rightarrow> move list \<Rightarrow> submit_result \<Rightarrow> bool"
  for hw mp ios offline timeout_ms dma_mapped where
  run_stop: "submit_step hw mp ios offline timeout_ms dma_mapped s = Some (mv, Inl r) \<Longrightarrow>
     submit_run hw mp ios offline timeout_ms dma_mapped s mv r"
| run_go: "submit_step hw mp ios offline timeout_ms dma_mapped s = Some (mv, Inr s') \<Longrightarrow>
     submit_run hw mp ios offline timeout_ms dma_mapped s' ms r \<Longrightarrow>
     submit_run hw mp ios offline timeout_ms dma_mapped s (mv @ ms) r"

lemma submit_loop_step:
  "submit_loop hw mp ios offline timeout_ms dma_mapped req nents count sgt e k =
     (case submit_step hw mp ios offline timeout_ms dma_mapped (req, nents, count, sgt, e, k) of
        None \<Rightarrow> None
      | Some (_, Inl r) \<Rightarrow> Some r
      | Some (_, Inr (req, nents, count, sgt, e, k)) \<Rightarrow>
          submit_loop hw mp ios offline timeout_ms dma_mapped req nents count sgt e k)"
  by (subst submit_loop.simps) (simp add: submit_step_def Let_def split: option.split prod.split)

text \<open>The runs are runs of the loop.\<close>

lemma submit_run_loop:
  "submit_run hw mp ios offline timeout_ms dma_mapped s ms r \<Longrightarrow>
   (case s of (req, nents, count, sgt, e, k) \<Rightarrow>
      submit_loop hw mp ios offline timeout_ms dma_mapped req nents count sgt e k) = Some r"
proof (induction rule: submit_run.induct)
  case (run_stop s mv r)
  then show ?case by (cases s) (simp add: submit_loop_step)
next
  case (run_go s mv s' ms r)
  then show ?case by (cases s; cases s') (simp add: submit_loop_step)
qed

text \<open>The body of \<^verbatim>\<open>xdma_xfer_submit\<close> once the engine is chosen.\<close>

definition submit_body ::
    "device \<Rightarrow> modparams \<Rightarrow> io_services \<Rightarrow> bool \<Rightarrow> xfer_id \<Rightarrow> u64 \<Rightarrow> sg_table \<Rightarrow> bool \<Rightarrow> int
     \<Rightarrow> xdma_engine \<Rightarrow> kstate \<Rightarrow> (int \<times> sg_table \<times> xdma_engine \<times> kstate) option" where
  "submit_body hw mp ios offline tfer ep_addr sgt dma_mapped timeout_ms e k =
     (let (rv, sgt, k) = map_sgl ios dma_mapped sgt k in
      if rv < 0 then Some (rv, sgt, e, k)
      else case xdma_init_request mp (io_kmem ios) tfer (sgt_sgl sgt) ep_addr of
             None \<Rightarrow> None
           | Some None \<Rightarrow> let (sgt, k) = unmap_sgl dma_mapped sgt k in Some (- ENOMEM, sgt, e, k)
           | Some (Some req) \<Rightarrow>
               (case submit_loop hw mp ios offline timeout_ms dma_mapped req (r_sw_desc_cnt req) 0 sgt e k of
                  None \<Rightarrow> None
                | Some (rv, count, sgt, e, k) \<Rightarrow>
                    let (sgt, k) = unmap_sgl dma_mapped sgt k
                    in Some (if count \<noteq> 0 then count else rv, sgt, e, k)))"

definition put_engine :: "driver \<Rightarrow> nat \<Rightarrow> xdma_dev \<Rightarrow> bool \<Rightarrow> nat \<Rightarrow> xdma_engine \<Rightarrow> driver" where
  "put_engine d h v write channel e =
     d\<lparr>d_devs := (d_devs d)(h := Some (set_engine (xfer_dir write) channel e v))\<rparr>"

definition xdma_xfer_submit ::
    "device \<Rightarrow> modparams \<Rightarrow> io_services \<Rightarrow> xfer_id \<Rightarrow> nat option \<Rightarrow> nat \<Rightarrow> bool \<Rightarrow> u64 \<Rightarrow> sg_table \<Rightarrow> bool \<Rightarrow> int
     \<Rightarrow> driver \<Rightarrow> kstate \<Rightarrow> (int \<times> sg_table \<times> driver \<times> kstate) option" where
  "xdma_xfer_submit hw mp ios tfer hndl channel write ep_addr sgt dma_mapped timeout_ms d k =
     (case hndl of
        None \<Rightarrow> Some (- EINVAL, sgt, d, k)
      | Some h \<Rightarrow>
          (case d_devs d h of
             None \<Rightarrow> None
           | Some v \<Rightarrow>
               let rv = submit_check d h v channel write in
               if rv < 0 then Some (rv, sgt, d, k)
               else (case submit_body hw mp ios (xdma_device_flag_check v XDEV_FLAG_OFFLINE) tfer ep_addr sgt
                            dma_mapped timeout_ms (dir_engines (xfer_dir write) v channel) k of
                       None \<Rightarrow> None
                     | Some (rv, sgt, e, k) \<Rightarrow> Some (rv, sgt, put_engine d h v write channel e, k))))"

section \<open>The asynchronous submission and its completion\<close>

text \<open>
  The two transfers of a request, \<^verbatim>\<open>req->tfer[0]\<close> and \<^verbatim>\<open>req->tfer[1]\<close>, are numbered \<open>r_tfer req\<close> and
  its successor; \<open>n\<close> counts the ones left. \<^verbatim>\<open>transfer_init\<close> returns 0 in every case, so the branch for its failure
  has no counterpart.
\<close>

fun nowait_loop ::
    "device \<Rightarrow> modparams \<Rightarrow> bool \<Rightarrow> bool \<Rightarrow> nat \<Rightarrow> nat \<Rightarrow> nat \<Rightarrow> xdma_request_cb \<Rightarrow> s32 \<Rightarrow> xdma_engine \<Rightarrow> kstate
     \<Rightarrow> (int \<times> xdma_request_cb \<times> xdma_engine \<times> kstate) option" where
  "nowait_loop hw mp offline dma_mapped cb 0 idx req nents e k =
     (if nents = 0 then Some (- EIOCBQUEUED, req, e, k) else None)"
| "nowait_loop hw mp offline dma_mapped cb (Suc n) idx req nents e k =
     (if nents = 0 then Some (- EIOCBQUEUED, req, e, k)
      else let (rv, e, req, xfer, t) = transfer_init e req (k_trace k);
               k = k\<lparr>k_trace := t\<rparr>;
               nents = nents - x_desc_num xfer;
               i = r_tfer req + idx;
               k = upd_xfer i (\<lambda>_. xfer_prepare dma_mapped (Some cb) nents xfer) k;
               (rv, e, k) = transfer_queue hw mp offline e i k
           in if rv < 0 then Some (rv, req, e, k)
              else nowait_loop hw mp offline dma_mapped cb n (Suc idx) req nents e k)"

definition nowait_body ::
    "device \<Rightarrow> modparams \<Rightarrow> io_services \<Rightarrow> bool \<Rightarrow> xfer_id \<Rightarrow> nat \<Rightarrow> u64 \<Rightarrow> sg_table \<Rightarrow> bool
     \<Rightarrow> xdma_engine \<Rightarrow> kstate \<Rightarrow> (int \<times> xdma_request_cb option \<times> sg_table \<times> xdma_engine \<times> kstate) option" where
  "nowait_body hw mp ios offline tfer cb ep_addr sgt dma_mapped e k =
     (let (rv, sgt, k) = map_sgl ios dma_mapped sgt k in
      if rv < 0 then Some (rv, None, sgt, e, k)
      else case xdma_init_request mp (io_kmem ios) tfer (sgt_sgl sgt) ep_addr of
             None \<Rightarrow> None
           | Some None \<Rightarrow> let (sgt, k) = unmap_sgl dma_mapped sgt k in Some (- ENOMEM, None, sgt, e, k)
           | Some (Some req) \<Rightarrow>
               let req = req\<lparr>r_cb := Some cb\<rparr> in
               (case nowait_loop hw mp offline dma_mapped cb 2 0 req (r_sw_desc_cnt req) e k of
                  None \<Rightarrow> None
                | Some (rv, req, e, k) \<Rightarrow>
                    if rv = - EIOCBQUEUED then Some (rv, Some req, sgt, e, k)
                    else let (sgt, k) = unmap_sgl dma_mapped sgt k in Some (rv, None, sgt, e, k)))"

definition xdma_xfer_submit_nowait ::
    "device \<Rightarrow> modparams \<Rightarrow> io_services \<Rightarrow> xfer_id \<Rightarrow> nat \<Rightarrow> nat option \<Rightarrow> nat \<Rightarrow> bool \<Rightarrow> u64 \<Rightarrow> sg_table \<Rightarrow> bool
     \<Rightarrow> driver \<Rightarrow> kstate \<Rightarrow> (int \<times> xdma_request_cb option \<times> sg_table \<times> driver \<times> kstate) option" where
  "xdma_xfer_submit_nowait hw mp ios tfer cb hndl channel write ep_addr sgt dma_mapped d k =
     (case hndl of
        None \<Rightarrow> Some (- EINVAL, None, sgt, d, k)
      | Some h \<Rightarrow>
          (case d_devs d h of
             None \<Rightarrow> None
           | Some v \<Rightarrow>
               let rv = submit_check d h v channel write in
               if rv < 0 then Some (rv, None, sgt, d, k)
               else (case nowait_body hw mp ios (xdma_device_flag_check v XDEV_FLAG_OFFLINE) tfer cb ep_addr sgt
                            dma_mapped (dir_engines (xfer_dir write) v channel) k of
                       None \<Rightarrow> None
                     | Some (rv, req, sgt, e, k) \<Rightarrow> Some (rv, req, sgt, put_engine d h v write channel e, k))))"

text \<open>
  The completion runs inside the engine's service routine and works on its engine. Unlike the
  blocking path it counts all descriptors of a stream transfer, and it releases the slots of the
  ring after the descriptors. \<open>cmax\<close> is the number of channels of its direction.
\<close>

definition completion_result ::
    "device \<Rightarrow> modparams \<Rightarrow> xdma_engine \<Rightarrow> xfer_id \<Rightarrow> kstate \<Rightarrow> int \<times> int \<times> xdma_engine \<times> kstate" where
  "completion_result hw mp e i k =
     (let xfer = k_xfers k i in
      if x_state xfer = TRANSFER_STATE_COMPLETED
      then if st_c2h e
           then let (n, k) = sum_lengths hw (x_res_virt xfer) (nat (sint (x_desc_num xfer))) k in (0, n, e, k)
           else (0, uint (x_len xfer), e, k)
      else if x_state xfer = TRANSFER_STATE_FAILED then (- EIO, 0, e, k)
      else let (_, e, k) = engine_status_read hw False True e k;
               (_, e, k) = transfer_abort e i k;
               (_, e, k) = xdma_engine_stop mp e k
           in (- ERESTARTSYS, 0, e, k))"

fun completion_loop ::
    "device \<Rightarrow> modparams \<Rightarrow> nat \<Rightarrow> xfer_id \<Rightarrow> s32 \<Rightarrow> int \<Rightarrow> sg_table \<Rightarrow> xdma_engine \<Rightarrow> kstate
     \<Rightarrow> (int \<times> sg_table \<times> xdma_engine \<times> kstate) option" where
  "completion_loop hw mp 0 i nents count sgt e k = (if nents = 0 then Some (count, sgt, e, k) else None)"
| "completion_loop hw mp (Suc m) i nents count sgt e k =
     (if nents = 0 then Some (count, sgt, e, k)
      else let nents = nents - x_desc_num (k_xfers k i);
               (rv, n, e, k) = completion_result hw mp e i k;
               (e, sgn, t) = transfer_destroy e (k_xfers k i) (sgt_nents sgt) (k_trace k);
               sgt = sgt\<lparr>sgt_nents := sgn\<rparr>; k = k\<lparr>k_trace := t\<rparr>;
               e = e\<lparr>e_desc_used := e_desc_used e - x_desc_num (k_xfers k i)\<rparr>
           in if rv < 0 then Some (count + n, sgt, e, k)
              else completion_loop hw mp m (Suc i) nents (count + n) sgt e k)"

definition xdma_xfer_completion ::
    "device \<Rightarrow> modparams \<Rightarrow> nat \<Rightarrow> nat \<Rightarrow> xdma_request_cb \<Rightarrow> sg_table \<Rightarrow> bool \<Rightarrow> xdma_engine \<Rightarrow> kstate
     \<Rightarrow> (int \<times> sg_table \<times> xdma_engine \<times> kstate) option" where
  "xdma_xfer_completion hw mp cmax channel req sgt dma_mapped e k =
     (if cmax \<le> channel then Some (- EINVAL, sgt, e, k)
      else if e_magic e \<noteq> MAGIC_ENGINE then Some (- EINVAL, sgt, e, k)
      else case completion_loop hw mp 2 (r_tfer req) (r_sw_desc_cnt req) 0 sgt e k of
             None \<Rightarrow> None
           | Some (count, sgt, e, k) \<Rightarrow>
               let (sgt, k) = unmap_sgl dma_mapped sgt k in Some (count, sgt, e, k))"

section \<open>The cyclic transfer of a performance run\<close>

definition XDMA_PERF_NUM_DESC :: nat where [xdma_consts]: "XDMA_PERF_NUM_DESC = 128"

definition perf_max_size :: nat where
  "perf_max_size = XDMA_PERF_NUM_DESC * 32 * 1024"

definition perf_desc_num :: "nat \<Rightarrow> nat" where
  "perf_desc_num size_in_desc =
     (if perf_max_size < size_in_desc * XDMA_PERF_NUM_DESC then perf_max_size div size_in_desc
      else XDMA_PERF_NUM_DESC)"

definition perf_ring :: "xdma_engine \<Rightarrow> u32 \<Rightarrow> nat \<Rightarrow> desc_ring" where
  "perf_ring e len n =
     (let ring = snd (transfer_desc_init 0 (e_desc_bus e) (of_nat n) (e_desc_ring e));
          ring = ring_map 0 n (\<lambda>_ d. xdma_desc_set d (e_perf_buf_bus e) 0 len (e_dir e)) ring;
          ring = ring(0 := snd (xdma_desc_control_set (ring 0) 0))
      in ring(n - 1 := xdma_desc_link (ring (n - 1)) (Some (e_desc_bus e))))"

text \<open>
  \<^verbatim>\<open>xdma_performance_submit\<close>; \<open>i\<close> is the address of the new transfer, \<open>mem\<close> whether it could be allocated. Its
  clean-up unlinks the transfer although it was never linked: \<^verbatim>\<open>list_del\<close> then follows a null
  pointer, which is the result \<open>None\<close>, like the access to a performance record that is not there.
\<close>

definition xdma_performance_submit ::
    "device \<Rightarrow> modparams \<Rightarrow> pci \<Rightarrow> bool \<Rightarrow> bool \<Rightarrow> xfer_id \<Rightarrow> xdma_engine \<Rightarrow> kstate
     \<Rightarrow> (int \<times> xdma_engine \<times> kstate) option" where
  "xdma_performance_submit hw mp pd mem offline i e k =
     (case e_xdma_perf e of
        None \<Rightarrow> None
      | Some p \<Rightarrow>
          let size_in_desc = unat (p_transfer_size p) in
          if perf_max_size < size_in_desc then Some (- EINVAL, e, k)
          else let n = perf_desc_num size_in_desc;
                   ((virt, bus), k) = dma_alloc pd size_in_desc k;
                   e = e\<lparr>e_perf_buf_virt := virt, e_perf_buf_bus := bus\<rparr>
               in if virt = 0 then Some (- ENOMEM, e, k)
                  else if \<not> mem then Some (- ENOMEM, e\<lparr>e_perf_buf_virt := 0\<rparr>, dma_free virt k)
                  else let (e, k) =
                         (if e_desc e = 0
                          then let ((dv, db), k) = dma_alloc pd (n * 32) k in (e\<lparr>e_desc := dv, e_desc_bus := db\<rparr>, k)
                          else (e, k))
                       in if e_desc e = 0 then None
                          else let e = e\<lparr>e_desc_ring := perf_ring e (p_transfer_size p) n\<rparr>;
                                   k = upd_xfer i (\<lambda>_. zero_transfer\<lparr>x_dir := e_dir e, x_desc_num := of_nat n,
                                         x_desc_virt := 0, x_desc_bus := e_desc_bus e, x_cyclic := True\<rparr>) k;
                                   (rv, e, k) = transfer_queue hw mp offline e i k
                               in if rv < 0 then None else Some (0, e, k))"

section \<open>What a caller waits for\<close>

text \<open>
  The contract of waiting: it ends (by a wake-up, a signal or the timeout), and whatever went on
  meanwhile kept the invariant of the engine and all that \<open>kept\<close> names.
\<close>

locale waiting =
  fixes wait :: "int \<Rightarrow> xfer_id \<Rightarrow> xdma_engine \<Rightarrow> kstate \<Rightarrow> (xdma_engine \<times> kstate) option"
  assumes wait_ends: "engine_inv (e, k) \<Longrightarrow> \<exists>s. wait ms i e k = Some s"
    and wait_inv: "engine_inv (e, k) \<Longrightarrow> wait ms i e k = Some s \<Longrightarrow> engine_inv s"
    and wait_kept: "engine_inv (e, k) \<Longrightarrow> wait ms i e k = Some s \<Longrightarrow> kept (e, k) s"

text \<open>Waiting while the engine sees a list of events, which may depend on anything.\<close>

definition wait_run ::
    "device \<Rightarrow> modparams \<Rightarrow> io_done \<Rightarrow> (int \<Rightarrow> xfer_id \<Rightarrow> kstate \<Rightarrow> engine_event list)
     \<Rightarrow> int \<Rightarrow> xfer_id \<Rightarrow> xdma_engine \<Rightarrow> kstate \<Rightarrow> (xdma_engine \<times> kstate) option" where
  "wait_run hw mp iod evs ms i e k = Some (run (engine_step hw mp iod) (e, k) (evs ms i k))"

interpretation wrun: waiting "wait_run hw mp iod evs" for hw mp iod evs
  by unfold_locales (unfold wait_run_def option.inject, blast, metis eng.run_invar, metis kept_run)

definition sg_held :: "sg_table \<Rightarrow> resource \<Rightarrow> int" where
  "sg_held sgt r = (if sgt_nents sgt \<noteq> 0 \<and> r = ResSg (sgt_nents sgt) then 1 else 0)"

lemma transfer_destroy_held:
  assumes "transfer_destroy e xfer (sgt_nents sgt) t = (e', n, t')"
  shows "held t' r - sg_held (sgt\<lparr>sgt_nents := n\<rparr>) r = held t r - sg_held sgt r \<and>
    (n = 0 \<or> n = sgt_nents sgt) \<and> (\<exists>ring. e' = e\<lparr>e_desc_ring := ring\<rparr>)"
  using assms by (auto simp: transfer_destroy_def sg_held_def Let_def split: if_splits)

lemma memset_result_held: "held (memset_result a t) r = held t r"
  by (simp add: memset_result_def upt_rec)

lemma transfer_build_loop_held:
  "transfer_build_loop n j e req xfer bus t = (e', req', xfer', t') \<Longrightarrow> held t' r = held t r"
proof (induction n arbitrary: j e req xfer bus t)
  case (Suc n)
  from Suc.IH [OF Suc.prems [unfolded transfer_build_loop.simps Let_def]] show ?case
    by (simp add: memset_result_held split: if_splits)
qed simp

lemma transfer_init_held:
  assumes "transfer_init e req t = (rv, e', req', xfer, t')"
  shows "held t' r = held t r"
proof -
  let ?e = "e\<lparr>e_desc_ring := snd (transfer_desc_init (x_desc_virt (transfer_at e)) (x_desc_bus (transfer_at e))
    (transfer_desc_max e req) (e_desc_ring e))\<rparr>"
  obtain e1 req1 x1 t1 where b: "transfer_build_loop (unat (transfer_desc_max e req)) 0 ?e req (transfer_at e)
      (x_res_bus (transfer_at e)) t = (e1, req1, x1, t1)" by (metis prod_cases4)
  then have "t' = t1" using assms by (auto simp: transfer_init_def transfer_build_def Let_def)
  then show ?thesis using transfer_build_loop_held [OF b] by simp
qed

lemma xfer_timeout_held: "xfer_timeout hw mp e i k = (e', k') \<Longrightarrow> held (k_trace k') r = held (k_trace k) r"
  by (auto simp: xfer_timeout_def engine_status_read_def engine_reg_dump_def transfer_abort_def set_state_def
      xdma_engine_stop_def xdma_io Let_def split: if_splits prod.splits)

lemma sum_lengths_held: "sum_lengths hw a n k = (s, k') \<Longrightarrow> held (k_trace k') r = held (k_trace k) r"
  by (induction n arbitrary: a k s) (fastforce simp: xdma_io Let_def split: prod.splits)+

lemma xfer_result_held:
  "xfer_result hw mp e i k = (rv, n, flush, e', k') \<Longrightarrow> held (k_trace k') r = held (k_trace k) r"
  by (auto simp: xfer_result_def Let_def split: if_splits prod.splits dest: sum_lengths_held xfer_timeout_held)

lemma xfer_retire_held:
  assumes "xfer_retire hw mp e i sgt k = (rv, n, flush, e', sgt', k')"
  shows "held (k_trace k') r - sg_held sgt' r = held (k_trace k) r - sg_held sgt r"
proof -
  obtain rv1 n1 fl e1 k1 where x: "xfer_result hw mp e i k = (rv1, n1, fl, e1, k1)" by (metis prod_cases5)
  let ?e = "e1\<lparr>e_desc_used := e_desc_used e1 - x_desc_num (k_xfers k1 i)\<rparr>"
  obtain e2 m t2 where d: "transfer_destroy ?e (k_xfers k1 i) (sgt_nents sgt) (k_trace k1) = (e2, m, t2)"
    by (metis prod_cases3)
  have "sgt' = sgt\<lparr>sgt_nents := m\<rparr>" "k' = k1\<lparr>k_trace := t2\<rparr>"
    using assms x d by (auto simp: xfer_retire_def Let_def)
  then show ?thesis using transfer_destroy_held [OF d, of r] xfer_result_held [OF x, of r] by simp
qed

section \<open>The blocking submission returns\<close>

definition bytes :: "xdma_request_cb \<Rightarrow> nat \<Rightarrow> nat \<Rightarrow> nat" where
  "bytes req m n = (\<Sum>j<n. unat (sw_len (sdesc_at req (m + j))))"

definition bytes_left :: "xdma_request_cb \<Rightarrow> nat" where
  "bytes_left req = bytes req (unat (r_sw_desc_idx req)) (unat (r_sw_desc_cnt req) - unat (r_sw_desc_idx req))"

lemma bytes_add: "bytes req m (n + p) = bytes req m n + bytes req (m + n) p"
  by (induction p) (simp_all add: bytes_def add.assoc)

lemma unat_sum_small:
  "(\<Sum>j<n. unat (f j :: u32)) < 2 ^ 32 \<Longrightarrow> unat (\<Sum>j<n. f j) = (\<Sum>j<n. unat (f j))" for n :: nat
proof (induction n)
  case (Suc n)
  have lt: "(\<Sum>j<n. unat (f j)) + unat (f n) < 2 ^ 32" using Suc.prems by (simp only: sum.lessThan_Suc)
  then have IH: "unat (\<Sum>j<n. f j) = (\<Sum>j<n. unat (f j))" using Suc.IH by linarith
  have "unat ((\<Sum>j<n. f j) + f n) = unat (\<Sum>j<n. f j) + unat (f n)"
    by (rule unat_add_lt) (use lt IH in simp)
  then show ?case using IH by (simp only: sum.lessThan_Suc)
qed simp

lemma prepared [simp]:
  "x_state (xfer_prepare m cb n x) = x_state x" "x_cb (xfer_prepare m cb n x) = cb"
  "x_len (xfer_prepare m cb n x) = x_len x" "x_desc_num (xfer_prepare m cb n x) = x_desc_num x"
  "x_desc_virt (xfer_prepare m cb n x) = x_desc_virt x"
  by (simp_all add: xfer_prepare_def Let_def)

text \<open>Programming a fresh transfer keeps the invariant of the engine.\<close>

lemma program_inv:
  assumes "engine_inv (e, k)" and "x_state (k_xfers k i) \<noteq> TRANSFER_STATE_SUBMITTED"
    and "x_state x \<noteq> TRANSFER_STATE_SUBMITTED" and "x_cb x = None"
    and "e_transfer_list e' = e_transfer_list e" and "e_eop_flush e' = e_eop_flush e"
  shows "engine_inv (e', upd_xfer i (\<lambda>_. x) (k\<lparr>k_trace := t\<rparr>))"
  using assms by auto

lemma engine_inv_trace: "engine_inv (e, k\<lparr>k_trace := t\<rparr>) = engine_inv (e, k)"
  by simp

lemma wake_thread_inv [simp]: "engine_inv (e, wake_thread e' k) = engine_inv (e, k)"
  by (simp add: wake_thread_def split: option.splits)

lemma kept_wake: "kept (e, k) (e, wake_thread e' k)"
  by (simp add: wake_thread_def kept_def split: option.splits)

text \<open>
  The first half of a round: the transfer is programmed and queued. Either the queue refuses it, or the wait begins
  with a transfer of as many descriptors and bytes as the ring had room for.
\<close>

lemma submit_round:
  assumes ready: "xfer_ready e req" and inv: "engine_inv (e, k)"
    and idle: "x_state (k_xfers k (r_tfer req)) \<noteq> TRANSFER_STATE_SUBMITTED"
    and run: "transfer_init e req (k_trace k) = (rv, e1, req1, x, t1)"
    and q: "transfer_queue hw mp False e1 (r_tfer req1)
        (upd_xfer (r_tfer req1) (\<lambda>_. xfer_prepare m None nents x) (k\<lparr>k_trace := t1\<rparr>)) = (rv2, e2, k2)"
  shows "rv = 0 \<and> x_desc_num x = of_nat (xfer_count e req) \<and> engine_inv (e2, k2) \<and>
    (\<exists>a. a = ep_after e req 0 (xfer_count e req) \<and> req1 = req\<lparr>r_ep_addr := a, r_sw_desc_idx := r_sw_desc_idx req + of_nat (xfer_count e req)\<rparr>) \<and>
    unat (e_desc_idx e2) < 2048 \<and> st_c2h e2 = st_c2h e \<and> e_eop_flush e2 = e_eop_flush e \<and>
    e_dir e2 = e_dir e \<and> e_non_incr_addr e2 = e_non_incr_addr e \<and> e_desc_bus e2 = e_desc_bus e \<and> e_desc_ring e2 = e_desc_ring e1 \<and>
    (\<forall>r. held (k_trace k2) r = held (k_trace k) r) \<and>
    x_len (k_xfers k2 (r_tfer req1)) = (\<Sum>j<xfer_count e req. sw_len (sdesc_at req (unat (r_sw_desc_idx req) + j))) \<and>
    rv2 \<le> 0"
proof -
  let ?n = "xfer_count e req"
  obtain t' where eq: "transfer_init e req (k_trace k) =
    (0, e\<lparr>e_desc_ring := ring_map (unat (e_desc_idx e)) ?n (final_desc e req ?n) (e_desc_ring e),
          e_desc_idx := (e_desc_idx e + of_nat ?n) mod 2048, e_desc_used := e_desc_used e + of_nat ?n\<rparr>,
     req\<lparr>r_ep_addr := ep_after e req 0 ?n, r_sw_desc_idx := r_sw_desc_idx req + of_nat ?n\<rparr>,
     (transfer_at e)\<lparr>x_len := \<Sum>m < ?n. sw_len (sdesc_at req (unat (r_sw_desc_idx req) + m)),
         x_desc_adjacent := of_nat ?n, x_desc_cmpl_th := (if e_eop_flush e then 1 else of_nat ?n),
         x_desc_num := of_nat ?n\<rparr>, t')"
    using transfer_init_eq [OF ready] by blast
  note res = run [unfolded eq]
  define k1 where "k1 = upd_xfer (r_tfer req1) (\<lambda>_. xfer_prepare m None nents x) (k\<lparr>k_trace := t1\<rparr>)"
  have tf: "r_tfer req1 = r_tfer req" using res by auto
  have inv1: "engine_inv (e1, k1)"
    unfolding k1_def tf by (rule program_inv [OF inv idle]) (use res in \<open>auto simp: transfer_at_def zero_transfer_def\<close>)
  have "x_state (k_xfers k1 (r_tfer req1)) \<noteq> TRANSFER_STATE_SUBMITTED"
    using res by (auto simp: k1_def transfer_at_def zero_transfer_def)
  from transfer_queue_inv [OF inv1 this q [folded k1_def]] have inv2: "engine_inv (e2, k2)" .
  have kp: "kept (e1, k1) (e2, k2)" by (rule kept_queue [OF q [folded k1_def]])
  then have ec: "eng_core e2 = eng_core e1" and xc: "xfer_core (k_xfers k2 (r_tfer req1)) = xfer_core (k_xfers k1 (r_tfer req1))"
    and hd: "held (k_trace k2) r = held (k_trace k1) r" for r by (simp_all add: kept_def)
  note c = eng_coreD [OF ec] and xl = xfer_coreD(2) [OF xc]
  have "unat ((e_desc_idx e + of_nat ?n) mod 2048) < 2048" by (simp add: unat_mod)
  moreover have "held t1 r = held (k_trace k) r" for r using transfer_init_held [OF run] by simp
  moreover have "rv2 \<le> 0" using q by (auto simp: transfer_queue_def EINVAL_def EBUSY_def Let_def split: if_splits prod.splits)
  ultimately show ?thesis using inv2 c xl hd res by (auto simp: k1_def st_c2h_def)
qed

lemma retire_cases:
  assumes run: "xfer_retire hw mp e i sgt k = (rv, n, flush, e', sgt', k')"
    and mm: "\<not> st_c2h e" and inv: "engine_inv (e, k)"
  shows "rv < 0 \<and> n = 0 \<or>
    rv = 0 \<and> n = uint (x_len (k_xfers k i)) \<and> \<not> flush \<and> engine_inv (e', k') \<and> e_desc_idx e' = e_desc_idx e \<and>
    \<not> st_c2h e' \<and> e_dir e' = e_dir e \<and> e_non_incr_addr e' = e_non_incr_addr e \<and>
    x_state (k_xfers k' i) \<noteq> TRANSFER_STATE_SUBMITTED"
proof (cases "x_state (k_xfers k i) = TRANSFER_STATE_COMPLETED")
  case False
  then show ?thesis
    using run by (auto simp: xfer_retire_def xfer_result_def EIO_def ERESTARTSYS_def Let_def split: if_splits prod.splits)
next
  case True
  let ?e = "e\<lparr>e_desc_used := e_desc_used e - x_desc_num (k_xfers k i)\<rparr>"
  obtain e2 m t2 where d: "transfer_destroy ?e (k_xfers k i) (sgt_nents sgt) (k_trace k) = (e2, m, t2)"
    by (metis prod_cases3)
  obtain ring where e2: "e2 = ?e\<lparr>e_desc_ring := ring\<rparr>" using transfer_destroy_held [OF d] by blast
  have "rv = 0" "n = uint (x_len (k_xfers k i))" "\<not> flush" "e' = e2" "k' = k\<lparr>k_trace := t2\<rparr>"
    using run True mm d by (auto simp: xfer_retire_def xfer_result_def Let_def)
  then show ?thesis using True mm inv e2 by (simp add: st_c2h_def)
qed

lemma sdesc_at_upd [simp]:
  "sdesc_at (req\<lparr>r_ep_addr := a\<rparr>) = sdesc_at req" "sdesc_at (req\<lparr>r_sw_desc_idx := i\<rparr>) = sdesc_at req"
  by (intro ext, simp add: sdesc_at_def cong: if_cong)+

lemma bytes_step:
  assumes "xfer_ready e req"
  shows "bytes_left req = bytes req (unat (r_sw_desc_idx req)) (xfer_count e req) +
      bytes_left (req\<lparr>r_sw_desc_idx := r_sw_desc_idx req + of_nat (xfer_count e req)\<rparr>)"
    and "unat (r_sw_desc_idx req + of_nat (xfer_count e req)) = unat (r_sw_desc_idx req) + xfer_count e req"
proof -
  note b = xfer_count_bounds [OF assms]
  let ?n = "xfer_count e req"
  have un: "unat (of_nat ?n :: u32) = ?n" using b by (simp add: unat_of_nat_small)
  have lt: "unat (r_sw_desc_cnt req) < 2 ^ LENGTH(32)" by (rule unsigned_less)
  show idx: "unat (r_sw_desc_idx req + of_nat ?n) = unat (r_sw_desc_idx req) + ?n"
    using b(4) lt un by (subst unat_add_lt) simp_all
  have "unat (r_sw_desc_cnt req) - unat (r_sw_desc_idx req) =
      ?n + (unat (r_sw_desc_cnt req) - (unat (r_sw_desc_idx req) + ?n))" using b(4) by simp
  then show "bytes_left req = bytes req (unat (r_sw_desc_idx req)) ?n + bytes_left (req\<lparr>r_sw_desc_idx := r_sw_desc_idx req + of_nat ?n\<rparr>)"
    unfolding bytes_left_def by (simp add: idx bytes_add) (simp add: bytes_def)
qed

text \<open>The state a round starts from.\<close>

definition submit_ready :: "xdma_request_cb \<Rightarrow> xdma_engine \<Rightarrow> kstate \<Rightarrow> bool" where
  "submit_ready req e k \<longleftrightarrow> engine_inv (e, k) \<and>
     x_state (k_xfers k (r_tfer req)) \<noteq> TRANSFER_STATE_SUBMITTED \<and> unat (e_desc_idx e) < 2048 \<and> \<not> st_c2h e \<and>
     unat (r_sw_desc_idx req) \<le> unat (r_sw_desc_cnt req) \<and> bytes_left req < 2 ^ 32"

text \<open>An engine whose transfers advance the card address along with the host address.\<close>

definition advancing :: "xdma_engine \<Rightarrow> bool" where
  "advancing e \<longleftrightarrow> (e_dir e = DMA_TO_DEVICE \<or> e_dir e = DMA_FROM_DEVICE) \<and> \<not> st_c2h e \<and> \<not> e_non_incr_addr e"

lemma bytes_left_ep: "bytes_left (req\<lparr>r_ep_addr := a\<rparr>) = bytes_left req"
  by (simp add: bytes_left_def bytes_def)

context waiting
begin

text \<open>One round either ends the loop with an error or goes on with the rest of the request.\<close>

lemma submit_once:
  assumes wt: "io_wait ios = wait" and pre: "submit_ready req e k" and more: "r_sw_desc_cnt req \<noteq> r_sw_desc_idx req"
  obtains (stop) mv rv sgt' e' k' where
    "submit_step hw mp ios False ms m (req, r_sw_desc_cnt req - r_sw_desc_idx req, count, sgt, e, k) = Some (mv, Inl (rv, count, sgt', e', k'))"
    "rv < 0" "held (k_trace k') r - sg_held sgt' r = held (k_trace k) r - sg_held sgt r"
    "advancing e \<Longrightarrow> prefix (move_bytes mv) (left_bytes req)"
  | (go) mv req' n sgt' e' k' where
    "submit_step hw mp ios False ms m (req, r_sw_desc_cnt req - r_sw_desc_idx req, count, sgt, e, k) =
       Some (mv, Inr (req', r_sw_desc_cnt req' - r_sw_desc_idx req', count + int n, sgt', e', k'))"
    "submit_ready req' e' k'" "bytes_left req = n + bytes_left req'" "r_sw_desc_cnt req' = r_sw_desc_cnt req"
    "unat (r_sw_desc_idx req) < unat (r_sw_desc_idx req')"
    "held (k_trace k') r - sg_held sgt' r = held (k_trace k) r - sg_held sgt r"
    "advancing e \<Longrightarrow> advancing e' \<and> left_bytes req = move_bytes mv @ left_bytes req'"
proof -
  let ?nents = "r_sw_desc_cnt req - r_sw_desc_idx req"
  have "unat (r_sw_desc_idx req) \<noteq> unat (r_sw_desc_cnt req)" using more by (metis word_unat_eq_iff)
  then have ready: "xfer_ready e req" using pre by (simp add: submit_ready_def xfer_ready_def)
  have inv: "engine_inv (e, k)" and idle: "x_state (k_xfers k (r_tfer req)) \<noteq> TRANSFER_STATE_SUBMITTED"
    using pre unfolding submit_ready_def by blast+
  let ?n = "xfer_count e req"
  note bs = bytes_step [OF ready] and bd = xfer_count_bounds [OF ready]
  obtain rv1 e1 req1 x t1 where ti: "transfer_init e req (k_trace k) = (rv1, e1, req1, x, t1)" by (metis prod_cases5)
  let ?k1 = "upd_xfer (r_tfer req1) (\<lambda>_. xfer_prepare m None (?nents - x_desc_num x) x) (k\<lparr>k_trace := t1\<rparr>)"
  obtain rv2 e2 k2 where tq: "transfer_queue hw mp False e1 (r_tfer req1) ?k1 = (rv2, e2, k2)" by (metis prod_cases3)
  note rd = submit_round [OF ready inv idle ti tq]
  let ?step = "submit_step hw mp ios False ms m (req, ?nents, count, sgt, e, k)"
  let ?mv = "fetch_chain 2048 (e_dir e2) (e_desc_ring e2) (e_desc_bus e2) (x_desc_bus x)"
  have req1: "req1 = req\<lparr>r_ep_addr := ep_after e req 0 ?n, r_sw_desc_idx := r_sw_desc_idx req + of_nat ?n\<rparr>" using rd by blast
  have mv: "left_bytes req = move_bytes ?mv @ left_bytes req1" if "advancing e"
  proof -
    have "?mv = plan e req"
      using transfer_init_fetch [OF ready _ _ ti] that rd by (simp add: advancing_def)
    then show ?thesis unfolding req1 using left_bytes_step [OF ready _ bs(2)] that by (simp add: advancing_def)
  qed
  show thesis
  proof (cases "rv2 < 0")
    case True
    have "?step = Some ([], Inl (rv2, count, sgt, e2, k2))"
      using more ti tq rd True by (simp add: submit_step_def Let_def)
    then show thesis using stop True rd by simp
  next
    case queued: False
    have inv2: "engine_inv (e2, wake_thread e2 k2)" using rd wake_thread_inv by blast
    then obtain e3 k3 where w: "wait ms (r_tfer req1) e2 (wake_thread e2 k2) = Some (e3, k3)"
      using wait_ends by (metis surj_pair)
    have inv3: "engine_inv (e3, k3)" by (rule wait_inv [OF inv2 w])
    have kp: "kept (e2, k2) (e3, k3)" by (rule kept_trans [OF kept_wake wait_kept [OF inv2 w]])
    then have ec: "eng_core e3 = eng_core e2"
      and xc: "xfer_core (k_xfers k3 (r_tfer req1)) = xfer_core (k_xfers k2 (r_tfer req1))"
      and hd: "held (k_trace k3) r = held (k_trace k) r" using rd by (simp_all add: kept_def)
    have "st_c2h e3 = st_c2h e2" using eng_coreD(3,4) [OF ec] by (simp add: st_c2h_def)
    then have mm: "\<not> st_c2h e3" using rd pre unfolding submit_ready_def by blast
    obtain rv4 n4 fl e4 sgt4 k4 where rt: "xfer_retire hw mp e3 (r_tfer req1) sgt k3 = (rv4, n4, fl, e4, sgt4, k4)"
      by (metis prod_cases6)
    note rc = retire_cases [OF rt mm inv3] and rh = xfer_retire_held [OF rt, of r]
    have step: "?step =
        (if rv4 < 0 then Some (?mv, Inl (rv4, count + n4, sgt4, e4, k4))
         else Some (?mv, Inr (req1, if fl then 0 else ?nents - x_desc_num x, count + n4, sgt4, e4, k4)))"
      using more ti tq rd queued w rt wt by (simp add: submit_step_def Let_def)
    show thesis
    proof (cases "rv4 < 0")
      case True
      then show thesis using stop [of ?mv rv4 sgt4 e4 k4] step rc rh hd mv by auto
    next
      case fin: False
      note r1 = req1
      have left: "bytes_left req = bytes req (unat (r_sw_desc_idx req)) ?n + bytes_left req1"
        using bs(1) by (simp add: r1 bytes_left_def bytes_def)
      have "unat (\<Sum>j<?n. sw_len (sdesc_at req (unat (r_sw_desc_idx req) + j))) = bytes req (unat (r_sw_desc_idx req)) ?n"
        unfolding bytes_def by (rule unat_sum_small) (use pre left in \<open>simp add: submit_ready_def bytes_def\<close>)
      then have n4: "n4 = int (bytes req (unat (r_sw_desc_idx req)) ?n)"
        using rc fin rd xfer_coreD(2) [OF xc] by (simp add: uint_nat)
      have ready1: "submit_ready req1 e4 k4"
        unfolding submit_ready_def
      proof (intro conjI)
        show "engine_inv (e4, k4)" "x_state (k_xfers k4 (r_tfer req1)) \<noteq> TRANSFER_STATE_SUBMITTED" "\<not> st_c2h e4"
          using rc fin by blast+
        show "unat (e_desc_idx e4) < 2048" using rc fin eng_coreD(1) [OF ec] rd by metis
        show "unat (r_sw_desc_idx req1) \<le> unat (r_sw_desc_cnt req1)" using bs(2) bd(4) by (simp add: r1)
        show "bytes_left req1 < 2 ^ 32" using left pre unfolding submit_ready_def by linarith
      qed
      have ne: "?nents - x_desc_num x = r_sw_desc_cnt req1 - r_sw_desc_idx req1" using rd by (simp add: r1)
      have fl: "\<not> fl" using rc fin by blast
      have eq: "?step = Some (?mv, Inr (req1, r_sw_desc_cnt req1 - r_sw_desc_idx req1,
          count + int (bytes req (unat (r_sw_desc_idx req)) ?n), sgt4, e4, k4))"
        unfolding step n4 ne using fin fl by (simp only: if_False)
      have adv: "advancing e4" if "advancing e"
        using that rc fin rd eng_coreD [OF ec] by (auto simp: advancing_def)
      have cnt: "r_sw_desc_cnt req1 = r_sw_desc_cnt req" "unat (r_sw_desc_idx req) < unat (r_sw_desc_idx req1)"
        using bs(2) bd(1) by (simp_all add: r1)
      show thesis
        by (rule go [OF eq ready1 left cnt]) (use rh hd adv mv in simp_all)
    qed
  qed
qed

lemma submit_run_returns:
  assumes "io_wait ios = wait"
  shows "submit_ready req e k \<Longrightarrow>
    \<exists>mv rv n sgt' e' k'. submit_run hw mp ios False ms m (req, r_sw_desc_cnt req - r_sw_desc_idx req, count, sgt, e, k)
        mv (rv, count + int n, sgt', e', k') \<and>
      rv \<le> 0 \<and> n \<le> bytes_left req \<and> (rv = 0 \<longrightarrow> n = bytes_left req) \<and>
      held (k_trace k') r - sg_held sgt' r = held (k_trace k) r - sg_held sgt r \<and>
      (advancing e \<longrightarrow> prefix (move_bytes mv) (left_bytes req) \<and> (rv = 0 \<longrightarrow> move_bytes mv = left_bytes req))"
proof (induction "unat (r_sw_desc_cnt req) - unat (r_sw_desc_idx req)" arbitrary: req count sgt e k rule: less_induct)
  case less
  show ?case
  proof (cases "r_sw_desc_cnt req = r_sw_desc_idx req")
    case True
    then have "submit_run hw mp ios False ms m (req, r_sw_desc_cnt req - r_sw_desc_idx req, count, sgt, e, k) [] (0, count, sgt, e, k)"
      by (intro run_stop) (simp add: submit_step_def)
    then show ?thesis using True
      by (intro exI [of _ "[]"] exI [of _ "0::int"] exI [of _ "0::nat"])
        (auto simp: bytes_left_def bytes_def left_bytes_def some_sdesc_def sw_bytes_def)
  next
    case False
    show ?thesis
    proof (rule submit_once [OF assms less.prems False, of hw mp ms m count sgt r], goal_cases)
      case (1 mv rv sgt' e' k')
      then show ?thesis
        by (intro exI [of _ mv] exI [of _ rv] exI [of _ "0::nat"] exI [of _ sgt'] exI [of _ e'] exI [of _ k'] conjI run_stop) auto
    next
      case go: (2 mv req' n sgt' e' k')
      have "unat (r_sw_desc_cnt req') - unat (r_sw_desc_idx req') < unat (r_sw_desc_cnt req) - unat (r_sw_desc_idx req)"
      proof -
        have "unat (r_sw_desc_idx req') \<le> unat (r_sw_desc_cnt req')" using go(2) unfolding submit_ready_def by blast
        then show ?thesis using go(4,5) by simp
      qed
      from less.hyps [OF this go(2), of "count + int n" sgt'] obtain ms2 rv n2 sgt2 e2 k2 where
        r2: "submit_run hw mp ios False ms m (req', r_sw_desc_cnt req' - r_sw_desc_idx req', count + int n, sgt', e', k')
           ms2 (rv, count + int n + int n2, sgt2, e2, k2)"
        "rv \<le> 0" "n2 \<le> bytes_left req'" "rv = 0 \<longrightarrow> n2 = bytes_left req'"
        "held (k_trace k2) r - sg_held sgt2 r = held (k_trace k') r - sg_held sgt' r"
        "advancing e' \<longrightarrow> prefix (move_bytes ms2) (left_bytes req') \<and> (rv = 0 \<longrightarrow> move_bytes ms2 = left_bytes req')" by blast
      from run_go [OF go(1) r2(1)] show ?thesis
        using go(3,6,7) r2(2-)
        by (intro exI [of _ "mv @ ms2"] exI [of _ rv] exI [of _ "n + n2"] exI [of _ sgt2] exI [of _ e2] exI [of _ k2])
          (auto simp: add.assoc)
    qed
  qed
qed

lemma submit_loop_returns:
  assumes "io_wait ios = wait" and "submit_ready req e k"
  shows "\<exists>rv n sgt' e' k'. submit_loop hw mp ios False ms m req (r_sw_desc_cnt req - r_sw_desc_idx req) count sgt e k
        = Some (rv, count + int n, sgt', e', k') \<and>
      rv \<le> 0 \<and> n \<le> bytes_left req \<and> (rv = 0 \<longrightarrow> n = bytes_left req) \<and>
      held (k_trace k') r - sg_held sgt' r = held (k_trace k) r - sg_held sgt r"
proof -
  obtain mv rv n sgt' e' k' where
    run: "submit_run hw mp ios False ms m (req, r_sw_desc_cnt req - r_sw_desc_idx req, count, sgt, e, k) mv (rv, count + int n, sgt', e', k')"
    and f: "rv \<le> 0" "n \<le> bytes_left req" "rv = 0 \<longrightarrow> n = bytes_left req"
      "held (k_trace k') r - sg_held sgt' r = held (k_trace k) r - sg_held sgt r"
    using submit_run_returns [OF assms, of hw mp ms m count sgt r] by blast
  from submit_run_loop [OF run] f show ?thesis by auto
qed

end

section \<open>The whole submission\<close>

definition sgl_bytes :: "sg_entry list \<Rightarrow> nat" where
  "sgl_bytes sgl = (\<Sum>sg\<leftarrow>sgl. unat (sg_dma_len sg))"

lemma init_request_facts:
  assumes "0 < desc_blen_max mp"
  obtains (mem) "xdma_init_request mp kmem tfer sgl ep = Some None"
  | (req) req where "xdma_init_request mp kmem tfer sgl ep = Some (Some req)" "r_tfer req = tfer"
      "r_sw_desc_idx req = 0" "bytes_left req = sgl_bytes sgl"
      "left_bytes req = zip (sg_bytes sgl) (span ep (sgl_bytes sgl))"
proof -
  let ?b = "desc_blen_max mp"
  obtain dss where dss: "split_sgl ?b sgl [] = Some (concat dss)"
    "list_all2 (\<lambda>sg ds. covers (sg_dma_address sg) (unat (sg_dma_len sg)) ds \<and>
        (\<forall>d \<in> set ds. sw_len d \<le> ?b) \<and> length ds = (unat (sg_dma_len sg) + unat ?b - 1) div unat ?b) sgl dss"
    using split_sgl_covers [OF assms, of sgl "[]"] by auto
  from dss(2) have sum: "(\<Sum>d\<leftarrow>concat dss. unat (sw_len d)) = sgl_bytes sgl"
    unfolding sgl_bytes_def by (induction sgl dss rule: list_all2_induct) (auto simp: covers_sum)
  have "extra_desc ?b sgl x \<noteq> None" for x
    using assms by (induction sgl arbitrary: x) (auto simp: Let_def)
  then obtain extra where ex: "extra_desc ?b sgl 0 = Some extra" by blast
  let ?max = "of_nat (length sgl) + extra"
  show thesis
  proof (cases "kmem (unat ?max) \<and> length (concat dss) \<le> unat ?max")
    case False
    then show thesis
      using mem ex dss(1) by (auto simp: xdma_init_request_def xdma_request_alloc_def Let_def)
  next
    case True
    have "unat ?max < 2 ^ LENGTH(32)" by (rule unsigned_less)
    then have cnt: "unat (of_nat (length (concat dss)) :: u32) = length (concat dss)"
      using True by (intro unat_of_nat_small) simp
    let ?req = "\<lparr>r_total_len = total_len sgl, r_ep_addr = ep, r_tfer = tfer, r_cb = None, r_sw_desc_idx = 0,
      r_sw_desc_cnt = of_nat (length (concat dss)), r_sdesc_nr = unat ?max, r_sdesc = concat dss\<rparr>"
    have "xdma_init_request mp kmem tfer sgl ep = Some (Some ?req)"
      using True ex dss(1) by (simp add: xdma_init_request_def xdma_request_alloc_def Let_def)
    moreover have "bytes_left ?req = (\<Sum>d\<leftarrow>concat dss. unat (sw_len d))"
      unfolding bytes_left_def bytes_def
      by (simp add: cnt sdesc_at_def sum_list_sum_nth atLeast0LessThan del: length_concat)
    moreover have "left_bytes ?req = zip (sg_bytes sgl) (span ep (sgl_bytes sgl))"
    proof -
      have "some_sdesc ?req 0 (length (concat dss)) = concat dss"
        unfolding some_sdesc_def sdesc_at_def by (rule nth_equalityI) (simp_all del: length_concat)
      moreover have "sw_bytes (concat dss) = sg_bytes sgl"
        by (rule list_all2_covers_bytes [OF dss(2)])
      moreover have "length (sg_bytes sgl) = sgl_bytes sgl"
        by (simp add: sg_bytes_def sgl_bytes_def length_concat comp_def)
      ultimately show ?thesis by (simp add: left_bytes_def cnt Let_def del: length_concat)
    qed
    ultimately show thesis using req [of ?req] sum by simp
  qed
qed

lemma unmap_sgl_held:
  "unmap_sgl m sgt k = (sgt', k') \<Longrightarrow> held (k_trace k') r - sg_held sgt' r = held (k_trace k) r - sg_held sgt r \<and>
   (\<not> m \<longrightarrow> sgt_nents sgt' = 0) \<and> sgt_orig sgt' = sgt_orig sgt"
  by (auto simp: unmap_sgl_def sg_held_def split: if_splits)

lemma map_sgl_held:
  assumes "map_sgl ios m sgt k = (rv, sgt', k')"
  shows "k_xfers k' = k_xfers k \<and> (rv = 0 \<or> rv = - EIO) \<and>
    (rv = 0 \<longrightarrow> \<not> m \<longrightarrow> held (k_trace k') r - sg_held sgt' r = held (k_trace k) r) \<and>
    (rv = 0 \<longrightarrow> sgt_sgl sgt' = (if m then sgt_sgl sgt else io_map_sg ios (sgt_orig sgt))) \<and>
    (rv = 0 \<longrightarrow> \<not> m \<longrightarrow> io_map_sg ios (sgt_orig sgt) \<noteq> []) \<and> sgt_orig sgt' = sgt_orig sgt \<and>
    (rv \<noteq> 0 \<longrightarrow> sgt' = sgt \<and> k' = k)"
  using assms by (auto simp: map_sgl_def sg_held_def EIO_def Let_def split: if_splits)

lemma xfer_retire_orig: "xfer_retire hw mp e i sgt k = (rv, n, flush, e', sgt', k') \<Longrightarrow> sgt_orig sgt' = sgt_orig sgt"
  by (auto simp: xfer_retire_def Let_def split: prod.splits)

lemma submit_loop_orig_aux:
  "submit_loop hw mp ios offline ms m req nents count sgt e k = Some s \<Longrightarrow> sgt_orig (fst (snd (snd s))) = sgt_orig sgt"
proof (rule submit_loop.raw_induct [where P = "\<lambda>_ _ _ _ _ _ _ _ _ sgt _ _ s. sgt_orig (fst (snd (snd s))) = sgt_orig sgt"], goal_cases)
  case (1 submit hw mp ios offline ms m req nents count sgt e k s)
  from 1(3) show ?case
    by (auto simp: Let_def split: if_splits prod.splits option.splits dest!: 1(2) dest: xfer_retire_orig)
qed

lemma submit_loop_orig:
  "submit_loop hw mp ios offline ms m req nents count sgt e k = Some (rv, n, sgt', e', k') \<Longrightarrow> sgt_orig sgt' = sgt_orig sgt"
  using submit_loop_orig_aux by fastforce

text \<open>What a blocking submission on an engine makes it move: the moves of the rounds of its loop.\<close>

definition submit_moves ::
    "device \<Rightarrow> modparams \<Rightarrow> io_services \<Rightarrow> xfer_id \<Rightarrow> u64 \<Rightarrow> sg_table \<Rightarrow> int \<Rightarrow> xdma_engine \<Rightarrow> kstate
     \<Rightarrow> move list \<Rightarrow> int \<Rightarrow> int \<Rightarrow> bool" where
  "submit_moves hw mp ios tfer ep_addr sgt timeout_ms e k mv rv count \<longleftrightarrow>
     (\<exists>sgt1 k1 req s. map_sgl ios False sgt k = (0, sgt1, k1) \<and>
        xdma_init_request mp (io_kmem ios) tfer (sgt_sgl sgt1) ep_addr = Some (Some req) \<and>
        submit_run hw mp ios False timeout_ms False (req, r_sw_desc_cnt req, 0, sgt1, e, k1) mv (rv, count, s))"

context waiting
begin

lemma submit_body_returns:
  assumes wt: "io_wait ios = wait" and blen: "0 < desc_blen_max mp"
    and inv: "engine_inv (e, k)" and idle: "x_state (k_xfers k tfer) \<noteq> TRANSFER_STATE_SUBMITTED"
    and eng: "unat (e_desc_idx e) < 2048" "\<not> st_c2h e"
    and sgt: "sgl_bytes (io_map_sg ios (sgt_orig sgt)) < 2 ^ 32"
  shows "\<exists>n rv sgt' e' k'. submit_body hw mp ios False tfer ep sgt False ms e k
       = Some (if n \<noteq> 0 then int n else rv, sgt', e', k') \<and> rv \<le> 0 \<and>
     n \<le> sgl_bytes (io_map_sg ios (sgt_orig sgt)) \<and> (rv = 0 \<longrightarrow> n = sgl_bytes (io_map_sg ios (sgt_orig sgt)) \<and> io_map_sg ios (sgt_orig sgt) \<noteq> []) \<and>
     (sgt_nents sgt' = 0 \<or> sgt' = sgt) \<and> sgt_orig sgt' = sgt_orig sgt \<and> held (k_trace k') r = held (k_trace k) r \<and>
     (\<exists>mv. (submit_moves hw mp ios tfer ep sgt ms e k mv rv (int n) \<or> n = 0 \<and> rv < 0 \<and> mv = []) \<and>
        (advancing e \<longrightarrow> (let all = zip (sg_bytes (io_map_sg ios (sgt_orig sgt))) (span ep (sgl_bytes (io_map_sg ios (sgt_orig sgt))))
           in prefix (move_bytes mv) all \<and> (rv = 0 \<longrightarrow> move_bytes mv = all))))"
proof -
  obtain rv1 sgt1 k1 where mp1: "map_sgl ios False sgt k = (rv1, sgt1, k1)" by (metis prod_cases3)
  note f1 = map_sgl_held [OF mp1, of r]
  have h0: "sg_held s r = 0" if "sgt_nents s = 0" for s using that by (simp add: sg_held_def)
  show ?thesis
  proof (cases "rv1 = 0")
    case False
    then have "submit_body hw mp ios False tfer ep sgt False ms e k = Some (rv1, sgt, e, k1)" "rv1 < 0"
      using f1 mp1 by (auto simp: submit_body_def EIO_def)
    then show ?thesis
      using f1 False by (intro exI [of _ "0::nat"] exI [of _ rv1]) (auto simp: Let_def)
  next
    case True
    have sgl: "sgt_sgl sgt1 = io_map_sg ios (sgt_orig sgt)" using f1 True by simp
    show ?thesis
    proof (rule init_request_facts [OF blen, of "io_kmem ios" tfer "sgt_sgl sgt1" ep], goal_cases)
      case 1
      obtain sgt2 k2 where u: "unmap_sgl False sgt1 k1 = (sgt2, k2)" by (metis surj_pair)
      have "submit_body hw mp ios False tfer ep sgt False ms e k = Some (- ENOMEM, sgt2, e, k2)"
        using 1 mp1 True u by (simp add: submit_body_def)
      then show ?thesis
        using unmap_sgl_held [OF u, of r] f1 True h0 [of sgt2]
        by (intro exI [of _ "0::nat"] exI [of _ "- ENOMEM"]) (auto simp: ENOMEM_def Let_def)
    next
      case (2 req)
      have "engine_inv (e, k1)" using inv f1 by simp
      then have "submit_ready req e k1"
        using idle eng sgt 2 sgl f1 unfolding submit_ready_def by simp
      from submit_run_returns [OF wt this, of hw mp ms False 0 sgt1 r] obtain mv rv n sgt2 e2 k2 where
        run: "submit_run hw mp ios False ms False (req, r_sw_desc_cnt req, 0, sgt1, e, k1) mv (rv, int n, sgt2, e2, k2)"
        and fin: "rv \<le> 0" "n \<le> bytes_left req" "rv = 0 \<longrightarrow> n = bytes_left req"
        "held (k_trace k2) r - sg_held sgt2 r = held (k_trace k1) r - sg_held sgt1 r"
        and all: "advancing e \<longrightarrow> prefix (move_bytes mv) (left_bytes req) \<and> (rv = 0 \<longrightarrow> move_bytes mv = left_bytes req)"
        using 2(3) by auto
      from submit_run_loop [OF run] have
        loop: "submit_loop hw mp ios False ms False req (r_sw_desc_cnt req) 0 sgt1 e k1 = Some (rv, int n, sgt2, e2, k2)" by simp
      have moves: "submit_moves hw mp ios tfer ep sgt ms e k mv rv (int n)"
        unfolding submit_moves_def using mp1 True 2(1) run by blast
      obtain sgt3 k3 where u: "unmap_sgl False sgt2 k2 = (sgt3, k3)" by (metis surj_pair)
      have "submit_body hw mp ios False tfer ep sgt False ms e k = Some (if n \<noteq> 0 then int n else rv, sgt3, e2, k3)"
        using 2(1) mp1 True loop u by (simp add: submit_body_def)
      then show ?thesis
        using unmap_sgl_held [OF u, of r] f1 True h0 [of sgt3] fin 2(4) sgl submit_loop_orig [OF loop]
          all moves 2(5)
        by (intro exI [of _ n] exI [of _ rv]) (auto simp: Let_def)
    qed
  qed
qed

end

lemma xfer_submit_moves:
  assumes "d_devs d h = Some v" and "submit_check d h v channel write = 0"
    and "e = dir_engines (xfer_dir write) v channel"
    and "io_wait ios = wait_run hw mp iod evs" and "0 < desc_blen_max mp"
    and "engine_inv (e, k)" and "x_state (k_xfers k tfer) \<noteq> TRANSFER_STATE_SUBMITTED"
    and "unat (e_desc_idx e) < 2048" and "\<not> st_c2h e"
    and "sgl_bytes (io_map_sg ios (sgt_orig sgt)) < 2 ^ 32"
  shows "\<exists>n rv sgt' e' k'. xdma_xfer_submit hw mp ios tfer (Some h) channel write ep sgt False ms d k
       = Some (if n \<noteq> 0 then int n else rv, sgt', put_engine d h v write channel e', k') \<and> rv \<le> 0 \<and>
     n \<le> sgl_bytes (io_map_sg ios (sgt_orig sgt)) \<and> (rv = 0 \<longrightarrow> n = sgl_bytes (io_map_sg ios (sgt_orig sgt)) \<and> io_map_sg ios (sgt_orig sgt) \<noteq> []) \<and>
     (sgt_nents sgt' = 0 \<or> sgt' = sgt) \<and> sgt_orig sgt' = sgt_orig sgt \<and> held (k_trace k') r = held (k_trace k) r \<and>
     (\<exists>mv. (submit_moves hw mp ios tfer ep sgt ms e k mv rv (int n) \<or> n = 0 \<and> rv < 0 \<and> mv = []) \<and>
        (advancing e \<longrightarrow> (let all = zip (sg_bytes (io_map_sg ios (sgt_orig sgt))) (span ep (sgl_bytes (io_map_sg ios (sgt_orig sgt))))
           in prefix (move_bytes mv) all \<and> (rv = 0 \<longrightarrow> move_bytes mv = all))))"
proof -
  have on: "\<not> xdma_device_flag_check v XDEV_FLAG_OFFLINE"
    using assms(2) by (auto simp: submit_check_def EINVAL_def EBUSY_def Let_def split: if_splits)
  from wrun.submit_body_returns [OF assms(4-10), of hw ep ms r] obtain n rv sgt' e' k' where body:
    "submit_body hw mp ios False tfer ep sgt False ms e k = Some (if n \<noteq> 0 then int n else rv, sgt', e', k')"
    and rest: "rv \<le> 0 \<and> n \<le> sgl_bytes (io_map_sg ios (sgt_orig sgt)) \<and>
     (rv = 0 \<longrightarrow> n = sgl_bytes (io_map_sg ios (sgt_orig sgt)) \<and> io_map_sg ios (sgt_orig sgt) \<noteq> []) \<and>
     (sgt_nents sgt' = 0 \<or> sgt' = sgt) \<and> sgt_orig sgt' = sgt_orig sgt \<and> held (k_trace k') r = held (k_trace k) r \<and>
     (\<exists>mv. (submit_moves hw mp ios tfer ep sgt ms e k mv rv (int n) \<or> n = 0 \<and> rv < 0 \<and> mv = []) \<and>
        (advancing e \<longrightarrow> (let all = zip (sg_bytes (io_map_sg ios (sgt_orig sgt))) (span ep (sgl_bytes (io_map_sg ios (sgt_orig sgt))))
           in prefix (move_bytes mv) all \<and> (rv = 0 \<longrightarrow> move_bytes mv = all))))"
    by blast
  have "xdma_xfer_submit hw mp ios tfer (Some h) channel write ep sgt False ms d k
      = Some (if n \<noteq> 0 then int n else rv, sgt', put_engine d h v write channel e', k')"
    using assms(1-3) on body by (simp add: xdma_xfer_submit_def)
  then show ?thesis using rest by blast
qed

lemma xfer_submit_returns:
  assumes "d_devs d h = Some v" and "submit_check d h v channel write = 0"
    and "e = dir_engines (xfer_dir write) v channel"
    and "io_wait ios = wait_run hw mp iod evs" and "0 < desc_blen_max mp"
    and "engine_inv (e, k)" and "x_state (k_xfers k tfer) \<noteq> TRANSFER_STATE_SUBMITTED"
    and "unat (e_desc_idx e) < 2048" and "\<not> st_c2h e"
    and "sgl_bytes (io_map_sg ios (sgt_orig sgt)) < 2 ^ 32"
  shows "\<exists>n rv sgt' e' k'. xdma_xfer_submit hw mp ios tfer (Some h) channel write ep sgt False ms d k
       = Some (if n \<noteq> 0 then int n else rv, sgt', put_engine d h v write channel e', k') \<and> rv \<le> 0 \<and>
     n \<le> sgl_bytes (io_map_sg ios (sgt_orig sgt)) \<and> (rv = 0 \<longrightarrow> n = sgl_bytes (io_map_sg ios (sgt_orig sgt)) \<and> io_map_sg ios (sgt_orig sgt) \<noteq> []) \<and>
     (sgt_nents sgt' = 0 \<or> sgt' = sgt) \<and> sgt_orig sgt' = sgt_orig sgt \<and> held (k_trace k') r = held (k_trace k) r"
  using xfer_submit_moves [OF assms, of ep ms r] by blast

text \<open>
  C4. A blocking request on a memory-mapped engine always returns, whatever the hardware answers and
  whatever services, requests and timeouts the engine sees while the caller waits: the request
  is cut into as many transfers as the ring needs, and the result is the number of bytes moved or, when
  there are none, an error. Without an error it is the size of the scatter list, and it is never more.
  A scatter list that was mapped for the request is unmapped exactly once and then has no mapped
  entries, one that could not be mapped is left as it was, and no resource is left held.
\<close>

theorem xdma_xfer_submit_returns:
  assumes "d_devs d h = Some v" and "submit_check d h v channel write = 0"
    and "e = dir_engines (xfer_dir write) v channel"
    and "io_wait ios = wait_run hw mp iod evs" and "0 < desc_blen_max mp"
    and "engine_inv (e, k)" and "x_state (k_xfers k tfer) \<noteq> TRANSFER_STATE_SUBMITTED"
    and "unat (e_desc_idx e) < 2048" and "\<not> st_c2h e"
    and "sgl_bytes (io_map_sg ios (sgt_orig sgt)) < 2 ^ 32"
  shows "\<exists>n rv sgt' d' k'. xdma_xfer_submit hw mp ios tfer (Some h) channel write ep sgt False ms d k
       = Some (if n \<noteq> 0 then int n else rv, sgt', d', k') \<and> rv \<le> 0 \<and>
     n \<le> sgl_bytes (io_map_sg ios (sgt_orig sgt)) \<and> (rv = 0 \<longrightarrow> n = sgl_bytes (io_map_sg ios (sgt_orig sgt)) \<and> io_map_sg ios (sgt_orig sgt) \<noteq> []) \<and>
     (sgt_nents sgt' = 0 \<or> sgt' = sgt) \<and> sgt_orig sgt' = sgt_orig sgt \<and> held (k_trace k') r = held (k_trace k) r"
  using xfer_submit_returns [OF assms] by blast

definition submit_dev :: xdma_dev where
  "submit_dev = fresh_dev\<lparr>v_engine_h2c := (\<lambda>_. zero_engine\<lparr>e_magic := MAGIC_ENGINE, e_dir := DMA_TO_DEVICE\<rparr>)\<rparr>"

definition example_ios :: io_services where
  "example_ios = \<lparr>io_kmem = (\<lambda>_. True), io_map_sg = (\<lambda>sgl. sgl),
     io_wait = wait_run (\<lambda>_ _. 0) example_mp (\<lambda>_ e k. (e, k)) (\<lambda>_ _ _. [Service 1])\<rparr>"

definition example_sgt :: sg_table where
  "example_sgt = \<lparr>sgt_orig = [\<lparr>sg_dma_address = 0x1000, sg_dma_len = 64\<rparr>], sgt_nents = 1, sgt_sgl = []\<rparr>"

theorem xdma_xfer_submit_returns_witness:
  "\<exists>n rv sgt' d' k'. xdma_xfer_submit (\<lambda>_ _. 0) example_mp example_ios 3 (Some 7) 0 True 0 example_sgt False 10000
       (empty_driver\<lparr>d_devs := (\<lambda>_. None)(7 := Some submit_dev), xdev_list := [7]\<rparr>)
       \<lparr>k_trace = [], k_xfers = (\<lambda>_. zero_transfer)\<rparr> = Some (if n \<noteq> 0 then int n else rv, sgt', d', k') \<and>
     n \<le> 64 \<and> (rv = 0 \<longrightarrow> n = 64) \<and> held (k_trace k') (ResSg 1) = 0"
proof -
  let ?d = "empty_driver\<lparr>d_devs := (\<lambda>_. None)(7 := Some submit_dev), xdev_list := [7]\<rparr>"
  let ?k = "\<lparr>k_trace = [], k_xfers = (\<lambda>_. zero_transfer)\<rparr>"
  let ?e = "dir_engines (xfer_dir True) submit_dev 0"
  have e: "?e = zero_engine\<lparr>e_magic := MAGIC_ENGINE, e_dir := DMA_TO_DEVICE\<rparr>"
    by (simp add: dir_engines_def xfer_dir_def submit_dev_def)
  have bytes: "sgl_bytes (io_map_sg example_ios (sgt_orig example_sgt)) = 64"
    by (simp add: example_ios_def example_sgt_def sgl_bytes_def)
  have chk: "submit_check ?d 7 submit_dev 0 True = 0"
    using e by (simp add: submit_check_def debug_check_dev_hndl_def xdev_find_by_pdev_def dev_pdev_def submit_dev_def
        fresh_dev_def example_dev_def channel_max_def xdma_device_flag_check_def xfer_dir_def dir_engines_def)
  have inv: "engine_inv (?e, ?k)" unfolding e by (simp add: zero_engine_def zero_transfer_def)
  have eng: "unat (e_desc_idx ?e) < 2048" "\<not> st_c2h ?e" unfolding e by (simp_all add: zero_engine_def st_c2h_def)
  have idle: "x_state (k_xfers ?k 3) \<noteq> TRANSFER_STATE_SUBMITTED" by (simp add: zero_transfer_def)
  have wt: "io_wait example_ios = wait_run (\<lambda>_ _. 0) example_mp (\<lambda>_ e k. (e, k)) (\<lambda>_ _ _. [Service 1])"
    by (simp add: example_ios_def)
  have blen: "0 < desc_blen_max example_mp" by (simp add: example_mp_def xdma_consts)
  have dev: "d_devs ?d 7 = Some submit_dev" by simp
  have lt: "sgl_bytes (io_map_sg example_ios (sgt_orig example_sgt)) < 2 ^ 32" by (simp add: bytes)
  from xdma_xfer_submit_returns [OF dev chk refl wt blen inv idle eng lt, of 0 10000 "ResSg 1"] show ?thesis
    by (simp only: bytes kstate.simps held.simps) blast
qed

text \<open>
  C5. What a blocking request makes the engine move is what was asked for: the descriptors that the engine fetches in the
  rounds of the submission, transfer after transfer, carry byte \<open>j\<close> of the scatter list to or from byte \<open>j\<close> of the card's
  window, in order, each byte once. A request that ends without an error has had all its bytes programmed, one that ends
  early a prefix of them.
\<close>

theorem xdma_xfer_submit_moves_bytes:
  assumes "d_devs d h = Some v" and "submit_check d h v channel write = 0"
    and "e = dir_engines (xfer_dir write) v channel"
    and "io_wait ios = wait_run hw mp iod evs" and "0 < desc_blen_max mp"
    and "engine_inv (e, k)" and "x_state (k_xfers k tfer) \<noteq> TRANSFER_STATE_SUBMITTED"
    and "unat (e_desc_idx e) < 2048" and "advancing e"
    and "sgl_bytes (io_map_sg ios (sgt_orig sgt)) < 2 ^ 32"
    and "all = zip (sg_bytes (io_map_sg ios (sgt_orig sgt))) (span ep (sgl_bytes (io_map_sg ios (sgt_orig sgt))))"
  shows "\<exists>mv n rv sgt' d' k'. xdma_xfer_submit hw mp ios tfer (Some h) channel write ep sgt False ms d k
       = Some (if n \<noteq> 0 then int n else rv, sgt', d', k') \<and>
     (submit_moves hw mp ios tfer ep sgt ms e k mv rv (int n) \<or> n = 0 \<and> rv < 0 \<and> mv = []) \<and>
     prefix (move_bytes mv) all \<and> (rv = 0 \<longrightarrow> move_bytes mv = all \<and> n = length all)"
proof -
  have "\<not> st_c2h e" using assms(9) by (simp add: advancing_def)
  moreover have len: "length all = sgl_bytes (io_map_sg ios (sgt_orig sgt))"
    by (simp add: assms(11) sg_bytes_def sgl_bytes_def length_concat comp_def)
  ultimately obtain n rv sgt' e' k' mv where
    "xdma_xfer_submit hw mp ios tfer (Some h) channel write ep sgt False ms d k
       = Some (if n \<noteq> 0 then int n else rv, sgt', put_engine d h v write channel e', k')"
    "submit_moves hw mp ios tfer ep sgt ms e k mv rv (int n) \<or> n = 0 \<and> rv < 0 \<and> mv = []"
    "prefix (move_bytes mv) all" "rv = 0 \<longrightarrow> move_bytes mv = all" "rv = 0 \<longrightarrow> n = length all"
    using xfer_submit_moves [OF assms(1-8) _ assms(10), of ep ms "ResSg 0"] assms(9)
    unfolding assms(11) [symmetric] Let_def by metis
  then show ?thesis by blast
qed

theorem xdma_xfer_submit_moves_bytes_witness:
  "\<exists>mv n rv sgt' d' k'. xdma_xfer_submit (\<lambda>_ _. 0) example_mp example_ios 3 (Some 7) 0 True 0x80 example_sgt False 10000
       (empty_driver\<lparr>d_devs := (\<lambda>_. None)(7 := Some submit_dev), xdev_list := [7]\<rparr>)
       \<lparr>k_trace = [], k_xfers = (\<lambda>_. zero_transfer)\<rparr> = Some (if n \<noteq> 0 then int n else rv, sgt', d', k') \<and>
     prefix (move_bytes mv) (zip (span 0x1000 64) (span 0x80 64)) \<and> (rv = 0 \<longrightarrow> n = 64 \<and> (0x103F, 0xBF) \<in> set (move_bytes mv))"
proof -
  let ?d = "empty_driver\<lparr>d_devs := (\<lambda>_. None)(7 := Some submit_dev), xdev_list := [7]\<rparr>"
  let ?k = "\<lparr>k_trace = [], k_xfers = (\<lambda>_. zero_transfer)\<rparr>"
  let ?e = "dir_engines (xfer_dir True) submit_dev 0"
  have e: "?e = zero_engine\<lparr>e_magic := MAGIC_ENGINE, e_dir := DMA_TO_DEVICE\<rparr>"
    by (simp add: dir_engines_def xfer_dir_def submit_dev_def)
  have sg: "io_map_sg example_ios (sgt_orig example_sgt) = [\<lparr>sg_dma_address = 0x1000, sg_dma_len = 64\<rparr>]"
    by (simp add: example_ios_def example_sgt_def)
  have chk: "submit_check ?d 7 submit_dev 0 True = 0"
    using e by (simp add: submit_check_def debug_check_dev_hndl_def xdev_find_by_pdev_def dev_pdev_def submit_dev_def
        fresh_dev_def example_dev_def channel_max_def xdma_device_flag_check_def xfer_dir_def dir_engines_def)
  have inv: "engine_inv (?e, ?k)" unfolding e by (simp add: zero_engine_def zero_transfer_def)
  have eng: "unat (e_desc_idx ?e) < 2048" "advancing ?e" unfolding e by (simp_all add: zero_engine_def advancing_def st_c2h_def)
  have idle: "x_state (k_xfers ?k 3) \<noteq> TRANSFER_STATE_SUBMITTED" by (simp add: zero_transfer_def)
  have wt: "io_wait example_ios = wait_run (\<lambda>_ _. 0) example_mp (\<lambda>_ e k. (e, k)) (\<lambda>_ _ _. [Service 1])"
    by (simp add: example_ios_def)
  have blen: "0 < desc_blen_max example_mp" by (simp add: example_mp_def xdma_consts)
  have dev: "d_devs ?d 7 = Some submit_dev" by simp
  have lt: "sgl_bytes (io_map_sg example_ios (sgt_orig example_sgt)) < 2 ^ 32" by (simp add: sg sgl_bytes_def)
  have all: "zip (span 0x1000 64) (span 0x80 64) = zip (sg_bytes (io_map_sg example_ios (sgt_orig example_sgt)))
      (span 0x80 (sgl_bytes (io_map_sg example_ios (sgt_orig example_sgt))))"
    by (simp add: sg sg_bytes_def sgl_bytes_def)
  define pairs where "pairs = zip (span 0x1000 64) (span 0x80 64)"
  have l: "length pairs = 64" by (simp add: pairs_def)
  have "pairs ! 63 = (0x103F, 0xBF)" by (simp add: pairs_def span_def)
  then have last: "(0x103F, 0xBF) \<in> set pairs" using nth_mem [of 63 pairs] l by simp
  from xdma_xfer_submit_moves_bytes [OF dev chk refl wt blen inv idle eng lt all, of 10000, folded pairs_def] obtain mv n rv sgt' d' k' where
    r: "xdma_xfer_submit (\<lambda>_ _. 0) example_mp example_ios 3 (Some 7) 0 True 0x80 example_sgt False 10000 ?d ?k
       = Some (if n \<noteq> 0 then int n else rv, sgt', d', k')"
    and m: "prefix (move_bytes mv) pairs" "rv = 0 \<longrightarrow> move_bytes mv = pairs \<and> n = length pairs"
    by blast
  have "prefix (move_bytes mv) pairs \<and> (rv = 0 \<longrightarrow> n = 64 \<and> (0x103F, 0xBF) \<in> set (move_bytes mv))"
    using m last l by simp
  with r show ?thesis unfolding pairs_def by blast
qed

section \<open>The two transfers of an asynchronous request\<close>

definition accepts :: "xdma_engine \<Rightarrow> bool" where
  "accepts e \<longleftrightarrow> e_shutdown e AND ENGINE_SHUTDOWN_REQUEST = 0"

lemma transfer_queue_accepts:
  assumes "transfer_queue hw mp False e i k = (rv, e', k')" and "accepts e" and "x_desc_num (k_xfers k i) \<noteq> 0"
  shows "rv = 0 \<and> accepts e'"
  using assms
  by (auto simp: transfer_queue_def accepts_def engine_start_def engine_start_mode_config_def
      engine_status_read_def ENGINE_SHUTDOWN_NONE_def Let_def split: if_splits prod.splits list.splits)

lemma nowait_step:
  assumes ready: "xfer_ready e req" and acc: "accepts e"
  obtains req' e' k' where
    "nowait_loop hw mp False m cb (Suc n) i req (r_sw_desc_cnt req - r_sw_desc_idx req) e k =
     nowait_loop hw mp False m cb n (Suc i) req' (r_sw_desc_cnt req' - r_sw_desc_idx req') e' k'"
    "accepts e'" "r_sw_desc_cnt req' = r_sw_desc_cnt req"
    "unat (r_sw_desc_idx req') = unat (r_sw_desc_idx req) + xfer_count e req"
    "unat (e_desc_idx e') = (unat (e_desc_idx e) + xfer_count e req) mod 2048"
proof -
  let ?n = "xfer_count e req" and ?nents = "r_sw_desc_cnt req - r_sw_desc_idx req"
  note bs = bytes_step(2) [OF ready] and bd = xfer_count_bounds [OF ready]
  have more: "?nents \<noteq> 0" using ready by (auto simp: xfer_ready_def)
  obtain t' where ti: "transfer_init e req (k_trace k) =
    (0, e\<lparr>e_desc_ring := ring_map (unat (e_desc_idx e)) ?n (final_desc e req ?n) (e_desc_ring e),
          e_desc_idx := (e_desc_idx e + of_nat ?n) mod 2048, e_desc_used := e_desc_used e + of_nat ?n\<rparr>,
     req\<lparr>r_ep_addr := ep_after e req 0 ?n, r_sw_desc_idx := r_sw_desc_idx req + of_nat ?n\<rparr>,
     (transfer_at e)\<lparr>x_len := \<Sum>m < ?n. sw_len (sdesc_at req (unat (r_sw_desc_idx req) + m)),
         x_desc_adjacent := of_nat ?n, x_desc_cmpl_th := (if e_eop_flush e then 1 else of_nat ?n),
         x_desc_num := of_nat ?n\<rparr>, t')" (is "_ = (0, ?e1, ?req1, ?x, t')")
    using transfer_init_eq [OF ready] by blast
  let ?k1 = "upd_xfer (r_tfer req + i) (\<lambda>_. xfer_prepare m (Some cb) (?nents - of_nat ?n) ?x) (k\<lparr>k_trace := t'\<rparr>)"
  obtain rv e2 k2 where tq: "transfer_queue hw mp False ?e1 (r_tfer req + i) ?k1 = (rv, e2, k2)" by (metis prod_cases3)
  have un: "unat (of_nat ?n :: u32) = ?n" using bd by (simp add: unat_of_nat_small)
  then have "(of_nat ?n :: u32) \<noteq> 0" using bd(1) by (metis less_numeral_extra(3) unat_0)
  then have q: "rv = 0 \<and> accepts e2" using transfer_queue_accepts [OF tq] acc by (simp add: accepts_def)
  have "eng_core e2 = eng_core ?e1" using kept_queue [OF tq] by (simp add: kept_def)
  from eng_coreD(1) [OF this] have idx: "e_desc_idx e2 = (e_desc_idx e + of_nat ?n) mod 2048" by simp
  have "unat (e_desc_idx e + of_nat ?n) = unat (e_desc_idx e) + ?n" using bd un by (subst unat_add_lt) simp_all
  then have idx2: "unat (e_desc_idx e2) = (unat (e_desc_idx e) + ?n) mod 2048" by (simp add: idx unat_mod)
  have ne: "r_sw_desc_cnt ?req1 - r_sw_desc_idx ?req1 = ?nents - of_nat ?n" by simp
  have step: "nowait_loop hw mp False m cb (Suc n) i req ?nents e k =
      nowait_loop hw mp False m cb n (Suc i) ?req1 (r_sw_desc_cnt ?req1 - r_sw_desc_idx ?req1) e2 k2"
    unfolding ne using more tq q by (simp add: ti Let_def)
  show thesis by (rule that [OF step]) (use q bs idx2 in simp_all)
qed

lemma nowait_done:
  "r_sw_desc_cnt req = r_sw_desc_idx req \<Longrightarrow>
   nowait_loop hw mp False m cb n i req (r_sw_desc_cnt req - r_sw_desc_idx req) e k = Some (- EIOCBQUEUED, req, e, k)"
  by (cases n) simp_all

text \<open>
  An asynchronous request has room for two transfers, and the ring decides how many it needs: the
  submission stays inside \<^verbatim>\<open>req->tfer\<close> exactly when the descriptors fit the rest of the ring and one more round of it. A
  longer request, which nothing refuses, makes \<^verbatim>\<open>xdma_xfer_submit_nowait\<close> initialise a third
  transfer past the array (the result \<open>None\<close>).
\<close>

theorem nowait_fits:
  assumes "unat (e_desc_idx e) < 2048" and "accepts e" and "r_sw_desc_idx req = 0"
  shows "nowait_loop hw mp False m cb 2 0 req (r_sw_desc_cnt req) e k \<noteq> None \<longleftrightarrow>
    unat (r_sw_desc_cnt req) \<le> (2048 - unat (e_desc_idx e)) + 2048"
proof (cases "r_sw_desc_cnt req = 0")
  case True
  then show ?thesis using nowait_done [of req hw mp m cb 2 0 e k] assms(3) by simp
next
  case False
  let ?N = "unat (r_sw_desc_cnt req)" and ?I = "unat (e_desc_idx e)"
  have ready: "xfer_ready e req" using False assms by (simp add: xfer_ready_def unat_gt_0)
  have c1: "xfer_count e req = min ?N (2048 - ?I)" using assms(3) by (simp add: xfer_count_def)
  obtain req1 e1 k1 where s1: "nowait_loop hw mp False m cb (Suc 1) 0 req (r_sw_desc_cnt req - r_sw_desc_idx req) e k =
      nowait_loop hw mp False m cb 1 (Suc 0) req1 (r_sw_desc_cnt req1 - r_sw_desc_idx req1) e1 k1"
    and f1: "accepts e1" "r_sw_desc_cnt req1 = r_sw_desc_cnt req" "unat (r_sw_desc_idx req1) = min ?N (2048 - ?I)"
    "unat (e_desc_idx e1) = (?I + min ?N (2048 - ?I)) mod 2048"
    using nowait_step [OF ready assms(2), of hw mp m cb 1 0 k] assms(3) c1 by (metis add_0 unat_0)
  have two: "nowait_loop hw mp False m cb 2 0 req (r_sw_desc_cnt req) e k =
      nowait_loop hw mp False m cb 1 (Suc 0) req1 (r_sw_desc_cnt req1 - r_sw_desc_idx req1) e1 k1"
    using s1 assms(3) by (simp add: numeral_2_eq_2)
  show ?thesis
  proof (cases "?N \<le> 2048 - ?I")
    case True
    then have "r_sw_desc_cnt req1 = r_sw_desc_idx req1" using f1 by (simp add: word_unat_eq_iff)
    then show ?thesis using two nowait_done True by simp
  next
    case gt: False
    then have idx1: "unat (e_desc_idx e1) = 0" "unat (r_sw_desc_idx req1) = 2048 - ?I" using f1 assms(1) by simp_all
    have ready1: "xfer_ready e1 req1" using gt idx1 f1 by (simp add: xfer_ready_def)
    have c2: "xfer_count e1 req1 = min (?N - (2048 - ?I)) 2048" using idx1 f1 by (simp add: xfer_count_def)
    obtain req2 e2 k2 where s2: "nowait_loop hw mp False m cb (Suc 0) (Suc 0) req1 (r_sw_desc_cnt req1 - r_sw_desc_idx req1) e1 k1 =
        nowait_loop hw mp False m cb 0 (Suc (Suc 0)) req2 (r_sw_desc_cnt req2 - r_sw_desc_idx req2) e2 k2"
      and f2: "r_sw_desc_cnt req2 = r_sw_desc_cnt req" "unat (r_sw_desc_idx req2) = 2048 - ?I + min (?N - (2048 - ?I)) 2048"
      using nowait_step [OF ready1 f1(1), of hw mp m cb 0 "Suc 0" k1] idx1(2) f1(2) c2 by metis
    have "r_sw_desc_cnt req2 = r_sw_desc_idx req2 \<longleftrightarrow> ?N \<le> (2048 - ?I) + 2048"
      using f2 gt by (auto simp: word_unat_eq_iff)
    then show ?thesis using two s2 by simp
  qed
qed

theorem nowait_fits_witness:
  "nowait_loop (\<lambda>_ _. 0) example_mp False False 1 2 0
     \<lparr>r_total_len = 4097, r_ep_addr = 0, r_tfer = 3, r_cb = Some 1, r_sw_desc_idx = 0, r_sw_desc_cnt = 4097,
      r_sdesc_nr = 4097, r_sdesc = replicate 4097 \<lparr>sw_addr = 0, sw_len = 1\<rparr>\<rparr> 4097 zero_engine
     \<lparr>k_trace = [], k_xfers = (\<lambda>_. zero_transfer)\<rparr> = None"
proof -
  let ?req = "\<lparr>r_total_len = 4097, r_ep_addr = 0, r_tfer = 3, r_cb = Some 1, r_sw_desc_idx = 0, r_sw_desc_cnt = 4097,
      r_sdesc_nr = 4097, r_sdesc = replicate 4097 \<lparr>sw_addr = 0, sw_len = 1\<rparr>\<rparr> :: xdma_request_cb"
  have z: "unat (e_desc_idx zero_engine) = 0" by (simp add: zero_engine_def)
  have "unat (e_desc_idx zero_engine) < 2048" "accepts zero_engine" "r_sw_desc_idx ?req = 0"
    by (simp_all add: zero_engine_def accepts_def)
  note f = nowait_fits [OF this, of "\<lambda>_ _. 0" example_mp False 1 "\<lparr>k_trace = [], k_xfers = (\<lambda>_. zero_transfer)\<rparr>"]
  have "r_sw_desc_cnt ?req = 4097" by simp
  then have "\<not> unat (r_sw_desc_cnt ?req) \<le> (2048 - unat (e_desc_idx zero_engine)) + 2048" unfolding z by simp
  then show ?thesis using f \<open>r_sw_desc_cnt ?req = 4097\<close> by metis
qed

end
