(* ===== verification/Xdma_Sgdma.thy ===== *)
theory Xdma_Sgdma
  imports Xdma_Submit Xdma_Ctrl
begin

text \<open>
  The data nodes of \<^verbatim>\<open>cdev_sgdma.c\<close>: pinning a user buffer into a scatter list, the blocking read and write,
  seeking, the ioctls and opening and closing. The memory manager (\<^verbatim>\<open>sg_alloc_table\<close>, \<^verbatim>\<open>kcalloc\<close>,
  \<^verbatim>\<open>get_user_pages_fast\<close>) is a parameter. A page is named by its address, \<open>0\<close> is the null pointer; the entry
  of a scatter list that \<^verbatim>\<open>sg_set_page\<close> fills is the address of its first byte and its length.
\<close>

text \<open>The engine a node points to, with its place in the device, and storing it back.\<close>

definition node_engine :: "driver \<Rightarrow> xdma_cdev \<Rightarrow> (nat \<times> xdma_dev \<times> dma_data_direction \<times> nat) option" where
  "node_engine d xc =
     (case xc_xdev xc of None \<Rightarrow> None
      | Some h \<Rightarrow> (case d_devs d h of None \<Rightarrow> None
                 | Some v \<Rightarrow> map_option (\<lambda>(dir, c). (h, v, dir, c)) (xc_engine xc)))"

definition store_engine :: "driver \<Rightarrow> nat \<Rightarrow> xdma_dev \<Rightarrow> dma_data_direction \<Rightarrow> nat \<Rightarrow> xdma_engine \<Rightarrow> driver" where
  "store_engine d h v dir c e = d\<lparr>d_devs := (d_devs d)(h := Some (set_engine dir c e v))\<rparr>"

section \<open>The buffer of one request\<close>

record xdma_io_cb =
  io_buf :: addr
  io_len :: u64
  io_private :: "nat option"
  io_pages_nr :: u32
  io_sgt :: sg_table
  io_pages :: "addr list option"
  io_ep_addr :: u64
  io_req :: "xdma_request_cb option"
  io_write :: bool

definition zero_sgt :: sg_table where
  "zero_sgt = \<lparr>sgt_orig = [], sgt_nents = 0, sgt_sgl = []\<rparr>"

definition zero_io_cb :: xdma_io_cb where
  "zero_io_cb = \<lparr>io_buf = 0, io_len = 0, io_private = None, io_pages_nr = 0, io_sgt = zero_sgt, io_pages = None,
     io_ep_addr = 0, io_req = None, io_write = False\<rparr>"

text \<open>
  \<open>us_gup\<close> is \<^verbatim>\<open>get_user_pages_fast\<close>: an error number or the pages it pinned, which may be fewer than asked for.
\<close>

record user_services =
  us_sg_alloc :: "nat \<Rightarrow> bool"
  us_kcalloc :: "nat \<Rightarrow> bool"
  us_gup :: "addr \<Rightarrow> u32 \<Rightarrow> int + addr list"

section \<open>Alignment\<close>

definition lsb :: "u64 \<Rightarrow> u8 \<Rightarrow> u32" where
  "lsb a align = ucast a AND (ucast align - 1)"

definition check_transfer_align :: "xdma_engine option \<Rightarrow> addr \<Rightarrow> u64 \<Rightarrow> u64 \<Rightarrow> bool \<Rightarrow> int" where
  "check_transfer_align engine buf count pos syn =
     (case engine of
        None \<Rightarrow> - EINVAL
      | Some e \<Rightarrow>
          if e_non_incr_addr e
          then if lsb buf (e_addr_align e) \<noteq> 0 then - EINVAL
               else if lsb pos (e_addr_align e) \<noteq> 0 \<and> syn then - EINVAL
               else if count AND (ucast (e_len_granularity e) - 1) \<noteq> 0 then - EINVAL
               else 0
          else if lsb buf (e_addr_align e) \<noteq> lsb pos (e_addr_align e) then - EINVAL
          else 0)"

section \<open>Pinning a user buffer\<close>

text \<open>\<^verbatim>\<open>sg_alloc_table\<close> makes all entries mapped ones; \<^verbatim>\<open>sg_free_table\<close> does nothing on a table without entries.\<close>

definition sg_alloc_table :: "nat \<Rightarrow> kstate \<Rightarrow> sg_table \<times> kstate" where
  "sg_alloc_table n k =
     (\<lparr>sgt_orig = replicate n \<lparr>sg_dma_address = 0, sg_dma_len = 0\<rparr>, sgt_nents = n, sgt_sgl = []\<rparr>,
      log_event (Acquire (ResSgTable n)) k)"

definition sg_free_table :: "sg_table \<Rightarrow> kstate \<Rightarrow> sg_table \<times> kstate" where
  "sg_free_table sgt k =
     (if sgt_orig sgt = [] then (sgt, k)
      else (sgt\<lparr>sgt_orig := [], sgt_sgl := []\<rparr>, log_event (Release (ResSgTable (length (sgt_orig sgt)))) k))"

definition put_page :: "addr \<Rightarrow> kstate \<Rightarrow> kstate" where
  "put_page p k = log_event (Release (ResPage p)) k"

text \<open>The loop over the pages stops at the first null pointer.\<close>

fun put_pages :: "bool \<Rightarrow> addr list \<Rightarrow> kstate \<Rightarrow> kstate" where
  "put_pages write [] k = k"
| "put_pages write (p # ps) k =
     (if p \<noteq> 0
      then let k = (if \<not> write then log_event (PageDirty p) k else k) in put_pages write ps (put_page p k)
      else k)"

definition xdma_io_cb_release :: "xdma_io_cb \<Rightarrow> kstate \<Rightarrow> xdma_io_cb \<times> kstate" where
  "xdma_io_cb_release cb k =
     (let ps = (case io_pages cb of None \<Rightarrow> [] | Some ps \<Rightarrow> ps);
          k = fold put_page (take (unat (io_pages_nr cb)) ps) k;
          (sgt, k) = sg_free_table (io_sgt cb) k;
          k = (if io_pages cb = None then k else log_event (Release (ResPages (length ps))) k)
      in (zero_io_cb, k))"

definition char_sgdma_unmap_user_buf :: "xdma_io_cb \<Rightarrow> bool \<Rightarrow> kstate \<Rightarrow> xdma_io_cb \<times> kstate" where
  "char_sgdma_unmap_user_buf cb write k =
     (let (sgt, k) = sg_free_table (io_sgt cb) k; cb = cb\<lparr>io_sgt := sgt\<rparr> in
      case io_pages cb of
        None \<Rightarrow> (cb, k)
      | Some ps \<Rightarrow>
          if io_pages_nr cb = 0 then (cb, k)
          else let k = put_pages write (take (unat (io_pages_nr cb)) ps) k
               in (cb\<lparr>io_pages := None\<rparr>, log_event (Release (ResPages (length ps))) k))"

definition user_pages_nr :: "addr \<Rightarrow> u64 \<Rightarrow> u32" where
  "user_pages_nr buf len = ucast (drop_bit 12 ((buf + len + 0x1000 - 1) - (buf AND NOT 0xFFF)))"

text \<open>One entry per page; \<^verbatim>\<open>min_t(unsigned int, ..)\<close> cuts both operands to 32 bits.\<close>

definition sg_nbytes :: "addr \<Rightarrow> u64 \<Rightarrow> u32" where
  "sg_nbytes buf len = min (ucast (0x1000 - (buf AND 0xFFF))) (ucast len)"

fun fill_sgl :: "addr list \<Rightarrow> addr \<Rightarrow> u64 \<Rightarrow> sg_entry list \<times> u64" where
  "fill_sgl [] buf len = ([], len)"
| "fill_sgl (p # ps) buf len =
     (let nbytes = sg_nbytes buf len;
          (sgl, len') = fill_sgl ps (buf + ucast nbytes) (len - ucast nbytes)
      in (\<lparr>sg_dma_address = p + (buf AND 0xFFF), sg_dma_len = nbytes\<rparr> # sgl, len'))"

fun dup_pages :: "addr list \<Rightarrow> bool" where
  "dup_pages (p # q # ps) \<longleftrightarrow> p = q \<or> dup_pages (q # ps)"
| "dup_pages _ \<longleftrightarrow> False"

text \<open>The path from the pinned pages on.\<close>

definition map_pages :: "xdma_io_cb \<Rightarrow> bool \<Rightarrow> u32 \<Rightarrow> addr list \<Rightarrow> kstate \<Rightarrow> int \<times> xdma_io_cb \<times> kstate" where
  "map_pages cb write pages_nr ps k =
     (if of_nat (length ps) \<noteq> pages_nr
      then let (cb, k) = char_sgdma_unmap_user_buf (cb\<lparr>io_pages_nr := of_nat (length ps)\<rparr>) write k in (- EFAULT, cb, k)
      else if dup_pages ps
      then let (cb, k) = char_sgdma_unmap_user_buf (cb\<lparr>io_pages_nr := pages_nr\<rparr>) write k in (- EFAULT, cb, k)
      else let (sgl, len) = fill_sgl ps (io_buf cb) (io_len cb);
               cb = cb\<lparr>io_sgt := (io_sgt cb)\<lparr>sgt_orig := sgl\<rparr>\<rparr>
           in if len \<noteq> 0 then (- EINVAL, cb, k) else (0, cb\<lparr>io_pages_nr := pages_nr\<rparr>, k))"

definition char_sgdma_map_user_buf_to_sgl ::
    "user_services \<Rightarrow> xdma_io_cb \<Rightarrow> bool \<Rightarrow> kstate \<Rightarrow> int \<times> xdma_io_cb \<times> kstate" where
  "char_sgdma_map_user_buf_to_sgl us cb write k =
     (let pages_nr = user_pages_nr (io_buf cb) (io_len cb); n = unat pages_nr in
      if pages_nr = 0 then (- EINVAL, cb, k)
      else if \<not> us_sg_alloc us n then (- ENOMEM, cb\<lparr>io_sgt := zero_sgt\<rparr>, k)
      else let (sgt, k) = sg_alloc_table n k; cb = cb\<lparr>io_sgt := sgt\<rparr> in
           if \<not> us_kcalloc us n
           then let (cb, k) = char_sgdma_unmap_user_buf (cb\<lparr>io_pages := None\<rparr>) write k in (- ENOMEM, cb, k)
           else let k = log_event (Acquire (ResPages n)) k in
                (case us_gup us (io_buf cb) pages_nr of
                   Inl err \<Rightarrow>
                     let (cb, k) = char_sgdma_unmap_user_buf (cb\<lparr>io_pages := Some (replicate n 0)\<rparr>) write k in (err, cb, k)
                 | Inr ps \<Rightarrow>
                     map_pages (cb\<lparr>io_pages := Some (ps @ replicate (n - length ps) 0)\<rparr>) write pages_nr ps
                       (fold (\<lambda>p. log_event (Acquire (ResPage p))) ps k)))"

section \<open>Reading, writing and seeking\<close>

text \<open>The module parameters \<^verbatim>\<open>h2c_timeout\<close> and \<^verbatim>\<open>c2h_timeout\<close>, in seconds.\<close>

record timeouts =
  h2c_timeout :: u32
  c2h_timeout :: u32

definition timeout_of :: "timeouts \<Rightarrow> bool \<Rightarrow> int" where
  "timeout_of tmo write = sint (if write then h2c_timeout tmo * 1000 else c2h_timeout tmo * 1000)"

definition char_sgdma_read_write ::
    "device \<Rightarrow> modparams \<Rightarrow> timeouts \<Rightarrow> io_services \<Rightarrow> user_services \<Rightarrow> xfer_id \<Rightarrow> xdma_cdev option \<Rightarrow> addr \<Rightarrow> u64 \<Rightarrow> u64 \<Rightarrow> bool
     \<Rightarrow> driver \<Rightarrow> kstate \<Rightarrow> (int \<times> driver \<times> kstate) option" where
  "char_sgdma_read_write hw mp tmo ios us tfer xcdev buf count pos write d k =
     (let rv = xcdev_check (d_devs d) xcdev True in
      if rv < 0 then Some (rv, d, k)
      else (case Option.bind xcdev (node_engine d) of
              None \<Rightarrow> None
            | Some (h, v, dir, c) \<Rightarrow>
                let e = dir_engines dir v c in
                if e_dir e \<noteq> xfer_dir write then Some (- EINVAL, d, k)
                else let rv = check_transfer_align (Some e) buf count pos True in
                if rv \<noteq> 0 then Some (rv, d, k)
                else let cb = zero_io_cb\<lparr>io_buf := buf, io_len := count, io_ep_addr := pos, io_write := write\<rparr>;
                         (rv, cb, k) = char_sgdma_map_user_buf_to_sgl us cb write k in
                if rv < 0 then Some (rv, d, k)
                else (case xdma_xfer_submit hw mp ios tfer (Some h) (unat (e_channel e)) write pos (io_sgt cb) False
                             (timeout_of tmo write) d k of
                        None \<Rightarrow> None
                      | Some (res, sgt, d, k) \<Rightarrow>
                          let (cb, k) = char_sgdma_unmap_user_buf (cb\<lparr>io_sgt := sgt\<rparr>) write k in Some (res, d, k))))"

definition char_sgdma_write ::
    "device \<Rightarrow> modparams \<Rightarrow> timeouts \<Rightarrow> io_services \<Rightarrow> user_services \<Rightarrow> xfer_id \<Rightarrow> xdma_cdev option \<Rightarrow> addr \<Rightarrow> u64 \<Rightarrow> u64
     \<Rightarrow> driver \<Rightarrow> kstate \<Rightarrow> (int \<times> driver \<times> kstate) option" where
  "char_sgdma_write hw mp tmo ios us tfer xcdev buf count pos = char_sgdma_read_write hw mp tmo ios us tfer xcdev buf count pos True"

definition char_sgdma_read ::
    "device \<Rightarrow> modparams \<Rightarrow> timeouts \<Rightarrow> io_services \<Rightarrow> user_services \<Rightarrow> xfer_id \<Rightarrow> xdma_cdev option \<Rightarrow> addr \<Rightarrow> u64 \<Rightarrow> u64
     \<Rightarrow> driver \<Rightarrow> kstate \<Rightarrow> (int \<times> driver \<times> kstate) option" where
  "char_sgdma_read hw mp tmo ios us tfer xcdev buf count pos = char_sgdma_read_write hw mp tmo ios us tfer xcdev buf count pos False"

text \<open>Positions are signed 64-bit values; the result is the code and the new position of the file.\<close>

definition char_sgdma_llseek :: "u64 \<Rightarrow> u64 \<Rightarrow> int \<Rightarrow> int \<times> u64" where
  "char_sgdma_llseek f_pos off whence =
     (let newpos = (if whence = 0 then Some off
                    else if whence = 1 then Some (f_pos + off)
                    else if whence = 2 then Some (0xFFFFFFFF + off) else None)
      in case newpos of
           None \<Rightarrow> (- EINVAL, f_pos)
         | Some p \<Rightarrow> if sint p < 0 then (- EINVAL, f_pos) else (sint p, p))"

section \<open>Ioctls\<close>

definition IOCTL_XDMA_PERF_V1 :: u32 where [xdma_consts]: "IOCTL_XDMA_PERF_V1 = 1"
definition IOCTL_XDMA_PERF_START :: u32 where [xdma_consts]: "IOCTL_XDMA_PERF_START = 0x40087101"
definition IOCTL_XDMA_PERF_STOP :: u32 where [xdma_consts]: "IOCTL_XDMA_PERF_STOP = 0x40087102"
definition IOCTL_XDMA_PERF_GET :: u32 where [xdma_consts]: "IOCTL_XDMA_PERF_GET = 0x80087103"
definition IOCTL_XDMA_ADDRMODE_SET :: u32 where [xdma_consts]: "IOCTL_XDMA_ADDRMODE_SET = 0x40047104"
definition IOCTL_XDMA_ADDRMODE_GET :: u32 where [xdma_consts]: "IOCTL_XDMA_ADDRMODE_GET = 0x80047105"
definition IOCTL_XDMA_ALIGN_GET :: u32 where [xdma_consts]: "IOCTL_XDMA_ALIGN_GET = 0x80047106"

text \<open>
  The user's side of an ioctl: what \<^verbatim>\<open>copy_from_user\<close> leaves in the structure it fills (zeros where the copy stopped),
  the number of bytes \<^verbatim>\<open>copy_to_user\<close> could not copy, the word \<^verbatim>\<open>get_user\<close> finds, and whether \<^verbatim>\<open>put_user\<close>
  succeeds. The count of bytes that could not be read is never negative, so the test of \<^verbatim>\<open>ioctl_do_perf_start\<close>
  for a negative one has no counterpart, and the node check before the switch leaves no null engine.
\<close>

record ioctl_user =
  iu_perf :: xdma_performance_ioctl
  iu_uncopied :: nat
  iu_word :: "u32 option"
  iu_put :: bool

datatype user_out = OutPerf xdma_performance_ioctl | OutWord u32

type_synonym ioctl_result = "(int \<times> user_out option \<times> xdma_engine \<times> kstate) option"

text \<open>\<open>mem\<close> and \<open>mem2\<close>: the two allocations; \<open>i\<close> is the address of the new transfer.\<close>

definition ioctl_do_perf_start ::
    "device \<Rightarrow> modparams \<Rightarrow> pci \<Rightarrow> bool \<Rightarrow> bool \<Rightarrow> bool \<Rightarrow> xfer_id \<Rightarrow> ioctl_user \<Rightarrow> xdma_engine \<Rightarrow> kstate \<Rightarrow> ioctl_result" where
  "ioctl_do_perf_start hw mp pd mem mem2 offline i iu e k =
     (if e_xdma_perf e \<noteq> None then Some (- EBUSY, None, e, k)
      else if \<not> mem then Some (- ENOMEM, None, e, k)
      else let e = e\<lparr>e_xdma_perf := Some (iu_perf iu)\<rparr> in
           if p_version (iu_perf iu) \<noteq> IOCTL_XDMA_PERF_V1 then Some (- EINVAL, None, e, k)
           else let k = enable_perf hw e k in
                map_option (\<lambda>(rv, e, k). (rv, None, e, k)) (xdma_performance_submit hw mp pd mem2 offline i e k))"

definition ioctl_do_perf_stop :: "device \<Rightarrow> modparams \<Rightarrow> ioctl_user \<Rightarrow> xdma_engine \<Rightarrow> kstate \<Rightarrow> ioctl_result" where
  "ioctl_do_perf_stop hw mp iu e k =
     (if e_xdma_perf e = None then Some (- EINVAL, None, e, k)
      else case engine_cyclic_stop mp e k of
             None \<Rightarrow> None
           | Some (None, e, k) \<Rightarrow> Some (- EINVAL, None, e, k)
           | Some (Some transfer, e, k) \<Rightarrow>
               let (e, k) = get_perf_stats hw e k in
               if iu_uncopied iu \<noteq> 0 then Some (int (iu_uncopied iu), None, e, k)
               else Some (0, map_option OutPerf (e_xdma_perf e), e\<lparr>e_xdma_perf := None\<rparr>, k))"

definition ioctl_do_perf_get :: "device \<Rightarrow> ioctl_user \<Rightarrow> xdma_engine \<Rightarrow> kstate \<Rightarrow> ioctl_result" where
  "ioctl_do_perf_get hw iu e k =
     (if e_xdma_perf e = None then Some (- EPROTO, None, e, k)
      else let (e, k) = get_perf_stats hw e k in
           if iu_uncopied iu \<noteq> 0 then Some (int (iu_uncopied iu), None, e, k)
           else Some (0, map_option OutPerf (e_xdma_perf e), e, k))"

definition ioctl_do_addrmode_set :: "device \<Rightarrow> ioctl_user \<Rightarrow> xdma_engine \<Rightarrow> kstate \<Rightarrow> ioctl_result" where
  "ioctl_do_addrmode_set hw iu e k =
     (let (rv, e, k) = engine_addrmode_set hw e (iu_word iu) k in Some (rv, None, e, k))"

definition put_user :: "ioctl_user \<Rightarrow> u32 \<Rightarrow> xdma_engine \<Rightarrow> kstate \<Rightarrow> ioctl_result" where
  "put_user iu w e k = Some (if iu_put iu then (0, Some (OutWord w), e, k) else (- EFAULT, None, e, k))"

definition ioctl_do_addrmode_get :: "ioctl_user \<Rightarrow> xdma_engine \<Rightarrow> kstate \<Rightarrow> ioctl_result" where
  "ioctl_do_addrmode_get iu e k = put_user iu (if e_non_incr_addr e then 1 else 0) e k"

definition ioctl_do_align_get :: "ioctl_user \<Rightarrow> xdma_engine \<Rightarrow> kstate \<Rightarrow> ioctl_result" where
  "ioctl_do_align_get iu e k = put_user iu (ucast (e_addr_align e)) e k"

definition sgdma_ioctl_switch ::
    "device \<Rightarrow> modparams \<Rightarrow> pci \<Rightarrow> bool \<Rightarrow> bool \<Rightarrow> bool \<Rightarrow> xfer_id \<Rightarrow> u32 \<Rightarrow> ioctl_user \<Rightarrow> xdma_engine \<Rightarrow> kstate \<Rightarrow> ioctl_result" where
  "sgdma_ioctl_switch hw mp pd mem mem2 offline i cmd iu e k =
     (if cmd = IOCTL_XDMA_PERF_START then ioctl_do_perf_start hw mp pd mem mem2 offline i iu e k
      else if cmd = IOCTL_XDMA_PERF_STOP then ioctl_do_perf_stop hw mp iu e k
      else if cmd = IOCTL_XDMA_PERF_GET then ioctl_do_perf_get hw iu e k
      else if cmd = IOCTL_XDMA_ADDRMODE_SET then ioctl_do_addrmode_set hw iu e k
      else if cmd = IOCTL_XDMA_ADDRMODE_GET then ioctl_do_addrmode_get iu e k
      else if cmd = IOCTL_XDMA_ALIGN_GET then ioctl_do_align_get iu e k
      else Some (- EINVAL, None, e, k))"

definition char_sgdma_ioctl ::
    "device \<Rightarrow> modparams \<Rightarrow> pci \<Rightarrow> bool \<Rightarrow> bool \<Rightarrow> xfer_id \<Rightarrow> xdma_cdev option \<Rightarrow> u32 \<Rightarrow> ioctl_user \<Rightarrow> driver \<Rightarrow> kstate
     \<Rightarrow> (int \<times> user_out option \<times> driver \<times> kstate) option" where
  "char_sgdma_ioctl hw mp pd mem mem2 i xcdev cmd iu d k =
     (let rv = xcdev_check (d_devs d) xcdev True in
      if rv < 0 then Some (rv, None, d, k)
      else (case Option.bind xcdev (node_engine d) of
              None \<Rightarrow> None
            | Some (h, v, dir, c) \<Rightarrow>
                (case sgdma_ioctl_switch hw mp pd mem mem2 (xdma_device_flag_check v XDEV_FLAG_OFFLINE) i cmd iu
                        (dir_engines dir v c) k of
                   None \<Rightarrow> None
                 | Some (rv, out, e, k) \<Rightarrow> Some (rv, out, store_engine d h v dir c e, k))))"

section \<open>Opening and closing\<close>

definition O_TRUNC :: u32 where "O_TRUNC = 0x200"

text \<open>
  The code of \<^verbatim>\<open>char_open\<close> is not looked at: when the node is not valid the file keeps the private data it had
  before, and \<open>None\<close> is the null pointer behind it.
\<close>

definition char_sgdma_open ::
    "(cdev_slot \<Rightarrow> xdma_cdev) \<Rightarrow> cdev_slot \<Rightarrow> cdev_slot option \<Rightarrow> u32 \<Rightarrow> driver \<Rightarrow> (int \<times> cdev_slot option \<times> driver) option" where
  "char_sgdma_open cdevs s private_data f_flags d =
     (let (_, private_data) = char_open cdevs s private_data in
      case Option.bind private_data (\<lambda>p. node_engine d (cdevs p)) of
        None \<Rightarrow> None
      | Some (h, v, dir, c) \<Rightarrow>
          let e = dir_engines dir v c in
          if e_streaming e \<and> e_dir e = DMA_FROM_DEVICE
          then if e_device_open e then Some (- EBUSY, private_data, d)
               else let e = e\<lparr>e_device_open := True, e_eop_flush := (f_flags AND O_TRUNC \<noteq> 0)\<rparr>
                    in Some (0, private_data, store_engine d h v dir c e)
          else Some (0, private_data, d))"

definition char_sgdma_close :: "xdma_cdev option \<Rightarrow> driver \<Rightarrow> (int \<times> driver) option" where
  "char_sgdma_close xcdev d =
     (let rv = xcdev_check (d_devs d) xcdev True in
      if rv < 0 then Some (rv, d)
      else (case Option.bind xcdev (node_engine d) of
              None \<Rightarrow> None
            | Some (h, v, dir, c) \<Rightarrow>
                let e = dir_engines dir v c in
                if e_streaming e \<and> e_dir e = DMA_FROM_DEVICE
                then Some (0, store_engine d h v dir c (e\<lparr>e_device_open := False\<rparr>))
                else Some (0, d)))"

section \<open>The pages of a buffer\<close>

text \<open>The address of the \<open>j\<close>-th byte of a scatter list.\<close>

fun sgl_byte :: "sg_entry list \<Rightarrow> nat \<Rightarrow> addr option" where
  "sgl_byte [] j = None"
| "sgl_byte (sg # sgl) j =
     (if j < unat (sg_dma_len sg) then Some (sg_dma_address sg + of_nat j) else sgl_byte sgl (j - unat (sg_dma_len sg)))"

definition page_off :: "addr \<Rightarrow> nat" where
  "page_off buf = unat buf mod 4096"

lemma page_off_eq: "unat (buf AND 0xFFF) = page_off buf"
  by (simp only: and_mask_numerals unat_take_bit page_off_def) simp

lemma page_off_lt: "page_off buf < 4096"
  by (simp add: page_off_def)

lemma page_off_add: "page_off (buf + w) = (page_off buf + unat w) mod 4096"
proof -
  have "unat (buf + w) mod 4096 = (unat buf + unat w) mod 2 ^ 64 mod 4096" by (simp add: unat_word_ariths)
  also have "\<dots> = (unat buf + unat w) mod 4096" by (rule mod_mod_cancel) simp
  finally show ?thesis by (simp add: page_off_def mod_add_left_eq)
qed

lemma unat_ucast_small: "unat (w :: u64) < 2 ^ 32 \<Longrightarrow> unat (ucast w :: u32) = unat w"
  by (simp add: unsigned_ucast_eq take_bit_nat_eq_self)

lemma unat_ucast_up: "unat (ucast (w :: u32) :: u64) = unat w"
  using unsigned_less [where 'a = nat, of w] by (simp add: unsigned_ucast_eq take_bit_nat_eq_self)

lemma unat_user_pages_nr:
  assumes "unat len < 2 ^ 32"
  shows "unat (user_pages_nr buf len) = (page_off buf + unat len + 4095) div 4096"
proof -
  have "(buf AND NOT 0xFFF) + (buf AND 0xFFF) = (buf AND NOT 0xFFF) OR (buf AND 0xFFF)"
    by (rule disjunctive_add_eq_or) (auto simp: bit_eq_iff bit_simps)
  also have "\<dots> = buf" by (auto simp: bit_eq_iff bit_simps)
  finally have split: "buf = (buf AND NOT 0xFFF) + (buf AND 0xFFF)" by simp
  have eq: "(buf + len + 0x1000 - 1) - (buf AND NOT 0xFFF) = (buf AND 0xFFF) + len + 0xFFF"
    by (subst (1) split) (simp add: algebra_simps)
  have u: "unat ((buf AND 0xFFF) + len + 0xFFF) = page_off buf + unat len + 4095"
    using assms page_off_lt [of buf] by (simp add: unat_word_ariths page_off_eq mod_less)
  have "unat (drop_bit 12 ((buf AND 0xFFF) + len + 0xFFF)) = (page_off buf + unat len + 4095) div 4096"
    by (simp only: unat_drop_bit u) simp
  moreover have "(page_off buf + unat len + 4095) div 4096 < 2 ^ 32"
    using assms page_off_lt [of buf] by simp
  ultimately show ?thesis unfolding user_pages_nr_def eq by (simp add: unat_ucast_small)
qed

lemma unat_sg_nbytes:
  assumes "unat len < 2 ^ 32"
  shows "unat (sg_nbytes buf len) = min (4096 - page_off buf) (unat len)"
proof -
  have "unat (0x1000 - (buf AND 0xFFF)) = 4096 - page_off buf"
    using page_off_lt [of buf] by (simp add: unat_sub_le page_off_eq less_imp_le)
  then have "unat (ucast (0x1000 - (buf AND 0xFFF)) :: u32) = 4096 - page_off buf"
    by (simp add: unat_ucast_small)
  then show ?thesis using assms unat_ucast_small [of len]
    by (simp add: sg_nbytes_def min_def word_le_nat_alt)
qed

text \<open>Where byte \<open>j\<close> of the buffer lies in the pages.\<close>

definition page_byte :: "addr list \<Rightarrow> addr \<Rightarrow> nat \<Rightarrow> addr" where
  "page_byte ps buf j = ps ! ((page_off buf + j) div 4096) + of_nat ((page_off buf + j) mod 4096)"

lemma fill_sgl_covers:
  "unat len < 2 ^ 32 \<Longrightarrow> len = 0 \<or> page_off buf + unat len \<le> 4096 * length ps \<Longrightarrow> fill_sgl ps buf len = (sgl, len') \<Longrightarrow>
   len' = 0 \<and> length sgl = length ps \<and> sgl_bytes sgl = unat len \<and> (\<forall>j < unat len. sgl_byte sgl j = Some (page_byte ps buf j))"
proof (induction ps arbitrary: buf len sgl len')
  case Nil
  then show ?case by (auto simp: sgl_bytes_def unat_eq_0)
next
  case (Cons p ps)
  define n where "n = unat (sg_nbytes buf len)"
  have n: "n = min (4096 - page_off buf) (unat len)" unfolding n_def by (rule unat_sg_nbytes [OF Cons.prems(1)])
  let ?w = "ucast (sg_nbytes buf len) :: u64"
  have w: "unat ?w = n" by (simp add: n_def unat_ucast_up)
  obtain sgl1 where f: "fill_sgl ps (buf + ?w) (len - ?w) = (sgl1, len')"
    and sgl: "sgl = \<lparr>sg_dma_address = p + (buf AND 0xFFF), sg_dma_len = sg_nbytes buf len\<rparr> # sgl1"
    using Cons.prems(3) by (auto simp: Let_def split: prod.splits)
  have len: "unat (len - ?w) = unat len - n" using w n by (simp add: unat_sub_le)
  have off: "page_off (buf + ?w) = (page_off buf + n) mod 4096" by (simp add: page_off_add w)
  have "len - ?w = 0 \<or> page_off (buf + ?w) + unat (len - ?w) \<le> 4096 * length ps"
  proof (cases "unat len \<le> 4096 - page_off buf")
    case True
    then have "unat (len - ?w) = 0" using len n by simp
    then show ?thesis by (simp add: unat_eq_0)
  next
    case False
    then have "n = 4096 - page_off buf" using n by simp
    then show ?thesis using Cons.prems(2) off len False page_off_lt [of buf] by (auto simp: unat_eq_0)
  qed
  with Cons.IH [OF _ this f] Cons.prems(1) len have ih: "len' = 0" "length sgl1 = length ps" "sgl_bytes sgl1 = unat len - n"
    "\<forall>j < unat len - n. sgl_byte sgl1 j = Some (page_byte ps (buf + ?w) j)" by auto
  have "sgl_byte sgl j = Some (page_byte (p # ps) buf j)" if "j < unat len" for j
  proof (cases "j < n")
    case True
    then have "page_off buf + j < 4096" using n page_off_lt [of buf] by linarith
    then have "(page_off buf + j) div 4096 = 0" "(page_off buf + j) mod 4096 = page_off buf + j" by simp_all
    moreover have "buf AND 0xFFF = of_nat (page_off buf)" by (simp flip: page_off_eq)
    ultimately show ?thesis using True n_def by (simp add: sgl page_byte_def add.assoc)
  next
    case False
    then have nn: "n = 4096 - page_off buf" using n that by (simp add: min_def split: if_splits)
    then have j: "page_off buf + j = 4096 + (j - n)" using False page_off_lt [of buf] by simp
    have "page_off (buf + ?w) = 0" using off nn page_off_lt [of buf] by simp
    then have "page_byte ps (buf + ?w) (j - n) = page_byte (p # ps) buf j"
      unfolding page_byte_def j by (simp only: div_add_self1 mod_add_self1) simp
    moreover have "sgl_byte sgl j = sgl_byte sgl1 (j - n)" using False by (simp add: sgl n_def)
    ultimately show ?thesis using ih(4) that False by simp
  qed
  moreover have "sgl_bytes sgl = unat len" using ih(3) n by (simp add: sgl sgl_bytes_def n_def)
  ultimately show ?case using ih sgl by simp
qed

lemma fill_sgl_long:
  "2 ^ 32 \<le> unat len \<Longrightarrow> fill_sgl ps buf len = (sgl, len') \<Longrightarrow> 2 ^ 32 \<le> unat len'"
proof (induction ps arbitrary: buf len sgl)
  case (Cons p ps)
  let ?w = "ucast (sg_nbytes buf len) :: u64"
  have "sg_nbytes buf len \<le> ucast len" by (simp add: sg_nbytes_def)
  then have "unat (sg_nbytes buf len) \<le> unat len mod 2 ^ 32"
    by (simp add: word_le_nat_alt unsigned_ucast_eq take_bit_eq_mod)
  then have w: "unat ?w \<le> unat len mod 2 ^ 32" by (simp add: unat_ucast_up)
  have "2 ^ 32 \<le> 2 ^ 32 * (unat len div 2 ^ 32)" using Cons.prems(1) by (simp add: Suc_le_eq div_greater_zero_iff)
  then have "2 ^ 32 + unat len mod 2 ^ 32 \<le> unat len" using mult_div_mod_eq [of "2 ^ 32" "unat len"] by linarith
  then have "2 ^ 32 \<le> unat (len - ?w)" using w by (simp add: unat_sub_le)
  then show ?case using Cons by (auto simp: Let_def split: prod.splits)
qed auto

section \<open>Resources of a mapped buffer\<close>

text \<open>What \<^verbatim>\<open>get_user_pages_fast\<close> promises: a negative error, or at most as many pages as asked for, none of them null.\<close>

definition gup_ok :: "user_services \<Rightarrow> bool" where
  "gup_ok us \<longleftrightarrow> (\<forall>buf n. case us_gup us buf n of Inl err \<Rightarrow> err < 0 | Inr ps \<Rightarrow> length ps \<le> unat n \<and> 0 \<notin> set ps)"

definition page_events :: "addr list \<Rightarrow> io_event list" where
  "page_events ps = map (\<lambda>p. Acquire (ResPage p)) ps"

lemma acquire_pages_trace:
  "k_trace (fold (\<lambda>p. log_event (Acquire (ResPage p))) ps k) = k_trace k @ page_events ps"
  "k_xfers (fold (\<lambda>p. log_event (Acquire (ResPage p))) ps k) = k_xfers k"
  by (induction ps arbitrary: k) (simp_all add: page_events_def)

lemma put_pages_held:
  "0 \<notin> set ps \<Longrightarrow> held (k_trace (put_pages write ps k)) r = held (k_trace k) r - held (page_events ps) r"
  by (induction ps arbitrary: k) (auto simp: page_events_def put_page_def Let_def)

lemma put_pages_xfers: "k_xfers (put_pages write ps k) = k_xfers k"
  by (induction ps arbitrary: k) (auto simp: put_page_def Let_def)

definition one_res :: "resource \<Rightarrow> resource \<Rightarrow> int" where
  "one_res r' r = (if r' = r then 1 else 0)"

lemma sg_free_table_held:
  "sg_free_table sgt k = (sgt', k') \<Longrightarrow> sgt_orig sgt' = [] \<and>
   held (k_trace k') r = held (k_trace k) r - (if sgt_orig sgt = [] then 0 else one_res (ResSgTable (length (sgt_orig sgt))) r)"
  by (auto simp: sg_free_table_def one_res_def split: if_splits)

text \<open>Unmapping gives back the table, the pins and the array, unless no page is pinned: then the array stays.\<close>

lemma unmap_user_buf_held:
  assumes "char_sgdma_unmap_user_buf cb write k = (cb', k')" and "io_pages cb = Some ps"
    and "0 \<notin> set (take (unat (io_pages_nr cb)) ps)"
  shows "held (k_trace k') r = held (k_trace k) r
     - (if sgt_orig (io_sgt cb) = [] then 0 else one_res (ResSgTable (length (sgt_orig (io_sgt cb)))) r)
     - (if io_pages_nr cb = 0 then 0 else held (page_events (take (unat (io_pages_nr cb)) ps)) r + one_res (ResPages (length ps)) r)"
proof -
  obtain sgt1 k1 where f: "sg_free_table (io_sgt cb) k = (sgt1, k1)" by (metis surj_pair)
  note fr = sg_free_table_held [OF f, of r]
  note pp = put_pages_held [OF assms(3), of "write" "k1" "r"]
  show ?thesis using assms fr pp
    by (auto simp: char_sgdma_unmap_user_buf_def f Let_def one_res_def split: if_splits)
qed

text \<open>The array that stays behind when no page could be pinned.\<close>

definition array_left :: "user_services \<Rightarrow> addr \<Rightarrow> u64 \<Rightarrow> resource \<Rightarrow> int" where
  "array_left us buf len r =
     (let pages_nr = user_pages_nr buf len; n = unat pages_nr in
      if pages_nr \<noteq> 0 \<and> us_sg_alloc us n \<and> us_kcalloc us n \<and>
         (case us_gup us buf pages_nr of Inl err \<Rightarrow> True | Inr ps \<Rightarrow> ps = [])
      then one_res (ResPages n) r else 0)"

lemma map_pages_cases:
  assumes m: "map_pages cb write nr ps k = (rv, cb', k')" and len: "unat (io_len cb) < 2 ^ 32"
    and nr: "nr = user_pages_nr (io_buf cb) (io_len cb)" "nr \<noteq> 0" and ps: "length ps \<le> unat nr" "0 \<notin> set ps"
    and cb: "io_pages cb = Some (ps @ replicate (unat nr - length ps) 0)" "length (sgt_orig (io_sgt cb)) = unat nr"
  shows "(rv = 0 \<and> length ps = unat nr \<and> k' = k \<and> (\<exists>sgl. sgl_bytes sgl = unat (io_len cb) \<and> length sgl = unat nr \<and>
       (\<forall>j < unat (io_len cb). sgl_byte sgl j = Some (page_byte ps (io_buf cb) j)) \<and>
       cb' = cb\<lparr>io_sgt := (io_sgt cb)\<lparr>sgt_orig := sgl\<rparr>, io_pages_nr := nr\<rparr>)) \<or>
     (rv < 0 \<and> held (k_trace k') r = held (k_trace k) r - one_res (ResSgTable (unat nr)) r
        - (if ps = [] then 0 else held (page_events ps) r + one_res (ResPages (unat nr)) r))"
proof (cases "of_nat (length ps) = nr \<and> \<not> dup_pages ps")
  case True
  obtain sgl l where f: "fill_sgl ps (io_buf cb) (io_len cb) = (sgl, l)" by (metis surj_pair)
  have small: "length ps < 2 ^ 32" using ps(1) unsigned_less [where 'a = nat, of nr] by simp
  then have n: "length ps = unat nr" using True by (auto simp: unat_of_nat_small)
  have "page_off (io_buf cb) + unat (io_len cb) \<le> 4096 * length ps"
    unfolding n nr(1) unat_user_pages_nr [OF len] by linarith
  from fill_sgl_covers [OF len _ f] this show ?thesis using m True f n by (auto simp: map_pages_def)
next
  case False
  define cb1 where "cb1 = cb\<lparr>io_pages_nr := of_nat (length ps)\<rparr>"
  have small: "length ps < 2 ^ 32" using ps(1) unsigned_less [where 'a = nat, of nr] by simp
  obtain cb2 k2 where u: "char_sgdma_unmap_user_buf cb1 write k = (cb2, k2)" by (metis surj_pair)
  have "rv = - EFAULT \<and> k' = k2" using m False u by (auto simp: map_pages_def cb1_def Let_def split: if_splits)
  moreover have tk: "take (unat (io_pages_nr cb1)) (ps @ replicate (unat nr - length ps) 0) = ps"
    using small by (simp add: cb1_def unat_of_nat_small)
  have pgs: "io_pages cb1 = Some (ps @ replicate (unat nr - length ps) 0)" using cb(1) by (simp add: cb1_def)
  have "(io_pages_nr cb1 = 0) = (ps = [])"
    using small by (simp add: cb1_def word_unat_eq_iff unat_of_nat_small)
  moreover have "sgt_orig (io_sgt cb) \<noteq> []" using cb(2) nr(2) by (auto simp: unat_eq_0)
  ultimately show ?thesis
    using unmap_user_buf_held [OF u pgs, unfolded tk, OF ps(2), of r] cb ps(1) by (simp add: cb1_def EFAULT_def)
qed

text \<open>Mapping a buffer below 4 GiB: it succeeds, or it fails and gives back all but the array.\<close>

lemma map_user_buf_cases:
  assumes m: "char_sgdma_map_user_buf_to_sgl us cb write k = (rv, cb', k')" and len: "unat (io_len cb) < 2 ^ 32"
    and us: "gup_ok us" and fresh: "io_pages_nr cb = 0" and nr: "nr = user_pages_nr (io_buf cb) (io_len cb)"
  shows "(\<exists>ps sgl. rv = 0 \<and> us_gup us (io_buf cb) nr = Inr ps \<and> length ps = unat nr \<and> nr \<noteq> 0 \<and> 0 \<notin> set ps \<and>
       k' = k\<lparr>k_trace := k_trace k @ [Acquire (ResSgTable (unat nr)), Acquire (ResPages (unat nr))] @ page_events ps\<rparr> \<and>
       sgl_bytes sgl = unat (io_len cb) \<and> length sgl = unat nr \<and>
       (\<forall>j < unat (io_len cb). sgl_byte sgl j = Some (page_byte ps (io_buf cb) j)) \<and>
       cb' = cb\<lparr>io_pages := Some ps, io_pages_nr := nr,
               io_sgt := \<lparr>sgt_orig = sgl, sgt_nents = unat nr, sgt_sgl = []\<rparr>\<rparr>) \<or>
     (rv < 0 \<and> held (k_trace k') r = held (k_trace k) r + array_left us (io_buf cb) (io_len cb) r)"
proof -
  define n where "n = unat nr"
  define sgt where "sgt = fst (sg_alloc_table n k)"
  define k1 where "k1 = log_event (Acquire (ResPages n)) (snd (sg_alloc_table n k))"
  have sgt: "length (sgt_orig sgt) = n" "sgt_nents sgt = n" "sgt_sgl sgt = []" by (simp_all add: sgt_def sg_alloc_table_def)
  have k1: "k_trace k1 = k_trace k @ [Acquire (ResSgTable n), Acquire (ResPages n)]" "k_xfers k1 = k_xfers k"
    by (simp_all add: k1_def sg_alloc_table_def)
  have gup: "case us_gup us (io_buf cb) nr of Inl err \<Rightarrow> err < 0 | Inr ps \<Rightarrow> length ps \<le> unat nr \<and> 0 \<notin> set ps"
    using us unfolding gup_ok_def by blast
  show ?thesis
  proof (cases "nr \<noteq> 0 \<and> us_sg_alloc us n \<and> us_kcalloc us n")
    case False
    then show ?thesis using m nr n_def
      by (auto simp: char_sgdma_map_user_buf_to_sgl_def sg_alloc_table_def char_sgdma_unmap_user_buf_def sg_free_table_def
          array_left_def one_res_def EINVAL_def ENOMEM_def unat_eq_0 Let_def split: if_splits)
  next
    case True
    then have orig: "sgt_orig sgt \<noteq> []" using sgt(1) by (auto simp: n_def unat_eq_0)
    show ?thesis
    proof (cases "us_gup us (io_buf cb) nr")
      case (Inl err)
      define cb1 where "cb1 = cb\<lparr>io_sgt := sgt, io_pages := Some (replicate n 0)\<rparr>"
      obtain cb2 k2 where u: "char_sgdma_unmap_user_buf cb1 write k1 = (cb2, k2)" by (metis surj_pair)
      have "rv = err" "k' = k2" using m True Inl u nr
        by (simp_all add: char_sgdma_map_user_buf_to_sgl_def cb1_def k1_def sgt_def n_def Let_def split: prod.splits)
      moreover have "err < 0" using gup Inl by simp
      moreover have "io_pages cb1 = Some (replicate n 0)" "io_pages_nr cb1 = 0" "io_sgt cb1 = sgt"
        using fresh by (simp_all add: cb1_def)
      then have "held (k_trace k2) r = held (k_trace k1) r - one_res (ResSgTable n) r"
        using unmap_user_buf_held [OF u, of "replicate n 0" r] orig sgt(1) by simp
      then have "held (k_trace k2) r = held (k_trace k) r + one_res (ResPages n) r" by (simp add: k1(1) one_res_def)
      moreover have "array_left us (io_buf cb) (io_len cb) r = one_res (ResPages n) r"
        using True Inl by (simp add: array_left_def n_def nr)
      ultimately show ?thesis by simp
    next
      case (Inr ps)
      define cb1 where "cb1 = cb\<lparr>io_sgt := sgt, io_pages := Some (ps @ replicate (n - length ps) 0)\<rparr>"
      have ps: "length ps \<le> unat nr" "0 \<notin> set ps" using gup Inr by simp_all
      define k2 where "k2 = fold (\<lambda>p. log_event (Acquire (ResPage p))) ps k1"
      have k2: "k_trace k2 = k_trace k1 @ page_events ps" "k_xfers k2 = k_xfers k1"
        by (simp_all add: k2_def acquire_pages_trace)
      have m2: "map_pages cb1 write nr ps k2 = (rv, cb', k')" using m True Inr nr
        by (simp add: char_sgdma_map_user_buf_to_sgl_def cb1_def k2_def k1_def sgt_def n_def Let_def split: prod.splits)
      have cb1: "io_pages cb1 = Some (ps @ replicate (unat nr - length ps) 0)" "length (sgt_orig (io_sgt cb1)) = unat nr"
        "unat (io_len cb1) < 2 ^ 32" "nr = user_pages_nr (io_buf cb1) (io_len cb1)"
        using sgt len nr by (simp_all add: cb1_def n_def)
      have k2eq: "k2 = k\<lparr>k_trace := k_trace k @ [Acquire (ResSgTable (unat nr)), Acquire (ResPages (unat nr))] @ page_events ps\<rparr>"
        by (rule kstate.equality) (simp_all add: k1 k2 n_def)
      have nz: "nr \<noteq> 0" using True by simp
      from map_pages_cases [OF m2 cb1(3,4) nz ps cb1(1,2), of r] show ?thesis
      proof (elim disjE conjE exE, goal_cases)
        case (1 sgl)
        then have "cb' = cb\<lparr>io_pages := Some ps, io_pages_nr := nr,
            io_sgt := \<lparr>sgt_orig = sgl, sgt_nents = unat nr, sgt_sgl = []\<rparr>\<rparr>"
          by (simp add: cb1_def sgt_def sg_alloc_table_def n_def)
        then show ?case using 1 Inr nz ps(2) k2eq by (intro disjI1 exI [of _ ps] exI [of _ sgl]) (simp add: cb1_def)
      next
        case 2
        have "array_left us (io_buf cb) (io_len cb) r = (if ps = [] then one_res (ResPages n) r else 0)"
          using True Inr by (simp add: array_left_def n_def nr)
        with 2 show ?case by (simp add: k1(1) k2(1) n_def one_res_def page_events_def)
      qed
    qed
  qed
qed

section \<open>Mapping a user buffer\<close>

lemma unmap_mapped_held:
  assumes "length ps = unat nr" and "nr \<noteq> 0" and "0 \<notin> set ps" and "length (sgt_orig (io_sgt cb)) = unat nr"
    and "io_pages cb = Some ps" and "io_pages_nr cb = nr"
  shows "held (k_trace (snd (char_sgdma_unmap_user_buf cb write k))) r = held (k_trace k) r -
    held ([Acquire (ResSgTable (unat nr)), Acquire (ResPages (unat nr))] @ page_events ps) r"
proof -
  obtain cb' k' where u: "char_sgdma_unmap_user_buf cb write k = (cb', k')" by (metis surj_pair)
  have "sgt_orig (io_sgt cb) \<noteq> []" using assms(2,4) by (auto simp: unat_eq_0)
  then show ?thesis using unmap_user_buf_held [OF u assms(5), of r] assms u by (simp add: one_res_def)
qed

text \<open>
  C8. Mapping a user buffer of less than 4 GiB. When it succeeds, the scatter list has one entry per pinned page,
  its bytes are the bytes of the buffer in order (byte \<open>j\<close> lies in the page that holds it, at its
  offset), it is as long as the buffer, and unmapping gives back the table, the array and every pin.
  When it fails, everything is given back except the array of page pointers, which stays allocated when
  no page could be pinned.
\<close>

theorem map_user_buf_covers:
  assumes "char_sgdma_map_user_buf_to_sgl us cb write k = (rv, cb', k')" and "gup_ok us"
    and "unat (io_len cb) < 2 ^ 32" and "io_pages_nr cb = 0"
  shows "(rv = 0 \<longrightarrow> (\<exists>ps. us_gup us (io_buf cb) (user_pages_nr (io_buf cb) (io_len cb)) = Inr ps \<and>
       length ps = (page_off (io_buf cb) + unat (io_len cb) + 4095) div 4096 \<and>
       length (sgt_orig (io_sgt cb')) = length ps \<and>
       sgl_bytes (sgt_orig (io_sgt cb')) = unat (io_len cb) \<and>
       (\<forall>j < unat (io_len cb). sgl_byte (sgt_orig (io_sgt cb')) j = Some (page_byte ps (io_buf cb) j))) \<and>
       held (k_trace (snd (char_sgdma_unmap_user_buf cb' write' k'))) r = held (k_trace k) r) \<and>
     (rv \<noteq> 0 \<longrightarrow> rv < 0 \<and> held (k_trace k') r = held (k_trace k) r + array_left us (io_buf cb) (io_len cb) r)"
proof -
  let ?nr = "user_pages_nr (io_buf cb) (io_len cb)"
  from map_user_buf_cases [OF assms(1,3,2,4) refl, of r] show ?thesis
  proof (elim disjE conjE exE, goal_cases)
    case (1 ps sgl)
    have "held (k_trace (snd (char_sgdma_unmap_user_buf cb' write' k'))) r = held (k_trace k) r"
      using 1 unmap_mapped_held [of ps ?nr cb' write' k' r] by simp
    then show ?case using 1 unat_user_pages_nr [OF assms(3), of "io_buf cb"] by simp
  qed simp
qed

definition example_us :: user_services where
  "example_us = \<lparr>us_sg_alloc = (\<lambda>_. True), us_kcalloc = (\<lambda>_. True),
     us_gup = (\<lambda>_ n. Inr (map (\<lambda>i. 0x1000 * (of_nat i + 2)) [0 ..< min 2 (unat n)]))\<rparr>"

lemma example_us_gup: "gup_ok example_us"
proof -
  have nz: "0x1000 * (of_nat i + 2 :: addr) \<noteq> 0" if "i < 2" for i using less_2_cases [OF that] by auto
  show ?thesis unfolding gup_ok_def example_us_def using nz by auto
qed

theorem map_user_buf_covers_witness:
  "\<exists>cb' k'. char_sgdma_map_user_buf_to_sgl example_us (zero_io_cb\<lparr>io_buf := 0x7F0F80, io_len := 0x100\<rparr>) False
       \<lparr>k_trace = [], k_xfers = (\<lambda>_. zero_transfer)\<rparr> = (0, cb', k') \<and>
     sgt_orig (io_sgt cb') = [\<lparr>sg_dma_address = 0x2F80, sg_dma_len = 0x80\<rparr>, \<lparr>sg_dma_address = 0x3000, sg_dma_len = 0x80\<rparr>] \<and>
     sgl_byte (sgt_orig (io_sgt cb')) 0x90 = Some 0x3010 \<and>
     held (k_trace (snd (char_sgdma_unmap_user_buf cb' False k'))) (ResPages 2) = 0"
proof -
  let ?cb = "zero_io_cb\<lparr>io_buf := 0x7F0F80, io_len := 0x100\<rparr>" and ?k = "\<lparr>k_trace = [], k_xfers = (\<lambda>_. zero_transfer)\<rparr>"
  obtain rv cb' k' where m: "char_sgdma_map_user_buf_to_sgl example_us ?cb False ?k = (rv, cb', k')" by (metis prod_cases3)
  have nr: "user_pages_nr 0x7F0F80 0x100 = 2" by (simp add: user_pages_nr_def)
  have z: "rv = 0 \<and> sgt_orig (io_sgt cb') = [\<lparr>sg_dma_address = 0x2F80, sg_dma_len = 0x80\<rparr>, \<lparr>sg_dma_address = 0x3000, sg_dma_len = 0x80\<rparr>]"
    using m by (auto simp add: char_sgdma_map_user_buf_to_sgl_def nr example_us_def map_pages_def zero_io_cb_def sg_nbytes_def
        sg_alloc_table_def upt_rec Let_def split: prod.splits)
  have b: "page_byte (map (\<lambda>i. 0x1000 * (of_nat i + 2)) [0 ..< min 2 (unat (2 :: u32))]) 0x7F0F80 0x90 = 0x3010"
    by (simp add: page_byte_def page_off_def upt_rec)
  from map_user_buf_covers [OF m example_us_gup, of False "ResPages 2"] show ?thesis
    using m z nr b by (simp add: zero_io_cb_def example_us_def)
qed

text \<open>
  C37. A buffer of 4 GiB or more is never mapped: the size of each entry is computed from the low 32 bits of the remaining
  length, so the loop cannot reach the end, and once the pages are pinned the function returns an error
  with the table, the array and all pins still held and no record of the pins for its caller.
\<close>

theorem map_user_buf_long:
  assumes "char_sgdma_map_user_buf_to_sgl us cb write k = (rv, cb', k')" and "gup_ok us"
    and "2 ^ 32 \<le> unat (io_len cb)" and "nr = user_pages_nr (io_buf cb) (io_len cb)" and "io_pages_nr cb = 0"
  shows "rv < 0 \<and> (us_sg_alloc us (unat nr) \<and> us_kcalloc us (unat nr) \<and> us_gup us (io_buf cb) nr = Inr ps \<and>
       length ps = unat nr \<and> ps \<noteq> [] \<and> \<not> dup_pages ps \<longrightarrow>
     rv = - EINVAL \<and> io_pages_nr cb' = 0 \<and>
     k_trace k' = k_trace k @ [Acquire (ResSgTable (unat nr)), Acquire (ResPages (unat nr))] @ page_events ps)"
proof -
  have gup: "case us_gup us (io_buf cb) nr of Inl err \<Rightarrow> err < 0 | Inr ps \<Rightarrow> length ps \<le> unat nr \<and> 0 \<notin> set ps"
    using assms(2) unfolding gup_ok_def by blast
  have long: "len' \<noteq> 0" if "fill_sgl ps' (io_buf cb) (io_len cb) = (sgl, len')" for ps' sgl len'
    using fill_sgl_long [OF assms(3) that] by auto
  have "rv < 0" using assms(1,4) gup long
    by (auto simp: char_sgdma_map_user_buf_to_sgl_def map_pages_def Let_def EINVAL_def ENOMEM_def EFAULT_def
        split: if_splits prod.splits sum.splits)
  moreover have "rv = - EINVAL \<and> io_pages_nr cb' = 0 \<and>
     k_trace k' = k_trace k @ [Acquire (ResSgTable (unat nr)), Acquire (ResPages (unat nr))] @ page_events ps"
    if "us_sg_alloc us (unat nr)" "us_kcalloc us (unat nr)" "us_gup us (io_buf cb) nr = Inr ps"
       "length ps = unat nr" "ps \<noteq> []" "\<not> dup_pages ps"
  proof -
    obtain sgl l where f: "fill_sgl ps (io_buf cb) (io_len cb) = (sgl, l)" by (metis surj_pair)
    have "nr \<noteq> 0" using that(4,5) by auto
    then show ?thesis using assms(1,4,5) that f long [OF f]
      by (auto simp: char_sgdma_map_user_buf_to_sgl_def map_pages_def sg_alloc_table_def acquire_pages_trace Let_def)
  qed
  ultimately show ?thesis by blast
qed

definition long_us :: user_services where
  "long_us = \<lparr>us_sg_alloc = (\<lambda>_. True), us_kcalloc = (\<lambda>_. True), us_gup = (\<lambda>_ n. if n = 2 then Inr [0x2000, 0x3000] else Inl (- EFAULT))\<rparr>"

theorem map_user_buf_long_witness:
  "\<exists>cb' k'. char_sgdma_map_user_buf_to_sgl long_us (zero_io_cb\<lparr>io_buf := 0x7F0000, io_len := 0x100000002000\<rparr>) True
       \<lparr>k_trace = [], k_xfers = (\<lambda>_. zero_transfer)\<rparr> = (- EINVAL, cb', k') \<and>
     k_trace k' = [Acquire (ResSgTable 2), Acquire (ResPages 2), Acquire (ResPage 0x2000), Acquire (ResPage 0x3000)]"
proof -
  let ?cb = "zero_io_cb\<lparr>io_buf := 0x7F0000, io_len := 0x100000002000\<rparr>" and ?k = "\<lparr>k_trace = [], k_xfers = (\<lambda>_. zero_transfer)\<rparr>"
  obtain rv cb' k' where m: "char_sgdma_map_user_buf_to_sgl long_us ?cb True ?k = (rv, cb', k')" by (metis prod_cases3)
  have nr: "2 = user_pages_nr (io_buf ?cb) (io_len ?cb)" by (simp add: user_pages_nr_def)
  have g: "gup_ok long_us" by (auto simp: gup_ok_def long_us_def EFAULT_def)
  from map_user_buf_long [OF m g _ nr, of "[0x2000, 0x3000]"] show ?thesis
    using m by (simp add: zero_io_cb_def long_us_def page_events_def)
qed

section \<open>Blocking reads and writes\<close>

text \<open>What \<^verbatim>\<open>pci_map_sg\<close> promises: it fails, or the mapped list has as many bytes as the list it was given.\<close>

definition map_sg_ok :: "io_services \<Rightarrow> bool" where
  "map_sg_ok ios \<longleftrightarrow> (\<forall>sgl. io_map_sg ios sgl = [] \<or> sgl_bytes (io_map_sg ios sgl) = sgl_bytes sgl)"

lemma map_sg_bytes: "map_sg_ok ios \<Longrightarrow> io_map_sg ios sgl \<noteq> [] \<Longrightarrow> sgl_bytes (io_map_sg ios sgl) = sgl_bytes sgl"
  and map_sg_le: "map_sg_ok ios \<Longrightarrow> sgl_bytes (io_map_sg ios sgl) \<le> sgl_bytes sgl"
  unfolding map_sg_ok_def by (blast, metis le_refl le0 list.map(1) sgl_bytes_def sum_list.Nil)

text \<open>
  C7. A blocking read or write through a data node of a memory-mapped engine, from the user's buffer to the scatter list,
  the descriptors, the waits and back: it returns, whatever the hardware does meanwhile; the result is
  the number of bytes moved or an error, all of the buffer without an error; and the scatter table, the pins, the mapping and
  the array of pages are all given back, except the array when no page could be pinned.
\<close>

theorem char_sgdma_read_write_returns:
  assumes node: "xcdev_check (d_devs d) (Some xc) True = 0" "node_engine d xc = Some (h, v, xfer_dir write, c)"
    and e: "e = dir_engines (xfer_dir write) v c" "unat (e_channel e) = c"
    and chk: "submit_check d h v c write = 0" "check_transfer_align (Some e) buf count pos True = 0"
    and env: "io_wait ios = wait_run hw mp iod evs" "0 < desc_blen_max mp" "map_sg_ok ios" "gup_ok us"
    and inv: "engine_inv (e, k)" "x_state (k_xfers k tfer) \<noteq> TRANSFER_STATE_SUBMITTED"
      "unat (e_desc_idx e) < 2048" "\<not> st_c2h e"
    and len: "unat count < 2 ^ 32"
  shows "\<exists>n rv d' k'. char_sgdma_read_write hw mp tmo ios us tfer (Some xc) buf count pos write d k
       = Some (if n \<noteq> 0 then int n else rv, d', k') \<and> rv \<le> 0 \<and> n \<le> unat count \<and> (rv = 0 \<longrightarrow> n = unat count) \<and>
     held (k_trace k') r = held (k_trace k) r + array_left us buf count r"
proof -
  define cb where "cb = zero_io_cb\<lparr>io_buf := buf, io_len := count, io_ep_addr := pos, io_write := write\<rparr>"
  obtain rv1 cb1 k1 where m: "char_sgdma_map_user_buf_to_sgl us cb write k = (rv1, cb1, k1)" by (metis prod_cases3)
  have cb: "unat (io_len cb) < 2 ^ 32" "io_pages_nr cb = 0" "io_buf cb = buf" "io_len cb = count"
    using len by (simp_all add: cb_def zero_io_cb_def)
  have dev: "d_devs d h = Some v" using node(2) by (auto simp: node_engine_def split: option.splits)
  have dir: "e_dir e = xfer_dir write"
    using chk(1) e by (auto simp: submit_check_def Let_def EINVAL_def EBUSY_def split: if_splits)
  have body: "char_sgdma_read_write hw mp tmo ios us tfer (Some xc) buf count pos write d k =
    (if rv1 < 0 then Some (rv1, d, k1)
     else case xdma_xfer_submit hw mp ios tfer (Some h) c write pos (io_sgt cb1) False (timeout_of tmo write) d k1 of
            None \<Rightarrow> None
          | Some (res, sgt, d, k) \<Rightarrow> Some (res, d, snd (char_sgdma_unmap_user_buf (cb1\<lparr>io_sgt := sgt\<rparr>) write k)))"
    using node e chk(2) dir m
    by (simp add: char_sgdma_read_write_def Let_def flip: cb_def split: prod.splits option.splits)
  from map_user_buf_cases [OF m cb(1) env(4) cb(2) refl, of r] show ?thesis
  proof (elim disjE conjE exE, goal_cases)
    case (1 ps sgl)
    have k1: "k_xfers k1 = k_xfers k" using 1 by simp
    have orig: "sgt_orig (io_sgt cb1) = sgl" using 1 by simp
    have lt: "sgl_bytes (io_map_sg ios (sgt_orig (io_sgt cb1))) < 2 ^ 32"
      using map_sg_le [OF env(3), of sgl] 1(7) len cb(4) unfolding orig by simp
    have k1inv: "engine_inv (e, k1)" and st: "x_state (k_xfers k1 tfer) \<noteq> TRANSFER_STATE_SUBMITTED"
      using inv(1,2) k1 by simp_all
    obtain n rv sgt' e' k' where
      sub: "xdma_xfer_submit hw mp ios tfer (Some h) c write pos (io_sgt cb1) False (timeout_of tmo write) d k1
        = Some (if n \<noteq> 0 then int n else rv, sgt', put_engine d h v write c e', k')"
      and fin: "rv \<le> 0" "n \<le> sgl_bytes (io_map_sg ios sgl)" "rv = 0 \<longrightarrow> n = sgl_bytes (io_map_sg ios sgl) \<and> io_map_sg ios sgl \<noteq> []"
        "sgt_orig sgt' = sgl" "held (k_trace k') r = held (k_trace k1) r"
      using xfer_submit_returns [OF dev chk(1) e(1) env(1,2) k1inv st inv(3,4) lt, of pos "timeout_of tmo write" r]
      unfolding orig by blast
    have "held (k_trace (snd (char_sgdma_unmap_user_buf (cb1\<lparr>io_sgt := sgt'\<rparr>) write k'))) r = held (k_trace k) r"
      using 1 fin(4,5) unmap_mapped_held [of ps "user_pages_nr (io_buf cb) (io_len cb)" "cb1\<lparr>io_sgt := sgt'\<rparr>" "write" k' r] by simp
    moreover have "ps \<noteq> []" using 1 by (auto simp: unat_eq_0)
    then have "array_left us buf count r = 0" using 1 cb by (simp add: array_left_def)
    ultimately show ?case
      using body sub fin 1 cb map_sg_le [OF env(3), of sgl] map_sg_bytes [OF env(3), of sgl]
      by (intro exI [of _ n] exI [of _ rv]) simp
  next
    case 2
    then show ?case using body cb by (intro exI [of _ "0::nat"] exI [of _ rv1]) simp
  qed
qed

definition sgdma_driver :: driver where
  "sgdma_driver = empty_driver\<lparr>d_devs := (\<lambda>_. None)(7 := Some submit_dev), xdev_list := [7]\<rparr>"

definition sgdma_node :: xdma_cdev where
  "sgdma_node = zero_cdev\<lparr>xc_magic := MAGIC_CHAR, xc_xdev := Some 7, xc_engine := Some (DMA_TO_DEVICE, 0)\<rparr>"

text \<open>A node, an engine and a buffer of a page boundary on which a write meets every condition above.\<close>

abbreviation idle_kstate :: kstate where
  "idle_kstate \<equiv> \<lparr>k_trace = [], k_xfers = (\<lambda>_. zero_transfer)\<rparr>"

abbreviation example_tmo :: timeouts where
  "example_tmo \<equiv> \<lparr>h2c_timeout = 10, c2h_timeout = 10\<rparr>"

lemma sgdma_example_engine:
  "dir_engines (xfer_dir True) submit_dev 0 = zero_engine\<lparr>e_magic := MAGIC_ENGINE, e_dir := DMA_TO_DEVICE\<rparr>"
  by (simp add: dir_engines_def xfer_dir_def submit_dev_def)

lemma sgdma_example_node:
  "xcdev_check (d_devs sgdma_driver) (Some sgdma_node) True = 0"
  "node_engine sgdma_driver sgdma_node = Some (7, submit_dev, xfer_dir True, 0)"
  by (simp_all add: xcdev_check_def node_engine_def cdev_engine_def sgdma_driver_def sgdma_node_def submit_dev_def fresh_dev_def
      example_dev_def dir_engines_def xfer_dir_def)

lemma sgdma_example_check:
  "submit_check sgdma_driver 7 submit_dev 0 True = 0"
  "check_transfer_align (Some (dir_engines (xfer_dir True) submit_dev 0)) 0x7F0F80 0x100 0x7F0F80 True = 0"
  "unat (e_channel (dir_engines (xfer_dir True) submit_dev 0)) = 0"
  unfolding sgdma_example_engine
  using sgdma_example_engine
  by (simp_all add: submit_check_def debug_check_dev_hndl_def xdev_find_by_pdev_def dev_pdev_def submit_dev_def
      sgdma_driver_def fresh_dev_def example_dev_def channel_max_def xdma_device_flag_check_def xfer_dir_def dir_engines_def
      check_transfer_align_def zero_engine_def)

lemma sgdma_example_inv:
  "engine_inv (dir_engines (xfer_dir True) submit_dev 0, idle_kstate)"
  "x_state (k_xfers idle_kstate 3) \<noteq> TRANSFER_STATE_SUBMITTED"
  "unat (e_desc_idx (dir_engines (xfer_dir True) submit_dev 0)) < 2048"
  "advancing (dir_engines (xfer_dir True) submit_dev 0)"
  unfolding sgdma_example_engine by (simp_all add: zero_engine_def zero_transfer_def advancing_def st_c2h_def)

lemma sgdma_example_env:
  "io_wait example_ios = wait_run (\<lambda>_ _. 0) example_mp (\<lambda>_ e k. (e, k)) (\<lambda>_ _ _. [Service 1])"
  "0 < desc_blen_max example_mp" "map_sg_ok example_ios"
  by (simp_all add: example_ios_def example_mp_def xdma_consts map_sg_ok_def)

theorem char_sgdma_read_write_returns_witness:
  "\<exists>n rv d' k'. char_sgdma_read_write (\<lambda>_ _. 0) example_mp example_tmo example_ios example_us 3
       (Some sgdma_node) 0x7F0F80 0x100 0x7F0F80 True sgdma_driver idle_kstate
       = Some (if n \<noteq> 0 then int n else rv, d', k') \<and> rv \<le> 0 \<and> n \<le> 256 \<and> (rv = 0 \<longrightarrow> n = 256) \<and>
     held (k_trace k') (ResPages 2) = 0"
proof -
  note ex = sgdma_example_node sgdma_example_check sgdma_example_env sgdma_example_inv
  have eng: "\<not> st_c2h (dir_engines (xfer_dir True) submit_dev 0)" using ex(12) by (simp add: advancing_def)
  have len: "unat (0x100 :: u64) < 2 ^ 32" by simp
  have left: "array_left example_us 0x7F0F80 0x100 (ResPages 2) = 0"
    by (simp add: array_left_def example_us_def user_pages_nr_def)
  from char_sgdma_read_write_returns [OF ex(1,2) refl ex(5,3,4,6-8) example_us_gup ex(9-11) eng len,
      of example_tmo "ResPages 2"] left show ?thesis by simp
qed

section \<open>Opening, closing and seeking\<close>

lemma node_engine_store:
  "node_engine d xc = Some (h, v, dir, c) \<Longrightarrow> node_engine (store_engine d h v dir c e) xc = Some (h, set_engine dir c e v, dir, c)"
  by (auto simp: node_engine_def store_engine_def split: option.splits)

lemma stored_engine [simp]: "dir_engines dir (set_engine dir c e v) c = e"
  by (simp add: dir_engines_set)

lemma xcdev_check_store:
  assumes "xcdev_check (d_devs d) (Some xc) True = 0" and "node_engine d xc = Some (h, v, dir, c)" and "e_magic e = MAGIC_ENGINE"
  shows "xcdev_check (d_devs (store_engine d h v dir c e)) (Some xc) True = 0"
  using assms
  by (auto simp: xcdev_check_def node_engine_def store_engine_def cdev_engine_def EINVAL_def set_engine_def dir_engines_def
      split: option.splits if_splits)

lemma node_magic:
  "xcdev_check (d_devs d) (Some xc) True = 0 \<Longrightarrow> node_engine d xc = Some (h, v, dir, c) \<Longrightarrow>
   xc_magic xc = MAGIC_CHAR \<and> e_magic (dir_engines dir v c) = MAGIC_ENGINE"
  by (auto simp: xcdev_check_def node_engine_def cdev_engine_def EINVAL_def split: option.splits if_splits)

text \<open>
  A card-to-host stream has one reader at a time: a second open is refused until the first one is closed, and closing makes
  it possible again; every other engine can be opened any number of times and opening it changes nothing.
\<close>

theorem sgdma_open_exclusive:
  assumes "xcdev_check (d_devs d) (Some (cdevs s)) True = 0" and "node_engine d (cdevs s) = Some (h, v, dir, c)"
    and "e = dir_engines dir v c" and "char_sgdma_open cdevs s p flags d = Some (rv, p', d')"
  shows "(st_c2h e \<longrightarrow> (rv = (if e_device_open e then - EBUSY else 0)) \<and>
       (rv = 0 \<longrightarrow> (\<exists>v'. node_engine d' (cdevs s) = Some (h, v', dir, c) \<and> e_eop_flush (dir_engines dir v' c) = (flags AND O_TRUNC \<noteq> 0)) \<and>
          char_sgdma_open cdevs s q flags' d' = Some (- EBUSY, Some s, d') \<and>
          (\<exists>d2. char_sgdma_close (Some (cdevs s)) d' = Some (0, d2) \<and>
             (\<exists>d3. char_sgdma_open cdevs s q flags' d2 = Some (0, Some s, d3))))) \<and>
     (\<not> st_c2h e \<longrightarrow> rv = 0 \<and> p' = Some s \<and> d' = d)"
proof -
  note mag = node_magic [OF assms(1,2)]
  have op: "char_sgdma_open cdevs s q fl d0 = (case node_engine d0 (cdevs s) of None \<Rightarrow> None
      | Some (h, v, dir, c) \<Rightarrow>
          if st_c2h (dir_engines dir v c)
          then if e_device_open (dir_engines dir v c) then Some (- EBUSY, Some s, d0)
               else Some (0, Some s, store_engine d0 h v dir c ((dir_engines dir v c)\<lparr>e_device_open := True, e_eop_flush := (fl AND O_TRUNC \<noteq> 0)\<rparr>))
          else Some (0, Some s, d0))" for q fl d0
    using mag by (auto simp: char_sgdma_open_def char_open_def st_c2h_def Let_def split: option.splits)
  let ?e1 = "e\<lparr>e_device_open := True, e_eop_flush := (flags AND O_TRUNC \<noteq> 0)\<rparr>"
  have st1: "st_c2h ?e1 = st_c2h e" "st_c2h (?e1\<lparr>e_device_open := False\<rparr>) = st_c2h e" by (simp_all add: st_c2h_def)
  show ?thesis
  proof (cases "st_c2h e \<and> \<not> e_device_open e")
    case True
    then have d': "rv = 0" "d' = store_engine d h v dir c ?e1" using assms(2-4) by (simp_all add: op)
    note n1 = node_engine_store [OF assms(2), of ?e1, folded d'(2)]
    have "xcdev_check (d_devs d') (Some (cdevs s)) True = 0"
      using xcdev_check_store [OF assms(1,2), of ?e1] mag assms(3) d'(2) by simp
    then have cl: "char_sgdma_close (Some (cdevs s)) d' = Some (0, store_engine d' h (set_engine dir c ?e1 v) dir c (?e1\<lparr>e_device_open := False\<rparr>))"
      using n1 True by (simp add: char_sgdma_close_def st_c2h_def)
    note n2 = node_engine_store [OF n1, of "?e1\<lparr>e_device_open := False\<rparr>"]
    show ?thesis using True d'(1) n1 n2 cl st1 by (simp add: op)
  qed (use assms(2-4) in \<open>auto simp: op EBUSY_def\<close>)
qed

definition stream_driver :: driver where
  "stream_driver = empty_driver\<lparr>d_devs := (\<lambda>_. None)(7 := Some (submit_dev\<lparr>v_engine_c2h :=
     (\<lambda>_. zero_engine\<lparr>e_magic := MAGIC_ENGINE, e_dir := DMA_FROM_DEVICE, e_streaming := True\<rparr>)\<rparr>))\<rparr>"

definition stream_nodes :: "cdev_slot \<Rightarrow> xdma_cdev" where
  "stream_nodes = (\<lambda>_. sgdma_node\<lparr>xc_engine := Some (DMA_FROM_DEVICE, 0)\<rparr>)"

theorem sgdma_open_exclusive_witness:
  "\<exists>d'. char_sgdma_open stream_nodes (SgdmaC2h 0) None O_TRUNC stream_driver = Some (0, Some (SgdmaC2h 0), d') \<and>
     char_sgdma_open stream_nodes (SgdmaC2h 0) None 0 d' = Some (- EBUSY, Some (SgdmaC2h 0), d')"
proof -
  let ?e = "zero_engine\<lparr>e_magic := MAGIC_ENGINE, e_dir := DMA_FROM_DEVICE, e_streaming := True\<rparr>"
  let ?v = "submit_dev\<lparr>v_engine_c2h := (\<lambda>_. ?e)\<rparr>"
  have n: "xcdev_check (d_devs stream_driver) (Some (stream_nodes (SgdmaC2h 0))) True = 0"
    "node_engine stream_driver (stream_nodes (SgdmaC2h 0)) = Some (7, ?v, DMA_FROM_DEVICE, 0)"
    by (simp_all add: xcdev_check_def node_engine_def cdev_engine_def stream_driver_def stream_nodes_def sgdma_node_def
        submit_dev_def fresh_dev_def example_dev_def dir_engines_def)
  have e: "dir_engines DMA_FROM_DEVICE ?v 0 = ?e" by (simp add: dir_engines_def)
  obtain d' where o: "char_sgdma_open stream_nodes (SgdmaC2h 0) None O_TRUNC stream_driver = Some (0, Some (SgdmaC2h 0), d')"
    using n e by (simp add: char_sgdma_open_def char_open_def stream_nodes_def sgdma_node_def zero_engine_def)
  from sgdma_open_exclusive [OF n e [symmetric] o, of None 0] show ?thesis using o
    by (simp add: st_c2h_def zero_engine_def)
qed

end
