(* ===== verification/Xdma_Aio.thy ===== *)
theory Xdma_Aio
  imports Xdma_Sgdma
begin

text \<open>
  Asynchronous requests of \<^verbatim>\<open>cdev_sgdma.c\<close>: \<^verbatim>\<open>cdev_aio_write\<close> and \<^verbatim>\<open>cdev_aio_read\<close> submit one request per segment of
  the user's vector, and \<^verbatim>\<open>async_io_handler\<close> runs in the service routine of the engine when the last transfer of a
  request has completed. The structures they share live in a store by address: the operation (\<^verbatim>\<open>caio\<close>) and the
  buffers (\<^verbatim>\<open>caio->cb\<close>), segment \<open>i\<close> at the address of the array plus \<open>i\<close>. \<open>None\<close> is the use of a pointer that
  does not point to such a structure.
\<close>

section \<open>The store\<close>

record cdev_async_io =
  ca_iocb :: nat
  ca_cb :: nat
  ca_write :: bool
  ca_cancel :: bool
  ca_cmpl_cnt :: s32
  ca_req_cnt :: s32
  ca_locked :: bool
  ca_res :: int
  ca_res2 :: int
  ca_err_cnt :: s32

record aio_store =
  as_caio :: "nat \<Rightarrow> cdev_async_io option"
  as_cb :: "nat \<Rightarrow> xdma_io_cb option"

definition free_caio :: "nat \<Rightarrow> aio_store \<Rightarrow> kstate \<Rightarrow> aio_store \<times> kstate" where
  "free_caio ca st k = (st\<lparr>as_caio := (as_caio st)(ca := None)\<rparr>, log_event (Release (ResKmem ca)) k)"

text \<open>\<^verbatim>\<open>kfree\<close> takes the address of an allocation, which is the address of the first segment.\<close>

definition free_cbs :: "cdev_async_io \<Rightarrow> nat \<Rightarrow> aio_store \<Rightarrow> kstate \<Rightarrow> (aio_store \<times> kstate) option" where
  "free_cbs caio cb st k =
     (if cb = ca_cb caio
      then Some (st\<lparr>as_cb := (\<lambda>i. if cb \<le> i \<and> i < cb + unat (ca_req_cnt caio) then None else as_cb st i)\<rparr>,
                 log_event (Release (ResKmem cb)) k)
      else None)"

section \<open>Completion\<close>

text \<open>\<open>filp\<close> is the node behind the file of an operation.\<close>

definition async_io_handler ::
    "device \<Rightarrow> modparams \<Rightarrow> (nat \<Rightarrow> xdma_dev option) \<Rightarrow> (nat \<Rightarrow> xdma_cdev option) \<Rightarrow> nat \<Rightarrow> int \<Rightarrow> aio_store
     \<Rightarrow> xdma_engine \<Rightarrow> kstate \<Rightarrow> (aio_store \<times> xdma_engine \<times> kstate) option" where
  "async_io_handler hw mp devs filp cb err st e k =
     (case as_cb st cb of
        None \<Rightarrow> None
      | Some c \<Rightarrow>
     (case io_private c of
        None \<Rightarrow> Some (st, e, k)
      | Some ca \<Rightarrow>
     (case as_caio st ca of
        None \<Rightarrow> None
      | Some caio \<Rightarrow>
          if xcdev_check devs (filp (ca_iocb caio)) True < 0 then Some (st, e, k)
          else if ca_locked caio
          then let (st, k) = free_caio ca st (log_event (AioComplete (ca_iocb caio) 0 (- EBUSY)) k) in Some (st, e, k)
          else if ca_cancel caio
          then let (st, k) = free_caio ca st k in
               map_option (\<lambda>(st, k). (st, e, k)) (free_cbs caio cb st k)
          else (case Option.bind (filp (ca_iocb caio)) (cdev_dev devs) of
                  None \<Rightarrow> None
                | Some v \<Rightarrow>
          (case (if err = 0
                 then (case io_req c of
                         None \<Rightarrow> None
                       | Some req \<Rightarrow> xdma_xfer_completion hw mp (channel_max v (io_write c)) (unat (e_channel e)) req (io_sgt c) False e k)
                 else Some (0, io_sgt c, e, k)) of
             None \<Rightarrow> None
           | Some (numbytes, sgt, e, k) \<Rightarrow>
               let (c, k) = char_sgdma_unmap_user_buf (c\<lparr>io_sgt := sgt\<rparr>) (io_write c) k;
                   st = st\<lparr>as_cb := (as_cb st)(cb := Some c)\<rparr>;
                   caio = caio\<lparr>ca_res2 := ca_res2 caio OR (if err < 0 then err else 0)\<rparr>;
                   caio = (if ca_res2 caio \<noteq> 0 then caio\<lparr>ca_err_cnt := ca_err_cnt caio + 1\<rparr> else caio);
                   caio = caio\<lparr>ca_cmpl_cnt := ca_cmpl_cnt caio + 1, ca_res := ca_res caio + numbytes\<rparr>
               in if ca_cmpl_cnt caio = ca_req_cnt caio
                  then let k = log_event (AioComplete (ca_iocb caio) (ca_res caio) (ca_res2 caio)) k;
                           (st, k) = free_caio ca st k
                       in map_option (\<lambda>(st, k). (st, e, k)) (free_cbs caio cb st k)
                  else Some (st\<lparr>as_caio := (as_caio st)(ca := Some caio)\<rparr>, e, k))))))"

section \<open>Submission\<close>

record iovec =
  iov_base :: addr
  iov_len :: u64

text \<open>
  The loop over the segments from number \<open>i\<close> on; every segment has two transfers. The return code of the submission
  is dropped. The result is 0 when the loop runs to its end and the code of the early return otherwise.
\<close>

fun aio_loop ::
    "device \<Rightarrow> modparams \<Rightarrow> io_services \<Rightarrow> user_services \<Rightarrow> xfer_id \<Rightarrow> nat \<Rightarrow> nat \<Rightarrow> bool \<Rightarrow> u64 \<Rightarrow> xdma_cdev \<Rightarrow> nat \<Rightarrow> iovec list
     \<Rightarrow> aio_store \<Rightarrow> driver \<Rightarrow> kstate \<Rightarrow> (int \<times> aio_store \<times> driver \<times> kstate) option" where
  "aio_loop hw mp ios us tfer ca base write pos xc i [] st d k = Some (0, st, d, k)"
| "aio_loop hw mp ios us tfer ca base write pos xc i (io # iov) st d k =
     (case node_engine d xc of
        None \<Rightarrow> None
      | Some (h, v, dir, c) \<Rightarrow>
          let e = dir_engines dir v c;
              cb = zero_io_cb\<lparr>io_buf := iov_base io, io_len := iov_len io, io_ep_addr := pos, io_write := write,
                     io_private := Some ca\<rparr>;
              rv = check_transfer_align (Some e) (io_buf cb) (io_len cb) pos True
          in if rv \<noteq> 0 then let (st, k) = free_caio ca st k in Some (rv, st, d, k)
             else let (rv, cb, k) = char_sgdma_map_user_buf_to_sgl us cb True k;
                      st = st\<lparr>as_cb := (as_cb st)(base + i := Some cb)\<rparr>
                  in if rv < 0 then Some (rv, st, d, k)
                     else (case xdma_xfer_submit_nowait hw mp ios (tfer + 2 * i) (base + i) (Some h) (unat (e_channel e)) (io_write cb)
                                  (io_ep_addr cb) (io_sgt cb) False d k of
                             None \<Rightarrow> None
                           | Some (rv, req, sgt, d, k) \<Rightarrow>
                               aio_loop hw mp ios us tfer ca base write pos xc (Suc i) iov
                                 (st\<lparr>as_cb := (as_cb st)(base + i := Some (cb\<lparr>io_sgt := sgt, io_req := req\<rparr>))\<rparr>) d k))"

text \<open>
  \<open>mem1\<close> and \<open>mem2\<close>: whether the two allocations, at the addresses \<open>ca\<close> and \<open>base\<close>, succeed; neither is tested.
  The two functions of the code differ in the direction only.
\<close>

definition cdev_aio ::
    "bool \<Rightarrow> device \<Rightarrow> modparams \<Rightarrow> io_services \<Rightarrow> user_services \<Rightarrow> bool \<Rightarrow> bool \<Rightarrow> xfer_id \<Rightarrow> nat \<Rightarrow> nat \<Rightarrow> nat \<Rightarrow> xdma_cdev option
     \<Rightarrow> iovec list \<Rightarrow> u64 \<Rightarrow> aio_store \<Rightarrow> driver \<Rightarrow> kstate \<Rightarrow> (int \<times> aio_store \<times> driver \<times> kstate) option" where
  "cdev_aio write hw mp ios us mem1 mem2 tfer ca base iocb xcdev iov pos st d k =
     (case xcdev of
        None \<Rightarrow> Some (- EINVAL, st, d, k)
      | Some xc \<Rightarrow>
     (case node_engine d xc of
        None \<Rightarrow> None
      | Some (h, v, dir, c) \<Rightarrow>
          if e_dir (dir_engines dir v c) \<noteq> xfer_dir write then Some (- EINVAL, st, d, k)
          else if \<not> mem1 then None
          else if \<not> mem2 \<and> iov \<noteq> [] then None
          else let k = log_event (Acquire (ResKmem ca)) k;
                   k = (if mem2 then log_event (Acquire (ResKmem base)) k else k);
                   caio = \<lparr>ca_iocb = iocb, ca_cb = base, ca_write = write, ca_cancel = False, ca_cmpl_cnt = 0,
                     ca_req_cnt = of_nat (length iov), ca_locked = False, ca_res = 0, ca_res2 = 0, ca_err_cnt = 0\<rparr>
               in (case aio_loop hw mp ios us tfer ca base write pos xc 0 iov
                          (st\<lparr>as_caio := (as_caio st)(ca := Some caio)\<rparr>) d k of
                     None \<Rightarrow> None
                   | Some (rv, st, d, k) \<Rightarrow>
                       if rv \<noteq> 0 then Some (rv, st, d, k)
                       else (case node_engine d xc of
                               None \<Rightarrow> None
                             | Some (h, v, dir, c) \<Rightarrow> Some (- EIOCBQUEUED, st, d, wake_thread (dir_engines dir v c) k)))))"

definition cdev_aio_write ::
    "device \<Rightarrow> modparams \<Rightarrow> io_services \<Rightarrow> user_services \<Rightarrow> bool \<Rightarrow> bool \<Rightarrow> xfer_id \<Rightarrow> nat \<Rightarrow> nat \<Rightarrow> nat \<Rightarrow> xdma_cdev option
     \<Rightarrow> iovec list \<Rightarrow> u64 \<Rightarrow> aio_store \<Rightarrow> driver \<Rightarrow> kstate \<Rightarrow> (int \<times> aio_store \<times> driver \<times> kstate) option" where
  "cdev_aio_write = cdev_aio True"

definition cdev_aio_read ::
    "device \<Rightarrow> modparams \<Rightarrow> io_services \<Rightarrow> user_services \<Rightarrow> bool \<Rightarrow> bool \<Rightarrow> xfer_id \<Rightarrow> nat \<Rightarrow> nat \<Rightarrow> nat \<Rightarrow> xdma_cdev option
     \<Rightarrow> iovec list \<Rightarrow> u64 \<Rightarrow> aio_store \<Rightarrow> driver \<Rightarrow> kstate \<Rightarrow> (int \<times> aio_store \<times> driver \<times> kstate) option" where
  "cdev_aio_read = cdev_aio False"

text \<open>The position handed on is the offset inside the first segment; the position of the file is not looked at.\<close>

record iov_iter =
  it_iov :: "iovec list"
  it_iov_offset :: u64
  it_file_pos :: u64

definition cdev_write_iter ::
    "device \<Rightarrow> modparams \<Rightarrow> io_services \<Rightarrow> user_services \<Rightarrow> bool \<Rightarrow> bool \<Rightarrow> xfer_id \<Rightarrow> nat \<Rightarrow> nat \<Rightarrow> nat \<Rightarrow> xdma_cdev option
     \<Rightarrow> iov_iter \<Rightarrow> aio_store \<Rightarrow> driver \<Rightarrow> kstate \<Rightarrow> (int \<times> aio_store \<times> driver \<times> kstate) option" where
  "cdev_write_iter hw mp ios us mem1 mem2 tfer ca base iocb xcdev it =
     cdev_aio_write hw mp ios us mem1 mem2 tfer ca base iocb xcdev (it_iov it) (it_iov_offset it)"

definition cdev_read_iter ::
    "device \<Rightarrow> modparams \<Rightarrow> io_services \<Rightarrow> user_services \<Rightarrow> bool \<Rightarrow> bool \<Rightarrow> xfer_id \<Rightarrow> nat \<Rightarrow> nat \<Rightarrow> nat \<Rightarrow> xdma_cdev option
     \<Rightarrow> iov_iter \<Rightarrow> aio_store \<Rightarrow> driver \<Rightarrow> kstate \<Rightarrow> (int \<times> aio_store \<times> driver \<times> kstate) option" where
  "cdev_read_iter hw mp ios us mem1 mem2 tfer ca base iocb xcdev it =
     cdev_aio_read hw mp ios us mem1 mem2 tfer ca base iocb xcdev (it_iov it) (it_iov_offset it)"

section \<open>The callback keeps the contract of the service routine\<close>

lemma completion_result_queue:
  "completion_result hw mp e i k = (rv, n, e', k') \<Longrightarrow>
   length (e_transfer_list e') \<le> length (e_transfer_list e) \<and> e_eop_flush e' = e_eop_flush e"
  by (auto simp: completion_result_def engine_status_read_def transfer_abort_def xdma_engine_stop_def list_del_head_def
      queue_head_def Let_def split: if_splits prod.splits list.splits option.splits)

lemma transfer_destroy_engine:
  "transfer_destroy e xfer n t = (e', n', t') \<Longrightarrow> e_transfer_list e' = e_transfer_list e \<and> e_eop_flush e' = e_eop_flush e"
  by (auto simp: transfer_destroy_def Let_def split: if_splits)

lemma completion_loop_queue:
  "completion_loop hw mp m i nents count sgt e k = Some (c, sgt', e', k') \<Longrightarrow>
   length (e_transfer_list e') \<le> length (e_transfer_list e) \<and> e_eop_flush e' = e_eop_flush e"
proof (induction m arbitrary: i nents count sgt e k)
  case (Suc m)
  obtain rv n e1 k1 where r: "completion_result hw mp e i k = (rv, n, e1, k1)" by (metis prod_cases4)
  obtain e2 sgn t where d: "transfer_destroy e1 (k_xfers k1 i) (sgt_nents sgt) (k_trace k1) = (e2, sgn, t)" by (metis prod_cases3)
  show ?case
    using Suc.prems Suc.IH completion_result_queue [OF r] transfer_destroy_engine [OF d]
    by (fastforce simp: r d Let_def split: if_splits)
qed (auto split: if_splits)

lemma xfer_completion_queue:
  "xdma_xfer_completion hw mp cmax channel req sgt m e k = Some (n, sgt', e', k') \<Longrightarrow>
   length (e_transfer_list e') \<le> length (e_transfer_list e) \<and> e_eop_flush e' = e_eop_flush e"
  by (auto simp: xdma_xfer_completion_def Let_def split: if_splits option.splits prod.splits dest!: completion_loop_queue)

lemma async_io_handler_queue:
  assumes "async_io_handler hw mp devs filp cb err st e k = Some (st', e', k')"
  shows "length (e_transfer_list e') \<le> length (e_transfer_list e) \<and> e_eop_flush e' = e_eop_flush e"
  using assms unfolding async_io_handler_def Let_def
  by (auto split: option.splits if_splits prod.splits dest!: xfer_completion_queue)

text \<open>
  What the service routine of an engine sees of the handler, for a store \<open>st\<close>: its effect on the engine and
  the log. The service routine calls it with error code 0. Where the handler uses a bad pointer nothing is claimed.
\<close>

definition aio_done ::
    "device \<Rightarrow> modparams \<Rightarrow> (nat \<Rightarrow> xdma_dev option) \<Rightarrow> (nat \<Rightarrow> xdma_cdev option) \<Rightarrow> aio_store \<Rightarrow> io_done" where
  "aio_done hw mp devs filp st cb e k =
     (case async_io_handler hw mp devs filp cb 0 st e k of None \<Rightarrow> (e, k) | Some (_, e, k) \<Rightarrow> (e, k))"

interpretation aio: io_done_contract "aio_done hw mp devs filp st" for hw mp devs filp st
  by unfold_locales (auto simp: aio_done_def split: option.splits dest: async_io_handler_queue)

section \<open>One completed request\<close>


definition aio_cb :: "nat \<Rightarrow> xdma_io_cb" where
  "aio_cb i = zero_io_cb\<lparr>io_private := Some 5, io_write := True, io_req := Some \<lparr>r_total_len = 0, r_ep_addr = 0, r_tfer = 3,
     r_cb = Some i, r_sw_desc_idx = 0, r_sw_desc_cnt = 0, r_sdesc_nr = 0, r_sdesc = []\<rparr>\<rparr>"

definition aio_op :: cdev_async_io where
  "aio_op = \<lparr>ca_iocb = 1, ca_cb = 8, ca_write = True, ca_cancel = False, ca_cmpl_cnt = 1, ca_req_cnt = 2, ca_locked = False,
     ca_res = 64, ca_res2 = 0, ca_err_cnt = 0\<rparr>"

definition aio_example :: aio_store where
  "aio_example = \<lparr>as_caio = (\<lambda>_. None)(5 := Some aio_op), as_cb = (\<lambda>i. if i = 8 \<or> i = 9 then Some (aio_cb i) else None)\<rparr>"


section \<open>The segments of a submission\<close>

text \<open>The addressing of the segments: what the buffers of an operation record.\<close>

lemma map_user_buf_keeps:
  "char_sgdma_map_user_buf_to_sgl us cb write k = (rv, cb', k') \<Longrightarrow>
   io_buf cb' = io_buf cb \<and> io_len cb' = io_len cb \<and> io_ep_addr cb' = io_ep_addr cb \<and> io_private cb' = io_private cb"
  by (auto simp: char_sgdma_map_user_buf_to_sgl_def map_pages_def char_sgdma_unmap_user_buf_def Let_def
      split: if_splits prod.splits sum.splits option.splits)

definition segment_at :: "nat \<Rightarrow> u64 \<Rightarrow> iovec \<Rightarrow> xdma_io_cb option \<Rightarrow> bool" where
  "segment_at ca pos io cb \<longleftrightarrow> (case cb of None \<Rightarrow> False
     | Some cb \<Rightarrow> io_buf cb = iov_base io \<and> io_len cb = iov_len io \<and> io_ep_addr cb = pos \<and> io_private cb = Some ca)"

lemma aio_loop_step:
  assumes "aio_loop hw mp ios us tfer ca base write pos xc i (io # iov) st d k = Some (0, st', d', k')"
  obtains cb d1 k1 where "segment_at ca pos io (Some cb)"
    "aio_loop hw mp ios us tfer ca base write pos xc (Suc i) iov (st\<lparr>as_cb := (as_cb st)(base + i := Some cb)\<rparr>) d1 k1 = Some (0, st', d', k')"
proof -
  obtain h v dir c where n: "node_engine d xc = Some (h, v, dir, c)" using assms by (auto split: option.splits)
  define cb where "cb = zero_io_cb\<lparr>io_buf := iov_base io, io_len := iov_len io, io_ep_addr := pos, io_write := write, io_private := Some ca\<rparr>"
  obtain rv cb1 k1 where m: "char_sgdma_map_user_buf_to_sgl us cb True k = (rv, cb1, k1)" by (metis prod_cases3)
  obtain rq sgt d1 k2 where
    l: "aio_loop hw mp ios us tfer ca base write pos xc (Suc i) iov
        (st\<lparr>as_cb := (as_cb st)(base + i := Some (cb1\<lparr>io_sgt := sgt, io_req := rq\<rparr>))\<rparr>) d1 k2 = Some (0, st', d', k')"
    using assms n m by (auto simp: free_caio_def Let_def simp flip: cb_def split: if_splits option.splits)
  show thesis by (rule that [OF _ l]) (use map_user_buf_keeps [OF m] in \<open>simp add: segment_at_def cb_def\<close>)
qed

lemma aio_loop_segments:
  "aio_loop hw mp ios us tfer ca base write pos xc i iov st d k = Some (0, st', d', k') \<Longrightarrow>
   (\<forall>j < length iov. segment_at ca pos (iov ! j) (as_cb st' (base + i + j))) \<and>
   (\<forall>j < base + i. as_cb st' j = as_cb st j) \<and> as_caio st' = as_caio st"
proof (induction iov arbitrary: i st d k)
  case (Cons io iov)
  from Cons.prems show ?case
  proof (rule aio_loop_step)
    fix cb d1 k1
    assume s: "segment_at ca pos io (Some cb)" and
      l: "aio_loop hw mp ios us tfer ca base write pos xc (Suc i) iov (st\<lparr>as_cb := (as_cb st)(base + i := Some cb)\<rparr>) d1 k1 = Some (0, st', d', k')"
    from Cons.IH [OF l] s show ?thesis by (auto simp: nth_Cons split: nat.splits)
  qed
qed simp

lemma map_user_buf_code:
  "char_sgdma_map_user_buf_to_sgl us cb write k = (rv, cb', k') \<Longrightarrow>
   rv \<in> {0, - EINVAL, - ENOMEM, - EFAULT} \<or> (\<exists>b n. us_gup us b n = Inl rv)"
  by (auto simp: char_sgdma_map_user_buf_to_sgl_def map_pages_def Let_def split: if_splits prod.splits sum.splits)

lemma check_transfer_align_code: "check_transfer_align e b n p s \<in> {0, - EINVAL}"
  by (auto simp: check_transfer_align_def split: option.splits)

lemma aio_loop_code:
  assumes "\<forall>b n. us_gup us b n \<noteq> Inl (- EIOCBQUEUED)"
  shows "aio_loop hw mp ios us tfer ca base write pos xc i iov st d k = Some (rv, st', d', k') \<Longrightarrow> rv \<noteq> - EIOCBQUEUED"
proof (induction iov arbitrary: i st d k)
  case (Cons io iov)
  obtain h v dir c where n: "node_engine d xc = Some (h, v, dir, c)" using Cons.prems by (auto split: option.splits)
  define cb where "cb = zero_io_cb\<lparr>io_buf := iov_base io, io_len := iov_len io, io_ep_addr := pos, io_write := write, io_private := Some ca\<rparr>"
  obtain rv1 cb1 k1 where m: "char_sgdma_map_user_buf_to_sgl us cb True k = (rv1, cb1, k1)" by (metis prod_cases3)
  have "rv1 \<noteq> - EIOCBQUEUED" using map_user_buf_code [OF m] assms by (auto simp: xdma_consts)
  moreover have "check_transfer_align (Some (dir_engines dir v c)) (io_buf cb) (io_len cb) pos True \<noteq> - EIOCBQUEUED"
    using check_transfer_align_code [of "Some (dir_engines dir v c)" "io_buf cb" "io_len cb" pos True] by (auto simp: xdma_consts)
  ultimately show ?case
    using Cons n m by (auto simp: free_caio_def Let_def simp flip: cb_def split: if_splits option.splits)
qed (simp add: xdma_consts)


definition aio_dev :: xdma_dev where
  "aio_dev = submit_dev\<lparr>v_engine_h2c := (\<lambda>_. zero_engine\<lparr>e_magic := MAGIC_ENGINE, e_dir := DMA_TO_DEVICE, e_addr_align := 1\<rparr>)\<rparr>"

definition aio_driver :: driver where
  "aio_driver = empty_driver\<lparr>d_devs := (\<lambda>_. None)(7 := Some aio_dev), xdev_list := [7]\<rparr>"

definition aio_iter :: iov_iter where
  "aio_iter = \<lparr>it_iov = [\<lparr>iov_base = 0x7F0000, iov_len = 0x40\<rparr>, \<lparr>iov_base = 0x7F2000, iov_len = 0x80\<rparr>], it_iov_offset = 0, it_file_pos = 0x100\<rparr>"

lemma aio_map:
  assumes "user_pages_nr (io_buf cb) (io_len cb) = 1" and "sg_nbytes (io_buf cb) (io_len cb) = ucast (io_len cb)" and "unat (io_len cb) < 2 ^ 32"
  obtains cb' k' where "char_sgdma_map_user_buf_to_sgl example_us cb write k = (0, cb', k')" "io_ep_addr cb' = io_ep_addr cb" "io_write cb' = io_write cb"
proof -
  have "ucast (sg_nbytes (io_buf cb) (io_len cb)) = io_len cb"
    using assms(2,3) by (simp add: word_unat_eq_iff unat_ucast_small unat_ucast_up)
  then show thesis using assms(1) that
    by (simp add: char_sgdma_map_user_buf_to_sgl_def example_us_def map_pages_def sg_alloc_table_def upt_rec Let_def split: prod.splits)
qed

lemma aio_submit:
  "xdma_xfer_submit_nowait hw mp (example_ios\<lparr>io_map_sg := (\<lambda>_. [])\<rparr>) tfer cb (Some 7) 0 True ep sgt False aio_driver k =
   Some (- EIO, None, sgt, aio_driver, k)"
proof -
  have "submit_check aio_driver 7 aio_dev 0 True = 0"
    by (simp add: submit_check_def debug_check_dev_hndl_def xdev_find_by_pdev_def dev_pdev_def submit_dev_def aio_dev_def aio_driver_def
        fresh_dev_def example_dev_def channel_max_def xdma_device_flag_check_def xfer_dir_def dir_engines_def)
  moreover have "put_engine aio_driver 7 aio_dev True 0 (dir_engines (xfer_dir True) aio_dev 0) = aio_driver"
    by (simp add: put_engine_def set_engine_def dir_engines_def xfer_dir_def aio_driver_def)
  moreover have "d_devs aio_driver 7 = Some aio_dev" by (simp add: aio_driver_def)
  ultimately show ?thesis by (simp add: xdma_xfer_submit_nowait_def nowait_body_def map_sgl_def EIO_def)
qed

lemma aio_node: "node_engine aio_driver sgdma_node = Some (7, aio_dev, DMA_TO_DEVICE, 0)"
  by (simp add: node_engine_def aio_driver_def sgdma_node_def)

lemma aio_engine: "dir_engines DMA_TO_DEVICE aio_dev 0 = zero_engine\<lparr>e_magic := MAGIC_ENGINE, e_dir := DMA_TO_DEVICE, e_addr_align := 1\<rparr>"
  by (simp add: dir_engines_def aio_dev_def)

lemma aio_example_step:
  assumes "user_pages_nr (iov_base io) (iov_len io) = 1" and "sg_nbytes (iov_base io) (iov_len io) = ucast (iov_len io)"
    and "unat (iov_len io) < 2 ^ 32"
  shows "\<exists>st' k'. aio_loop hw mp (example_ios\<lparr>io_map_sg := (\<lambda>_. [])\<rparr>) example_us tfer ca base True pos sgdma_node i (io # iov) st aio_driver k =
    aio_loop hw mp (example_ios\<lparr>io_map_sg := (\<lambda>_. [])\<rparr>) example_us tfer ca base True pos sgdma_node (Suc i) iov st' aio_driver k'"
proof -
  let ?cb = "zero_io_cb\<lparr>io_buf := iov_base io, io_len := iov_len io, io_ep_addr := pos, io_write := True, io_private := Some ca\<rparr>"
  have al: "check_transfer_align (Some (dir_engines DMA_TO_DEVICE aio_dev 0)) b n p True = 0" for b n p
    by (simp add: check_transfer_align_def aio_engine lsb_def zero_engine_def)
  have cb: "user_pages_nr (io_buf ?cb) (io_len ?cb) = 1" "sg_nbytes (io_buf ?cb) (io_len ?cb) = ucast (io_len ?cb)" "unat (io_len ?cb) < 2 ^ 32"
    using assms by simp_all
  show ?thesis
  proof (rule aio_map [OF cb, of True k])
    fix cb' k' assume "char_sgdma_map_user_buf_to_sgl example_us ?cb True k = (0, cb', k')" "io_ep_addr cb' = io_ep_addr ?cb" "io_write cb' = io_write ?cb"
    moreover have "unat (e_channel (dir_engines DMA_TO_DEVICE aio_dev 0)) = 0" by (simp add: aio_engine zero_engine_def)
    ultimately show ?thesis by (simp add: aio_node al aio_submit) blast
  qed
qed


section \<open>Servicing an engine with asynchronous requests\<close>

text \<open>
  C10. No stall: servicing a running engine (outside end-of-packet mode) for which the device reports at least one
  completed descriptor, by write-back or in its count register, leaves it running exactly when the queue is not
  empty, whatever the status word says and whatever asynchronous operations the completed transfers belong to.
\<close>

theorem engine_service_no_stall:
  assumes "e_running e" and "\<not> e_eop_flush e"
    and "desc_writeback AND WB_COUNT_MASK \<noteq> 0 \<or> (\<forall>t. hw t (Mmio (e_regs e + er_completed_desc_count)) \<noteq> 0)"
    and "engine_service hw mp (aio_done hw mp devs filp st) e desc_writeback k = (rv, e', k')"
  shows "e_running e' \<longleftrightarrow> e_transfer_list e' \<noteq> []"
  using aio.service_no_stall [OF assms] .

theorem engine_service_no_stall_witness:
  "case engine_service (\<lambda>_ _. 1) example_mp (aio_done (\<lambda>_ _. 1) example_mp (d_devs aio_driver) (\<lambda>_. Some sgdma_node) aio_example)
       (zero_engine\<lparr>e_transfer_list := [4, 5], e_running := True\<rparr>) 0 example_queue of
     (rv, e', k') \<Rightarrow> e_running e' \<longleftrightarrow> e_transfer_list e' \<noteq> []"
proof -
  obtain rv e' k' where run: "engine_service (\<lambda>_ _. 1) example_mp
      (aio_done (\<lambda>_ _. 1) example_mp (d_devs aio_driver) (\<lambda>_. Some sgdma_node) aio_example)
      (zero_engine\<lparr>e_transfer_list := [4, 5], e_running := True\<rparr>) 0 example_queue = (rv, e', k')"
    by (metis prod_cases3)
  show ?thesis
    using engine_service_no_stall [OF _ _ _ run] by (simp add: run) (simp add: zero_engine_def)
qed

end
