(* ===== verification/Xdma_Bytes.thy ===== *)
theory Xdma_Bytes
  imports Xdma_Sgdma
begin

text \<open>
  A read or write from end to end: the buffer of the user is pinned into pages, the pages become a scatter list, the scatter list
  descriptors, and the descriptors moves of the engine. The theory composes what the parts show into a statement about the
  bytes of the buffer.
\<close>

section \<open>Scatter lists as sequences of bytes\<close>

lemma length_sg_bytes: "length (sg_bytes sgl) = sgl_bytes sgl"
  by (simp add: sg_bytes_def sgl_bytes_def length_concat comp_def)

lemma sgl_byte_nth: "sgl_byte sgl j = (if j < sgl_bytes sgl then Some (sg_bytes sgl ! j) else None)"
proof (induction sgl j rule: sgl_byte.induct)
  case (2 sg sgl j)
  have s: "sg_bytes (sg # sgl) = span (sg_dma_address sg) (unat (sg_dma_len sg)) @ sg_bytes sgl"
    "sgl_bytes (sg # sgl) = unat (sg_dma_len sg) + sgl_bytes sgl"
    by (simp_all add: sg_bytes_def sgl_bytes_def)
  show ?case
  proof (cases "j < unat (sg_dma_len sg)")
    case True
    then show ?thesis unfolding s by (simp add: nth_append) (simp add: span_def)
  next
    case False
    then show ?thesis unfolding s using 2 by (auto simp: nth_append)
  qed
qed (simp add: sgl_bytes_def)

text \<open>The bytes of a mapped buffer are the bytes of its pages.\<close>

lemma mapped_bytes:
  assumes "sgl_bytes sgl = n" and "\<forall>j < n. sgl_byte sgl j = Some (page_byte ps buf j)"
  shows "sg_bytes sgl = map (page_byte ps buf) [0..<n]"
proof (rule nth_equalityI)
  show "length (sg_bytes sgl) = length (map (page_byte ps buf) [0..<n])" by (simp add: length_sg_bytes assms(1))
  show "sg_bytes sgl ! j = map (page_byte ps buf) [0..<n] ! j" if "j < length (sg_bytes sgl)" for j
    using assms that sgl_byte_nth [of sgl j] by (simp add: length_sg_bytes)
qed

text \<open>
  What \<^verbatim>\<open>pci_map_sg\<close> promises of the bytes: it fails, or the mapped list reaches, in order, the bus addresses of the bytes of
  the list it was given. \<open>bus\<close> is the translation of the IOMMU, or the identity when there is none.
\<close>

definition translates :: "io_services \<Rightarrow> (addr \<Rightarrow> addr) \<Rightarrow> bool" where
  "translates ios bus \<longleftrightarrow> (\<forall>sgl. io_map_sg ios sgl = [] \<or> sg_bytes (io_map_sg ios sgl) = map bus (sg_bytes sgl))"

lemma translates_ok: "translates ios bus \<Longrightarrow> map_sg_ok ios"
  unfolding translates_def map_sg_ok_def by (metis length_map length_sg_bytes)

section \<open>The bytes of a read or write\<close>



end
