(* ===== verification/Xdma_Tools.thy ===== *)
theory Xdma_Tools
  imports Xdma_Prelude
begin

text \<open>
  The command-line tools of \<^verbatim>\<open>XDMA/tools\<close>: the copy loops and the clock arithmetic of \<^verbatim>\<open>dma_utils.c\<close> and the test
  runs of \<^verbatim>\<open>dma_to_device.c\<close> and \<^verbatim>\<open>dma_from_device.c\<close>. The system calls are a parameter over a state of their own;
  a buffer is the list of its bytes. Sizes and counts are 64-bit words where the code computes with them, and the
  count of a copy loop is a natural number, which cannot exceed the size it is compared with.
\<close>

section \<open>System calls\<close>

datatype fd = Fpga | InFile | OutFile

record 's file_ops =
  fo_seek :: "fd \<Rightarrow> int \<Rightarrow> 's \<Rightarrow> int \<times> 's"
  fo_read :: "fd \<Rightarrow> nat \<Rightarrow> 's \<Rightarrow> int \<times> u8 list \<times> 's"
  fo_write :: "fd \<Rightarrow> u8 list \<Rightarrow> 's \<Rightarrow> int \<times> 's"

definition RW_MAX_SIZE :: nat where [xdma_consts]: "RW_MAX_SIZE = 0x7ffff000"

text \<open>Bytes stored into a buffer from a position on.\<close>

definition store_at :: "nat \<Rightarrow> u8 list \<Rightarrow> u8 list \<Rightarrow> u8 list" where
  "store_at p data mem = take p mem @ data @ drop (p + length data) mem"

section \<open>Copy loops\<close>

text \<open>
  \<open>count\<close> bytes are done; the buffer and the file advance together, so the position in both is the count. The
  loop ends at the first short transfer. The file is positioned only for a nonzero offset.
\<close>

function read_loop :: "'s file_ops \<Rightarrow> fd \<Rightarrow> nat \<Rightarrow> int \<Rightarrow> nat \<Rightarrow> u8 list \<Rightarrow> 's \<Rightarrow> int \<times> u8 list \<times> 's" where
  "read_loop fo f sz offset count mem s =
     (if count < sz
      then let bytes = min (sz - count) RW_MAX_SIZE;
               (rc, s) = (if offset \<noteq> 0 then fo_seek fo f offset s else (offset, s))
           in if rc \<noteq> offset then (- EIO, mem, s)
              else let (rc, data, s) = fo_read fo f bytes s in
                   if rc < 0 then (- EIO, mem, s)
                   else let mem = store_at count (take (nat rc) data) mem in
                        if rc \<noteq> int bytes then (int count + rc, mem, s)
                        else read_loop fo f sz (offset + int bytes) (count + bytes) mem s
      else (int count, mem, s))"
  by pat_completeness auto

termination
  by (relation "measure (\<lambda>(fo, f, sz, offset, count, mem, s). sz - count)") (auto simp: RW_MAX_SIZE_def)

definition read_to_buffer :: "'s file_ops \<Rightarrow> fd \<Rightarrow> u8 list \<Rightarrow> nat \<Rightarrow> int \<Rightarrow> 's \<Rightarrow> int \<times> u8 list \<times> 's" where
  "read_to_buffer fo f buffer sz base s = read_loop fo f sz base 0 buffer s"

function write_loop :: "'s file_ops \<Rightarrow> fd \<Rightarrow> u8 list \<Rightarrow> nat \<Rightarrow> int \<Rightarrow> nat \<Rightarrow> 's \<Rightarrow> int \<times> 's" where
  "write_loop fo f buffer sz offset count s =
     (if count < sz
      then let bytes = min (sz - count) RW_MAX_SIZE;
               (rc, s) = (if offset \<noteq> 0 then fo_seek fo f offset s else (offset, s))
           in if rc \<noteq> offset then (- EIO, s)
              else let (rc, s) = fo_write fo f (take bytes (drop count buffer)) s in
                   if rc < 0 then (- EIO, s)
                   else if rc \<noteq> int bytes then (int count + rc, s)
                   else write_loop fo f buffer sz (offset + int bytes) (count + bytes) s
      else (int count, s))"
  by pat_completeness auto

termination
  by (relation "measure (\<lambda>(fo, f, buffer, sz, offset, count, s). sz - count)") (auto simp: RW_MAX_SIZE_def)

definition write_from_buffer :: "'s file_ops \<Rightarrow> fd \<Rightarrow> u8 list \<Rightarrow> nat \<Rightarrow> int \<Rightarrow> 's \<Rightarrow> int \<times> 's" where
  "write_from_buffer fo f buffer sz base s = write_loop fo f buffer sz base 0 s"

declare read_loop.simps [simp del] write_loop.simps [simp del]

section \<open>Time differences\<close>

record timespec =
  tv_sec :: int
  tv_nsec :: int

definition timespec_check :: "timespec \<Rightarrow> int" where
  "timespec_check t = (if tv_nsec t < 0 \<or> tv_nsec t \<ge> 1000000000 then - 1 else 0)"

definition timespec_sub :: "timespec \<Rightarrow> timespec \<Rightarrow> timespec" where
  "timespec_sub t1 t2 =
     (if timespec_check t1 < 0 then t1
      else if timespec_check t2 < 0 then t1
      else let t = \<lparr>tv_sec = tv_sec t1 - tv_sec t2, tv_nsec = tv_nsec t1 - tv_nsec t2\<rparr> in
           if tv_nsec t \<ge> 1000000000 then t\<lparr>tv_sec := tv_sec t + 1, tv_nsec := tv_nsec t - 1000000000\<rparr>
           else if tv_nsec t < 0 then t\<lparr>tv_sec := tv_sec t - 1, tv_nsec := tv_nsec t + 1000000000\<rparr>
           else t)"

section \<open>The test runs\<close>

definition apt_rounds :: "u64 \<Rightarrow> u64 \<Rightarrow> nat" where
  "apt_rounds sz aperture = (if aperture \<noteq> 0 then unat ((sz + aperture - 1) div aperture) else 0)"

text \<open>
  In the loop over the aperture the comma after the initialisation of \<^verbatim>\<open>bytes\<close> makes the next line declare a second, unsigned
  \<^verbatim>\<open>rc\<close>, so the test of that one for a negative value never holds. \<open>buf\<close> is the index into the buffer.
\<close>

fun to_device_apt ::
    "'s file_ops \<Rightarrow> u8 list \<Rightarrow> u64 \<Rightarrow> int \<Rightarrow> nat \<Rightarrow> u64 \<Rightarrow> u64 \<Rightarrow> u64 \<Rightarrow> bool \<Rightarrow> 's \<Rightarrow> u64 \<times> bool \<times> 's" where
  "to_device_apt fo buffer aperture addr 0 len buf bytes_done underflow s = (bytes_done, underflow, s)"
| "to_device_apt fo buffer aperture addr (Suc n) len buf bytes_done underflow s =
     (let bytes = (if aperture < len then aperture else len);
          (r, s) = write_from_buffer fo Fpga (drop (unat buf) buffer) (unat bytes) addr s;
          rc = (word_of_int r :: u64)
      in to_device_apt fo buffer aperture addr n (len - aperture) (buf + aperture) (bytes_done + rc) (underflow \<or> rc < bytes) s)"

text \<open>
  One round of the loop over the transfers; \<open>clk\<close> is what \<^verbatim>\<open>clock_gettime\<close> returns and \<open>out\<close> says whether there is an output
  file. The first component says whether the run goes on.
\<close>

definition to_device_round ::
    "'s file_ops \<Rightarrow> bool \<Rightarrow> int \<Rightarrow> u8 list \<Rightarrow> u64 \<Rightarrow> u64 \<Rightarrow> int \<Rightarrow> u64 \<Rightarrow> bool \<Rightarrow> 's \<Rightarrow> bool \<times> int \<times> u64 \<times> bool \<times> 's" where
  "to_device_round fo out clk buffer sz aperture addr out_offset underflow s =
     (let (stop, rc, bytes_done, underflow, s) =
            (if apt_rounds sz aperture \<noteq> 0
             then let (bytes_done, underflow, s) =
                        to_device_apt fo buffer aperture addr (apt_rounds sz aperture) sz 0 0 underflow s
                  in (False, clk, bytes_done, underflow, s)
             else let (rc, s) = write_from_buffer fo Fpga buffer (unat sz) addr s in
                  if rc < 0 then (True, rc, 0, underflow, s)
                  else (False, clk, word_of_int rc, underflow \<or> (word_of_int rc :: u64) < sz, s))
      in if stop then (False, rc, out_offset, underflow, s)
         else if out
         then let (rc, s) = write_from_buffer fo OutFile buffer (unat bytes_done) (uint out_offset) s in
              if rc < 0 \<or> (word_of_int rc :: u64) < bytes_done then (False, rc, out_offset, underflow, s)
              else (True, rc, out_offset + bytes_done, underflow, s)
         else (True, rc, out_offset, underflow, s))"

fun to_device_loop ::
    "nat \<Rightarrow> 's file_ops \<Rightarrow> bool \<Rightarrow> int \<Rightarrow> u8 list \<Rightarrow> u64 \<Rightarrow> u64 \<Rightarrow> int \<Rightarrow> int \<Rightarrow> u64 \<Rightarrow> bool \<Rightarrow> 's \<Rightarrow> int \<times> bool \<times> 's" where
  "to_device_loop 0 fo out clk buffer sz aperture addr rc out_offset underflow s = (rc, underflow, s)"
| "to_device_loop (Suc n) fo out clk buffer sz aperture addr rc out_offset underflow s =
     (let (go, rc, out_offset, underflow, s) = to_device_round fo out clk buffer sz aperture addr out_offset underflow s in
      if go then to_device_loop n fo out clk buffer sz aperture addr rc out_offset underflow s
      else (rc, underflow, s))"

text \<open>
  \<open>fpga\<close> and \<open>mem\<close>: whether the device can be opened and the buffer, whose content \<open>buffer\<close> is undefined, be allocated;
  \<open>infile\<close> and \<open>outfile\<close> are \<open>None\<close> without a file name, and otherwise say whether the file can be opened. \<open>rc0\<close> is the value of
  \<^verbatim>\<open>rc\<close> before its first assignment, which is returned for a count of zero without an input file.
\<close>

definition test_dma_to_device ::
    "'s file_ops \<Rightarrow> bool \<Rightarrow> bool option \<Rightarrow> bool option \<Rightarrow> bool \<Rightarrow> int \<Rightarrow> int \<Rightarrow> u8 list \<Rightarrow> int \<Rightarrow> u64 \<Rightarrow> u64 \<Rightarrow> u64 \<Rightarrow> 's \<Rightarrow> int \<times> 's" where
  "test_dma_to_device fo fpga infile outfile mem rc0 clk buffer addr aperture sz count s =
     (if \<not> fpga then (- EINVAL, s)
      else if infile = Some False then (- EINVAL, s)
      else if outfile = Some False then (- EINVAL, s)
      else if \<not> mem then (- ENOMEM, s)
      else let (rc, buffer, s) = (if infile = Some True then read_to_buffer fo InFile buffer (unat sz) 0 s else (rc0, buffer, s)) in
           if infile = Some True \<and> (rc < 0 \<or> (word_of_int rc :: u64) < sz) then (if rc < 0 then rc else 0, s)
           else let (rc, underflow, s) = to_device_loop (unat count) fo (outfile = Some True) clk buffer sz aperture addr rc 0 False s
                in (if rc < 0 then rc else if underflow then - EIO else 0, s))"

fun from_device_apt ::
    "'s file_ops \<Rightarrow> u64 \<Rightarrow> int \<Rightarrow> nat \<Rightarrow> u64 \<Rightarrow> u64 \<Rightarrow> u64 \<Rightarrow> bool \<Rightarrow> u8 list \<Rightarrow> 's \<Rightarrow> u64 \<times> bool \<times> u8 list \<times> 's" where
  "from_device_apt fo aperture addr 0 len buf bytes_done underflow buffer s = (bytes_done, underflow, buffer, s)"
| "from_device_apt fo aperture addr (Suc n) len buf bytes_done underflow buffer s =
     (let bytes = (if aperture < len then aperture else len);
          (r, part, s) = read_to_buffer fo Fpga (drop (unat buf) buffer) (unat bytes) addr s;
          rc = (word_of_int r :: u64)
      in from_device_apt fo aperture addr n (len - aperture) (buf + aperture) (bytes_done + rc) (underflow \<or> rc < bytes)
           (take (unat buf) buffer @ part) s)"

definition from_device_round ::
    "'s file_ops \<Rightarrow> bool \<Rightarrow> int \<Rightarrow> u64 \<Rightarrow> u64 \<Rightarrow> int \<Rightarrow> u64 \<Rightarrow> bool \<Rightarrow> u8 list \<Rightarrow> 's \<Rightarrow> bool \<times> int \<times> u64 \<times> bool \<times> u8 list \<times> 's" where
  "from_device_round fo out clk sz aperture addr out_offset underflow buffer s =
     (let (stop, rc, bytes_done, underflow, buffer, s) =
            (if apt_rounds sz aperture \<noteq> 0
             then let (bytes_done, underflow, buffer, s) =
                        from_device_apt fo aperture addr (apt_rounds sz aperture) sz 0 0 underflow buffer s
                  in (False, clk, bytes_done, underflow, buffer, s)
             else let (rc, buffer, s) = read_to_buffer fo Fpga buffer (unat sz) addr s in
                  if rc < 0 then (True, rc, 0, underflow, buffer, s)
                  else (False, rc, word_of_int rc, underflow \<or> (word_of_int rc :: u64) < sz, buffer, s))
      in if stop then (False, rc, out_offset, underflow, buffer, s)
         else if out
         then let (rc, s) = write_from_buffer fo OutFile buffer (unat bytes_done) (uint out_offset) s in
              if rc < 0 \<or> (word_of_int rc :: u64) < bytes_done then (False, rc, out_offset, underflow, buffer, s)
              else (True, rc, out_offset + bytes_done, underflow, buffer, s)
         else (True, rc, out_offset, underflow, buffer, s))"

text \<open>Here a run to the end overwrites the code; only an early exit returns what the failing step left in it.\<close>

fun from_device_loop ::
    "nat \<Rightarrow> 's file_ops \<Rightarrow> bool \<Rightarrow> bool \<Rightarrow> int \<Rightarrow> u64 \<Rightarrow> u64 \<Rightarrow> int \<Rightarrow> u64 \<Rightarrow> bool \<Rightarrow> u8 list \<Rightarrow> 's \<Rightarrow> int \<times> u8 list \<times> 's" where
  "from_device_loop 0 fo eop_flush out clk sz aperture addr out_offset underflow buffer s =
     (if \<not> underflow then 0 else if eop_flush then 0 else - EIO, buffer, s)"
| "from_device_loop (Suc n) fo eop_flush out clk sz aperture addr out_offset underflow buffer s =
     (let (go, rc, out_offset, underflow, buffer, s) = from_device_round fo out clk sz aperture addr out_offset underflow buffer s in
      if go then from_device_loop n fo eop_flush out clk sz aperture addr out_offset underflow buffer s
      else (rc, buffer, s))"

definition test_dma_from_device ::
    "'s file_ops \<Rightarrow> bool \<Rightarrow> bool \<Rightarrow> bool option \<Rightarrow> bool \<Rightarrow> int \<Rightarrow> u8 list \<Rightarrow> int \<Rightarrow> u64 \<Rightarrow> u64 \<Rightarrow> u64 \<Rightarrow> 's \<Rightarrow> int \<times> u8 list \<times> 's" where
  "test_dma_from_device fo eop_flush fpga outfile mem clk buffer addr aperture sz count s =
     (if \<not> fpga then (- EINVAL, buffer, s)
      else if outfile = Some False then (- EINVAL, buffer, s)
      else if \<not> mem then (- ENOMEM, buffer, s)
      else from_device_loop (unat count) fo eop_flush (outfile = Some True) clk sz aperture addr 0 False buffer s)"

section \<open>What the copy loops do on a file that can be positioned\<close>

text \<open>
  A file whose system calls never fall short: \<open>cont\<close> is its content by offset and \<open>pos\<close> its position. Where a
  read or a write leaves the position is not said: a regular file advances it and the device nodes of the driver do not.
\<close>

definition seekable :: "'s file_ops \<Rightarrow> fd \<Rightarrow> ('s \<Rightarrow> int \<Rightarrow> u8) \<Rightarrow> ('s \<Rightarrow> int) \<Rightarrow> bool" where
  "seekable fo f cont pos \<longleftrightarrow>
     (\<forall>p s. \<exists>s'. fo_seek fo f p s = (p, s') \<and> pos s' = p \<and> cont s' = cont s) \<and>
     (\<forall>n s. \<exists>s'. fo_read fo f n s = (int n, map (\<lambda>i. cont s (pos s + int i)) [0 ..< n], s') \<and> cont s' = cont s) \<and>
     (\<forall>d s. \<exists>s'. fo_write fo f d s = (int (length d), s') \<and>
        cont s' = (\<lambda>a. if pos s \<le> a \<and> a < pos s + int (length d) then d ! nat (a - pos s) else cont s a))"

definition positioned :: "('s \<Rightarrow> int) \<Rightarrow> int \<Rightarrow> 's \<Rightarrow> bool" where
  "positioned pos p s \<longleftrightarrow> (p = 0 \<longrightarrow> pos s = 0)"

lemma seek_step:
  assumes "seekable fo f cont pos" and "positioned pos p s"
  obtains s' where "(if p \<noteq> 0 then fo_seek fo f p s else (p, s)) = (p, s')" "pos s' = p" "cont s' = cont s"
proof (cases "p = 0")
  case False
  from assms(1) obtain s' where "fo_seek fo f p s = (p, s')" "pos s' = p" "cont s' = cont s" unfolding seekable_def by blast
  then show thesis using that False by simp
qed (use assms(2) that in \<open>simp add: positioned_def\<close>)

definition file_bytes :: "(int \<Rightarrow> u8) \<Rightarrow> int \<Rightarrow> nat \<Rightarrow> u8 list" where
  "file_bytes g p n = map (\<lambda>i. g (p + int i)) [0 ..< n]"

definition overwrite :: "(int \<Rightarrow> u8) \<Rightarrow> int \<Rightarrow> u8 list \<Rightarrow> int \<Rightarrow> u8" where
  "overwrite g p d = (\<lambda>a. if p \<le> a \<and> a < p + int (length d) then d ! nat (a - p) else g a)"

lemma overwrite_Nil [simp]: "overwrite g p [] = g"
  by (rule ext) (auto simp: overwrite_def)

lemma overwrite_append:
  "overwrite (overwrite g p d) (p + int (length d)) d' = overwrite g p (d @ d')"
  by (auto simp: overwrite_def nth_append fun_eq_iff nat_diff_distrib' nat_less_iff intro!: arg_cong [where f = "nth d'"])

lemma write_step:
  "seekable fo f cont pos \<Longrightarrow> \<exists>s'. fo_write fo f d s = (int (length d), s') \<and> cont s' = overwrite (cont s) (pos s) d"
  unfolding seekable_def overwrite_def by blast

lemma read_step:
  "seekable fo f cont pos \<Longrightarrow> \<exists>s'. fo_read fo f n s = (int n, file_bytes (cont s) (pos s) n, s') \<and> cont s' = cont s"
  unfolding seekable_def file_bytes_def by blast

lemma write_loop_seekable:
  "seekable fo f cont pos \<Longrightarrow> positioned pos (base + int count) s \<Longrightarrow> 0 \<le> base \<Longrightarrow> count \<le> sz \<Longrightarrow> sz \<le> length buffer \<Longrightarrow>
   \<exists>s'. write_loop fo f buffer sz (base + int count) count s = (int sz, s') \<and>
     cont s' = overwrite (cont s) (base + int count) (take (sz - count) (drop count buffer))"
proof (induction "sz - count" arbitrary: count s rule: less_induct)
  case less
  show ?case
  proof (cases "count < sz")
    case False
    then show ?thesis using less.prems by (subst write_loop.simps) simp
  next
    case True
    define n where "n = min (sz - count) RW_MAX_SIZE"
    have n: "0 < n" "n \<le> sz - count" using True by (auto simp: n_def RW_MAX_SIZE_def)
    let ?d = "take n (drop count buffer)"
    have d: "length ?d = n" using n less.prems by simp
    obtain s1 where s1: "(if base + int count \<noteq> 0 then fo_seek fo f (base + int count) s else (base + int count, s)) = (base + int count, s1)"
      "pos s1 = base + int count" "cont s1 = cont s" using seek_step [OF less.prems(1,2)] .
    obtain s2 where s2: "fo_write fo f ?d s1 = (int n, s2)" "cont s2 = overwrite (cont s) (base + int count) ?d"
      using write_step [OF less.prems(1), of ?d s1] s1(2,3) d by auto
    have p2: "positioned pos (base + int (count + n)) s2" using n less.prems(3) by (simp add: positioned_def)
    have lt: "sz - (count + n) < sz - count" "count + n \<le> sz" using n True by simp_all
    from less.hyps [OF lt(1) less.prems(1) p2 less.prems(3) lt(2) less.prems(5)] obtain s3 where
      s3: "write_loop fo f buffer sz (base + int (count + n)) (count + n) s2 = (int sz, s3)"
      "cont s3 = overwrite (cont s2) (base + int (count + n)) (take (sz - (count + n)) (drop (count + n) buffer))" by blast
    have "?d @ take (sz - (count + n)) (drop (count + n) buffer) = take (sz - count) (drop count buffer)"
      using take_add [of n "sz - (count + n)" "drop count buffer"] n by (simp add: add.commute)
    then have "cont s3 = overwrite (cont s) (base + int count) (take (sz - count) (drop count buffer))"
      using s3(2) s2(2) overwrite_append [of "cont s" "base + int count" ?d] d by (simp add: add.assoc)
    moreover have "write_loop fo f buffer sz (base + int count) count s = write_loop fo f buffer sz (base + int (count + n)) (count + n) s2"
      using True s1(1) s2(1) by (subst write_loop.simps) (simp add: n_def [symmetric] Let_def add.assoc split del: if_split)
    ultimately show ?thesis using s3(1) by simp
  qed
qed

lemma store_at_append:
  "p \<le> length mem \<Longrightarrow> store_at (p + length d) d' (store_at p d mem) = store_at p (d @ d') mem"
  by (simp add: store_at_def ac_simps)

lemma store_at_Nil [simp]: "store_at p [] mem = mem"
  by (simp add: store_at_def)

lemma file_bytes_append: "file_bytes g p n @ file_bytes g (p + int n) m = file_bytes g p (n + m)"
  by (rule nth_equalityI) (auto simp: file_bytes_def nth_append)

lemma read_loop_seekable:
  "seekable fo f cont pos \<Longrightarrow> positioned pos (base + int count) s \<Longrightarrow> 0 \<le> base \<Longrightarrow> count \<le> sz \<Longrightarrow> sz \<le> length mem \<Longrightarrow>
   \<exists>s'. read_loop fo f sz (base + int count) count mem s =
       (int sz, store_at count (file_bytes (cont s) (base + int count) (sz - count)) mem, s') \<and> cont s' = cont s"
proof (induction "sz - count" arbitrary: count mem s rule: less_induct)
  case less
  show ?case
  proof (cases "count < sz")
    case False
    then show ?thesis using less.prems by (subst read_loop.simps) (simp add: file_bytes_def)
  next
    case True
    define n where "n = min (sz - count) RW_MAX_SIZE"
    have n: "0 < n" "n \<le> sz - count" using True by (auto simp: n_def RW_MAX_SIZE_def)
    let ?d = "file_bytes (cont s) (base + int count) n"
    have d: "length ?d = n" by (simp add: file_bytes_def)
    obtain s1 where s1: "(if base + int count \<noteq> 0 then fo_seek fo f (base + int count) s else (base + int count, s)) = (base + int count, s1)"
      "pos s1 = base + int count" "cont s1 = cont s" using seek_step [OF less.prems(1,2)] .
    obtain s2 where s2: "fo_read fo f n s1 = (int n, ?d, s2)" "cont s2 = cont s"
      using read_step [OF less.prems(1), of n s1] s1(2,3) by auto
    have p2: "positioned pos (base + int (count + n)) s2" using n less.prems(3) by (simp add: positioned_def)
    have lt: "sz - (count + n) < sz - count" "count + n \<le> sz" using n True by simp_all
    have sz: "sz \<le> length (store_at count ?d mem)" using less.prems n d by (simp add: store_at_def)
    obtain s3 where s3: "read_loop fo f sz (base + int (count + n)) (count + n) (store_at count ?d mem) s2 =
       (int sz, store_at (count + n) (file_bytes (cont s2) (base + int (count + n)) (sz - (count + n))) (store_at count ?d mem), s3)"
      "cont s3 = cont s2" using less.hyps [OF lt(1) less.prems(1) p2 less.prems(3) lt(2) sz] by blast
    have "?d @ file_bytes (cont s) (base + int (count + n)) (sz - (count + n)) = file_bytes (cont s) (base + int count) (sz - count)"
      using file_bytes_append [of "cont s" "base + int count" n "sz - (count + n)"] n by (simp add: add.assoc)
    then have "store_at (count + n) (file_bytes (cont s2) (base + int (count + n)) (sz - (count + n))) (store_at count ?d mem)
       = store_at count (file_bytes (cont s) (base + int count) (sz - count)) mem"
      using store_at_append [of count mem ?d] d less.prems s2(2) by simp
    moreover have "read_loop fo f sz (base + int count) count mem s =
       read_loop fo f sz (base + int (count + n)) (count + n) (store_at count ?d mem) s2"
      using True s1(1) s2(1) d by (subst read_loop.simps) (simp add: n_def [symmetric] Let_def add.assoc split del: if_split)
    ultimately show ?thesis using s3 s2(2) by simp
  qed
qed


text \<open>A file in memory, with a position that a read or a write advances.\<close>

definition ram_ops :: "((int \<Rightarrow> u8) \<times> int) file_ops" where
  "ram_ops = \<lparr>fo_seek = (\<lambda>_ p (g, _). (p, (g, p))),
     fo_read = (\<lambda>_ n (g, p). (int n, map (\<lambda>i. g (p + int i)) [0 ..< n], (g, p + int n))),
     fo_write = (\<lambda>_ d (g, p). (int (length d), (\<lambda>a. if p \<le> a \<and> a < p + int (length d) then d ! nat (a - p) else g a, p + int (length d))))\<rparr>"

lemma ram_seekable: "seekable ram_ops f fst snd"
  by (auto simp: seekable_def ram_ops_def)


section \<open>Errors and clocks\<close>

text \<open>
  The difference of two normalised times is normalised and is the difference in nanoseconds; the carry that the code
  handles for a difference of a second or more never occurs. A time that is not normalised leaves the first one as it is.
\<close>

definition nanoseconds :: "timespec \<Rightarrow> int" where
  "nanoseconds t = 1000000000 * tv_sec t + tv_nsec t"

theorem timespec_sub_difference:
  "(timespec_check t1 = 0 \<and> timespec_check t2 = 0 \<longrightarrow>
      timespec_check (timespec_sub t1 t2) = 0 \<and> nanoseconds (timespec_sub t1 t2) = nanoseconds t1 - nanoseconds t2) \<and>
   (timespec_check t1 \<noteq> 0 \<or> timespec_check t2 \<noteq> 0 \<longrightarrow> timespec_sub t1 t2 = t1)"
  by (auto simp: timespec_sub_def timespec_check_def nanoseconds_def Let_def)

lemma failing_write: "(\<forall>d s. fst (fo_write fo f d s) < 0) \<Longrightarrow> fst (write_loop fo f buffer sz p 0 s) = (if sz = 0 then 0 else - EIO)"
  by (subst write_loop.simps) (auto simp: Let_def case_prod_beta)

lemma to_device_apt_failing:
  assumes "\<forall>d s. fst (fo_write fo Fpga d s) < 0" and "unat aperture < 2 ^ 63"
  shows "to_device_apt fo buffer aperture addr n len buf done underflow s = (b, u, s') \<Longrightarrow> u = underflow"
proof (induction n arbitrary: len buf "done" underflow s)
  case (Suc n)
  define bytes where "bytes = (if aperture < len then aperture else len)"
  obtain r s1 where w: "write_from_buffer fo Fpga (drop (unat buf) buffer) (unat bytes) addr s = (r, s1)" by (metis surj_pair)
  then have r: "r = (if bytes = 0 then 0 else - EIO)"
    using failing_write [OF assms(1), of "drop (unat buf) buffer" "unat bytes" addr s] by (simp add: write_from_buffer_def unat_eq_0)
  have "unat bytes < 2 ^ 63" using assms(2) by (auto simp: bytes_def word_less_nat_alt not_less)
  then have "\<not> (word_of_int r :: u64) < bytes" using r by (auto simp: word_less_nat_alt EIO_def)
  then show ?case using Suc w by (auto simp: Let_def simp flip: bytes_def)
qed simp

text \<open>
  With an aperture the tool does not see that the device refuses every write: it reports success, while the same run without
  an aperture reports the error.
\<close>

theorem aperture_hides_errors:
  assumes "\<forall>d s. fst (fo_write fo Fpga d s) < 0" and "sz \<noteq> 0" and "count \<noteq> 0"
  shows "(apt_rounds sz aperture \<noteq> 0 \<and> unat aperture < 2 ^ 63 \<longrightarrow>
       fst (test_dma_to_device fo True None None True rc0 0 buffer addr aperture sz count s) = 0) \<and>
     fst (test_dma_to_device fo True None None True rc0 0 buffer addr 0 sz count s) = - EIO"
proof -
  obtain m where m: "unat count = Suc m" using assms(3) by (metis not0_implies_Suc unat_eq_0)
  have direct: "fst (write_loop fo Fpga buffer (unat sz) addr 0 s) = - EIO" for s
    using failing_write [OF assms(1)] assms(2) by (simp add: unat_eq_0)
  have loop: "\<exists>s'. to_device_loop n fo False 0 buffer sz aperture addr 0 0 False s = (0, False, s')"
    if "apt_rounds sz aperture \<noteq> 0" "unat aperture < 2 ^ 63" for n s
  proof (induction n arbitrary: s)
    case (Suc n)
    obtain b u s1 where a: "to_device_apt fo buffer aperture addr (apt_rounds sz aperture) sz 0 0 False s = (b, u, s1)" by (metis prod_cases3)
    with to_device_apt_failing [OF assms(1) that(2) a] Suc show ?case using that(1) by (simp add: to_device_round_def)
  qed simp
  obtain b u s1 where a: "to_device_apt fo buffer aperture addr (apt_rounds sz aperture) sz 0 0 False s = (b, u, s1)" by (metis prod_cases3)
  have first: "\<exists>s'. to_device_loop (unat count) fo False 0 buffer sz aperture addr rc0 0 False s = (0, False, s')"
    if "apt_rounds sz aperture \<noteq> 0" "unat aperture < 2 ^ 63"
    using loop [OF that, of m s1] to_device_apt_failing [OF assms(1) that(2) a] that(1) a m by (auto simp: to_device_round_def)
  have plain: "fst (to_device_loop (unat count) fo False 0 buffer sz 0 addr rc0 0 False s) = - EIO"
    using direct [of s] m
    by (auto simp: to_device_round_def apt_rounds_def write_from_buffer_def EIO_def Let_def case_prod_beta)
  show ?thesis using first plain by (auto simp: test_dma_to_device_def EIO_def split: prod.splits)
qed

theorem aperture_hides_errors_witness:
  "fst (test_dma_to_device (ram_ops\<lparr>fo_write := (\<lambda>_ _ s. (- 1, s))\<rparr>) True None None True 0 0 [1, 2, 3, 4] 0 2 4 1 (\<lambda>_. 0, 0)) = 0 \<and>
   fst (test_dma_to_device (ram_ops\<lparr>fo_write := (\<lambda>_ _ s. (- 1, s))\<rparr>) True None None True 0 0 [1, 2, 3, 4] 0 0 4 1 (\<lambda>_. 0, 0)) = - EIO"
  using aperture_hides_errors [of "ram_ops\<lparr>fo_write := (\<lambda>_ _ s. (- 1, s))\<rparr>" 4 1 2 0 "[1, 2, 3, 4]" 0 "(\<lambda>_. 0, 0)"]
  by (simp add: apt_rounds_def)

theorem timespec_sub_difference_witness:
  "timespec_sub \<lparr>tv_sec = 5, tv_nsec = 100\<rparr> \<lparr>tv_sec = 3, tv_nsec = 200\<rparr> = \<lparr>tv_sec = 1, tv_nsec = 999999900\<rparr> \<and>
   nanoseconds (timespec_sub \<lparr>tv_sec = 5, tv_nsec = 100\<rparr> \<lparr>tv_sec = 3, tv_nsec = 200\<rparr>) = 1999999900"
  using timespec_sub_difference [of "\<lparr>tv_sec = 5, tv_nsec = 100\<rparr>" "\<lparr>tv_sec = 3, tv_nsec = 200\<rparr>"]
  by (simp add: timespec_check_def nanoseconds_def timespec_sub_def)

end
