(* ===== verification/Xdma_Regrw.thy ===== *)
theory Xdma_Regrw
  imports Xdma_Prelude
begin

text \<open>
  The register tool (\<^verbatim>\<open>reg_rw.c\<close>): one access through a mapping of the user BAR. Opening, mapping and the conversions of
  the C library (\<^verbatim>\<open>strtoul\<close>, \<^verbatim>\<open>tolower\<close>) are parameters; the host is little-endian, as the byte-swapping macros
  are then the identity.
\<close>

definition MAP_SIZE :: u64 where "MAP_SIZE = 32 * 1024"

datatype access_width = Byte | Half | Word32

datatype reg_access = Load access_width u64 u32 | Store access_width u64 u32 | Unmap u64 | CloseFile

record reg_env =
  open_ok :: bool
  mmap_ok :: bool
  munmap_ok :: bool
  load :: "access_width \<Rightarrow> u64 \<Rightarrow> u32"

text \<open>Any letter that is not one of the three means a word; the default of the second switch is never reached.\<close>

definition width_of :: "char \<Rightarrow> access_width" where
  "width_of c = (if c = CHR ''b'' then Byte else if c = CHR ''h'' then Half else Word32)"

definition trim :: "access_width \<Rightarrow> u32 \<Rightarrow> u32" where
  "trim w v = (case w of Byte \<Rightarrow> take_bit 8 v | Half \<Rightarrow> take_bit 16 v | Word32 \<Rightarrow> v)"

text \<open>
  The program: the number of arguments, the address, the first letter of the type (in lower case) and the value, each
  meaningful only when there are enough arguments. The result is the exit code and what was done to the device.
\<close>

definition reg_rw_main :: "reg_env \<Rightarrow> nat \<Rightarrow> u64 \<Rightarrow> char \<Rightarrow> u64 \<Rightarrow> int \<times> reg_access list" where
  "reg_rw_main env argc target letter value =
     (if argc < 3 then (1, [])
      else let access_width = (if 4 \<le> argc then width_of letter else Word32)
      in if \<not> open_ok env then (1, [])
         else if \<not> mmap_ok env then (1, [])
         else let read_result = trim access_width (load env access_width target);
                  log = (if argc \<le> 4 then [Load access_width target read_result] else [])
         in if argc \<le> 4 \<and> access_width = Word32 then (sint read_result, log)
            else let log = (if 5 \<le> argc then log @ [Store access_width target (trim access_width (ucast value))] else log);
                     log = log @ [Unmap MAP_SIZE]
                 in if \<not> munmap_ok env then (1, log) else (0, log @ [CloseFile]))"

section \<open>One access\<close>

definition device_accesses :: "reg_access list \<Rightarrow> reg_access list" where
  "device_accesses log = filter (\<lambda>a. case a of Load _ _ _ \<Rightarrow> True | Store _ _ _ \<Rightarrow> True | _ \<Rightarrow> False) log"

text \<open>
  The register tool makes exactly one access, at the address and in the width that were asked for: a store when a value is given, a
  load otherwise, also when only the type is given, which the tool announces as a write. The value of a word that
  was read is the exit code, so success cannot be told from it, and the mapping is then left to the end of the process.
\<close>

theorem reg_rw_one_access:
  assumes "3 \<le> argc" and "open_ok env" and "mmap_ok env" and "munmap_ok env"
    and "w = (if argc = 3 then Word32 else width_of letter)"
  shows "device_accesses (snd (reg_rw_main env argc target letter value)) =
      (if argc \<le> 4 then [Load w target (trim w (load env w target))] else [Store w target (trim w (ucast value))]) \<and>
     fst (reg_rw_main env argc target letter value) = (if argc \<le> 4 \<and> w = Word32 then sint (load env Word32 target) else 0) \<and>
     (Unmap MAP_SIZE \<in> set (snd (reg_rw_main env argc target letter value)) \<longleftrightarrow> \<not> (argc \<le> 4 \<and> w = Word32))"
  using assms by (auto simp: reg_rw_main_def device_accesses_def trim_def Let_def)

theorem reg_rw_one_access_witness:
  "fst (reg_rw_main \<lparr>open_ok = True, mmap_ok = True, munmap_ok = True, load = \<lambda>_ _. 0xFFFFFFFF\<rparr> 4 0x2000 (CHR ''w'') 7) = -1"
  using reg_rw_one_access [of 4 "\<lparr>open_ok = True, mmap_ok = True, munmap_ok = True, load = \<lambda>_ _. 0xFFFFFFFF\<rparr>"
      Word32 "CHR ''w''" "0x2000" 7]
  by (simp add: width_of_def)

end
