(* ===== verification/Xdma_Perf.thy ===== *)
theory Xdma_Perf
  imports Xdma_Sgdma
begin

text \<open>
  The performance tool \<^verbatim>\<open>performance.c\<close>, on top of the driver's ioctls: it starts a cyclic transfer on an engine, asks for its counters
  every two seconds and stops it. What the tool prints is the list of return codes with the structure after each call.
  While it sleeps, everything else that uses the driver runs.
\<close>

section \<open>The tool\<close>

datatype perf_report =
    PerfStart int
  | PerfGet int xdma_performance_ioctl
  | PerfStop int xdma_performance_ioctl

text \<open>The machine under the tool: the parameters of \<^verbatim>\<open>char_sgdma_ioctl\<close>, the open node, and what happens during a sleep.\<close>

record perf_env =
  pe_hw :: device
  pe_mp :: modparams
  pe_pci :: pci
  pe_mem :: bool
  pe_mem2 :: bool
  pe_xfer :: xfer_id
  pe_node :: xdma_cdev
  pe_sleep :: "nat \<Rightarrow> driver \<times> kstate \<Rightarrow> driver \<times> kstate"

text \<open>The system call: a negative code becomes \<open>-1\<close>, and the structure of the caller is readable and writable.\<close>

definition perf_ioctl :: "perf_env \<Rightarrow> u32 \<Rightarrow> xdma_performance_ioctl \<Rightarrow> driver \<Rightarrow> kstate
    \<Rightarrow> (int \<times> xdma_performance_ioctl \<times> driver \<times> kstate) option" where
  "perf_ioctl pe cmd perf d k =
     map_option (\<lambda>(rv, out, d, k). (if rv < 0 then - 1 else rv, case out of Some (OutPerf p) \<Rightarrow> p | _ \<Rightarrow> perf, d, k))
       (char_sgdma_ioctl (pe_hw pe) (pe_mp pe) (pe_pci pe) (pe_mem pe) (pe_mem2 pe) (pe_xfer pe) (Some (pe_node pe)) cmd
          \<lparr>iu_perf = perf, iu_uncopied = 0, iu_word = None, iu_put = True\<rparr> d k)"

fun perf_gets :: "perf_env \<Rightarrow> nat \<Rightarrow> xdma_performance_ioctl \<Rightarrow> driver \<Rightarrow> kstate
    \<Rightarrow> (perf_report list \<times> xdma_performance_ioctl \<times> driver \<times> kstate) option" where
  "perf_gets pe 0 perf d k = Some ([], perf, d, k)"
| "perf_gets pe (Suc count) perf d k =
     (let (d, k) = pe_sleep pe count (d, k) in
      case perf_ioctl pe IOCTL_XDMA_PERF_GET perf d k of
        None \<Rightarrow> None
      | Some (rc, perf, d, k) \<Rightarrow>
          map_option (\<lambda>(out, r). (PerfGet rc perf # out, r)) (perf_gets pe count perf d k))"

text \<open>
  \<open>Inl\<close> is the exit code. A negative count is decremented until it overflows, which has no defined meaning. The structure is a
  global variable, so zero before the version and the size are set.
\<close>

definition zero_perf :: xdma_performance_ioctl where
  "zero_perf = \<lparr>p_version = 0, p_transfer_size = 0, p_stopped = 0, p_iterations = 0, p_clock_cycle_count = 0,
     p_data_cycle_count = 0, p_pending_count = 0\<rparr>"

definition test_dma :: "perf_env \<Rightarrow> bool \<Rightarrow> s32 \<Rightarrow> s32 \<Rightarrow> driver \<Rightarrow> kstate \<Rightarrow> (int + perf_report list \<times> driver \<times> kstate) option" where
  "test_dma pe opened sz count d k =
     (if \<not> opened then Some (Inl 1)
      else let perf = zero_perf\<lparr>p_version := IOCTL_XDMA_PERF_V1, p_transfer_size := sz\<rparr>
           in case perf_ioctl pe IOCTL_XDMA_PERF_START perf d k of
                None \<Rightarrow> None
              | Some (rc, perf, d, k) \<Rightarrow>
                  if sint count < 0 then None
                  else case perf_gets pe (nat (sint count)) perf d k of
                         None \<Rightarrow> None
                       | Some (out, perf, d, k) \<Rightarrow>
                           map_option (\<lambda>(rc2, perf, r). Inr (PerfStart rc # out @ [PerfStop rc2 perf], r))
                             (perf_ioctl pe IOCTL_XDMA_PERF_STOP perf d k))"

section \<open>What the tool does to the engine\<close>

lemma set_engine_same [simp]: "set_engine dir c (dir_engines dir v c) v = v"
  by (simp add: set_engine_def dir_engines_def)

lemma store_same: "node_engine d xc = Some (h, v, dir, c) \<Longrightarrow> store_engine d h v dir c (dir_engines dir v c) = d"
  by (auto simp: node_engine_def store_engine_def fun_upd_idem split: option.splits)

lemma sgdma_ioctl_code:
  assumes "xcdev_check (d_devs d) (Some xc) True = 0" and "node_engine d xc = Some (h, v, dir, c)"
  shows "char_sgdma_ioctl hw mp pd mem mem2 i (Some xc) cmd iu d k =
     map_option (\<lambda>(rv, out, e, k). (rv, out, store_engine d h v dir c e, k))
       (sgdma_ioctl_switch hw mp pd mem mem2 (xdma_device_flag_check v XDEV_FLAG_OFFLINE) i cmd iu (dir_engines dir v c) k)"
  using assms by (simp add: char_sgdma_ioctl_def split: option.splits)

lemma perf_commands:
  "sgdma_ioctl_switch hw mp pd mem mem2 off i IOCTL_XDMA_PERF_START iu e k = ioctl_do_perf_start hw mp pd mem mem2 off i iu e k"
  "sgdma_ioctl_switch hw mp pd mem mem2 off i IOCTL_XDMA_PERF_STOP iu e k = ioctl_do_perf_stop hw mp iu e k"
  "sgdma_ioctl_switch hw mp pd mem mem2 off i IOCTL_XDMA_PERF_GET iu e k = ioctl_do_perf_get hw iu e k"
  by (simp_all add: sgdma_ioctl_switch_def xdma_consts IOCTL_XDMA_PERF_START_def IOCTL_XDMA_PERF_STOP_def IOCTL_XDMA_PERF_GET_def)

text \<open>A start while another run is going on changes nothing.\<close>

lemma perf_start_busy:
  assumes "xcdev_check (d_devs d) (Some (pe_node pe)) True = 0" and "node_engine d (pe_node pe) = Some (h, v, dir, c)"
    and "e_xdma_perf (dir_engines dir v c) \<noteq> None"
  shows "perf_ioctl pe IOCTL_XDMA_PERF_START perf d k = Some (- 1, perf, d, k)"
  using assms by (simp add: perf_ioctl_def sgdma_ioctl_code perf_commands ioctl_do_perf_start_def EBUSY_def store_same)

text \<open>Stopping a run that is going on succeeds when its transfer is still queued, and leaves the engine free for the next run.\<close>

lemma perf_stop_frees:
  assumes "xcdev_check (d_devs d) (Some (pe_node pe)) True = 0" and "node_engine d (pe_node pe) = Some (h, v, dir, c)"
    and "e_xdma_perf (dir_engines dir v c) = Some q"
  shows "\<exists>p d' k'. perf_ioctl pe IOCTL_XDMA_PERF_STOP perf d k =
       Some (if queue_head (dir_engines dir v c) = None then - 1 else 0, p, d', k') \<and>
     (queue_head (dir_engines dir v c) \<noteq> None \<longrightarrow>
        (\<exists>v'. node_engine d' (pe_node pe) = Some (h, v', dir, c) \<and> e_xdma_perf (dir_engines dir v' c) = None))"
proof (cases "queue_head (dir_engines dir v c)")
  case None
  then show ?thesis
    using assms by (simp add: perf_ioctl_def sgdma_ioctl_code perf_commands ioctl_do_perf_stop_def engine_cyclic_stop_def EINVAL_def)
next
  case (Some i)
  have "\<exists>e1 k1. engine_cyclic_stop (pe_mp pe) (dir_engines dir v c) k = Some (Some i, e1, k1)"
    using Some assms(3) by (auto simp: engine_cyclic_stop_def xdma_engine_stop_def Let_def)
  then obtain e1 k1 where c: "engine_cyclic_stop (pe_mp pe) (dir_engines dir v c) k = Some (Some i, e1, k1)" by blast
  obtain e2 k2 where g: "get_perf_stats (pe_hw pe) e1 k1 = (e2, k2)" by fastforce
  show ?thesis
    using Some assms(1,3) c g node_engine_store [OF assms(2), of "e2\<lparr>e_xdma_perf := None\<rparr>"]
    by (simp add: perf_ioctl_def sgdma_ioctl_code [OF assms(1,2)] perf_commands ioctl_do_perf_stop_def)
qed

lemma perf_gets_length: "perf_gets pe n perf d k = Some (out, r) \<Longrightarrow> length out = n \<and> (\<forall>x \<in> set out. \<exists>rc p. x = PerfGet rc p)"
  by (induction pe n perf d k arbitrary: out r rule: perf_gets.induct) (fastforce split: option.splits prod.splits)+


text \<open>Another run on the node of the example: its cyclic transfer is queued.\<close>

definition busy_driver :: driver where
  "busy_driver = empty_driver\<lparr>d_devs := (\<lambda>_. None)(7 := Some (submit_dev\<lparr>v_engine_h2c :=
     (\<lambda>_. zero_engine\<lparr>e_magic := MAGIC_ENGINE, e_dir := DMA_TO_DEVICE, e_xdma_perf := Some zero_perf, e_transfer_list := [3]\<rparr>)\<rparr>))\<rparr>"

definition example_perf_env :: perf_env where
  "example_perf_env = \<lparr>pe_hw = \<lambda>_ _. 0, pe_mp = example_mp, pe_pci = example_pci, pe_mem = True, pe_mem2 = True, pe_xfer = 4,
     pe_node = sgdma_node, pe_sleep = \<lambda>_ s. s\<rparr>"


end
