(* ===== verification/Xdma_Cmdline.thy ===== *)
theory Xdma_Cmdline
  imports Xdma_Tools Xdma_Perf "HOL-Library.Char_ord"
begin

text \<open>
  The command lines of the DMA tools \<^verbatim>\<open>dma_to_device\<close>, \<^verbatim>\<open>dma_from_device\<close> and \<^verbatim>\<open>performance\<close>: the conversion of numbers with
  \<^verbatim>\<open>sscanf\<close>, the loop over the options that \<^verbatim>\<open>getopt_long\<close> delivers, and the call of the test run. The options come as a list,
  one element for each round of the loop.
\<close>

section \<open>Numbers\<close>

text \<open>The conversions \<^verbatim>\<open>%lx\<close> and \<^verbatim>\<open>%lu\<close>: white space, a sign, for base 16 a prefix, then digits, of which there must be one.
  A number that does not fit is the largest one, and a minus sign negates modulo the word.\<close>

definition is_space :: "char \<Rightarrow> bool" where
  "is_space c \<longleftrightarrow> (let n = of_char c :: nat in n = 32 \<or> 9 \<le> n \<and> n \<le> 13)"

definition digit_value :: "char \<Rightarrow> nat" where
  "digit_value c =
     (let n = of_char c :: nat
      in if 48 \<le> n \<and> n \<le> 57 then n - 48
         else if 97 \<le> n \<and> n \<le> 102 then n - 87
         else if 65 \<le> n \<and> n \<le> 70 then n - 55
         else 16)"

fun scan_digits :: "nat \<Rightarrow> string \<Rightarrow> nat list" where
  "scan_digits base [] = []"
| "scan_digits base (c # s) = (if digit_value c < base then digit_value c # scan_digits base s else [])"

definition number_of :: "nat \<Rightarrow> nat list \<Rightarrow> nat" where
  "number_of base ds = foldl (\<lambda>a d. a * base + d) 0 ds"

definition strip_sign :: "string \<Rightarrow> bool \<times> string" where
  "strip_sign s = (if take 1 s = ''-'' then (True, drop 1 s) else if take 1 s = ''+'' then (False, drop 1 s) else (False, s))"

definition scan_unsigned :: "nat \<Rightarrow> string \<Rightarrow> u64 option" where
  "scan_unsigned base s =
     (let (neg, s) = strip_sign (dropWhile is_space s);
          s = (if base = 16 \<and> (take 2 s = ''0x'' \<or> take 2 s = ''0X'') then drop 2 s else s);
          ds = scan_digits base s;
          n = number_of base ds
      in if ds = [] then None
         else Some (if 2 ^ 64 \<le> n then - 1 else if neg then - of_nat n else of_nat n))"

text \<open>\<open>junk\<close> is the variable that is returned when neither conversion assigns it. The literal of the first format has a small x only.\<close>

definition scan_number :: "string \<Rightarrow> u64 option" where
  "scan_number optarg =
     (case (if take 2 optarg = ''0x'' then scan_unsigned 16 (drop 2 optarg) else None) of
        Some v \<Rightarrow> Some v
      | None \<Rightarrow> scan_unsigned 10 optarg)"

definition getopt_integer :: "u64 \<Rightarrow> string \<Rightarrow> u64" where
  "getopt_integer junk optarg = (case scan_number optarg of None \<Rightarrow> junk | Some v \<Rightarrow> v)"

text \<open>The performance tool reads into 32 bits; the letter after its \<^verbatim>\<open>%u\<close> is a literal that comes too late to matter.\<close>

definition getopt_integer_32 :: "u32 \<Rightarrow> string \<Rightarrow> u32" where
  "getopt_integer_32 junk optarg = (case scan_number optarg of None \<Rightarrow> junk | Some v \<Rightarrow> ucast v)"

section \<open>Options\<close>

datatype cmd_opt =
    OptLong | OptDevice string | OptAddress string | OptAperture string | OptSize string | OptOffset string
  | OptCount string | OptFile string | OptOutfile string | OptVerbose | OptEopFlush | OptHelp | OptUnknown

record dma_args =
  a_device :: string
  a_address :: u64
  a_aperture :: u64
  a_size :: u64
  a_offset :: u64
  a_count :: u64
  a_infname :: "string option"
  a_ofname :: "string option"
  a_eop_flush :: bool
  a_verbose :: bool

definition default_args :: "string \<Rightarrow> dma_args" where
  "default_args device = \<lparr>a_device = device, a_address = 0, a_aperture = 0, a_size = 32, a_offset = 0, a_count = 1,
     a_infname = None, a_ofname = None, a_eop_flush = False, a_verbose = False\<rparr>"

text \<open>What both tools do with the options they share; \<open>None\<close> is the exit after the usage text.\<close>

definition common_opt :: "u64 \<Rightarrow> cmd_opt \<Rightarrow> dma_args \<Rightarrow> dma_args option" where
  "common_opt junk opt a =
     (case opt of
        OptLong \<Rightarrow> Some a
      | OptDevice s \<Rightarrow> Some (a\<lparr>a_device := s\<rparr>)
      | OptAddress s \<Rightarrow> Some (a\<lparr>a_address := getopt_integer junk s\<rparr>)
      | OptAperture s \<Rightarrow> Some (a\<lparr>a_aperture := getopt_integer junk s\<rparr>)
      | OptSize s \<Rightarrow> Some (a\<lparr>a_size := getopt_integer junk s\<rparr>)
      | OptOffset s \<Rightarrow> Some (a\<lparr>a_offset := getopt_integer junk s AND 4095\<rparr>)
      | OptCount s \<Rightarrow> Some (a\<lparr>a_count := getopt_integer junk s\<rparr>)
      | OptVerbose \<Rightarrow> Some (a\<lparr>a_verbose := True\<rparr>)
      | _ \<Rightarrow> None)"

definition to_device_opt :: "u64 \<Rightarrow> cmd_opt \<Rightarrow> dma_args \<Rightarrow> dma_args option" where
  "to_device_opt junk opt a =
     (case opt of
        OptFile s \<Rightarrow> Some (a\<lparr>a_infname := Some s\<rparr>)
      | OptOutfile s \<Rightarrow> Some (a\<lparr>a_ofname := Some s\<rparr>)
      | _ \<Rightarrow> common_opt junk opt a)"

definition from_device_opt :: "u64 \<Rightarrow> cmd_opt \<Rightarrow> dma_args \<Rightarrow> dma_args option" where
  "from_device_opt junk opt a =
     (case opt of
        OptFile s \<Rightarrow> Some (a\<lparr>a_ofname := Some s\<rparr>)
      | OptEopFlush \<Rightarrow> Some (a\<lparr>a_eop_flush := True\<rparr>)
      | _ \<Rightarrow> common_opt junk opt a)"

fun opt_loop :: "('o \<Rightarrow> 'a \<Rightarrow> 'a option) \<Rightarrow> 'o list \<Rightarrow> 'a \<Rightarrow> 'a option" where
  "opt_loop f [] a = Some a"
| "opt_loop f (opt # opts) a = (case f opt a of None \<Rightarrow> None | Some a \<Rightarrow> opt_loop f opts a)"

text \<open>The programs. \<open>openable\<close> says which files can be opened.\<close>

definition dma_to_device_main ::
    "'s Xdma_Tools.file_ops \<Rightarrow> (string \<Rightarrow> bool) \<Rightarrow> bool \<Rightarrow> int \<Rightarrow> int \<Rightarrow> u8 list \<Rightarrow> u64 \<Rightarrow> cmd_opt list \<Rightarrow> 's \<Rightarrow> int \<times> 's" where
  "dma_to_device_main fo openable mem rc0 clk buffer junk opts s =
     (case opt_loop (to_device_opt junk) opts (default_args ''/dev/xdma0_h2c_0'') of
        None \<Rightarrow> (0, s)
      | Some a \<Rightarrow>
          test_dma_to_device fo (openable (a_device a)) (map_option openable (a_infname a)) (map_option openable (a_ofname a))
            mem rc0 clk buffer (uint (a_address a)) (a_aperture a) (a_size a) (a_count a) s)"

definition dma_from_device_main ::
    "'s Xdma_Tools.file_ops \<Rightarrow> (string \<Rightarrow> bool) \<Rightarrow> bool \<Rightarrow> int \<Rightarrow> u8 list \<Rightarrow> u64 \<Rightarrow> cmd_opt list \<Rightarrow> 's \<Rightarrow> int \<times> u8 list \<times> 's" where
  "dma_from_device_main fo openable mem clk buffer junk opts s =
     (case opt_loop (from_device_opt junk) opts (default_args ''/dev/xdma0_c2h_0'') of
        None \<Rightarrow> (0, buffer, s)
      | Some a \<Rightarrow>
          test_dma_from_device fo (a_eop_flush a) (openable (a_device a)) (map_option openable (a_ofname a))
            mem clk buffer (uint (a_address a)) (a_aperture a) (a_size a) (a_count a) s)"

text \<open>The options of the performance tool: the device, the size, the count and the verbosity.\<close>

record perf_args =
  g_device :: string
  g_size :: u32
  g_count :: u32
  g_verbosity :: nat

definition perf_opt :: "u32 \<Rightarrow> cmd_opt \<Rightarrow> perf_args \<Rightarrow> perf_args option" where
  "perf_opt junk opt a =
     (case opt of
        OptLong \<Rightarrow> Some a
      | OptVerbose \<Rightarrow> Some (a\<lparr>g_verbosity := g_verbosity a + 1\<rparr>)
      | OptDevice s \<Rightarrow> Some (a\<lparr>g_device := s\<rparr>)
      | OptSize s \<Rightarrow> Some (a\<lparr>g_size := getopt_integer_32 junk s\<rparr>)
      | OptCount s \<Rightarrow> Some (a\<lparr>g_count := getopt_integer_32 junk s\<rparr>)
      | _ \<Rightarrow> None)"

definition performance_main ::
    "perf_env \<Rightarrow> (string \<Rightarrow> bool) \<Rightarrow> u32 \<Rightarrow> cmd_opt list \<Rightarrow> driver \<Rightarrow> kstate \<Rightarrow> (int + perf_report list \<times> driver \<times> kstate) option" where
  "performance_main pe openable junk opts d k =
     (case opt_loop (perf_opt junk) opts \<lparr>g_device = ''/dev/xdma/card0/h2c0'', g_size = 32768, g_count = 1, g_verbosity = 0\<rparr> of
        None \<Rightarrow> Some (Inl 0)
      | Some a \<Rightarrow> test_dma pe (openable (g_device a)) (g_size a) (g_count a) d k)"

section \<open>Numbers are read as they are written\<close>

definition digit_char :: "nat \<Rightarrow> char" where
  "digit_char d = char_of (if d < 10 then 48 + d else 87 + d)"

fun print_number :: "nat \<Rightarrow> nat \<Rightarrow> string" where
  "print_number base n = (if base < 2 \<or> n < base then [digit_char n] else print_number base (n div base) @ [digit_char (n mod base)])"

declare print_number.simps [simp del]

lemma digit_char_code: "d < 16 \<Longrightarrow> (of_char (digit_char d) :: nat) = (if d < 10 then 48 + d else 87 + d)"
  by (simp add: digit_char_def of_char_of)

lemma digit_value_char: "d < 16 \<Longrightarrow> digit_value (digit_char d) = d"
  by (auto simp: digit_value_def digit_char_code Let_def)

lemma scan_append:
  "list_all (\<lambda>c. digit_value c < base) s \<Longrightarrow> scan_digits base (s @ t) = map digit_value s @ scan_digits base t"
  by (induction s) simp_all

lemma print_digits:
  assumes "2 \<le> base" and "base \<le> 16"
  shows "list_all (\<lambda>c. \<exists>d < base. c = digit_char d) (print_number base n) \<and>
     number_of base (map digit_value (print_number base n)) = n \<and> print_number base n \<noteq> []"
  using assms
proof (induction base n rule: print_number.induct)
  case (1 base n)
  show ?case
  proof (cases "n < base")
    case True
    then show ?thesis using 1(2,3) by (auto simp: print_number.simps [of base n] number_of_def digit_value_char)
  next
    case False
    then have IH: "list_all (\<lambda>c. \<exists>d < base. c = digit_char d) (print_number base (n div base))"
      "number_of base (map digit_value (print_number base (n div base))) = n div base" using 1 by simp_all
    have m: "n mod base < base" using 1(2) by simp
    then have ex: "\<exists>d<base. digit_char (n mod base) = digit_char d" by blast
    from m have "digit_value (digit_char (n mod base)) = n mod base" using 1(3) by (simp add: digit_value_char)
    then show ?thesis
      using False IH 1(2) ex by (simp add: print_number.simps [of base n] number_of_def)
  qed
qed

lemma scan_printed:
  assumes "2 \<le> base" and "base \<le> 16" and "n < 2 ^ 64"
  shows "scan_unsigned base (print_number base n) = Some (of_nat n)"
proof -
  let ?s = "print_number base n"
  note p = print_digits [OF assms(1,2), of n]
  have code: "(of_char c :: nat) \<in> {48..57} \<union> {97..102}" "digit_value c < base" if "c \<in> set ?s" for c
  proof -
    have "\<forall>c \<in> set ?s. \<exists>d<base. c = digit_char d" using conjunct1 [OF p] by (simp only: list_all_iff)
    with that obtain d where d: "d < base" "c = digit_char d" by blast
    then have "d < 16" using assms(2) by simp
    with d show "(of_char c :: nat) \<in> {48..57} \<union> {97..102}" "digit_value c < base"
      by (auto simp: digit_char_code digit_value_char)
  qed
  obtain c s where s: "?s = c # s" using p by (cases ?s) auto
  have c: "\<not> is_space c" "c \<noteq> CHR ''-''" "c \<noteq> CHR ''+''" using code(1) [of c] by (auto simp: s is_space_def Let_def)
  have sign: "strip_sign (dropWhile is_space ?s) = (False, ?s)" using c by (simp add: s strip_sign_def)
  have prefix: "take 2 ?s \<noteq> ''0x''" "take 2 ?s \<noteq> ''0X''"
    using code(1) [of "hd s"] by (cases s; auto simp: s)+
  have digits: "scan_digits base ?s = map digit_value ?s"
    using scan_append [of base ?s "[]"] code(2) by (simp add: list_all_iff)
  have val: "number_of base (map digit_value ?s) = n" "map digit_value ?s \<noteq> []" using p by simp_all
  show ?thesis unfolding scan_unsigned_def sign using prefix val assms(3) by (simp add: digits)
qed

text \<open>
  C23. The tools read every 64-bit number as it is written, in decimal or in hexadecimal after a \<^verbatim>\<open>0x\<close>, whatever was in the
  variable before; and a text without a number leaves what was there.
\<close>

theorem getopt_integer_printed:
  assumes "n < 2 ^ 64"
  shows "getopt_integer junk (print_number 10 n) = of_nat n \<and> getopt_integer junk (''0x'' @ print_number 16 n) = of_nat n"
proof -
  have "take 2 (print_number 10 n) \<noteq> ''0x''"
  proof
    assume "take 2 (print_number 10 n) = ''0x''"
    then have "CHR ''x'' \<in> set (print_number 10 n)" by (metis in_set_takeD list.set_intros)
    then obtain d where "d < 10" "CHR ''x'' = digit_char d" using print_digits [of 10 n] by (auto simp: list_all_iff)
    then have "(of_char (CHR ''x'') :: nat) = 48 + d" by (simp only: digit_char_code) simp
    with \<open>d < 10\<close> show False by simp
  qed
  then show ?thesis
    using assms by (simp add: getopt_integer_def scan_number_def scan_printed)
qed

theorem getopt_integer_printed_witness:
  "getopt_integer 0 ''4096'' = 4096 \<and> getopt_integer 0 ''0x1000'' = 4096"
proof -
  have "print_number 10 4096 = ''4096''" "print_number 16 4096 = ''1000''"
    by (simp_all add: print_number.simps digit_char_def) (simp_all add: char_of_def bit_0)
  with getopt_integer_printed [of 4096 0] show ?thesis by simp
qed

end
