(* ===== verification/Fw_Udp.thy ===== *)
theory Fw_Udp
  imports Xdma_Prelude
begin

text \<open>
  The UDP programs of the 1G designs: the throughput client (\<^verbatim>\<open>udp_perf_client.c\<close>), the timer interrupt of its
  platform (\<^verbatim>\<open>platform_zynq.c\<close>), the client that asks for a file (\<^verbatim>\<open>udp_1ge_client.c\<close>) and the server that sends it
  (\<^verbatim>\<open>udp_socket_server/main.c\<close>). The network stack and the clock are a parameter: the outcome of a call is a function of
  the log of all calls before it. The text of the reports is not modelled, only what is reported.
\<close>

section \<open>The network stack\<close>

datatype report_type = INTER_REPORT | UDP_DONE_CLIENT | UDP_ABORTED_REMOTE

datatype net_event =
    PbufAlloc bool
  | PbufFree
  | Sent "nat option" "u8 list" int
  | GetTime u64
  | UdpNew "nat option"
  | UdpConnect nat int
  | UdpRemove "nat option"
  | Report report_type u8 u64 u64
  | TestPassed

record lwip =
  pbuf_alloc :: "net_event list \<Rightarrow> bool"
  udp_send :: "net_event list \<Rightarrow> nat option \<Rightarrow> u8 list \<Rightarrow> int"
  get_time_ms :: "net_event list \<Rightarrow> u64"
  udp_new :: "net_event list \<Rightarrow> nat option"
  udp_connect :: "net_event list \<Rightarrow> nat \<Rightarrow> int"

definition ERR_OK :: int where "ERR_OK = 0"
definition ERR_BUF :: int where "ERR_BUF = -2"

section \<open>The throughput client\<close>

definition INTERIM_REPORT_INTERVAL :: u64 where "INTERIM_REPORT_INTERVAL = 5"
definition UDP_TIME_INTERVAL :: u64 where "UDP_TIME_INTERVAL = 300"
definition UDP_SEND_BUFSIZE :: nat where "UDP_SEND_BUFSIZE = 1440"
definition MAX_SEND_RETRY :: nat where "MAX_SEND_RETRY = 10"
definition NUM_OF_PARALLEL_CLIENTS :: nat where "NUM_OF_PARALLEL_CLIENTS = 2"
definition REPORT_INTERVAL_TIME :: u64 where "REPORT_INTERVAL_TIME = INTERIM_REPORT_INTERVAL * 1000"
definition END_TIME :: u64 where "END_TIME = UDP_TIME_INTERVAL * 1000"

record interim_report =
  i_start_time :: u64
  last_report_time :: u64
  i_total_bytes :: u32

record perf_stats =
  client_id :: u8
  start_time :: u64
  total_bytes :: u64
  cnt_datagrams :: u64
  i_report :: interim_report

record perf_app =
  pcb :: "nat option list"
  client :: perf_stats
  packet_id :: s32
  send_buf :: "u8 list"
  net_log :: "net_event list"

definition log_net :: "net_event \<Rightarrow> perf_app \<Rightarrow> perf_app" where
  "log_net ev a = a\<lparr>net_log := net_log a @ [ev]\<rparr>"

definition read_time :: "lwip \<Rightarrow> perf_app \<Rightarrow> u64 \<times> perf_app" where
  "read_time net a = (let now = get_time_ms net (net_log a) in (now, log_net (GetTime now) a))"

text \<open>The static variables of the program before it starts.\<close>

definition perf_boot :: perf_app where
  "perf_boot = \<lparr>pcb = replicate NUM_OF_PARALLEL_CLIENTS None,
     client = \<lparr>client_id = 0, start_time = 0, total_bytes = 0, cnt_datagrams = 0,
       i_report = \<lparr>i_start_time = 0, last_report_time = 0, i_total_bytes = 0\<rparr>\<rparr>,
     packet_id = 0, send_buf = replicate UDP_SEND_BUFSIZE 0, net_log = []\<rparr>"

text \<open>
  A report: the length it is about, and the time, kept in whole seconds: the sum of a whole number and the quotient
  of the milliseconds by 1000 is cut off when it is stored.
\<close>

definition udp_conn_report :: "u64 \<Rightarrow> report_type \<Rightarrow> perf_app \<Rightarrow> perf_app" where
  "udp_conn_report diff rt a =
     (let c = client a;
          c = (if rt = INTER_REPORT then c else c\<lparr>i_report := (i_report c)\<lparr>last_report_time := 0\<rparr>\<rparr>);
          total_len = (if rt = INTER_REPORT then ucast (i_total_bytes (i_report c)) else total_bytes c);
          a = log_net (Report rt (client_id c) total_len diff) a;
          c = (if rt = INTER_REPORT
               then c\<lparr>i_report := (i_report c)\<lparr>last_report_time := last_report_time (i_report c) + diff div 1000\<rparr>\<rparr> else c)
      in a\<lparr>client := c\<rparr>)"

definition reset_stats :: "lwip \<Rightarrow> perf_app \<Rightarrow> perf_app" where
  "reset_stats net a =
     (let (now, a) = read_time net a
      in a\<lparr>client := \<lparr>client_id = client_id (client a) + 1, start_time = now, total_bytes = 0, cnt_datagrams = 0,
            i_report = \<lparr>i_start_time = 0, last_report_time = 0, i_total_bytes = 0\<rparr>\<rparr>\<rparr>)"

text \<open>The contents of a datagram: the identifier in network order over the first four bytes of the buffer.\<close>

definition datagram :: "s32 \<Rightarrow> u8 list \<Rightarrow> u8 list" where
  "datagram i buf = [ucast (drop_bit 24 i), ucast (drop_bit 16 i), ucast (drop_bit 8 i), ucast i] @ drop 4 buf"

definition count_datagram :: "perf_stats \<Rightarrow> perf_stats" where
  "count_datagram c = c\<lparr>total_bytes := total_bytes c + of_nat UDP_SEND_BUFSIZE, cnt_datagrams := cnt_datagrams c + 1,
     i_report := (i_report c)\<lparr>i_total_bytes := i_total_bytes (i_report c) + of_nat UDP_SEND_BUFSIZE\<rparr>\<rparr>"

fun send_retries :: "lwip \<Rightarrow> nat option \<Rightarrow> u8 list \<Rightarrow> nat \<Rightarrow> perf_app \<Rightarrow> nat \<times> perf_app" where
  "send_retries net p packet 0 a = (0, a)"
| "send_retries net p packet (Suc retries) a =
     (let err = udp_send net (net_log a) p packet;
          a = log_net (Sent p packet err) a
      in if err \<noteq> ERR_OK then send_retries net p packet retries a
         else (Suc retries, a\<lparr>client := count_datagram (client a)\<rparr>))"

definition give_up :: "lwip \<Rightarrow> nat \<Rightarrow> perf_app \<Rightarrow> perf_app" where
  "give_up net i a =
     (let (now, a) = read_time net a;
          a = udp_conn_report (now - start_time (client a)) UDP_DONE_CLIENT a;
          a = log_net (UdpRemove (pcb a ! i)) a
      in a\<lparr>pcb := (pcb a)[i := None]\<rparr>)"

text \<open>
  What is done with an allocated packet for one client, and the loop over the clients; the number of retries left is
  carried from one to the next.
\<close>

definition send_to_client :: "lwip \<Rightarrow> bool \<Rightarrow> nat \<Rightarrow> nat \<Rightarrow> perf_app \<Rightarrow> nat \<times> perf_app" where
  "send_to_client net finished i retries a =
     (let a = (if finished then a\<lparr>packet_id := -1\<rparr> else a);
          (retries, a) = send_retries net (pcb a ! i) (datagram (packet_id a) (send_buf a)) retries a;
          a = (if retries = 0 then give_up net i a else a);
          a = (if finished then a\<lparr>pcb := (pcb a)[i := None]\<rparr> else a)
      in (retries, log_net PbufFree a))"

fun send_clients :: "lwip \<Rightarrow> bool \<Rightarrow> nat list \<Rightarrow> nat \<Rightarrow> perf_app \<Rightarrow> bool \<times> perf_app" where
  "send_clients net finished [] retries a = (True, a)"
| "send_clients net finished (i # is) retries a =
     (let ok = pbuf_alloc net (net_log a);
          a = log_net (PbufAlloc ok) a
      in if \<not> ok then (False, a)
         else let (retries, a) = send_to_client net finished i retries a
              in send_clients net finished is retries a)"

definition udp_packet_send :: "lwip \<Rightarrow> bool \<Rightarrow> perf_app \<Rightarrow> perf_app" where
  "udp_packet_send net finished a =
     (let (completed, a) = send_clients net finished [0..<NUM_OF_PARALLEL_CLIENTS] MAX_SEND_RETRY a
      in if completed then a\<lparr>packet_id := packet_id a + 1\<rparr> else a)"

definition interim_step :: "u64 \<Rightarrow> perf_app \<Rightarrow> perf_app" where
  "interim_step now a =
     (let i = i_report (client a)
      in if i_start_time i \<noteq> 0
         then let diff_ms = now - i_start_time i
              in if REPORT_INTERVAL_TIME \<le> diff_ms
                 then let a = udp_conn_report diff_ms INTER_REPORT a
                      in a\<lparr>client := (client a)\<lparr>i_report := (i_report (client a))\<lparr>i_start_time := 0, i_total_bytes := 0\<rparr>\<rparr>\<rparr>
                 else a
         else a\<lparr>client := (client a)\<lparr>i_report := i\<lparr>i_start_time := now\<rparr>\<rparr>\<rparr>)"

definition transfer_data :: "lwip \<Rightarrow> perf_app \<Rightarrow> perf_app" where
  "transfer_data net a =
     (if list_ex (\<lambda>p. p = None) (pcb a) then a
      else let (now, a) = read_time net a;
               a = interim_step now a;
               diff_ms = now - start_time (client a)
           in if END_TIME \<le> diff_ms
              then log_net TestPassed (udp_conn_report diff_ms UDP_DONE_CLIENT (udp_packet_send net True a))
              else udp_packet_send net False a)"

text \<open>
  Creating the clients. When the connection of one cannot be set up it is removed and the start is given up, but
  the pointer to it stays.
\<close>

fun create_clients :: "lwip \<Rightarrow> nat list \<Rightarrow> perf_app \<Rightarrow> bool \<times> perf_app" where
  "create_clients net [] a = (True, a)"
| "create_clients net (i # is) a =
     (let p = udp_new net (net_log a);
          a = log_net (UdpNew p) a;
          a = a\<lparr>pcb := (pcb a)[i := p]\<rparr>
      in case p of
           None \<Rightarrow> (False, a)
         | Some q \<Rightarrow>
             let err = udp_connect net (net_log a) q;
                 a = log_net (UdpConnect q err) a
             in if err \<noteq> ERR_OK then (False, log_net (UdpRemove (Some q)) a)
                else create_clients net is a)"

definition perf_pattern :: "u8 list" where
  "perf_pattern = map (\<lambda>i. of_nat (i mod 10) + 48) [0..<UDP_SEND_BUFSIZE]"

definition start_application :: "lwip \<Rightarrow> bool \<Rightarrow> perf_app \<Rightarrow> perf_app" where
  "start_application net address_ok a =
     (if \<not> address_ok then a
      else let (completed, a) = create_clients net [0..<NUM_OF_PARALLEL_CLIENTS] a
           in if completed then (reset_stats net a)\<lparr>send_buf := perf_pattern\<rparr> else a)"

section \<open>The timer interrupt\<close>

datatype timer_event = DhcpFine | DhcpCoarse | ResetRx | ClearInterrupt

record timer_state =
  odd_tick :: bool
  ResetRxCntr :: s32
  TcpFastTmrFlag :: bool
  TcpSlowTmrFlag :: bool
  dhcp_timer :: s32
  dhcp_timoutcntr :: s32
  timer_log :: "timer_event list"

definition RESET_RX_CNTR_LIMIT :: s32 where "RESET_RX_CNTR_LIMIT = 400"

definition timer_boot :: timer_state where
  "timer_boot = \<lparr>odd_tick = True, ResetRxCntr = 0, TcpFastTmrFlag = False, TcpSlowTmrFlag = False,
     dhcp_timer = 0, dhcp_timoutcntr = 24, timer_log = []\<rparr>"

definition log_timer :: "timer_event \<Rightarrow> timer_state \<Rightarrow> timer_state" where
  "log_timer ev s = s\<lparr>timer_log := timer_log s @ [ev]\<rparr>"

definition slow_tick :: "bool \<Rightarrow> timer_state \<Rightarrow> timer_state" where
  "slow_tick dhcp s =
     (let s = (if dhcp then s\<lparr>dhcp_timer := dhcp_timer s + 1, dhcp_timoutcntr := dhcp_timoutcntr s - 1\<rparr> else s);
          s = s\<lparr>TcpSlowTmrFlag := True\<rparr>
      in if dhcp
         then let s = log_timer DhcpFine s
              in if 120 \<le> sint (dhcp_timer s) then (log_timer DhcpCoarse s)\<lparr>dhcp_timer := 0\<rparr> else s
         else s)"

text \<open>The two build options: the address comes from DHCP, and the interface is the soft Ethernet core.\<close>

definition timer_callback :: "bool \<Rightarrow> bool \<Rightarrow> timer_state \<Rightarrow> timer_state" where
  "timer_callback dhcp softeth s =
     (let s = s\<lparr>TcpFastTmrFlag := True, odd_tick := \<not> odd_tick s\<rparr>;
          s = (if softeth then s else s\<lparr>ResetRxCntr := ResetRxCntr s + 1\<rparr>);
          s = (if odd_tick s then slow_tick dhcp s else s);
          s = (if \<not> softeth \<and> sint RESET_RX_CNTR_LIMIT \<le> sint (ResetRxCntr s)
               then (log_timer ResetRx s)\<lparr>ResetRxCntr := 0\<rparr> else s)
      in log_timer ClearInterrupt s)"

section \<open>Asking for a file\<close>

definition ready_string :: "u8 list" where
  "ready_string = [0x72, 0x65, 0x61, 0x64, 0x79]"

datatype client_event = ClSend "u8 list" int | ClFree

text \<open>The allocation of the packet gives the length of its first buffer, or nothing.\<close>

definition send_udp_packet :: "nat option \<Rightarrow> (u8 list \<Rightarrow> int) \<Rightarrow> client_event list \<Rightarrow> int \<times> client_event list" where
  "send_udp_packet packet send log =
     (let send_buf_size = length ready_string + 1
      in case packet of
           None \<Rightarrow> (ERR_BUF, log)
         | Some len \<Rightarrow>
             if len < send_buf_size then (ERR_BUF, log)
             else let payload = ready_string @ [0];
                      error = send payload
                  in (error, log @ [ClSend payload error, ClFree]))"

definition transfer_udp_packet :: "nat option \<Rightarrow> (u8 list \<Rightarrow> int) \<Rightarrow> client_event list \<Rightarrow> int \<times> client_event list" where
  "transfer_udp_packet packet send log = send_udp_packet packet send log"

section \<open>The file server\<close>

definition MAXLINE :: nat where "MAXLINE = 1024"

definition exit_string :: "u8 list" where
  "exit_string = [0x65, 0x78, 0x69, 0x74]"

text \<open>Comparison with a string literal, which ends inside the buffer.\<close>

definition buf_is :: "u8 list \<Rightarrow> u8 list \<Rightarrow> bool" where
  "buf_is buf s \<longleftrightarrow> take (length s + 1) buf = s @ [0]"

text \<open>
  One run of the server. A failed \<open>read\<close> leaves the length \<open>-1\<close>, which \<open>sendto\<close> takes for the largest size.
\<close>

datatype server_result = ServerError | ServerExit | ServerSilent | ServerReply "u8 list" | ServerReplyAll

definition start_server :: "bool \<Rightarrow> bool \<Rightarrow> u8 list option \<Rightarrow> u8 list option \<Rightarrow> server_result" where
  "start_server socket_ok bind_ok datagram_in file =
     (let data_buf = replicate MAXLINE 0
      in if \<not> socket_ok then ServerError
         else if \<not> bind_ok then ServerError
         else let data_buf = (case datagram_in of None \<Rightarrow> data_buf
                 | Some d \<Rightarrow> take MAXLINE d @ drop (length (take MAXLINE d)) data_buf)
              in if buf_is data_buf exit_string then ServerExit
                 else if buf_is data_buf ready_string
                 then (case file of None \<Rightarrow> ServerReplyAll | Some contents \<Rightarrow> ServerReply (take MAXLINE contents))
                 else ServerSilent)"

section \<open>The counters\<close>

definition sent_ok :: "net_event \<Rightarrow> bool" where
  "sent_ok ev = (case ev of Sent _ _ err \<Rightarrow> err = ERR_OK | _ \<Rightarrow> False)"

lemma sent_ok_simps [simp]:
  "sent_ok (Sent p d err) \<longleftrightarrow> err = ERR_OK" "\<not> sent_ok (PbufAlloc b)" "\<not> sent_ok PbufFree" "\<not> sent_ok (GetTime t)"
  "\<not> sent_ok (UdpNew q)" "\<not> sent_ok (UdpConnect c e)" "\<not> sent_ok (UdpRemove q)" "\<not> sent_ok (Report r i l t)" "\<not> sent_ok TestPassed"
  by (simp_all add: sent_ok_def)

definition accounts :: "perf_app \<Rightarrow> bool" where
  "accounts a \<longleftrightarrow> total_bytes (client a) = of_nat UDP_SEND_BUFSIZE * cnt_datagrams (client a) \<and>
     cnt_datagrams (client a) = of_nat (length (filter sent_ok (net_log a)))"

named_theorems keeps_accounts \<open>operations that keep the counters exact\<close>

lemma accounts_log [keeps_accounts]: "accounts a \<Longrightarrow> \<not> sent_ok ev \<Longrightarrow> accounts (log_net ev a)"
  by (simp add: accounts_def log_net_def)

lemma accounts_pcb [keeps_accounts]: "accounts a \<Longrightarrow> accounts (a\<lparr>pcb := x\<rparr>)" "accounts a \<Longrightarrow> accounts (a\<lparr>packet_id := i\<rparr>)"
  by (simp_all add: accounts_def)

lemma accounts_report [keeps_accounts]: "accounts a \<Longrightarrow> accounts (udp_conn_report d rt a)"
  by (simp add: accounts_def udp_conn_report_def log_net_def Let_def)

lemma accounts_retries [keeps_accounts]: "accounts a \<Longrightarrow> accounts (snd (send_retries net p packet retries a))"
proof (induction net p packet retries a rule: send_retries.induct)
  case (2 net p packet retries a)
  then show ?case
    by (auto simp: Let_def accounts_def log_net_def count_datagram_def algebra_simps)
qed simp

lemma accounts_give_up [keeps_accounts]: "accounts a \<Longrightarrow> accounts (give_up net i a)"
  by (auto simp: give_up_def read_time_def Let_def intro!: keeps_accounts)

lemma accounts_client [keeps_accounts]: "accounts a \<Longrightarrow> accounts (snd (send_to_client net finished i retries a))"
proof -
  assume "accounts a"
  define b where "b = (if finished then a\<lparr>packet_id := -1\<rparr> else a)"
  obtain r c where s: "send_retries net (pcb b ! i) (datagram (packet_id b) (send_buf b)) retries b = (r, c)"
    by (cases "send_retries net (pcb b ! i) (datagram (packet_id b) (send_buf b)) retries b")
  have "accounts b" using \<open>accounts a\<close> by (simp add: b_def keeps_accounts)
  from accounts_retries [OF this, of net "pcb b ! i" "datagram (packet_id b) (send_buf b)" retries] have "accounts c" by (simp add: s)
  then show ?thesis by (simp add: send_to_client_def Let_def b_def [symmetric] s keeps_accounts)
qed

lemma accounts_clients [keeps_accounts]: "accounts a \<Longrightarrow> accounts (snd (send_clients net finished is retries a))"
proof (induction net finished "is" retries a rule: send_clients.induct)
  case (2 net finished i "is" retries a)
  show ?case
  proof (cases "pbuf_alloc net (net_log a)")
    case True
    obtain r a' where r: "send_to_client net finished i retries (log_net (PbufAlloc True) a) = (r, a')" by (cases "send_to_client net finished i retries (log_net (PbufAlloc True) a)")
    have "accounts (log_net (PbufAlloc True) a)" using 2(2) by (simp add: keeps_accounts)
    from accounts_client [OF this, of net finished i retries] have "accounts a'" by (simp add: r)
    then show ?thesis using 2(1) [OF refl refl _ refl _ \<open>accounts a'\<close>] True r by simp
  qed (simp add: 2 keeps_accounts)
qed simp

lemma accounts_send [keeps_accounts]: "accounts a \<Longrightarrow> accounts (udp_packet_send net finished a)"
  using accounts_clients [of a net finished "[0..<NUM_OF_PARALLEL_CLIENTS]" MAX_SEND_RETRY]
  by (auto simp: udp_packet_send_def split: prod.split intro!: keeps_accounts)

lemma accounts_interim [keeps_accounts]: "accounts a \<Longrightarrow> accounts (interim_step now a)"
  using accounts_report [of a "now - i_start_time (i_report (client a))" INTER_REPORT]
  by (auto simp: interim_step_def Let_def accounts_def)

lemma accounts_transfer [keeps_accounts]: "accounts a \<Longrightarrow> accounts (transfer_data net a)"
  by (auto simp: transfer_data_def read_time_def Let_def intro!: keeps_accounts)

text \<open>Before the clients are set up nothing is sent.\<close>

lemma create_clients_log:
  "filter sent_ok (net_log a) = [] \<Longrightarrow> accounts a \<Longrightarrow>
   filter sent_ok (net_log (snd (create_clients net is a))) = [] \<and> accounts (snd (create_clients net is a))"
proof (induction net "is" a rule: create_clients.induct)
  case (2 net i "is" a)
  then show ?case by (auto simp: Let_def log_net_def accounts_def split: option.splits)
qed simp

text \<open>The network may behave differently in every round: it is the event of the machine.\<close>

interpretation rounds: event_machine "\<lambda>a net. transfer_data net a" accounts
  by unfold_locales (rule accounts_transfer)

text \<open>
  C28. The counters of the throughput client are exact: after any number of rounds, on any network and whether or not the
  clients could be set up, they give the number of datagrams the network accepted and 1440 times as many bytes.
\<close>

theorem udp_counters_exact:
  "let a = run (\<lambda>a net. transfer_data net a) (start_application net address_ok perf_boot) nets
   in cnt_datagrams (client a) = of_nat (length (filter sent_ok (net_log a))) \<and>
      total_bytes (client a) = 1440 * cnt_datagrams (client a)"
proof -
  have b: "filter sent_ok (net_log perf_boot) = []" "accounts perf_boot" by (simp_all add: perf_boot_def accounts_def)
  have "accounts (start_application net address_ok perf_boot)"
    using create_clients_log [OF b, of net "[0..<NUM_OF_PARALLEL_CLIENTS]"] b
    by (auto simp: start_application_def reset_stats_def read_time_def log_net_def accounts_def Let_def split: prod.split)
  from rounds.run_invar [OF this] show ?thesis by (simp add: accounts_def UDP_SEND_BUFSIZE_def Let_def)
qed

section \<open>A session on a reliable network\<close>

definition reliable :: "lwip \<Rightarrow> bool" where
  "reliable net \<longleftrightarrow> (\<forall>log. pbuf_alloc net log) \<and> (\<forall>log p d. udp_send net log p d = ERR_OK)"

definition packets :: "net_event list \<Rightarrow> (nat option \<times> u8 list) list" where
  "packets log = concat (map (\<lambda>ev. case ev of Sent p d _ \<Rightarrow> [(p, d)] | _ \<Rightarrow> []) log)"

lemma packets_simps [simp]:
  "packets [] = []" "packets (xs @ ys) = packets xs @ packets ys" "packets (Sent p d e # xs) = (p, d) # packets xs"
  "packets (PbufAlloc b # xs) = packets xs" "packets (PbufFree # xs) = packets xs" "packets (GetTime t # xs) = packets xs"
  "packets (Report r c l t # xs) = packets xs" "packets (UdpRemove q # xs) = packets xs" "packets (TestPassed # xs) = packets xs"
  by (simp_all add: packets_def)

lemma send_retries_reliable:
  "reliable net \<Longrightarrow> 0 < r \<Longrightarrow> send_retries net p d r a =
     (r, (log_net (Sent p d ERR_OK) a)\<lparr>client := count_datagram (client a)\<rparr>)"
  by (cases r) (simp_all add: reliable_def Let_def log_net_def)

lemma udp_conn_report_keeps [simp]:
  "pcb (udp_conn_report d rt a) = pcb a" "packet_id (udp_conn_report d rt a) = packet_id a"
  "send_buf (udp_conn_report d rt a) = send_buf a" "start_time (client (udp_conn_report d rt a)) = start_time (client a)"
  "packets (net_log (udp_conn_report d rt a)) = packets (net_log a)"
  by (simp_all add: udp_conn_report_def log_net_def Let_def)

lemma interim_step_keeps [simp]:
  "pcb (interim_step now a) = pcb a" "packet_id (interim_step now a) = packet_id a"
  "send_buf (interim_step now a) = send_buf a" "start_time (client (interim_step now a)) = start_time (client a)"
  "packets (net_log (interim_step now a)) = packets (net_log a)"
  by (simp_all add: interim_step_def Let_def)

lemma clients_range: "[0..<NUM_OF_PARALLEL_CLIENTS] = [0, 1]"
  by (simp add: NUM_OF_PARALLEL_CLIENTS_def upt_rec)

lemma udp_packet_send_reliable:
  fixes finished :: bool
  assumes "reliable net" and "pcb a = [Some p, Some q]"
  defines "i \<equiv> if finished then -1 else packet_id a"
  defines "a' \<equiv> udp_packet_send net finished a"
  shows "pcb a' = (if finished then [None, None] else pcb a)" "packet_id a' = i + 1" "send_buf a' = send_buf a"
    "start_time (client a') = start_time (client a)"
    "packets (net_log a') = packets (net_log a) @ [(Some p, datagram i (send_buf a)), (Some q, datagram i (send_buf a))]"
  using assms(1,2)
  by (simp_all add: a'_def i_def udp_packet_send_def clients_range Let_def send_to_client_def send_retries_reliable MAX_SEND_RETRY_def
      reliable_def log_net_def count_datagram_def)

definition time_over :: "lwip \<Rightarrow> perf_app \<Rightarrow> bool" where
  "time_over net a \<longleftrightarrow> END_TIME \<le> get_time_ms net (net_log a) - start_time (client a)"

lemma transfer_data_reliable:
  assumes "reliable net" and "pcb a = [Some p, Some q]"
  defines "i \<equiv> if time_over net a then -1 else packet_id a"
  defines "a' \<equiv> transfer_data net a"
  shows "pcb a' = (if time_over net a then [None, None] else pcb a)" "packet_id a' = i + 1" "send_buf a' = send_buf a"
    "start_time (client a') = start_time (client a)"
    "packets (net_log a') = packets (net_log a) @ [(Some p, datagram i (send_buf a)), (Some q, datagram i (send_buf a))]"
proof -
  define b where "b = interim_step (get_time_ms net (net_log a)) (log_net (GetTime (get_time_ms net (net_log a))) a)"
  have b: "pcb b = [Some p, Some q]" "packet_id b = packet_id a" "send_buf b = send_buf a" "start_time (client b) = start_time (client a)"
    "packets (net_log b) = packets (net_log a)"
    using assms(2) by (simp_all add: b_def log_net_def)
  have a': "a' = (if time_over net a
     then log_net TestPassed (udp_conn_report (get_time_ms net (net_log a) - start_time (client a)) UDP_DONE_CLIENT (udp_packet_send net True b))
     else udp_packet_send net False b)"
    using assms(2) b(4) by (simp add: a'_def transfer_data_def read_time_def Let_def time_over_def b_def)
  note s = udp_packet_send_reliable [OF assms(1) b(1)]
  show "pcb a' = (if time_over net a then [None, None] else pcb a)" "packet_id a' = i + 1" "send_buf a' = send_buf a"
    "start_time (client a') = start_time (client a)"
    "packets (net_log a') = packets (net_log a) @ [(Some p, datagram i (send_buf a)), (Some q, datagram i (send_buf a))]"
    using s [of True] s [of False] b assms(2) by (simp_all add: a' i_def log_net_def)
qed

definition round_packets :: "nat \<Rightarrow> nat \<Rightarrow> u8 list \<Rightarrow> s32 \<Rightarrow> (nat option \<times> u8 list) list" where
  "round_packets p q buf i = [(Some p, datagram i buf), (Some q, datagram i buf)]"

lemma session_aux:
  assumes "reliable net" and "pcb a = [Some p, Some q]" and "packet_id a = 0"
  defines "state \<equiv> \<lambda>n. (transfer_data net ^^ n) a"
  shows "if \<exists>m<n. time_over net (state m)
     then pcb (state n) = [None, None] \<and>
       (let k = LEAST m. time_over net (state m) in packets (net_log (state n)) = packets (net_log a) @
          concat (map (\<lambda>j. round_packets p q (send_buf a) (of_nat j)) [0..<k]) @ round_packets p q (send_buf a) (-1))
     else pcb (state n) = [Some p, Some q] \<and> packet_id (state n) = of_nat n \<and> send_buf (state n) = send_buf a \<and>
       packets (net_log (state n)) = packets (net_log a) @ concat (map (\<lambda>j. round_packets p q (send_buf a) (of_nat j)) [0..<n])"
proof (induction n)
  case 0
  then show ?case using assms by simp
next
  case (Suc n)
  have step: "state (Suc n) = transfer_data net (state n)" by (simp add: state_def)
  consider (over) "\<exists>m<n. time_over net (state m)" | (ends) "\<not> (\<exists>m<n. time_over net (state m))" "time_over net (state n)"
    | (goes) "\<not> (\<exists>m<n. time_over net (state m))" "\<not> time_over net (state n)" by blast
  then show ?case
  proof cases
    case over
    then have "state (Suc n) = state n" using Suc by (simp add: step transfer_data_def)
    then show ?thesis using Suc over by (auto simp: less_Suc_eq)
  next
    case ends
    have "pcb (state n) = [Some p, Some q]" using Suc ends(1) by simp
    note t = transfer_data_reliable [OF assms(1) this]
    have k: "(LEAST m. time_over net (state m)) = n"
      using ends by (intro Least_equality) (auto simp: not_less [symmetric])
    have "\<exists>m<Suc n. time_over net (state m)" using ends(2) by auto
    then show ?thesis using Suc ends k t by (simp add: step round_packets_def)
  next
    case goes
    have "pcb (state n) = [Some p, Some q]" using Suc goes(1) by simp
    note t = transfer_data_reliable [OF assms(1) this]
    have "\<not> (\<exists>m<Suc n. time_over net (state m))" using goes by (auto simp: less_Suc_eq)
    then show ?thesis using Suc goes t by (simp add: step round_packets_def)
  qed
qed

text \<open>
  C22. A session on a reliable network: before the time is over each round sends one datagram with the number of the round
  to each client; the first round at which it is over sends the closing datagram with the number -1 and drops the
  clients, and nothing is sent by any later round.
\<close>

theorem transfer_data_session:
  assumes "reliable net" and "pcb a = [Some p, Some q]" and "packet_id a = 0"
    and "state = (\<lambda>n. (transfer_data net ^^ n) a)"
  shows "(pcb (state n) = [None, None] \<longleftrightarrow> (\<exists>m<n. time_over net (state m))) \<and>
     ((\<forall>m<n. \<not> time_over net (state m)) \<longrightarrow>
       packets (net_log (state n)) = packets (net_log a) @ concat (map (\<lambda>j. round_packets p q (send_buf a) (of_nat j)) [0..<n])) \<and>
     (time_over net (state k) \<and> (\<forall>m<k. \<not> time_over net (state m)) \<and> k < n \<longrightarrow>
       packets (net_log (state n)) = packets (net_log a) @
         concat (map (\<lambda>j. round_packets p q (send_buf a) (of_nat j)) [0..<k]) @ round_packets p q (send_buf a) (-1))"
proof (intro conjI impI)
  note s = session_aux [OF assms(1-3), of n, folded fun_cong [OF assms(4)]]
  show "pcb (state n) = [None, None] \<longleftrightarrow> (\<exists>m<n. time_over net (state m))"
    using s by (auto split: if_splits)
  show "packets (net_log (state n)) = packets (net_log a) @ concat (map (\<lambda>j. round_packets p q (send_buf a) (of_nat j)) [0..<n])"
    if "\<forall>m<n. \<not> time_over net (state m)" using s that by simp
  show "packets (net_log (state n)) = packets (net_log a) @
         concat (map (\<lambda>j. round_packets p q (send_buf a) (of_nat j)) [0..<k]) @ round_packets p q (send_buf a) (-1)"
    if k: "time_over net (state k) \<and> (\<forall>m<k. \<not> time_over net (state m)) \<and> k < n"
  proof -
    have "(LEAST m. time_over net (state m)) = k" using k by (intro Least_equality) (auto simp: not_less [symmetric])
    then show ?thesis using s k by (auto simp: Let_def split: if_splits)
  qed
qed

text \<open>A reliable network on which the time is over in the second round.\<close>

definition demo_net :: lwip where
  "demo_net = \<lparr>pbuf_alloc = (\<lambda>_. True), udp_send = (\<lambda>_ _ _. ERR_OK), get_time_ms = (\<lambda>log. if length log < 5 then 7 else 300007),
     udp_new = (\<lambda>log. Some (length log)), udp_connect = (\<lambda>_ _. ERR_OK)\<rparr>"

definition demo_app :: perf_app where
  "demo_app = perf_boot\<lparr>pcb := [Some 0, Some 2], client := (client perf_boot)\<lparr>start_time := 7\<rparr>, send_buf := [1, 2, 3, 4, 5]\<rparr>"

theorem transfer_data_session_witness:
  "packets (net_log ((transfer_data demo_net ^^ 5) demo_app)) = round_packets 0 2 [1, 2, 3, 4, 5] 0 @ round_packets 0 2 [1, 2, 3, 4, 5] (-1)"
proof -
  have h: "reliable demo_net" "pcb demo_app = [Some 0, Some 2]" "packet_id demo_app = 0"
    by (simp_all add: reliable_def demo_net_def demo_app_def perf_boot_def)
  have 0: "\<not> time_over demo_net demo_app" by (simp add: time_over_def demo_net_def demo_app_def perf_boot_def END_TIME_def UDP_TIME_INTERVAL_def)
  have 1: "time_over demo_net (transfer_data demo_net demo_app)" by code_simp
  show ?thesis
    using transfer_data_session [OF h refl, of 5 1] 0 1
    by (simp add: demo_app_def perf_boot_def)
qed

section \<open>Failing networks\<close>

lemma send_retries_failing:
  "(\<And>log d. udp_send net log p d \<noteq> ERR_OK) \<Longrightarrow>
   \<exists>log. send_retries net p d r a = (0, a\<lparr>net_log := net_log a @ log\<rparr>) \<and> packets log = replicate r (p, d)"
proof (induction r arbitrary: a)
  case (Suc r)
  let ?ev = "Sent p d (udp_send net (net_log a) p d)"
  from Suc.IH [OF Suc.prems, of "log_net ?ev a"] obtain log where
    "send_retries net p d r (log_net ?ev a) = (0, (log_net ?ev a)\<lparr>net_log := net_log (log_net ?ev a) @ log\<rparr>)"
    "packets log = replicate r (p, d)" by blast
  then show ?case using Suc.prems by (intro exI [of _ "?ev # log"]) (simp add: Let_def log_net_def)
qed (auto intro: exI [of _ "[]"])

lemma give_up_effect:
  "\<exists>log. net_log (give_up net i a) = net_log a @ log @ [UdpRemove (pcb a ! i)] \<and> packets log = [] \<and> pcb (give_up net i a) = (pcb a)[i := None]"
  by (simp add: give_up_def read_time_def udp_conn_report_def log_net_def Let_def)

text \<open>
  The number of retries is meant for one client, but it is set once for the whole round: when the first client
  has used it up, the second is removed as well, without one attempt to send to it.
\<close>

theorem retries_shared_by_clients:
  assumes "\<And>log. pbuf_alloc net log" and "\<And>log d. udp_send net log (Some p) d \<noteq> ERR_OK"
    and "pcb a = [Some p, Some q]"
  shows "\<exists>log. net_log (udp_packet_send net False a) = net_log a @ log \<and> pcb (udp_packet_send net False a) = [None, None] \<and>
     packets log = replicate 10 (Some p, datagram (packet_id a) (send_buf a)) \<and> UdpRemove (Some q) \<in> set log"
proof -
  let ?d = "datagram (packet_id a) (send_buf a)" and ?a1 = "log_net (PbufAlloc True) a"
  from send_retries_failing [of net "Some p" ?d 10 ?a1, OF assms(2)] obtain l1 where
    l1: "send_retries net (Some p) ?d 10 ?a1 = (0, ?a1\<lparr>net_log := net_log ?a1 @ l1\<rparr>)" "packets l1 = replicate 10 (Some p, ?d)" by blast
  let ?a2 = "?a1\<lparr>net_log := net_log ?a1 @ l1\<rparr>"
  from give_up_effect [of net 0 ?a2] obtain l2 where
    l2: "net_log (give_up net 0 ?a2) = net_log ?a2 @ l2 @ [UdpRemove (Some p)]" "packets l2 = []" "pcb (give_up net 0 ?a2) = [None, Some q]"
    using assms(3) by (auto simp: log_net_def)
  let ?a3 = "log_net (PbufAlloc True) (log_net PbufFree (give_up net 0 ?a2))"
  from give_up_effect [of net 1 ?a3] obtain l3 where
    l3: "net_log (give_up net 1 ?a3) = net_log ?a3 @ l3 @ [UdpRemove (Some q)]" "packets l3 = []" "pcb (give_up net 1 ?a3) = [None, None]"
    using l2(3) by (auto simp: log_net_def)
  have sel: "pcb (log_net ev b) = pcb b" "packet_id (log_net ev b) = packet_id b" "send_buf (log_net ev b) = send_buf b" for ev b
    by (simp_all add: log_net_def)
  have r: "udp_packet_send net False a = (let b = log_net PbufFree (give_up net 1 ?a3) in b\<lparr>packet_id := packet_id b + 1\<rparr>)"
    using assms(1,3) l1(1)
    by (simp add: udp_packet_send_def clients_range MAX_SEND_RETRY_def send_to_client_def Let_def sel)
  have log: "net_log (udp_packet_send net False a) = net_log a @ PbufAlloc True # l1 @ l2 @ [UdpRemove (Some p), PbufFree, PbufAlloc True]
      @ l3 @ [UdpRemove (Some q), PbufFree]"
    and p: "pcb (udp_packet_send net False a) = [None, None]"
    using l2 l3 by (simp_all add: r Let_def log_net_def)
  show ?thesis
    by (rule exI [of _ "PbufAlloc True # l1 @ l2 @ [UdpRemove (Some p), PbufFree, PbufAlloc True] @ l3 @ [UdpRemove (Some q), PbufFree]"])
      (simp add: log p l1 l2 l3)
qed

definition half_net :: lwip where
  "half_net = demo_net\<lparr>udp_send := \<lambda>_ p _. if p = Some 0 then -4 else ERR_OK\<rparr>"

theorem retries_shared_by_clients_witness:
  "pcb (udp_packet_send half_net False demo_app) = [None, None] \<and> UdpRemove (Some 2) \<in> set (net_log (udp_packet_send half_net False demo_app))"
proof -
  have h: "\<And>log. pbuf_alloc half_net log" "\<And>log d. udp_send half_net log (Some 0) d \<noteq> ERR_OK" "pcb demo_app = [Some 0, Some 2]"
    by (simp_all add: half_net_def demo_net_def demo_app_def ERR_OK_def)
  from retries_shared_by_clients [OF h] show ?thesis by auto
qed

lemma start_application_second_fails:
  assumes "udp_new net [] = Some p" and "udp_connect net [UdpNew (Some p)] p = ERR_OK"
    and "udp_new net [UdpNew (Some p), UdpConnect p ERR_OK] = Some q"
    and "err = udp_connect net [UdpNew (Some p), UdpConnect p ERR_OK, UdpNew (Some q)] q" and "err \<noteq> ERR_OK"
  shows "start_application net True perf_boot = perf_boot\<lparr>pcb := [Some p, Some q],
     net_log := [UdpNew (Some p), UdpConnect p ERR_OK, UdpNew (Some q), UdpConnect q err, UdpRemove (Some q)]\<rparr>"
  using assms by (simp add: start_application_def clients_range perf_boot_def log_net_def Let_def NUM_OF_PARALLEL_CLIENTS_def numeral_2_eq_2)

text \<open>
  When the second client cannot be connected it is removed, but the pointer to it stays: the first round sends through
  the removed client.
\<close>

theorem start_application_dangling:
  assumes "udp_new net [] = Some p" and "udp_connect net [UdpNew (Some p)] p = ERR_OK"
    and "udp_new net [UdpNew (Some p), UdpConnect p ERR_OK] = Some q"
    and "udp_connect net [UdpNew (Some p), UdpConnect p ERR_OK, UdpNew (Some q)] q \<noteq> ERR_OK"
    and "reliable net"
  shows "let a = start_application net True perf_boot
     in last (net_log a) = UdpRemove (Some q) \<and>
        (\<exists>d. (Some q, d) \<in> set (packets (net_log (transfer_data net a))))"
proof -
  let ?a = "start_application net True perf_boot"
  note a = start_application_second_fails [OF assms(1-3) refl assms(4)]
  have "pcb ?a = [Some p, Some q]" by (simp add: a)
  from transfer_data_reliable(5) [OF assms(5) this] show ?thesis by (auto simp: Let_def a)
qed

definition late_net :: lwip where
  "late_net = demo_net\<lparr>udp_connect := \<lambda>log _. if length log = 3 then -8 else ERR_OK\<rparr>"

theorem start_application_dangling_witness:
  "last (net_log (start_application late_net True perf_boot)) = UdpRemove (Some 2) \<and>
   (\<exists>d. (Some 2, d) \<in> set (packets (net_log (transfer_data late_net (start_application late_net True perf_boot)))))"
  using start_application_dangling [of late_net 0 2]
  by (simp add: late_net_def demo_net_def reliable_def ERR_OK_def Let_def)

section \<open>The timer\<close>

definition timer_count :: "timer_event \<Rightarrow> timer_state \<Rightarrow> nat" where
  "timer_count ev s = length (filter (\<lambda>x. x = ev) (timer_log s))"

lemma sint_of_nat_s32:
  assumes "n < 2 ^ 31"
  shows "sint (of_nat n :: s32) = int n"
  using assms by (simp add: signed_of_nat signed_take_bit_int_eq_self)

text \<open>A counter that is set back when it reaches its limit counts modulo the limit.\<close>

lemma counter_step:
  assumes "N < 2 ^ 31" and "0 < N" and "(c :: s32) = of_nat (n mod N)"
  shows "int N \<le> sint (c + 1) \<longleftrightarrow> Suc n mod N = 0" and "Suc n mod N \<noteq> 0 \<Longrightarrow> c + 1 = of_nat (Suc n mod N)"
proof -
  have l: "Suc (n mod N) \<le> N" using assms(2) by (simp add: Suc_leI)
  have c: "c + 1 = of_nat (Suc (n mod N))" by (simp add: assms(3))
  have "sint (c + 1) = int (Suc (n mod N))" unfolding c by (rule sint_of_nat_s32) (use l assms(1) in simp)
  then show "int N \<le> sint (c + 1) \<longleftrightarrow> Suc n mod N = 0" using l by (simp add: mod_Suc)
  show "Suc n mod N \<noteq> 0 \<Longrightarrow> c + 1 = of_nat (Suc n mod N)" unfolding c by (simp add: mod_Suc split: if_splits)
qed

definition timer_inv :: "bool \<Rightarrow> nat \<Rightarrow> timer_state \<Rightarrow> bool" where
  "timer_inv dhcp n s \<longleftrightarrow> odd_tick s = even n \<and> ResetRxCntr s = of_nat (n mod 400) \<and> timer_count ResetRx s = n div 400 \<and>
     timer_count ClearInterrupt s = n \<and>
     (if dhcp then dhcp_timer s = of_nat (n div 2 mod 120) \<and> timer_count DhcpFine s = n div 2 \<and> timer_count DhcpCoarse s = n div 2 div 120
      else timer_count DhcpFine s = 0 \<and> timer_count DhcpCoarse s = 0)"

lemma slow_tick_effect:
  "ResetRxCntr (slow_tick dhcp s) = ResetRxCntr s" "odd_tick (slow_tick dhcp s) = odd_tick s"
  "timer_count ResetRx (slow_tick dhcp s) = timer_count ResetRx s"
  "timer_count ClearInterrupt (slow_tick dhcp s) = timer_count ClearInterrupt s"
  "timer_count DhcpFine (slow_tick dhcp s) = timer_count DhcpFine s + (if dhcp then 1 else 0)"
  "timer_count DhcpCoarse (slow_tick dhcp s) = timer_count DhcpCoarse s + (if dhcp \<and> 120 \<le> sint (dhcp_timer s + 1) then 1 else 0)"
  "dhcp_timer (slow_tick dhcp s) = (if dhcp then if 120 \<le> sint (dhcp_timer s + 1) then 0 else dhcp_timer s + 1 else dhcp_timer s)"
  by (simp_all add: slow_tick_def log_timer_def timer_count_def Let_def)

lemma timer_callback_effect:
  defines "c \<equiv> \<lambda>s. ResetRxCntr s + 1"
  shows "odd_tick (timer_callback dhcp False s) = (\<not> odd_tick s)"
    and "ResetRxCntr (timer_callback dhcp False s) = (if 400 \<le> sint (c s) then 0 else c s)"
    and "timer_count ResetRx (timer_callback dhcp False s) = timer_count ResetRx s + (if 400 \<le> sint (c s) then 1 else 0)"
    and "timer_count ClearInterrupt (timer_callback dhcp False s) = Suc (timer_count ClearInterrupt s)"
    and "timer_count DhcpFine (timer_callback dhcp False s) = timer_count DhcpFine s + (if dhcp \<and> \<not> odd_tick s then 1 else 0)"
    and "timer_count DhcpCoarse (timer_callback dhcp False s) =
      timer_count DhcpCoarse s + (if dhcp \<and> \<not> odd_tick s \<and> 120 \<le> sint (dhcp_timer s + 1) then 1 else 0)"
    and "dhcp_timer (timer_callback dhcp False s) =
      (if dhcp \<and> \<not> odd_tick s then if 120 \<le> sint (dhcp_timer s + 1) then 0 else dhcp_timer s + 1 else dhcp_timer s)"
  by (simp_all add: timer_callback_def slow_tick_def log_timer_def timer_count_def Let_def c_def RESET_RX_CNTR_LIMIT_def)

lemma timer_inv_step: "timer_inv dhcp n s \<Longrightarrow> timer_inv dhcp (Suc n) (timer_callback dhcp False s)"
proof -
  assume i: "timer_inv dhcp n s"
  have r: "400 \<le> sint (ResetRxCntr s + 1) \<longleftrightarrow> Suc n mod 400 = 0" "Suc n mod 400 \<noteq> 0 \<Longrightarrow> ResetRxCntr s + 1 = of_nat (Suc n mod 400)"
    using counter_step [of 400 "ResetRxCntr s" n] i by (simp_all add: timer_inv_def)
  have d: "120 \<le> sint (dhcp_timer s + 1) \<longleftrightarrow> Suc (n div 2) mod 120 = 0"
    "Suc (n div 2) mod 120 \<noteq> 0 \<Longrightarrow> dhcp_timer s + 1 = of_nat (Suc (n div 2) mod 120)" if dhcp
    using counter_step [of 120 "dhcp_timer s" "n div 2"] i that by (simp_all add: timer_inv_def)
  have h: "Suc n div 2 = (if odd n then Suc (n div 2) else n div 2)" by (auto elim: oddE evenE)
  have q: "Suc m div N = (if Suc m mod N = 0 then Suc (m div N) else m div N)" for m N by (rule div_Suc)
  show ?thesis
    using i r d q [of n 400] q [of "n div 2" 120] h
    by (cases dhcp) (simp_all add: timer_inv_def timer_callback_effect)
qed

text \<open>
  The timer interrupt counts without drift: the interface is asked to reset its receive path every 400th time, DHCP's
  fine timer is served every second time and its coarse timer every 240th, and every interrupt is acknowledged.
\<close>

theorem timer_callback_counts:
  "timer_inv dhcp n ((timer_callback dhcp False ^^ n) timer_boot)"
proof (induction n)
  case 0
  then show ?case by (simp add: timer_inv_def timer_boot_def timer_count_def)
qed (simp add: timer_inv_step)

section \<open>A file is asked for and sent\<close>

text \<open>
  The request of the client is what the server waits for: if the packet could be allocated, the bytes handed to the
  network make the server answer with the first 1024 bytes of its file (and with the largest length there is when the file cannot be
  read); a datagram that is lost or is another one gets no file.
\<close>

theorem request_is_served:
  assumes "6 \<le> len"
  shows "\<exists>payload. transfer_udp_packet (Some len) send log = (send payload, log @ [ClSend payload (send payload), ClFree]) \<and>
     (\<forall>contents. start_server True True (Some payload) (Some contents) = ServerReply (take 1024 contents)) \<and>
     start_server True True (Some payload) None = ServerReplyAll \<and>
     (\<forall>file. start_server True True None file = ServerSilent) \<and>
     (\<forall>d file reply. start_server True True (Some d) file = ServerReply reply \<longrightarrow> take 5 d = take 5 payload)"
proof -
  let ?p = "ready_string @ [0]"
  have f: "transfer_udp_packet (Some len) send log = (send ?p, log @ [ClSend ?p (send ?p), ClFree])"
    using assms by (simp add: transfer_udp_packet_def send_udp_packet_def ready_string_def Let_def)
  have s: "start_server True True (Some ?p) file = (case file of None \<Rightarrow> ServerReplyAll | Some contents \<Rightarrow> ServerReply (take 1024 contents))" for "file"
    by (simp cong: option.case_cong add: start_server_def buf_is_def ready_string_def exit_string_def MAXLINE_def)
  have z: "\<not> buf_is (replicate MAXLINE 0) (c # cs)" if "c \<noteq> 0" for c cs
  proof
    assume "buf_is (replicate MAXLINE 0) (c # cs)"
    then have "take (length (c # cs) + 1) (replicate MAXLINE 0) ! 0 = c" by (simp add: buf_is_def)
    then show False using that by (simp add: MAXLINE_def)
  qed
  have n: "start_server True True None file = ServerSilent" for "file"
    using z by (simp add: start_server_def ready_string_def exit_string_def Let_def)
  have o: "take 5 d = take 5 ?p" if r: "start_server True True (Some d) file = ServerReply reply" for d "file" reply
  proof -
    have b: "take 6 (take 1024 d @ replicate (1024 - length (take 1024 d)) 0) = ready_string @ [0]"
    proof -
      have "buf_is (take MAXLINE d @ drop (length (take MAXLINE d)) (replicate MAXLINE 0)) ready_string"
        using r by (auto simp: start_server_def Let_def split: if_splits)
      moreover have "length ready_string + 1 = 6" by (simp add: ready_string_def)
      ultimately show ?thesis by (simp only: buf_is_def MAXLINE_def drop_replicate)
    qed
    have "5 \<le> length d"
    proof (rule ccontr)
      assume "\<not> 5 \<le> length d"
      then have "(take 1024 d @ replicate (1024 - length (take 1024 d)) (0 :: u8)) ! 4 = 0" by (simp add: nth_append)
      then have "take 6 (take 1024 d @ replicate (1024 - length (take 1024 d)) (0 :: u8)) ! 4 = 0"
        by (simp only: nth_take)
      then show False unfolding b by (simp add: ready_string_def)
    qed
    then have "take 5 d = take 5 (take 6 (take 1024 d @ replicate (1024 - length (take 1024 d)) 0))" by (simp add: min_def)
    then show ?thesis unfolding b .
  qed
  show ?thesis by (rule exI [of _ ?p]) (use f s n o in simp)
qed

theorem request_is_served_witness:
  "transfer_udp_packet (Some 6) (\<lambda>_. ERR_OK) [] = (ERR_OK, [ClSend [0x72, 0x65, 0x61, 0x64, 0x79, 0] ERR_OK, ClFree])"
  using request_is_served [of 6 "\<lambda>_. ERR_OK" "[]"]
  by (simp add: transfer_udp_packet_def send_udp_packet_def ready_string_def Let_def)

end
