(* ===== verification/Fw_I2c.thy ===== *)
theory Fw_I2c
  imports Xdma_Prelude
begin

text \<open>
  The firmware's access to the I2C bus (\<^verbatim>\<open>i2c_access.c\<close>), the programming of the clock generator (\<^verbatim>\<open>si5324.c\<close>) and of
  the SFP module (\<^verbatim>\<open>sfp.c\<close>). The vendor's drivers for the bus and the interrupt controller are a parameter: what
  a message brings about (the status events that arrive while the caller waits, in order, the bytes that are read,
  and whether the bus becomes idle again) is a function of all messages before it. A wait that never ends
  is \<open>None\<close>. The three copies of the files in the firmware differ in the table of the clock generator only.
\<close>

section \<open>The bus\<close>

text \<open>A status event, as the tests of its bits see it, and the status codes of the vendor's library.\<close>

record i2c_event =
  ev_complete_recv :: bool
  ev_complete_send :: bool
  ev_slave_rdy :: bool

datatype xstatus = XST_SUCCESS | XST_FAILURE | XST_CODE nat

datatype i2c_msg = Send u16 "u8 list" | Recv u16 nat

record i2c_reply =
  rp_events :: "i2c_event list"
  rp_data :: "u8 list"
  rp_idle :: bool

type_synonym i2c_bus = "i2c_msg list \<Rightarrow> i2c_msg \<Rightarrow> i2c_reply"

record xiic_lib =
  TransmitComplete :: bool
  ReceiveComplete :: bool
  TotalErrorCount :: u32
  bus_log :: "i2c_msg list"

definition StatusHandler :: "i2c_event \<Rightarrow> xiic_lib \<Rightarrow> xiic_lib" where
  "StatusHandler Event lib =
     (if ev_complete_recv Event then lib\<lparr>ReceiveComplete := True\<rparr>
      else if ev_complete_send Event then lib\<lparr>TransmitComplete := True\<rparr>
      else if \<not> ev_slave_rdy Event then lib\<lparr>TotalErrorCount := TotalErrorCount lib + 1\<rparr>
      else lib)"

section \<open>Setting the hardware up\<close>

record i2c_setup =
  su_config :: bool
  su_init :: xstatus
  su_gic_config :: bool
  su_gic_init :: xstatus
  su_connect :: xstatus

definition SetupInterruptSystem :: "i2c_setup \<Rightarrow> xstatus" where
  "SetupInterruptSystem su =
     (if \<not> su_gic_config su then XST_FAILURE
      else if su_gic_init su \<noteq> XST_SUCCESS then XST_FAILURE
      else if su_connect su \<noteq> XST_SUCCESS then su_connect su
      else XST_SUCCESS)"

text \<open>The counters are reset only when everything before succeeds; until then the structure, on the stack of the caller, is undefined.\<close>

definition I2cSetupHardware :: "i2c_setup \<Rightarrow> xiic_lib \<Rightarrow> xstatus \<times> xiic_lib" where
  "I2cSetupHardware su lib =
     (if \<not> su_config su then (XST_FAILURE, lib)
      else if su_init su \<noteq> XST_SUCCESS then (XST_FAILURE, lib)
      else if SetupInterruptSystem su \<noteq> XST_SUCCESS then (XST_FAILURE, lib)
      else (XST_SUCCESS, lib\<lparr>TotalErrorCount := 0, TransmitComplete := False, ReceiveComplete := False\<rparr>))"

section \<open>Messages\<close>

text \<open>
  The busy wait for a flag: events arrive between its iterations; those that are left when it ends arrive later,
  before the next message.
\<close>

fun wait_flag :: "(xiic_lib \<Rightarrow> bool) \<Rightarrow> i2c_event list \<Rightarrow> xiic_lib \<Rightarrow> (xstatus \<times> i2c_event list \<times> xiic_lib) option" where
  "wait_flag flag evs lib =
     (if flag lib then Some (XST_SUCCESS, evs, lib)
      else if TotalErrorCount lib \<noteq> 0 then Some (XST_FAILURE, evs, lib)
      else case evs of [] \<Rightarrow> None | ev # evs \<Rightarrow> wait_flag flag evs (StatusHandler ev lib))"

definition I2cWriteData :: "i2c_bus \<Rightarrow> u8 list \<Rightarrow> u16 \<Rightarrow> xiic_lib \<Rightarrow> (xstatus \<times> xiic_lib) option" where
  "I2cWriteData bus WrBuffer SlaveAddr lib =
     (let lib = lib\<lparr>TransmitComplete := False\<rparr>;
          reply = bus (bus_log lib) (Send SlaveAddr WrBuffer);
          lib = lib\<lparr>bus_log := bus_log lib @ [Send SlaveAddr WrBuffer]\<rparr>
      in case wait_flag TransmitComplete (rp_events reply) lib of
           None \<Rightarrow> None
         | Some (st, late, lib) \<Rightarrow>
             let lib = fold StatusHandler late lib in
             if st \<noteq> XST_SUCCESS then Some (st, lib)
             else if rp_idle reply then Some (XST_SUCCESS, lib) else None)"

definition I2cReadData :: "i2c_bus \<Rightarrow> nat \<Rightarrow> u16 \<Rightarrow> xiic_lib \<Rightarrow> (xstatus \<times> u8 list \<times> xiic_lib) option" where
  "I2cReadData bus ByteCount SlaveAddr lib =
     (let lib = lib\<lparr>ReceiveComplete := False\<rparr>;
          reply = bus (bus_log lib) (Recv SlaveAddr ByteCount);
          lib = lib\<lparr>bus_log := bus_log lib @ [Recv SlaveAddr ByteCount]\<rparr>
      in case wait_flag ReceiveComplete (rp_events reply) lib of
           None \<Rightarrow> None
         | Some (st, late, lib) \<Rightarrow>
             let lib = fold StatusHandler late lib in
             if st \<noteq> XST_SUCCESS then Some (st, [], lib)
             else if rp_idle reply then Some (XST_SUCCESS, rp_data reply, lib) else None)"

definition I2cPhyWrite :: "i2c_bus \<Rightarrow> u8 \<Rightarrow> u16 \<Rightarrow> u16 \<Rightarrow> xiic_lib \<Rightarrow> (xstatus \<times> xiic_lib) option" where
  "I2cPhyWrite bus Reg Data SlaveAddr lib = I2cWriteData bus [Reg, ucast (drop_bit 8 Data), ucast Data] SlaveAddr lib"

text \<open>The word read is assigned only when both messages succeed.\<close>

definition I2cPhyRead :: "i2c_bus \<Rightarrow> u8 \<Rightarrow> u16 \<Rightarrow> u16 \<Rightarrow> xiic_lib \<Rightarrow> (xstatus \<times> u16 \<times> xiic_lib) option" where
  "I2cPhyRead bus Reg Data SlaveAddr lib =
     (case I2cWriteData bus [Reg] SlaveAddr lib of
        None \<Rightarrow> None
      | Some (st, lib) \<Rightarrow>
          if st \<noteq> XST_SUCCESS then Some (st, Data, lib)
          else (case I2cReadData bus 2 SlaveAddr lib of
                  None \<Rightarrow> None
                | Some (st, RdBuffer, lib) \<Rightarrow>
                    if st \<noteq> XST_SUCCESS then Some (st, Data, lib)
                    else Some (st, push_bit 8 (ucast (RdBuffer ! 0)) OR ucast (RdBuffer ! 1), lib)))"

section \<open>The clock generator\<close>

definition IIC_SI_ADDR :: u16 where "IIC_SI_ADDR = 0x68"
definition IIC_MUX_ADDRESS :: u16 where "IIC_MUX_ADDRESS = 0x74"
definition IIC_CHANNEL_ADDRESS :: u8 where "IIC_CHANNEL_ADDRESS = 0x10"

definition InitTable_1ge :: "(u32 \<times> u32) list" where
  "InitTable_1ge = [(0, 0x54), (1, 0xE4), (2, 0x12), (3, 0x15), (4, 0x92), (5, 0xed), (6, 0x2d), (7, 0x2a), (8, 0x00), (9, 0xc0),
     (10, 0x08), (11, 0x40), (19, 0x29), (20, 0x3e), (21, 0xff), (22, 0xdf), (23, 0x1f), (24, 0x3f), (25, 0x60), (31, 0x00),
     (32, 0x00), (33, 0x05), (34, 0x00), (35, 0x00), (36, 0x05), (40, 0xc2), (41, 0x22), (42, 0xdf), (43, 0x00), (44, 0x77),
     (45, 0x0b), (46, 0x00), (47, 0x77), (48, 0x0b), (55, 0x00), (131, 0x1f), (132, 0x02), (137, 0x01), (138, 0x0f), (139, 0xff),
     (142, 0x00), (143, 0x00), (136, 0x40)]"

definition InitTable_10ge :: "(u32 \<times> u32) list" where
  "InitTable_10ge = [(0, 0x54), (1, 0xE4), (2, 0x12), (3, 0x55), (4, 0x12), (5, 0xed), (6, 0x3f), (7, 0x2a), (8, 0x00), (9, 0xc0),
     (10, 0x00), (11, 0x40), (19, 0x29), (20, 0x3e), (21, 0xfe), (22, 0xdf), (23, 0x1f), (24, 0x3f), (25, 0xa0), (31, 0x00),
     (32, 0x00), (33, 0x03), (34, 0x00), (35, 0x00), (36, 0x03), (40, 0xc0), (41, 0x92), (42, 0x7b), (43, 0x00), (44, 0x1d),
     (45, 0xc2), (46, 0x00), (47, 0x1d), (48, 0xc2), (55, 0x00), (131, 0x1f), (132, 0x02), (137, 0x01), (138, 0x0f), (139, 0xff),
     (142, 0x00), (143, 0x00), (136, 0x40)]"

text \<open>The buffer of the message is declared with no elements, so its one byte is stored next to it and sent from there.\<close>

definition MuxInit :: "i2c_bus \<Rightarrow> xiic_lib \<Rightarrow> (xstatus \<times> xiic_lib) option" where
  "MuxInit bus lib =
     map_option (\<lambda>(st, lib). (if st \<noteq> XST_SUCCESS then XST_FAILURE else XST_SUCCESS, lib))
       (I2cWriteData bus [IIC_CHANNEL_ADDRESS] IIC_MUX_ADDRESS lib)"

fun program_loop :: "i2c_bus \<Rightarrow> (u32 \<times> u32) list \<Rightarrow> xiic_lib \<Rightarrow> (xstatus \<times> xiic_lib) option" where
  "program_loop bus [] lib = Some (XST_SUCCESS, lib)"
| "program_loop bus ((RegIndex, Value) # tbl) lib =
     (case I2cWriteData bus [ucast RegIndex, ucast Value] IIC_SI_ADDR lib of
        None \<Rightarrow> None
      | Some (st, lib) \<Rightarrow> if st \<noteq> XST_SUCCESS then Some (XST_FAILURE, lib) else program_loop bus tbl lib)"

definition ProgramSi5324 :: "i2c_bus \<Rightarrow> i2c_setup \<Rightarrow> (u32 \<times> u32) list \<Rightarrow> xiic_lib \<Rightarrow> (xstatus \<times> xiic_lib) option" where
  "ProgramSi5324 bus su InitTable lib =
     (let (st, lib) = I2cSetupHardware su lib in
      if st \<noteq> XST_SUCCESS then Some (XST_FAILURE, lib)
      else case MuxInit bus lib of
             None \<Rightarrow> None
           | Some (st, lib) \<Rightarrow> if st \<noteq> XST_SUCCESS then Some (XST_FAILURE, lib) else program_loop bus InitTable lib)"

section \<open>The SFP module\<close>

definition IIC_PHY_ADDR :: u16 where "IIC_PHY_ADDR = 0x56"
definition IIC_SFP_CHANNEL :: u8 where "IIC_SFP_CHANNEL = 0x01"

fun phy_writes :: "i2c_bus \<Rightarrow> (u8 \<times> u16) list \<Rightarrow> xiic_lib \<Rightarrow> xiic_lib option" where
  "phy_writes bus [] lib = Some lib"
| "phy_writes bus ((Reg, Data) # ws) lib =
     (case I2cPhyWrite bus Reg Data IIC_PHY_ADDR lib of None \<Rightarrow> None | Some (_, lib) \<Rightarrow> phy_writes bus ws lib)"

definition sfp_writes_1 :: "bool \<Rightarrow> (u8 \<times> u16) list" where
  "sfp_writes_1 basex = [(0x1B, if basex then 0x9088 else 0x9084), (0x00, 0x9140), (0x09, 0x0E00), (0x00, 0x9140), (0x04, 0x0141),
     (0x00, 0x9140), (0x00, 0x9140), (0x10, 0xF079), (0x00, 0x9140), (0x16, 0x0001), (0x00, 0x9140), (0x00, 0x9340), (0x16, 0x0)]"

definition sfp_writes_2 :: "(u8 \<times> u16) list" where
  "sfp_writes_2 = [(0x16, 0x0001), (0x14, 0x0c61), (0x00, 0x9340), (0x16, 0x0)]"

text \<open>Waiting for the link: the result of the read is not looked at.\<close>

partial_function (option) sfp_poll :: "i2c_bus \<Rightarrow> u16 \<Rightarrow> xiic_lib \<Rightarrow> (u16 \<times> xiic_lib) option" where
  [code]: "sfp_poll bus phy_read_val lib =
     (if phy_read_val AND 0x0C00 = 0x0C00 then Some (phy_read_val, lib)
      else case I2cPhyRead bus 0x11 phy_read_val IIC_PHY_ADDR lib of
             None \<Rightarrow> None
           | Some (_, phy_read_val, lib) \<Rightarrow> sfp_poll bus phy_read_val lib)"

definition ZC706MuxInit :: "i2c_bus \<Rightarrow> xiic_lib \<Rightarrow> (xstatus \<times> xiic_lib) option" where
  "ZC706MuxInit bus lib =
     map_option (\<lambda>(st, lib). (if st \<noteq> XST_SUCCESS then XST_FAILURE else XST_SUCCESS, lib))
       (I2cWriteData bus [IIC_SFP_CHANNEL] IIC_MUX_ADDRESS lib)"

definition ProgramSfpPhy :: "i2c_bus \<Rightarrow> i2c_setup \<Rightarrow> bool \<Rightarrow> xiic_lib \<Rightarrow> (xstatus \<times> xiic_lib) option" where
  "ProgramSfpPhy bus su basex lib =
     (let (st, lib) = I2cSetupHardware su lib in
      if st \<noteq> XST_SUCCESS then Some (XST_FAILURE, lib)
      else case ZC706MuxInit bus lib of None \<Rightarrow> None | Some (st, lib) \<Rightarrow>
           if st \<noteq> XST_SUCCESS then Some (XST_FAILURE, lib)
           else case I2cWriteData bus [0] IIC_PHY_ADDR lib of None \<Rightarrow> None | Some (st, lib) \<Rightarrow>
                if st \<noteq> XST_SUCCESS then Some (XST_FAILURE, lib)
                else case phy_writes bus (sfp_writes_1 basex) lib of None \<Rightarrow> None | Some lib \<Rightarrow>
                     (case sfp_poll bus 0 lib of None \<Rightarrow> None | Some (val, lib) \<Rightarrow>
                      case phy_writes bus [(0x16, 0x0)] lib of None \<Rightarrow> None | Some lib \<Rightarrow>
                      (case I2cPhyRead bus 0x11 val IIC_PHY_ADDR lib of None \<Rightarrow> None | Some (_, _, lib) \<Rightarrow>
                       map_option (\<lambda>lib. (XST_SUCCESS, lib)) (phy_writes bus sfp_writes_2 lib))))"

section \<open>Messages succeed or fail\<close>

text \<open>A bus on which every message is acknowledged: the status events around the completion are neither errors nor completions.\<close>

definition quiet_events :: "i2c_event list \<Rightarrow> bool" where
  "quiet_events evs \<longleftrightarrow> list_all (\<lambda>q. \<not> ev_complete_recv q \<and> \<not> ev_complete_send q \<and> ev_slave_rdy q) evs"

definition reply_ok :: "i2c_msg \<Rightarrow> i2c_reply \<Rightarrow> bool" where
  "reply_ok m reply \<longleftrightarrow> rp_idle reply \<and>
     (\<exists>quiet ev rest. rp_events reply = quiet @ ev # rest \<and>
        quiet_events quiet \<and> quiet_events rest \<and>
        (case m of Send _ _ \<Rightarrow> ev_complete_send ev \<and> \<not> ev_complete_recv ev | Recv _ _ \<Rightarrow> ev_complete_recv ev))"

declare wait_flag.simps [simp del]

lemma wait_flag_Cons:
  "\<not> flag lib \<Longrightarrow> TotalErrorCount lib = 0 \<Longrightarrow> wait_flag flag (ev # evs) lib = wait_flag flag evs (StatusHandler ev lib)"
  "flag lib \<Longrightarrow> wait_flag flag evs lib = Some (XST_SUCCESS, evs, lib)"
  "\<not> flag lib \<Longrightarrow> TotalErrorCount lib \<noteq> 0 \<Longrightarrow> wait_flag flag evs lib = Some (XST_FAILURE, evs, lib)"
  by (simp_all add: wait_flag.simps [of flag _ lib])

lemma quiet_fold: "quiet_events evs \<Longrightarrow> fold StatusHandler evs lib = lib"
  by (induction evs arbitrary: lib) (simp_all add: quiet_events_def StatusHandler_def)

lemma wait_flag_quiet:
  "quiet_events quiet \<Longrightarrow> TotalErrorCount lib = 0 \<Longrightarrow> \<not> flag lib \<Longrightarrow> wait_flag flag (quiet @ evs) lib = wait_flag flag evs lib"
proof (induction quiet)
  case (Cons q quiet)
  have q: "StatusHandler q lib = lib" using Cons.prems(1) by (simp add: StatusHandler_def quiet_events_def)
  have "wait_flag flag ((q # quiet) @ evs) lib = wait_flag flag (quiet @ evs) (StatusHandler q lib)"
    using wait_flag_Cons(1) [of flag lib q "quiet @ evs"] Cons.prems(2,3) by simp
  also have "\<dots> = wait_flag flag evs lib"
    unfolding q by (rule Cons.IH) (use Cons.prems in \<open>auto simp: quiet_events_def\<close>)
  finally show ?case .
qed simp

lemma I2cWriteData_ok:
  assumes "reply_ok (Send a bs) (bus (bus_log lib) (Send a bs))" and "TotalErrorCount lib = 0"
  shows "I2cWriteData bus bs a lib = Some (XST_SUCCESS, lib\<lparr>TransmitComplete := True, bus_log := bus_log lib @ [Send a bs]\<rparr>)"
proof -
  obtain quiet ev rest where r: "rp_events (bus (bus_log lib) (Send a bs)) = quiet @ ev # rest" "rp_idle (bus (bus_log lib) (Send a bs))"
    and q: "quiet_events quiet" "quiet_events rest"
    and ev: "ev_complete_send ev" "\<not> ev_complete_recv ev"
    using assms(1) by (auto simp: reply_ok_def)
  show ?thesis
    using r ev assms(2) wait_flag_quiet [OF q(1), of _ TransmitComplete "ev # rest"]
    by (simp add: I2cWriteData_def wait_flag_Cons StatusHandler_def [of ev] quiet_fold [OF q(2)])
qed

text \<open>Once an error was counted, every message is taken for failed, whatever happens on the bus.\<close>

lemma I2cWriteData_error:
  assumes "TotalErrorCount lib \<noteq> 0"
  shows "I2cWriteData bus bs a lib = Some (XST_FAILURE, fold StatusHandler (rp_events (bus (bus_log lib) (Send a bs)))
      (lib\<lparr>TransmitComplete := False, bus_log := bus_log lib @ [Send a bs]\<rparr>))"
  using assms by (simp add: I2cWriteData_def wait_flag_Cons)

lemma StatusHandler_log [simp]: "bus_log (StatusHandler ev lib) = bus_log lib"
  by (simp add: StatusHandler_def)

lemma fold_StatusHandler_log [simp]: "bus_log (fold StatusHandler evs lib) = bus_log lib"
  by (induction evs arbitrary: lib) simp_all

definition no_errors :: "i2c_event list \<Rightarrow> bool" where
  "no_errors evs \<longleftrightarrow> list_all (\<lambda>q. ev_complete_recv q \<or> ev_complete_send q \<or> ev_slave_rdy q) evs"

lemma no_errors_fold: "no_errors evs \<Longrightarrow> TotalErrorCount (fold StatusHandler evs lib) = TotalErrorCount lib"
  by (induction evs arbitrary: lib) (auto simp: no_errors_def StatusHandler_def)

lemma wait_flag_code: "wait_flag flag evs lib = Some (st, late, lib') \<Longrightarrow> st = XST_SUCCESS \<or> st = XST_FAILURE"
  by (induction flag evs lib rule: wait_flag.induct) (subst (asm) (2) wait_flag.simps, auto split: if_splits list.splits)

lemma wait_flag_log: "wait_flag flag evs lib = Some (st, late, lib') \<Longrightarrow> bus_log lib' = bus_log lib"
  by (induction flag evs lib rule: wait_flag.induct)
    (subst (asm) (2) wait_flag.simps, auto split: if_splits list.splits)

lemma I2cWriteData_cases:
  assumes "I2cWriteData bus bs a lib = Some (st, lib')"
  shows "bus_log lib' = bus_log lib @ [Send a bs] \<and> (st = XST_SUCCESS \<or> st = XST_FAILURE)"
proof -
  define lib0 where "lib0 = lib\<lparr>TransmitComplete := False, bus_log := bus_log lib @ [Send a bs]\<rparr>"
  obtain late lib1 where w: "wait_flag TransmitComplete (rp_events (bus (bus_log lib) (Send a bs))) lib0 = Some (st, late, lib1)"
    and lib': "lib' = fold StatusHandler late lib1"
    using assms by (auto simp: I2cWriteData_def Let_def lib0_def split: option.splits if_splits)
  show ?thesis using wait_flag_log [OF w] wait_flag_code [OF w] by (simp add: lib' lib0_def)
qed

section \<open>Programming the clock generator\<close>

definition si_messages :: "(u32 \<times> u32) list \<Rightarrow> i2c_msg list" where
  "si_messages tbl = map (\<lambda>(RegIndex, Value). Send IIC_SI_ADDR [ucast RegIndex, ucast Value]) tbl"

lemma program_loop_ok:
  "(\<forall>log m. reply_ok m (bus log m)) \<Longrightarrow> TotalErrorCount lib = 0 \<Longrightarrow>
   \<exists>lib'. program_loop bus tbl lib = Some (XST_SUCCESS, lib')"
proof (induction bus tbl lib rule: program_loop.induct)
  case (2 bus RegIndex Value tbl lib)
  then show ?case using I2cWriteData_ok [of IIC_SI_ADDR "[ucast RegIndex, ucast Value]" bus lib] by simp
qed simp

lemma program_loop_prefix:
  "program_loop bus tbl lib = Some (st, lib') \<Longrightarrow>
   \<exists>n. bus_log lib' = bus_log lib @ take n (si_messages tbl) \<and> (st = XST_FAILURE \<or> st = XST_SUCCESS \<and> length tbl \<le> n)"
proof (induction bus tbl lib rule: program_loop.induct)
  case (2 bus RegIndex Value tbl lib)
  then obtain st1 lib1 where w: "I2cWriteData bus [ucast RegIndex, ucast Value] IIC_SI_ADDR lib = Some (st1, lib1)"
    by (auto split: option.splits)
  note log = I2cWriteData_cases [OF w]
  show ?case
  proof (cases "st1 = XST_SUCCESS")
    case True
    then have "program_loop bus tbl lib1 = Some (st, lib')" using 2(2) w by simp
    from 2(1) [OF w refl _ this] True obtain n where "bus_log lib' = bus_log lib1 @ take n (si_messages tbl)"
      "st = XST_FAILURE \<or> st = XST_SUCCESS \<and> length tbl \<le> n" by auto
    then show ?thesis using log by (intro exI [of _ "Suc n"]) (auto simp: si_messages_def)
  next
    case False
    then show ?thesis using 2 w log by (intro exI [of _ "1::nat"]) (auto simp: si_messages_def)
  qed
qed (auto intro: exI [of _ 0] simp: si_messages_def)

lemma I2cSetupHardware_cases:
  "I2cSetupHardware su lib = (st, lib') \<Longrightarrow> bus_log lib' = bus_log lib \<and>
   (st = XST_SUCCESS \<and> TotalErrorCount lib' = 0 \<or> st = XST_FAILURE)"
  by (auto simp: I2cSetupHardware_def split: if_splits)

text \<open>
  C32. Programming the clock generator sends, after the channel of the multiplexer is selected, the registers of the table
  in order: whatever the bus does, what has been sent is a prefix of that sequence, and success is reported only when all of it
  was sent. On a bus that acknowledges every message it succeeds.
\<close>

theorem ProgramSi5324_sends_table:
  assumes "su_config su" and "su_init su = XST_SUCCESS" and "SetupInterruptSystem su = XST_SUCCESS"
  shows "(ProgramSi5324 bus su tbl lib = Some (st, lib') \<longrightarrow>
       (\<exists>n. bus_log lib' = bus_log lib @ take n (Send IIC_MUX_ADDRESS [IIC_CHANNEL_ADDRESS] # si_messages tbl) \<and>
          (st = XST_FAILURE \<or> st = XST_SUCCESS \<and> Suc (length tbl) \<le> n))) \<and>
     ((\<forall>log m. reply_ok m (bus log m)) \<longrightarrow> (\<exists>lib'. ProgramSi5324 bus su tbl lib = Some (XST_SUCCESS, lib') \<and>
          bus_log lib' = bus_log lib @ Send IIC_MUX_ADDRESS [IIC_CHANNEL_ADDRESS] # si_messages tbl))"
proof -
  define lib0 where "lib0 = lib\<lparr>TotalErrorCount := 0, TransmitComplete := False, ReceiveComplete := False\<rparr>"
  have su: "I2cSetupHardware su lib = (XST_SUCCESS, lib0)" using assms by (simp add: I2cSetupHardware_def lib0_def)
  have lib0: "bus_log lib0 = bus_log lib" "TotalErrorCount lib0 = 0" by (simp_all add: lib0_def)
  have prefix: "\<exists>n. bus_log lib'' = bus_log lib @ take n (Send IIC_MUX_ADDRESS [IIC_CHANNEL_ADDRESS] # si_messages tbl) \<and>
     (st'' = XST_FAILURE \<or> st'' = XST_SUCCESS \<and> Suc (length tbl) \<le> n)"
    if run: "ProgramSi5324 bus su tbl lib = Some (st'', lib'')" for st'' lib''
  proof -
    obtain st1 lib1 where w: "I2cWriteData bus [IIC_CHANNEL_ADDRESS] IIC_MUX_ADDRESS lib0 = Some (st1, lib1)"
      using run su by (auto simp: ProgramSi5324_def MuxInit_def split: option.splits)
    note log = I2cWriteData_cases [OF w]
    show ?thesis
    proof (cases "st1 = XST_SUCCESS")
      case True
      then have "program_loop bus tbl lib1 = Some (st'', lib'')" using run su w by (simp add: ProgramSi5324_def MuxInit_def)
      from program_loop_prefix [OF this] obtain n where "bus_log lib'' = bus_log lib1 @ take n (si_messages tbl)"
        "st'' = XST_FAILURE \<or> st'' = XST_SUCCESS \<and> length tbl \<le> n" by auto
      then show ?thesis using log lib0 by (intro exI [of _ "Suc n"]) auto
    next
      case False
      then show ?thesis using run su w log lib0
        by (intro exI [of _ "1::nat"]) (auto simp: ProgramSi5324_def MuxInit_def)
    qed
  qed
  have good: "\<exists>lib'. ProgramSi5324 bus su tbl lib = Some (XST_SUCCESS, lib')" if b: "\<forall>log m. reply_ok m (bus log m)"
    using I2cWriteData_ok [of IIC_MUX_ADDRESS "[IIC_CHANNEL_ADDRESS]" bus lib0] b lib0 su
      program_loop_ok [OF b, of "lib0\<lparr>TransmitComplete := True, bus_log := bus_log lib0 @ [Send IIC_MUX_ADDRESS [IIC_CHANNEL_ADDRESS]]\<rparr>" tbl]
    by (auto simp: ProgramSi5324_def MuxInit_def)
  show ?thesis
  proof (intro conjI impI)
    assume "\<forall>log m. reply_ok m (bus log m)"
    from good [OF this] obtain lib' where r: "ProgramSi5324 bus su tbl lib = Some (XST_SUCCESS, lib')" ..
    from prefix [OF r] r show "\<exists>lib'. ProgramSi5324 bus su tbl lib = Some (XST_SUCCESS, lib') \<and>
          bus_log lib' = bus_log lib @ Send IIC_MUX_ADDRESS [IIC_CHANNEL_ADDRESS] # si_messages tbl"
      by (auto simp: si_messages_def)
  qed (use prefix in blast)
qed

definition ack_bus :: i2c_bus where
  "ack_bus log m = \<lparr>rp_events = [\<lparr>ev_complete_recv = (case m of Send _ _ \<Rightarrow> False | Recv _ _ \<Rightarrow> True), ev_complete_send = True, ev_slave_rdy = False\<rparr>],
     rp_data = [0x12, 0x34], rp_idle = True\<rparr>"

definition good_setup :: i2c_setup where
  "good_setup = \<lparr>su_config = True, su_init = XST_SUCCESS, su_gic_config = True, su_gic_init = XST_SUCCESS, su_connect = XST_SUCCESS\<rparr>"

definition fresh_lib :: xiic_lib where
  "fresh_lib = \<lparr>TransmitComplete = False, ReceiveComplete = False, TotalErrorCount = 0, bus_log = []\<rparr>"

theorem ProgramSi5324_sends_table_witness:
  "\<exists>lib'. ProgramSi5324 ack_bus good_setup InitTable_1ge fresh_lib = Some (XST_SUCCESS, lib') \<and>
     length (bus_log lib') = 44 \<and> bus_log lib' ! 1 = Send IIC_SI_ADDR [0, 0x54] \<and> bus_log lib' ! 43 = Send IIC_SI_ADDR [136, 0x40]"
proof -
  have b: "\<forall>log m. reply_ok m (ack_bus log m)"
    by (auto simp: reply_ok_def ack_bus_def quiet_events_def intro!: exI [of _ "[]"] split: i2c_msg.splits)
  have s: "su_config good_setup" "su_init good_setup = XST_SUCCESS" "SetupInterruptSystem good_setup = XST_SUCCESS"
    by (simp_all add: good_setup_def SetupInterruptSystem_def)
  obtain lib' where r: "ProgramSi5324 ack_bus good_setup InitTable_1ge fresh_lib = Some (XST_SUCCESS, lib')"
    and l: "bus_log lib' = bus_log fresh_lib @ Send IIC_MUX_ADDRESS [IIC_CHANNEL_ADDRESS] # si_messages InitTable_1ge"
    using ProgramSi5324_sends_table [OF s, of ack_bus InitTable_1ge fresh_lib XST_SUCCESS fresh_lib] b by blast
  have "length (bus_log lib') = 44" "bus_log lib' ! 1 = Send IIC_SI_ADDR [0, 0x54]" "bus_log lib' ! 43 = Send IIC_SI_ADDR [136, 0x40]"
    unfolding l by (simp_all add: si_messages_def InitTable_1ge_def fresh_lib_def)
  with r show ?thesis by blast
qed

section \<open>Errors stay\<close>

text \<open>A bus that reports no error once the messages of a given log have been exchanged.\<close>

definition healthy_after :: "nat \<Rightarrow> i2c_bus \<Rightarrow> bool" where
  "healthy_after n bus \<longleftrightarrow> (\<forall>log m. n \<le> length log \<longrightarrow> no_errors (rp_events (bus log m)))"

lemma I2cPhyRead_error:
  assumes "TotalErrorCount lib \<noteq> 0" and "healthy_after n bus" and "n \<le> length (bus_log lib)"
  shows "\<exists>lib'. I2cPhyRead bus Reg Data a lib = Some (XST_FAILURE, Data, lib') \<and> TotalErrorCount lib' = TotalErrorCount lib \<and>
     n \<le> length (bus_log lib')"
  using assms by (simp add: I2cPhyRead_def I2cWriteData_error no_errors_fold healthy_after_def)

lemma sfp_poll_stuck_aux:
  "sfp_poll bus v lib = Some y \<Longrightarrow>
   healthy_after n bus \<Longrightarrow> n \<le> length (bus_log lib) \<Longrightarrow> v AND 0x0C00 = 0x0C00 \<or> TotalErrorCount lib = 0"
proof (rule sfp_poll.raw_induct [where P = "\<lambda>bus v lib y. healthy_after n bus \<longrightarrow> n \<le> length (bus_log lib) \<longrightarrow>
    v AND 0x0C00 = 0x0C00 \<or> TotalErrorCount lib = 0", THEN mp, THEN mp], goal_cases)
  case (1 poll bus v lib y)
  show ?case
  proof (intro impI, rule ccontr)
    assume h: "healthy_after n bus" "n \<le> length (bus_log lib)" and n: "\<not> (v AND 0x0C00 = 0x0C00 \<or> TotalErrorCount lib = 0)"
    with I2cPhyRead_error [of lib n bus "0x11" v IIC_PHY_ADDR] obtain lib' where
      r: "I2cPhyRead bus 0x11 v IIC_PHY_ADDR lib = Some (XST_FAILURE, v, lib')" "TotalErrorCount lib' = TotalErrorCount lib"
        "n \<le> length (bus_log lib')" by blast
    then have "poll bus v lib' = Some y" using 1(5) n by simp
    from 1(4) [OF this] h n r(2,3) show False by simp
  qed
qed

text \<open>
  C40. One error on the bus while the module is configured is never reported: the error count is not reset, so every later message is
  taken for failed although the bus works again, the value of the link status is never assigned, and the program waits for the
  link for ever.
\<close>

theorem ProgramSfpPhy_error_hangs:
  assumes "su_config su" and "su_init su = XST_SUCCESS" and "SetupInterruptSystem su = XST_SUCCESS"
    and "lib0 = lib\<lparr>TotalErrorCount := 0, TransmitComplete := False, ReceiveComplete := False\<rparr>"
    and "ZC706MuxInit bus lib0 = Some (XST_SUCCESS, lib1)" and "I2cWriteData bus [0] IIC_PHY_ADDR lib1 = Some (XST_SUCCESS, lib2)"
    and "phy_writes bus (sfp_writes_1 basex) lib2 = Some lib3" and "TotalErrorCount lib3 \<noteq> 0"
    and "healthy_after (length (bus_log lib3)) bus"
  shows "ProgramSfpPhy bus su basex lib = None"
proof -
  have "I2cSetupHardware su lib = (XST_SUCCESS, lib0)" using assms(1-4) by (simp add: I2cSetupHardware_def)
  moreover have "sfp_poll bus 0 lib3 = None"
    using sfp_poll_stuck_aux [of bus 0 lib3] assms(8,9) by (cases "sfp_poll bus 0 lib3") auto
  ultimately show ?thesis using assms(5-7) by (simp add: ProgramSfpPhy_def)
qed

text \<open>A bus on which the third message fails and all others are acknowledged.\<close>

definition failing_bus :: i2c_bus where
  "failing_bus log m = (if length log = 2
     then \<lparr>rp_events = [\<lparr>ev_complete_recv = False, ev_complete_send = False, ev_slave_rdy = False\<rparr>], rp_data = [], rp_idle = True\<rparr>
     else ack_bus log m)"

lemma failing_bus_healthy: "3 \<le> n \<Longrightarrow> healthy_after n failing_bus"
  by (auto simp: healthy_after_def failing_bus_def ack_bus_def no_errors_def split: i2c_msg.splits)

lemma failing_write_first:
  assumes "length (bus_log lib) = 2" and "TotalErrorCount lib = 0"
  shows "\<exists>lib'. I2cWriteData failing_bus bs a lib = Some (XST_FAILURE, lib') \<and> TotalErrorCount lib' = 1 \<and> 3 \<le> length (bus_log lib')"
  using assms by (simp add: I2cWriteData_def failing_bus_def wait_flag_Cons StatusHandler_def)

lemma failing_phy_writes:
  "3 \<le> length (bus_log lib) \<Longrightarrow> TotalErrorCount lib = 1 \<Longrightarrow>
   \<exists>lib'. phy_writes failing_bus ws lib = Some lib' \<and> TotalErrorCount lib' = 1 \<and> 3 \<le> length (bus_log lib')"
proof (induction ws arbitrary: lib)
  case (Cons x ws)
  obtain Reg Data where x: "x = (Reg, Data)" by (metis surj_pair)
  have "no_errors (rp_events (failing_bus (bus_log lib) m))" for m
    using failing_bus_healthy [of 3] Cons.prems(1) by (simp add: healthy_after_def)
  then obtain lib1 where "I2cPhyWrite failing_bus Reg Data IIC_PHY_ADDR lib = Some (XST_FAILURE, lib1)"
    "TotalErrorCount lib1 = 1" "3 \<le> length (bus_log lib1)"
    using Cons.prems by (simp add: I2cPhyWrite_def I2cWriteData_error no_errors_fold)
  with Cons.IH [of lib1] show ?case by (auto simp: x)
qed simp

theorem ProgramSfpPhy_error_hangs_witness:
  "ProgramSfpPhy failing_bus good_setup False fresh_lib = None"
proof -
  let ?m = "Send IIC_MUX_ADDRESS [IIC_SFP_CHANNEL]" and ?s = "Send IIC_PHY_ADDR [0]"
  define lib1 where "lib1 = fresh_lib\<lparr>TransmitComplete := True, bus_log := [?m]\<rparr>"
  define lib2 where "lib2 = fresh_lib\<lparr>TransmitComplete := True, bus_log := [?m, ?s]\<rparr>"
  have s: "su_config good_setup" "su_init good_setup = XST_SUCCESS" "SetupInterruptSystem good_setup = XST_SUCCESS"
    by (simp_all add: good_setup_def SetupInterruptSystem_def)
  have f: "fresh_lib = fresh_lib\<lparr>TotalErrorCount := 0, TransmitComplete := False, ReceiveComplete := False\<rparr>" by (simp add: fresh_lib_def)
  have ok: "reply_ok (Send a bs) (ack_bus log (Send a bs))" for a bs log
    by (auto simp: reply_ok_def ack_bus_def quiet_events_def intro!: exI [of _ "[]"])
  have "reply_ok ?m (failing_bus (bus_log fresh_lib) ?m)" using ok by (simp add: failing_bus_def fresh_lib_def)
  then have 1: "ZC706MuxInit failing_bus fresh_lib = Some (XST_SUCCESS, lib1)"
    using I2cWriteData_ok [of IIC_MUX_ADDRESS "[IIC_SFP_CHANNEL]" failing_bus fresh_lib]
    by (simp add: ZC706MuxInit_def fresh_lib_def lib1_def)
  have "reply_ok ?s (failing_bus (bus_log lib1) ?s)" using ok by (simp add: failing_bus_def lib1_def)
  then have 2: "I2cWriteData failing_bus [0] IIC_PHY_ADDR lib1 = Some (XST_SUCCESS, lib2)"
    using I2cWriteData_ok [of IIC_PHY_ADDR "[0]" failing_bus lib1] by (simp add: fresh_lib_def lib1_def lib2_def)
  have l2: "length (bus_log lib2) = 2" "TotalErrorCount lib2 = 0" by (simp_all add: lib2_def fresh_lib_def)
  obtain Reg Data ws where ws: "sfp_writes_1 False = (Reg, Data) # ws" by (simp add: sfp_writes_1_def)
  from failing_write_first [OF l2] obtain lib' where
    l': "I2cPhyWrite failing_bus Reg Data IIC_PHY_ADDR lib2 = Some (XST_FAILURE, lib')" "TotalErrorCount lib' = 1" "3 \<le> length (bus_log lib')"
    by (fastforce simp: I2cPhyWrite_def)
  from failing_phy_writes [OF l'(3,2), of ws] l'(1) obtain lib3 where
    3: "phy_writes failing_bus (sfp_writes_1 False) lib2 = Some lib3" "TotalErrorCount lib3 = 1" "3 \<le> length (bus_log lib3)"
    by (auto simp: ws)
  have 4: "TotalErrorCount lib3 \<noteq> 0" using 3(2) by simp
  show ?thesis by (rule ProgramSfpPhy_error_hangs [OF s f 1 2 3(1) 4 failing_bus_healthy [OF 3(3)]])
qed

end
