(* ===== verification/Fw_Net.thy ===== *)
theory Fw_Net
  imports Fw_Udp Fw_I2c "HOL-Library.Sublist"
begin

text \<open>
  The programs of the UDP clients around their main loops: the set-up of timer and interrupts on the three platforms
  (\<^verbatim>\<open>platform_zynq.c\<close>, \<^verbatim>\<open>platform_zynqmp.c\<close>, \<^verbatim>\<open>platform.c\<close> and \<^verbatim>\<open>platform_mb.c\<close>), the reset of the Ethernet PHY
  (\<^verbatim>\<open>iic_phyreset.c\<close>), waiting for an address from DHCP and the loop of \<^verbatim>\<open>main.c\<close>, and the set-up of the client that
  asks for a file (\<^verbatim>\<open>udp_1ge_client.c\<close> with its \<^verbatim>\<open>main.c\<close>). The vendor's drivers and the network stack are parameters; what they
  are asked for is logged in order. Timer interrupts arrive between and during the steps of the main loop, as
  many as the environment wants.
\<close>

section \<open>Setting up timer and interrupts\<close>

datatype plat_call =
    TimerInit | TimerSelfTest | TimerAutoReload | TimerLoad u32
  | TtcOptions | TtcCalcInterval u32 | TtcSetInterval | TtcSetPrescaler
  | ExceptionInit | GicInit | ExceptionRegister | GicRegisterTimer | GicEnableTimer
  | ExceptionEnable | TimerIrqEnable | TimerStart

text \<open>Whether the timer's configuration is found, the results of its initialisation and self test, and the clock of the processor.\<close>

record timer_services =
  tv_config :: bool
  tv_init :: xstatus
  tv_selftest :: xstatus
  tv_clk :: u32

text \<open>The configuration is dereferenced without a test: without one the program does not get further.\<close>

definition platform_setup_timer :: "timer_services \<Rightarrow> plat_call list \<Rightarrow> plat_call list option" where
  "platform_setup_timer tv log =
     (if \<not> tv_config tv then None
      else let log = log @ [TimerInit]
           in if tv_init tv \<noteq> XST_SUCCESS then Some log
              else let log = log @ [TimerSelfTest]
                   in if tv_selftest tv \<noteq> XST_SUCCESS then Some log
                      else Some (log @ [TimerAutoReload, TimerLoad (tv_clk tv div 8)]))"

definition platform_setup_interrupts :: "plat_call list \<Rightarrow> plat_call list" where
  "platform_setup_interrupts log = log @ [ExceptionInit, GicInit, ExceptionRegister, GicRegisterTimer, GicEnableTimer]"

definition platform_enable_interrupts :: "plat_call list \<Rightarrow> plat_call list" where
  "platform_enable_interrupts log = log @ [ExceptionEnable, TimerIrqEnable, TimerStart]"

definition init_platform :: "timer_services \<Rightarrow> plat_call list \<Rightarrow> plat_call list option" where
  "init_platform tv log = map_option platform_setup_interrupts (platform_setup_timer tv log)"

text \<open>The client that asks for a file starts the timer at once.\<close>

definition init_platform_1ge :: "timer_services \<Rightarrow> plat_call list \<Rightarrow> plat_call list option" where
  "init_platform_1ge tv log = map_option (platform_enable_interrupts \<circ> platform_setup_interrupts) (platform_setup_timer tv log)"

text \<open>The triple timer counter of the ZynqMP.\<close>

definition PLATFORM_TIMER_INTR_RATE_HZ :: u32 where "PLATFORM_TIMER_INTR_RATE_HZ = 4"

definition zynqmp_setup_timer :: "timer_services \<Rightarrow> plat_call list \<Rightarrow> plat_call list option" where
  "zynqmp_setup_timer tv log =
     (if \<not> tv_config tv then None
      else let log = log @ [TimerInit]
           in if tv_init tv \<noteq> XST_SUCCESS then Some log
              else Some (log @ [TtcOptions, TtcCalcInterval PLATFORM_TIMER_INTR_RATE_HZ, TtcSetInterval, TtcSetPrescaler]))"

definition zynqmp_enable_interrupts :: "plat_call list \<Rightarrow> plat_call list" where
  "zynqmp_enable_interrupts log = log @ [ExceptionEnable, GicEnableTimer, TimerIrqEnable, TimerStart]"

definition zynqmp_init_platform :: "timer_services \<Rightarrow> plat_call list \<Rightarrow> plat_call list option" where
  "zynqmp_init_platform tv log = map_option platform_setup_interrupts (zynqmp_setup_timer tv log)"

section \<open>The timer interrupt on the other platforms\<close>

text \<open>The status of the timer is read and what is set in it is written back.\<close>

definition platform_clear_interrupt :: "timer_state \<Rightarrow> timer_state" where
  "platform_clear_interrupt s = log_timer ClearInterrupt s"

definition zynqmp_timer_callback :: "bool \<Rightarrow> timer_state \<Rightarrow> timer_state" where
  "zynqmp_timer_callback dhcp s =
     (let s = s\<lparr>TcpFastTmrFlag := True, odd_tick := \<not> odd_tick s\<rparr>;
          s = (if odd_tick s then slow_tick dhcp s else s)
      in platform_clear_interrupt s)"

text \<open>
  The MicroBlaze counts its interrupts and serves the timers every 25th time. Its handler loads the timer again,
  starts it and acknowledges the interrupt.
\<close>

datatype csr_flag = CSR_INT_OCCURED | CSR_LOAD | CSR_ENABLE_TMR | CSR_ENABLE_INT | CSR_AUTO_RELOAD | CSR_DOWN_COUNT

datatype mb_call = MbControl "csr_flag list" | MbAck

record mb_timer =
  mb_core :: timer_state
  tickcntr :: u64
  mb_log :: "mb_call list"

definition mb_timer_callback :: "bool \<Rightarrow> mb_timer \<Rightarrow> mb_timer" where
  "mb_timer_callback dhcp m =
     (let m = m\<lparr>tickcntr := tickcntr m + 1\<rparr>
      in if tickcntr m mod 25 = 0
         then let s = mb_core m;
                  s = s\<lparr>TcpFastTmrFlag := True, odd_tick := \<not> odd_tick s\<rparr>
              in m\<lparr>mb_core := if odd_tick s then slow_tick dhcp s else s\<rparr>
         else m)"

definition xadapter_timer_handler :: "bool \<Rightarrow> mb_timer \<Rightarrow> mb_timer" where
  "xadapter_timer_handler dhcp m =
     (let m = mb_timer_callback dhcp m
      in m\<lparr>mb_log := mb_log m @ [MbControl [CSR_INT_OCCURED, CSR_LOAD],
             MbControl [CSR_ENABLE_TMR, CSR_ENABLE_INT, CSR_AUTO_RELOAD, CSR_DOWN_COUNT], MbAck]\<rparr>)"

definition mb_get_time_ms :: "mb_timer \<Rightarrow> u64" where
  "mb_get_time_ms m = tickcntr m * 10"

text \<open>
  In the client that asks for a file the workaround for the receive path is commented out, and its counter goes on for
  ever.
\<close>

definition timer_callback_1ge :: "bool \<Rightarrow> bool \<Rightarrow> timer_state \<Rightarrow> timer_state" where
  "timer_callback_1ge dhcp softeth s =
     (let s = s\<lparr>TcpFastTmrFlag := True, odd_tick := \<not> odd_tick s\<rparr>;
          s = (if softeth then s else s\<lparr>ResetRxCntr := ResetRxCntr s + 1\<rparr>);
          s = (if odd_tick s then slow_tick dhcp s else s)
      in log_timer ClearInterrupt s)"

text \<open>The timers of the stack, without what the platform does for its own hardware.\<close>

definition net_tick :: "bool \<Rightarrow> timer_state \<Rightarrow> timer_state" where
  "net_tick dhcp s =
     (let s = s\<lparr>TcpFastTmrFlag := True, odd_tick := \<not> odd_tick s\<rparr>
      in if odd_tick s then slow_tick dhcp s else s)"

lemma zynqmp_callback_zynq: "zynqmp_timer_callback dhcp = timer_callback dhcp True"
  by (rule ext) (simp add: zynqmp_timer_callback_def timer_callback_def platform_clear_interrupt_def Let_def)

lemma callback_1ge_zynq: "timer_callback_1ge dhcp True = timer_callback dhcp True"
  by (rule ext) (simp add: timer_callback_1ge_def timer_callback_def Let_def)

lemma mb_callback_tick:
  "mb_core (xadapter_timer_handler dhcp m) = (if (tickcntr m + 1) mod 25 = 0 then net_tick dhcp (mb_core m) else mb_core m)"
  "tickcntr (xadapter_timer_handler dhcp m) = tickcntr m + 1"
  by (simp_all add: xadapter_timer_handler_def mb_timer_callback_def net_tick_def Let_def)

lemma u64_mod: "n < 2 ^ 64 \<Longrightarrow> k < 2 ^ 64 \<Longrightarrow> (of_nat n :: u64) mod of_nat k = 0 \<longleftrightarrow> n mod k = 0"
  by (simp add: unat_mod_distrib unat_of_nat take_bit_nat_eq_self flip: unat_eq_0)

definition mb_boot :: mb_timer where
  "mb_boot = \<lparr>mb_core = timer_boot, tickcntr = 0, mb_log = []\<rparr>"



section \<open>Waiting for an address\<close>

record netif_state =
  ip_addr :: u32
  netmask :: u32
  gw :: u32

text \<open>The parser of addresses returns 0 and leaves its argument alone when the string is not an address.\<close>

type_synonym aton = "string \<Rightarrow> u32 option"

definition DEFAULT_IP_ADDRESS :: string where "DEFAULT_IP_ADDRESS = ''192.168.18.10''"
definition DEFAULT_IP_MASK :: string where "DEFAULT_IP_MASK = ''255.255.255.0''"
definition DEFAULT_GW_ADDRESS :: string where "DEFAULT_GW_ADDRESS = ''192.168.18.3''"

definition inet_aton :: "aton \<Rightarrow> string \<Rightarrow> u32 \<Rightarrow> u32" where
  "inet_aton aton cp old = (case aton cp of None \<Rightarrow> old | Some a \<Rightarrow> a)"

definition assign_default_ip :: "aton \<Rightarrow> netif_state \<Rightarrow> netif_state" where
  "assign_default_ip aton n =
     (let n = n\<lparr>ip_addr := inet_aton aton DEFAULT_IP_ADDRESS (ip_addr n)\<rparr>;
          n = n\<lparr>netmask := inet_aton aton DEFAULT_IP_MASK (netmask n)\<rparr>
      in n\<lparr>gw := inet_aton aton DEFAULT_GW_ADDRESS (gw n)\<rparr>)"

text \<open>
  What happens in each round of a loop that serves the interface: what the input does to the interface's addresses, and
  how many timer interrupts arrive.
\<close>

record net_env =
  ne_input :: "nat \<Rightarrow> netif_state \<Rightarrow> netif_state"
  ne_ticks :: "nat \<Rightarrow> nat"

partial_function (option) dhcp_wait ::
    "net_env \<Rightarrow> (timer_state \<Rightarrow> timer_state) \<Rightarrow> nat \<Rightarrow> netif_state \<Rightarrow> timer_state \<Rightarrow> (nat \<times> netif_state \<times> timer_state) option" where
  [code]: "dhcp_wait env cb i n s =
     (if ip_addr n = 0 \<and> 0 < sint (dhcp_timoutcntr s)
      then dhcp_wait env cb (Suc i) (ne_input env i n) ((cb ^^ ne_ticks env i) s)
      else Some (i, n, s))"

definition dhcp_or_default ::
    "aton \<Rightarrow> net_env \<Rightarrow> (timer_state \<Rightarrow> timer_state) \<Rightarrow> netif_state \<Rightarrow> timer_state \<Rightarrow> (nat \<times> netif_state \<times> timer_state) option" where
  "dhcp_or_default aton env cb n s =
     (case dhcp_wait env cb 0 n (s\<lparr>dhcp_timoutcntr := 24\<rparr>) of
        None \<Rightarrow> None
      | Some (i, n, s) \<Rightarrow>
          Some (i, if sint (dhcp_timoutcntr s) \<le> 0 \<and> ip_addr n = 0 then assign_default_ip aton n else n, s))"

text \<open>The round before which the wait has reached a state.\<close>

fun wait_state ::
    "net_env \<Rightarrow> (timer_state \<Rightarrow> timer_state) \<Rightarrow> netif_state \<Rightarrow> timer_state \<Rightarrow> nat \<Rightarrow> netif_state \<times> timer_state" where
  "wait_state env cb n s 0 = (n, s)"
| "wait_state env cb n s (Suc i) = (let (n, s) = wait_state env cb n s i in (ne_input env i n, (cb ^^ ne_ticks env i) s))"

lemma dhcp_wait_by:
  "wait_state env cb n s (i + m) = (n', s') \<Longrightarrow> ip_addr n' \<noteq> 0 \<or> sint (dhcp_timoutcntr s') \<le> 0 \<Longrightarrow>
   \<exists>j n'' s''. j \<le> i + m \<and> dhcp_wait env cb i (fst (wait_state env cb n s i)) (snd (wait_state env cb n s i)) = Some (j, n'', s'') \<and>
     wait_state env cb n s j = (n'', s'') \<and> (ip_addr n'' \<noteq> 0 \<or> sint (dhcp_timoutcntr s'') \<le> 0)"
proof (induction m arbitrary: i)
  case 0
  then show ?case by (subst dhcp_wait.simps) auto
next
  case (Suc m)
  let ?n = "fst (wait_state env cb n s i)" and ?s = "snd (wait_state env cb n s i)"
  show ?case
  proof (cases "ip_addr ?n = 0 \<and> 0 < sint (dhcp_timoutcntr ?s)")
    case True
    then have step: "dhcp_wait env cb i ?n ?s = dhcp_wait env cb (Suc i) (ne_input env i ?n) ((cb ^^ ne_ticks env i) ?s)"
      by (subst dhcp_wait.simps) simp
    have next_state: "wait_state env cb n s (Suc i) = (ne_input env i ?n, (cb ^^ ne_ticks env i) ?s)" by (simp split: prod.split)
    show ?thesis using Suc.IH [of "Suc i"] Suc.prems unfolding step next_state by simp
  next
    case False
    moreover obtain n1 s1 where "wait_state env cb n s i = (n1, s1)" by fastforce
    ultimately show ?thesis by (subst dhcp_wait.simps) auto
  qed
qed

text \<open>
  What the programs rely on in the timer interrupt of a platform: it raises the flag of the fast timer every time and the one of the
  slow timer every second time; where DHCP is built in it also counts the timeout down every second time.
\<close>

locale tcp_timer =
  fixes cb :: "timer_state \<Rightarrow> timer_state"
  assumes tick_odd: "odd_tick (cb s) = (\<not> odd_tick s)"
    and tick_fast: "TcpFastTmrFlag (cb s)"
    and tick_slow: "TcpSlowTmrFlag (cb s) \<longleftrightarrow> TcpSlowTmrFlag s \<or> \<not> odd_tick s"

locale dhcp_timer = tcp_timer +
  assumes tick_timeout: "dhcp_timoutcntr (cb s) = (if odd_tick s then dhcp_timoutcntr s else dhcp_timoutcntr s - 1)"

interpretation zynq_tcp: tcp_timer "timer_callback dhcp softeth" for dhcp softeth
  by unfold_locales (simp_all add: timer_callback_def slow_tick_def log_timer_def Let_def)

interpretation client_tcp: tcp_timer "timer_callback_1ge dhcp softeth" for dhcp softeth
  by unfold_locales (simp_all add: timer_callback_1ge_def slow_tick_def log_timer_def Let_def)

interpretation zynq_dhcp: dhcp_timer "timer_callback True softeth" for softeth
  by unfold_locales (simp add: timer_callback_def slow_tick_def log_timer_def Let_def)

interpretation zynqmp_dhcp: dhcp_timer "zynqmp_timer_callback True"
  unfolding zynqmp_callback_zynq by (rule zynq_dhcp.dhcp_timer_axioms)

definition odd_bit :: "timer_state \<Rightarrow> nat" where
  "odd_bit s = (if odd_tick s then 0 else 1)"

lemma wait_state_timer: "snd (wait_state env cb n s i) = (cb ^^ (\<Sum>j<i. ne_ticks env j)) s"
proof (induction i)
  case (Suc i)
  have "(cb ^^ ne_ticks env i) ((cb ^^ (\<Sum>j<i. ne_ticks env j)) s) = (cb ^^ ((\<Sum>j<i. ne_ticks env j) + ne_ticks env i)) s"
    by (simp add: add.commute [of "\<Sum>j<i. ne_ticks env j"] funpow_add)
  then show ?case using Suc by (simp add: split_beta)
qed simp

lemma timeout_elapsed:
  assumes "24 \<le> q" and "q < 2 ^ 31"
  shows "sint (24 - of_nat q :: s32) \<le> 0"
proof -
  have "(24 - of_nat q :: s32) = word_of_int (24 - int q)" by simp
  then have "sint (24 - of_nat q :: s32) = 24 - int q"
    using assms by (simp only: sint_sbintrunc') (rule signed_take_bit_int_eq_self, simp_all)
  then show ?thesis using assms by simp
qed

context dhcp_timer
begin

lemma callbacks_timeout:
  "odd_tick ((cb ^^ k) s) = even (k + odd_bit s)"
  "dhcp_timoutcntr ((cb ^^ k) s) = dhcp_timoutcntr s - of_nat ((k + odd_bit s) div 2)"
proof (induction k)
  case (Suc k)
  { case 1 then show ?case using Suc.IH by (simp add: tick_odd)
  next
    case 2
    have "Suc (k + odd_bit s) div 2 = (k + odd_bit s) div 2 + (if even (k + odd_bit s) then 0 else 1)"
      by (auto elim: evenE oddE)
    then show ?case using Suc.IH by (simp add: tick_timeout) }
qed (simp_all add: odd_bit_def)

lemma wait_returns:
  assumes ticks: "48 \<le> (\<Sum>j<N. ne_ticks env j)" "\<forall>j. ne_ticks env j < 2 ^ 31"
    and aton: "aton DEFAULT_IP_ADDRESS = Some a" "a \<noteq> 0"
  shows "\<exists>i n' s'. dhcp_or_default aton env cb n s = Some (i, n', s') \<and> i \<le> N \<and> ip_addr n' \<noteq> 0 \<and>
     (let m = fst (wait_state env cb n (s\<lparr>dhcp_timoutcntr := 24\<rparr>) i)
      in n' = (if ip_addr m \<noteq> 0 then m else assign_default_ip aton m))"
proof -
  let ?s = "s\<lparr>dhcp_timoutcntr := 24\<rparr>" and ?T = "\<lambda>i. \<Sum>j<i. ne_ticks env j"
  define k where "k = (LEAST k. 48 \<le> ?T k)"
  have k: "48 \<le> ?T k" unfolding k_def by (rule LeastI [where P = "\<lambda>k. 48 \<le> ?T k", OF ticks(1)])
  have le: "k \<le> N" unfolding k_def by (rule Least_le [where P = "\<lambda>k. 48 \<le> ?T k", OF ticks(1)])
  have "?T k < 48 + 2 ^ 31"
  proof (cases k)
    case (Suc k')
    then have "?T k' < 48" using not_less_Least [of k' "\<lambda>k. 48 \<le> ?T k"] unfolding k_def by auto
    moreover have "ne_ticks env k' < 2 ^ 31" using ticks(2) by blast
    ultimately show ?thesis using Suc by simp
  qed simp
  then have q: "24 \<le> (?T k + odd_bit ?s) div 2" "(?T k + odd_bit ?s) div 2 < 2 ^ 31"
    using k by (simp_all add: odd_bit_def div_less_iff_less_mult)
  obtain n1 s1 where w: "wait_state env cb n ?s (0 + k) = (n1, s1)" by fastforce
  then have "dhcp_timoutcntr s1 = 24 - of_nat ((?T k + odd_bit ?s) div 2)"
    using wait_state_timer [of env cb n ?s k] callbacks_timeout(2) [where s = ?s] by simp
  then have "sint (dhcp_timoutcntr s1) \<le> 0" using timeout_elapsed [OF q] by simp
  then obtain i n2 s2 where i: "i \<le> k" "dhcp_wait env cb 0 n ?s = Some (i, n2, s2)" "wait_state env cb n ?s i = (n2, s2)"
      "ip_addr n2 \<noteq> 0 \<or> sint (dhcp_timoutcntr s2) \<le> 0"
    using dhcp_wait_by [OF w] by auto
  then show ?thesis using le aton
    by (cases "ip_addr n2 = 0") (auto simp: dhcp_or_default_def assign_default_ip_def inet_aton_def Let_def)
qed

end

text \<open>
  C29. Waiting for DHCP ends, on the Zynq and on the ZynqMP. When 48 timer interrupts arrive during the first \<open>N\<close> rounds, whatever the
  network does, the wait is over after \<open>N\<close> rounds at the latest, and the interface has an address then: the one from DHCP or the
  default one.
\<close>

theorem dhcp_or_default_returns:
  assumes cb: "cb = timer_callback True softeth \<or> cb = zynqmp_timer_callback True"
    and ticks: "48 \<le> (\<Sum>j<N. ne_ticks env j)" "\<forall>j. ne_ticks env j < 2 ^ 31"
    and aton: "aton DEFAULT_IP_ADDRESS = Some a" "a \<noteq> 0"
  shows "\<exists>i n' s'. dhcp_or_default aton env cb n s = Some (i, n', s') \<and> i \<le> N \<and> ip_addr n' \<noteq> 0 \<and>
     (let m = fst (wait_state env cb n (s\<lparr>dhcp_timoutcntr := 24\<rparr>) i)
      in n' = (if ip_addr m \<noteq> 0 then m else assign_default_ip aton m))"
  using cb
proof
  show ?thesis if "cb = timer_callback True softeth"
    unfolding that by (rule zynq_dhcp.wait_returns) (use ticks aton in simp_all)
  show ?thesis if "cb = zynqmp_timer_callback True"
    unfolding that by (rule zynqmp_dhcp.wait_returns) (use ticks aton in simp_all)
qed

text \<open>A network without a DHCP server, and one whose server answers in the third round.\<close>

definition silent_net :: net_env where
  "silent_net = \<lparr>ne_input = \<lambda>_ n. n, ne_ticks = \<lambda>_. 1\<rparr>"

definition no_addresses :: netif_state where
  "no_addresses = \<lparr>ip_addr = 0, netmask = 0, gw = 0\<rparr>"

definition board_aton :: aton where
  "board_aton = [''192.168.18.10'' \<mapsto> 0x0A12A8C0, ''255.255.255.0'' \<mapsto> 0x00FFFFFF, ''192.168.18.3'' \<mapsto> 0x0312A8C0]"

theorem dhcp_or_default_returns_witness:
  "\<exists>i s'. i \<le> 48 \<and> dhcp_or_default board_aton silent_net (timer_callback True False) no_addresses timer_boot =
     Some (i, \<lparr>ip_addr = 0x0A12A8C0, netmask = 0x00FFFFFF, gw = 0x0312A8C0\<rparr>, s')"
proof -
  have t: "48 \<le> (\<Sum>j<48. ne_ticks silent_net j)" "\<forall>j. ne_ticks silent_net j < 2 ^ 31" by (simp_all add: silent_net_def)
  have a: "board_aton DEFAULT_IP_ADDRESS = Some 0x0A12A8C0" "(0x0A12A8C0 :: u32) \<noteq> 0"
    by (simp_all add: board_aton_def DEFAULT_IP_ADDRESS_def)
  have m: "fst (wait_state silent_net cb no_addresses s i) = no_addresses" for cb s i
    by (induction i) (simp_all add: split_beta silent_net_def)
  have z: "ip_addr no_addresses = 0" by (simp add: no_addresses_def)
  have d: "assign_default_ip board_aton no_addresses = \<lparr>ip_addr = 0x0A12A8C0, netmask = 0x00FFFFFF, gw = 0x0312A8C0\<rparr>"
    by (simp add: no_addresses_def assign_default_ip_def inet_aton_def board_aton_def
        DEFAULT_IP_ADDRESS_def DEFAULT_IP_MASK_def DEFAULT_GW_ADDRESS_def)
  from dhcp_or_default_returns [where env = silent_net and aton = board_aton and a = "0x0A12A8C0" and N = 48 and softeth = False and n = no_addresses
      and s = timer_boot and cb = "timer_callback True False", OF disjI1 [OF refl] t a] show ?thesis
    by (auto simp: m z d Let_def)
qed

section \<open>The program\<close>

text \<open>
  The state of the main loop: the addresses of the interface, the flags of the timer, the client, and the calls of the
  timers of TCP. A round is described by the interrupts that arrive while the fast timer is served and its flag not yet cleared,
  before the slow timer's flag is tested, while the slow timer is served, and in the rest of the round.
\<close>

datatype tcp_call = TcpFast | TcpSlow

record main_state =
  ms_netif :: netif_state
  ms_timer :: timer_state
  ms_app :: perf_app
  ms_tcp :: "tcp_call list"
  ms_plat :: "plat_call list"

record turn =
  tu_fast :: nat
  tu_between :: nat
  tu_slow :: nat
  tu_rest :: nat
  tu_input :: "netif_state \<Rightarrow> netif_state"
  tu_net :: lwip

text \<open>Both programs serve the timers in the same way: the flag is tested, the timer served, and then the flag cleared.\<close>

definition serve_timers :: "(timer_state \<Rightarrow> timer_state) \<Rightarrow> turn \<Rightarrow> timer_state \<times> tcp_call list \<Rightarrow> timer_state \<times> tcp_call list" where
  "serve_timers cb tu st =
     (let (s, calls) = st;
          (s, calls) = (if TcpFastTmrFlag s then (((cb ^^ tu_fast tu) s)\<lparr>TcpFastTmrFlag := False\<rparr>, calls @ [TcpFast]) else (s, calls));
          s = (cb ^^ tu_between tu) s
      in if TcpSlowTmrFlag s then (((cb ^^ tu_slow tu) s)\<lparr>TcpSlowTmrFlag := False\<rparr>, calls @ [TcpSlow]) else (s, calls))"

definition main_turn :: "(timer_state \<Rightarrow> timer_state) \<Rightarrow> main_state \<Rightarrow> turn \<Rightarrow> main_state" where
  "main_turn cb m tu =
     (let (s, calls) = serve_timers cb tu (ms_timer m, ms_tcp m);
          m = m\<lparr>ms_timer := s, ms_tcp := calls\<rparr>;
          m = m\<lparr>ms_netif := tu_input tu (ms_netif m)\<rparr>;
          m = m\<lparr>ms_app := transfer_data (tu_net tu) (ms_app m)\<rparr>
      in m\<lparr>ms_timer := (cb ^^ tu_rest tu) (ms_timer m)\<rparr>)"

text \<open>What the main program finds: the bus of the clock generator, the timer, the network adapter and the network.\<close>

record board =
  bd_bus :: i2c_bus
  bd_i2c :: i2c_setup
  bd_timer :: timer_services
  bd_xemac :: bool
  bd_aton :: aton
  bd_env :: net_env
  bd_net :: lwip
  bd_server_ok :: bool

text \<open>
  The program up to its main loop, on a Zynq with the PCS/PMA core and DHCP. The result of programming the clock generator
  is not looked at. \<open>Inl\<close> is the value with which \<^verbatim>\<open>main\<close> ends.
\<close>

definition main_setup :: "board \<Rightarrow> bool \<Rightarrow> xiic_lib \<Rightarrow> (int + main_state) option" where
  "main_setup bd softeth lib =
     (case ProgramSi5324 (bd_bus bd) (bd_i2c bd) InitTable_1ge lib of
        None \<Rightarrow> None
      | Some _ \<Rightarrow>
          (case init_platform (bd_timer bd) [] of
             None \<Rightarrow> None
           | Some plat \<Rightarrow>
               if \<not> bd_xemac bd then Some (Inl (- 1))
               else let plat = platform_enable_interrupts plat
                    in case dhcp_or_default (bd_aton bd) (bd_env bd) (timer_callback True softeth)
                              \<lparr>ip_addr = 0, netmask = 0, gw = 0\<rparr> timer_boot of
                         None \<Rightarrow> None
                       | Some (_, n, s) \<Rightarrow>
                           Some (Inr \<lparr>ms_netif = n, ms_timer = s, ms_app = start_application (bd_net bd) (bd_server_ok bd) perf_boot,
                                      ms_tcp = [], ms_plat = plat\<rparr>)))"

section \<open>Serving the timers\<close>

definition tcp_count :: "tcp_call \<Rightarrow> main_state \<Rightarrow> nat" where
  "tcp_count c m = length (filter (\<lambda>x. x = c) (ms_tcp m))"

text \<open>
  After \<open>n\<close> interrupts the fast timer was served \<open>n\<close> times and the slow one \<open>n div 2\<close> times, where a flag that is
  still set stands for a service that is due.
\<close>

definition served :: "nat \<Rightarrow> nat \<Rightarrow> nat \<Rightarrow> main_state \<Rightarrow> bool" where
  "served f s n m \<longleftrightarrow> odd_tick (ms_timer m) = even n \<and> (TcpSlowTmrFlag (ms_timer m) \<longrightarrow> even n) \<and>
     tcp_count TcpFast m + (if TcpFastTmrFlag (ms_timer m) then 1 else 0) = f + n \<and>
     tcp_count TcpSlow m + (if TcpSlowTmrFlag (ms_timer m) then 1 else 0) = s + n div 2"

definition quick_turn :: "turn \<Rightarrow> bool" where
  "quick_turn tu \<longleftrightarrow> tu_fast tu = 0 \<and> tu_slow tu = 0 \<and> tu_between tu + tu_rest tu \<le> 1"

context tcp_timer
begin

lemma main_turn_served:
  assumes "served f s n m" and "quick_turn tu"
  shows "served f s (n + (tu_between tu + tu_rest tu)) (main_turn cb m tu)"
proof -
  have t: "tu_fast tu = 0" "tu_slow tu = 0" using assms(2) by (simp_all add: quick_turn_def)
  have h: "Suc n div 2 = n div 2 + (if even n then 0 else 1)" by (auto elim: evenE oddE)
  from assms(2) consider "tu_between tu = 0" "tu_rest tu = 0" | "tu_between tu = 1" "tu_rest tu = 0" | "tu_between tu = 0" "tu_rest tu = 1"
    unfolding quick_turn_def by linarith
  then show ?thesis
    using assms(1) t h
    by cases (auto simp: main_turn_def serve_timers_def served_def tcp_count_def tick_odd tick_fast tick_slow Let_def split: if_splits)
qed

lemma main_run_served:
  "served f s n m \<Longrightarrow> list_all quick_turn tus \<Longrightarrow>
   served f s (n + (\<Sum>tu\<leftarrow>tus. tu_between tu + tu_rest tu)) (run (main_turn cb) m tus)"
proof (induction tus arbitrary: n m)
  case (Cons tu tus)
  from Cons.IH [OF main_turn_served [OF Cons.prems(1)]] Cons.prems(2) show ?case by (simp add: add.assoc)
qed simp

lemma loop_served:
  assumes "\<not> TcpFastTmrFlag (ms_timer m)" and "\<not> TcpSlowTmrFlag (ms_timer m)" and "odd_tick (ms_timer m)"
    and "list_all quick_turn tus"
  shows "served (tcp_count TcpFast m) (tcp_count TcpSlow m) (\<Sum>tu\<leftarrow>tus. tu_between tu + tu_rest tu) (run (main_turn cb) m tus)"
proof -
  have "served (tcp_count TcpFast m) (tcp_count TcpSlow m) 0 m" using assms(1-3) by (simp add: served_def)
  from main_run_served [OF this assms(4)] show ?thesis by simp
qed

end


text \<open>The counters of the client stay exact while it runs in the loop.\<close>

interpretation main_loop: event_machine "main_turn cb" "\<lambda>m. accounts (ms_app m)" for cb
  by unfold_locales (simp add: main_turn_def accounts_transfer split: prod.split)

lemma main_loop_accounts: "accounts (ms_app m) \<Longrightarrow> accounts (ms_app (run (main_turn cb) m tus))"
  by (rule main_loop.run_invar)

definition idle_main :: main_state where
  "idle_main = \<lparr>ms_netif = no_addresses, ms_timer = timer_boot, ms_app = perf_boot, ms_tcp = [], ms_plat = []\<rparr>"

definition plain_turn :: "nat \<Rightarrow> nat \<Rightarrow> turn" where
  "plain_turn f r = \<lparr>tu_fast = f, tu_between = 0, tu_slow = 0, tu_rest = r, tu_input = (\<lambda>n. n), tu_net = demo_net\<rparr>"


text \<open>An interrupt that arrives while the fast timer is served is not served itself.\<close>

lemma fast_tick_lost:
  assumes "TcpFastTmrFlag (ms_timer m)"
  shows "let m' = main_turn (timer_callback dhcp softeth) m (plain_turn k 0)
     in tcp_count TcpFast m' = Suc (tcp_count TcpFast m) \<and> \<not> TcpFastTmrFlag (ms_timer m')"
  using assms by (simp add: main_turn_def serve_timers_def tcp_count_def plain_turn_def Let_def)

section \<open>What the start of the program does not look at\<close>

lemma start_timer_calls:
  assumes "platform_setup_timer tv log = Some log'"
  shows "(\<exists>v. TimerLoad v \<in> set log') \<longleftrightarrow> (\<exists>v. TimerLoad v \<in> set log) \<or> tv_init tv = XST_SUCCESS \<and> tv_selftest tv = XST_SUCCESS"
  using assms by (auto simp: platform_setup_timer_def Let_def split: if_splits)

text \<open>
  Nothing stops the program before its main loop but a missing network adapter: the clock generator may not have been
  programmed, and a timer that could not be initialised, or that failed its self test, is started without ever having been
  loaded.
\<close>

theorem main_setup_unchecked:
  assumes "main_setup bd softeth lib = Some r"
  shows "(r = Inl (- 1) \<longleftrightarrow> \<not> bd_xemac bd) \<and> (\<forall>i. r = Inl i \<longrightarrow> i = - 1) \<and>
     (\<forall>m. r = Inr m \<longrightarrow> last (ms_plat m) = TimerStart \<and>
        ((\<exists>v. TimerLoad v \<in> set (ms_plat m)) \<longleftrightarrow>
           tv_init (bd_timer bd) = XST_SUCCESS \<and> tv_selftest (bd_timer bd) = XST_SUCCESS))"
proof -
  obtain plat where plat: "platform_setup_timer (bd_timer bd) [] = Some plat"
    and r: "(\<not> bd_xemac bd \<and> r = Inl (- 1)) \<or>
      (\<exists>m. bd_xemac bd \<and> r = Inr m \<and> ms_plat m = platform_enable_interrupts (platform_setup_interrupts plat))"
    using assms by (auto simp: main_setup_def init_platform_def Let_def split: option.splits if_splits)
  have l: "last (platform_enable_interrupts (platform_setup_interrupts plat)) = TimerStart"
    "(\<exists>v. TimerLoad v \<in> set (platform_enable_interrupts (platform_setup_interrupts plat))) = (\<exists>v. TimerLoad v \<in> set plat)"
    by (auto simp: platform_enable_interrupts_def platform_setup_interrupts_def)
  from r show ?thesis
  proof (elim disjE exE conjE)
    fix m assume m: "bd_xemac bd" "r = Inr m" "ms_plat m = platform_enable_interrupts (platform_setup_interrupts plat)"
    show ?thesis using start_timer_calls [OF plat] l by (simp add: m)
  qed simp
qed

text \<open>A board without an I2C controller, whose timer fails its self test, in a network that answers at once.\<close>

definition poor_board :: board where
  "poor_board = \<lparr>bd_bus = ack_bus, bd_i2c = good_setup\<lparr>su_config := False\<rparr>,
     bd_timer = \<lparr>tv_config = True, tv_init = XST_SUCCESS, tv_selftest = XST_FAILURE, tv_clk = 666666687\<rparr>,
     bd_xemac = True, bd_aton = board_aton, bd_env = \<lparr>ne_input = \<lambda>_ n. n\<lparr>ip_addr := 0x0A12A8C0\<rparr>, ne_ticks = \<lambda>_. 1\<rparr>,
     bd_net = demo_net, bd_server_ok = True\<rparr>"

theorem main_setup_unchecked_witness:
  "\<exists>m. main_setup poor_board False fresh_lib = Some (Inr m) \<and> TimerStart \<in> set (ms_plat m) \<and> (\<forall>v. TimerLoad v \<notin> set (ms_plat m))"
proof -
  have p: "ProgramSi5324 (bd_bus poor_board) (bd_i2c poor_board) InitTable_1ge fresh_lib = Some (XST_FAILURE, fresh_lib)"
    by (simp add: ProgramSi5324_def I2cSetupHardware_def poor_board_def)
  have d: "dhcp_wait (bd_env poor_board) cb 0 \<lparr>ip_addr = 0, netmask = 0, gw = 0\<rparr> (timer_boot\<lparr>dhcp_timoutcntr := 24\<rparr>) =
      Some (1, \<lparr>ip_addr = 0x0A12A8C0, netmask = 0, gw = 0\<rparr>, cb (timer_boot\<lparr>dhcp_timoutcntr := 24\<rparr>))" for cb
    by (subst dhcp_wait.simps, subst dhcp_wait.simps) (simp add: poor_board_def)
  obtain m where m: "main_setup poor_board False fresh_lib = Some (Inr m)"
    unfolding main_setup_def p dhcp_or_default_def d
    by (simp add: init_platform_def platform_setup_timer_def) (simp add: poor_board_def)
  from main_setup_unchecked [OF this] have "last (ms_plat m) = TimerStart" "\<forall>v. TimerLoad v \<notin> set (ms_plat m)"
    by (simp_all add: poor_board_def)
  moreover have "ms_plat m \<noteq> []"
    using m unfolding main_setup_def p
    by (auto simp: init_platform_def platform_enable_interrupts_def Let_def split: option.splits if_splits)
  ultimately show ?thesis using m last_in_set by metis
qed

section \<open>The reset of the PHY\<close>

record phy_services =
  ph_config :: bool
  ph_init :: xstatus
  ph_send :: "i2c_msg list \<Rightarrow> i2c_msg \<Rightarrow> xstatus"
  ph_idle :: "i2c_msg list \<Rightarrow> bool"

definition IOEXPANDER1_ADDR :: u16 where "IOEXPANDER1_ADDR = 0x20"
definition CMD_CFG_0_REG :: u8 where "CMD_CFG_0_REG = 0x06"
definition CMD_OUTPUT_0_REG :: u8 where "CMD_OUTPUT_0_REG = 0x02"
definition DATA_OUTPUT :: u8 where "DATA_OUTPUT = 0"
definition DATA_COMMON_CFG :: u8 where "DATA_COMMON_CFG = 0xE0"
definition DATA_GT_0000_CFG :: u8 where "DATA_GT_0000_CFG = 0"

text \<open>Sending a message and waiting until the bus is idle; without a busy bus becoming idle the wait does not end.\<close>

definition phy_send :: "phy_services \<Rightarrow> i2c_msg \<Rightarrow> i2c_msg list \<Rightarrow> (xstatus \<times> i2c_msg list) option" where
  "phy_send ph m log =
     (if ph_send ph log m \<noteq> XST_SUCCESS then Some (XST_FAILURE, log @ [m])
      else if ph_idle ph (log @ [m]) then Some (XST_SUCCESS, log @ [m]) else None)"

definition IicPhyReset :: "phy_services \<Rightarrow> (xstatus \<times> i2c_msg list) option" where
  "IicPhyReset ph =
     (if \<not> ph_config ph then Some (XST_FAILURE, [])
      else if ph_init ph \<noteq> XST_SUCCESS then Some (XST_FAILURE, [])
      else case phy_send ph (Send IOEXPANDER1_ADDR [CMD_CFG_0_REG, DATA_OUTPUT]) [] of
             None \<Rightarrow> None
           | Some (st, log) \<Rightarrow>
               if st \<noteq> XST_SUCCESS then Some (XST_FAILURE, log)
               else phy_send ph (Send IOEXPANDER1_ADDR [CMD_OUTPUT_0_REG, DATA_COMMON_CFG OR DATA_GT_0000_CFG]) log)"

text \<open>
  The pins of the expander are made outputs before they are driven, the reset is reported as done only when both messages
  were sent, and the function returns whenever the bus becomes idle after each message.
\<close>

theorem IicPhyReset_order:
  "(\<forall>st log. IicPhyReset ph = Some (st, log) \<longrightarrow>
      prefix log [Send 0x20 [0x06, 0x00], Send 0x20 [0x02, 0xE0]] \<and> (st = XST_SUCCESS \<longrightarrow> length log = 2) \<and>
      (st = XST_SUCCESS \<or> st = XST_FAILURE)) \<and>
   ((\<forall>log. ph_idle ph log) \<longrightarrow> IicPhyReset ph \<noteq> None)"
  by (auto simp: IicPhyReset_def phy_send_def IOEXPANDER1_ADDR_def CMD_CFG_0_REG_def CMD_OUTPUT_0_REG_def DATA_OUTPUT_def
      DATA_COMMON_CFG_def DATA_GT_0000_CFG_def split: option.splits if_splits)

section \<open>The client that asks for a file\<close>

text \<open>Error numbers of both the vendor's library and the network stack are mixed in these functions.\<close>

definition XST_OK :: int where "XST_OK = 0"
definition XST_FAIL :: int where "XST_FAIL = 1"

definition UDP_SERVER_IP_ADDRESS :: string where "UDP_SERVER_IP_ADDRESS = ''192.168.18.1''"
definition UDP_CLIENT_IP_ADDRESS :: string where "UDP_CLIENT_IP_ADDRESS = ''192.168.18.10''"
definition UDP_CLIENT_GW_IP_ADDRESS :: string where "UDP_CLIENT_GW_IP_ADDRESS = ''192.168.18.11''"
definition UDP_IP_MASK :: string where "UDP_IP_MASK = ''255.255.255.0''"
definition UDP_PORT :: nat where "UDP_PORT = 8080"

datatype stack_call = LwipInit | XemacAdd | NetifSetDefault | NetifSetUp | UdpConnect u32 nat | UdpRecv

definition init_udp :: "bool \<Rightarrow> aton \<Rightarrow> netif_state option \<Rightarrow> stack_call list \<Rightarrow> int \<times> netif_state option \<times> stack_call list" where
  "init_udp xemac aton server_netif log =
     (case server_netif of
        None \<Rightarrow> (XST_FAIL, None, log)
      | Some n \<Rightarrow>
          let log = log @ [LwipInit, XemacAdd]
          in if \<not> xemac then (XST_FAIL, Some n, log)
             else let log = log @ [NetifSetDefault, NetifSetUp]
                  in case aton UDP_CLIENT_IP_ADDRESS of None \<Rightarrow> (XST_FAIL, Some n, log) | Some a \<Rightarrow>
                     let n = n\<lparr>ip_addr := a\<rparr> in
                     (case aton UDP_IP_MASK of None \<Rightarrow> (XST_FAIL, Some n, log) | Some a \<Rightarrow>
                      let n = n\<lparr>netmask := a\<rparr> in
                      (case aton UDP_CLIENT_GW_IP_ADDRESS of None \<Rightarrow> (XST_FAIL, Some n, log) | Some a \<Rightarrow>
                       (XST_OK, Some (n\<lparr>gw := a\<rparr>), log))))"

text \<open>The new connection is kept in a static variable, also when it could not be connected.\<close>

definition init_udp_transfer :: "aton \<Rightarrow> bool \<Rightarrow> int \<Rightarrow> bool \<Rightarrow> stack_call list \<Rightarrow> int \<times> bool \<times> stack_call list" where
  "init_udp_transfer aton new_pcb connect old_pcb log =
     (case aton UDP_SERVER_IP_ADDRESS of
        None \<Rightarrow> (XST_FAIL, old_pcb, log)
      | Some remote_addr \<Rightarrow>
          if \<not> new_pcb then (ERR_BUF, False, log)
          else let log = log @ [UdpConnect remote_addr UDP_PORT]
                  in if connect \<noteq> ERR_OK then (XST_FAIL, True, log)
                     else (ERR_OK, True, log @ [UdpRecv]))"

record board_1ge =
  b1_bus :: i2c_bus
  b1_i2c :: i2c_setup
  b1_timer :: timer_services
  b1_xemac :: bool
  b1_aton :: aton
  b1_udp_new :: bool
  b1_connect :: int

text \<open>The program up to its loop: \<open>Inl\<close> is the value with which \<^verbatim>\<open>main\<close> ends.\<close>

definition main_1ge :: "board_1ge \<Rightarrow> xiic_lib \<Rightarrow> (int + netif_state \<times> plat_call list \<times> stack_call list) option" where
  "main_1ge b lib =
     (case ProgramSi5324 (b1_bus b) (b1_i2c b) InitTable_1ge lib of
        None \<Rightarrow> None
      | Some (st, lib) \<Rightarrow>
          if st \<noteq> XST_SUCCESS then Some (Inl XST_FAIL)
          else (case init_platform_1ge (b1_timer b) [] of
                  None \<Rightarrow> None
                | Some plat \<Rightarrow>
                    (case init_udp (b1_xemac b) (b1_aton b) (Some no_addresses) [] of
                       (rv, n, log) \<Rightarrow>
                         if rv \<noteq> XST_OK then Some (Inl XST_FAIL)
                         else (case init_udp_transfer (b1_aton b) (b1_udp_new b) (b1_connect b) False log of
                                 (rv, _, log) \<Rightarrow>
                                   if rv \<noteq> ERR_OK then Some (Inl XST_FAIL)
                                   else Some (Inr (the n, plat, log))))))"

text \<open>The loop is entered exactly when every step before it succeeded, with the interface configured and the connection made.\<close>

lemma main_1ge_enters:
  assumes "main_1ge b lib = Some (Inr (n, plat, log))"
  shows "b1_xemac b \<and> b1_udp_new b \<and> b1_connect b = ERR_OK \<and> last plat = TimerStart \<and>
     b1_aton b UDP_CLIENT_IP_ADDRESS = Some (ip_addr n) \<and> b1_aton b UDP_IP_MASK = Some (netmask n) \<and>
     b1_aton b UDP_CLIENT_GW_IP_ADDRESS = Some (gw n) \<and>
     (\<exists>a. b1_aton b UDP_SERVER_IP_ADDRESS = Some a \<and>
        log = [LwipInit, XemacAdd, NetifSetDefault, NetifSetUp, UdpConnect a 8080, UdpRecv])"
  using assms
  by (auto simp: main_1ge_def init_udp_def init_udp_transfer_def init_platform_1ge_def platform_enable_interrupts_def
      XST_OK_def XST_FAIL_def ERR_OK_def ERR_BUF_def UDP_PORT_def Let_def split: option.splits if_splits prod.splits)

text \<open>
  The buffers of the stack's pool that are free, and what the client did. The handler of received datagrams prints them
  and does not free their buffers; a datagram that finds no free buffer is dropped by the stack.
\<close>

record pool_state =
  pool_free :: nat
  pool_log :: "client_event list"

definition recv_udp_packet :: "pool_state \<Rightarrow> pool_state" where
  "recv_udp_packet s = s"

definition receive_one :: "pool_state \<Rightarrow> pool_state" where
  "receive_one s = (if pool_free s = 0 then s else recv_udp_packet (s\<lparr>pool_free := pool_free s - 1\<rparr>))"

text \<open>One round of the loop: \<open>k\<close> datagrams have arrived, then the request is sent from a buffer of the pool, which is freed again.\<close>

definition client_turn :: "(u8 list \<Rightarrow> int) \<Rightarrow> pool_state \<Rightarrow> nat \<Rightarrow> pool_state" where
  "client_turn send s k =
     (let s = (receive_one ^^ k) s;
          (rv, log) = transfer_udp_packet (if pool_free s = 0 then None else Some (length ready_string + 1)) send (pool_log s)
      in s\<lparr>pool_log := log\<rparr>)"

text \<open>The loop of the program: the timers, the datagrams that have arrived, the request.\<close>

definition main_1ge_turn ::
    "(timer_state \<Rightarrow> timer_state) \<Rightarrow> (u8 list \<Rightarrow> int) \<Rightarrow> turn \<Rightarrow> nat \<Rightarrow> timer_state \<times> tcp_call list \<times> pool_state
     \<Rightarrow> timer_state \<times> tcp_call list \<times> pool_state" where
  "main_1ge_turn cb send tu k st =
     (let (s, calls, p) = st;
          (s, calls) = serve_timers cb tu (s, calls)
      in ((cb ^^ tu_rest tu) s, calls, client_turn send p k))"

lemma receive_pool: "(receive_one ^^ k) s = s\<lparr>pool_free := pool_free s - k\<rparr>"
  by (induction k) (simp_all add: receive_one_def recv_udp_packet_def)

lemma client_turn_effect:
  "client_turn send s k = s\<lparr>pool_free := pool_free s - k, pool_log := pool_log s @
     (if pool_free s \<le> k then [] else [ClSend (ready_string @ [0]) (send (ready_string @ [0])), ClFree])\<rparr>"
  by (simp add: client_turn_def receive_pool transfer_udp_packet_def send_udp_packet_def Let_def)

lemma client_run_pool: "pool_free (run (client_turn send) s ks) = pool_free s - sum_list ks"
  by (induction ks arbitrary: s) (simp_all add: client_turn_effect)



section \<open>Time\<close>

text \<open>Of the counter of the processor, which is 64 bits wide on the ARM cores with a memory management unit.\<close>

definition get_time_ms :: "u64 \<Rightarrow> u64 \<Rightarrow> u64" where
  "get_time_ms counts_per_second tCur = tCur div (counts_per_second div 1000)"

text \<open>On the R5 the counter has 32 bits: a value below the one before means that it wrapped around.\<close>

definition r5_get_time_ms :: "u64 \<Rightarrow> u32 \<Rightarrow> u32 \<times> u32 \<Rightarrow> u64 \<times> u32 \<times> u32" where
  "r5_get_time_ms counts_per_second tCur st =
     (case st of (tlast, tHigh) \<Rightarrow>
        let tHigh = (if tCur < tlast then tHigh + 1 else tHigh);
            tlast = tCur;
            time = push_bit 32 (ucast tHigh) OR ucast tCur
        in (time div (counts_per_second div 1000), tlast, tHigh))"

primrec r5_times :: "u64 \<Rightarrow> u32 list \<Rightarrow> u32 \<times> u32 \<Rightarrow> u64 list" where
  "r5_times counts_per_second [] st = []"
| "r5_times counts_per_second (tCur # ts) st =
     (let (ms, st) = r5_get_time_ms counts_per_second tCur st in ms # r5_times counts_per_second ts st)"

text \<open>Points in time that are less than one period of the 32-bit counter apart, from \<open>t\<close> on.\<close>

primrec sampled :: "nat \<Rightarrow> nat list \<Rightarrow> bool" where
  "sampled t [] = True"
| "sampled t (t' # ts) = (t \<le> t' \<and> t' < t + 2 ^ 32 \<and> t' < 2 ^ 64 \<and> sampled t' ts)"

lemma u64_halves: "push_bit 32 (ucast (of_nat (t div 2 ^ 32) :: u32)) OR ucast (of_nat t :: u32) = (of_nat t :: u64)"
proof (rule bit_word_eqI)
  fix n assume "n < LENGTH(64)"
  then show "bit (push_bit 32 (ucast (of_nat (t div 2 ^ 32) :: u32)) OR ucast (of_nat t :: u32) :: u64) n = bit (of_nat t :: u64) n"
    unfolding drop_bit_eq_div [symmetric]
    by (cases "n < 32") (auto simp: bit_or_iff bit_push_bit_iff bit_unsigned_iff bit_of_nat_iff possible_bit_def bit_drop_bit_eq)
qed

lemma r5_step:
  assumes "t \<le> t'" and "t' < t + 2 ^ 32"
  shows "r5_get_time_ms cps (of_nat t') (of_nat t, of_nat (t div 2 ^ 32)) =
     (get_time_ms cps (of_nat t'), of_nat t', of_nat (t' div 2 ^ 32))"
proof -
  have c: "(of_nat t' :: u32) < of_nat t \<longleftrightarrow> t' mod 2 ^ 32 < t mod 2 ^ 32"
    by (simp add: word_less_nat_alt unat_of_nat take_bit_eq_mod)
  have d: "t' div 2 ^ 32 = (if t' mod 2 ^ 32 < t mod 2 ^ 32 then Suc (t div 2 ^ 32) else t div 2 ^ 32)"
  proof -
    define q r q' r' where "q = t div 2 ^ 32" and "r = t mod 2 ^ 32" and "q' = t' div 2 ^ 32" and "r' = t' mod 2 ^ 32"
    have t: "t = 4294967296 * q + r" "t' = 4294967296 * q' + r'" and r: "r < 4294967296" "r' < 4294967296"
      by (simp_all add: q_def r_def q'_def r'_def)
    have less: "t' < t + 4294967296" using assms(2) by simp
    have "\<not> q' < q" "\<not> q + 2 \<le> q'" "r' < r \<longrightarrow> q' \<noteq> q" "q' = Suc q \<longrightarrow> r' < r"
      using assms(1) less r unfolding t by linarith+
    then have "q' = (if r' < r then Suc q else q)" by presburger
    then show ?thesis by (simp only: q_def r_def q'_def r'_def)
  qed
  have h: "(if (of_nat t' :: u32) < of_nat t then of_nat (t div 2 ^ 32) + 1 else of_nat (t div 2 ^ 32)) = (of_nat (t' div 2 ^ 32) :: u32)"
    unfolding c d by simp
  show ?thesis unfolding r5_get_time_ms_def by (simp only: Let_def prod.case h u64_halves get_time_ms_def)
qed

text \<open>
  On the R5 the time is the one of a 64-bit counter, as long as it is asked for at least once in a period of the
  32-bit one.
\<close>

theorem r5_time_exact:
  assumes "sampled 0 ts"
  shows "r5_times cps (map of_nat ts) (0, 0) = map (\<lambda>t. get_time_ms cps (of_nat t)) ts"
proof -
  have "sampled t ts \<Longrightarrow> r5_times cps (map of_nat ts) (of_nat t, of_nat (t div 2 ^ 32)) = map (\<lambda>t. get_time_ms cps (of_nat t)) ts" for t
  proof (induction ts arbitrary: t)
    case (Cons t' ts)
    then show ?case by (simp only: list.map r5_times.simps sampled.simps r5_step Let_def prod.case)
  qed simp
  from this [of 0] assms show ?thesis by simp
qed

theorem r5_time_exact_witness:
  "r5_times 100000000 [0xFFFFFFFF, 5] (0, 0) = [42949, 42949]"
proof -
  have "sampled 0 [0xFFFFFFFF, 0x100000005]" by simp
  from r5_time_exact [OF this, of 100000000]
  have "r5_times 100000000 [0xFFFFFFFF, 0x100000005] (0, 0) = [42949, 42949]" by (simp add: get_time_ms_def del: r5_times.simps)
  moreover have "(0x100000005 :: u32) = 5" by simp
  ultimately show ?thesis by (simp only:)
qed

section \<open>Showing the memory\<close>

text \<open>The characters of the program that shows the first kilobyte of a memory: each byte as one character, and line ends.\<close>

definition MEM_CHECK_RANGE :: nat where "MEM_CHECK_RANGE = 1024"
definition MAKE_CHAR :: "u8 \<Rightarrow> u8" where "MAKE_CHAR x = x + 0x30"

definition mem_dump :: "(nat \<Rightarrow> u8) \<Rightarrow> u8 list" where
  "mem_dump mem = concat (map (\<lambda>i. MAKE_CHAR (mem i) # (if i mod 10 = 0 then [10, 13] else [])) [0..<MEM_CHECK_RANGE]) @ [10, 13, 10, 13]"

end
