(* ===== verification/Fw_Dma.thy ===== *)
theory Fw_Dma
  imports Fw_I2c
begin

text \<open>
  The firmware around the DMA engine of the 10G and the polling design: the set-up and the start of transfers
  (\<^verbatim>\<open>axi_dma_intr_poll.c\<close>), the interrupt handlers and the main loops of the two programs (\<^verbatim>\<open>main.c\<close>). The vendor's
  drivers are a parameter: which of their calls succeed, and what the interrupt status is. The calls are logged.
\<close>

section \<open>The vendor's drivers\<close>

datatype dma_dir = DmaToDevice | DeviceToDma

datatype bsp_event =
    ClearHandler
  | SetPriorityTrigger u32
  | GicConnect u32
  | GicDisconnect u32
  | GicEnable u32
  | ExceptionInit
  | ExceptionRegister
  | ExceptionEnable
  | IntrDisable dma_dir
  | IntrEnable dma_dir
  | IntrAck dma_dir u32
  | CacheFlush addr nat
  | CacheInvalidate addr nat
  | SimpleTransfer dma_dir addr nat
  | DmaReset
  | ResetIsDone bool

record bsp =
  dma_lookup :: "u32 \<Rightarrow> bool"
  dma_cfg_init :: xstatus
  has_sg :: bool
  gic_lookup :: bool
  gic_cfg_init :: xstatus
  gic_connect :: "u32 \<Rightarrow> xstatus"
  simple_transfer :: "bsp_event list \<Rightarrow> dma_dir \<Rightarrow> addr \<Rightarrow> nat \<Rightarrow> xstatus"
  reset_is_done :: "bsp_event list \<Rightarrow> bool"
  irq_all_mask :: u32
  irq_error_mask :: u32

record axi_dma_init_str =
  tx_intr_id :: u32
  rx_intr_id :: u32
  rx_intr_handler_set :: bool
  tx_intr_handler_set :: bool
  dma_id :: u32

record axi_dma_poll_str =
  p_buf :: addr
  p_size :: nat

section \<open>Set-up\<close>

definition set_intr_handler :: "bsp \<Rightarrow> u32 \<Rightarrow> bool \<Rightarrow> bsp_event list \<Rightarrow> xstatus \<times> bsp_event list" where
  "set_intr_handler b intr_id handler_set log =
     (if intr_id \<noteq> 0
      then if \<not> handler_set then (XST_FAILURE, log)
           else let log = log @ [SetPriorityTrigger intr_id, GicConnect intr_id]
                in if gic_connect b intr_id \<noteq> XST_SUCCESS then (XST_FAILURE, log) else (XST_SUCCESS, log)
      else (XST_SUCCESS, log))"

definition enable_intr :: "bsp \<Rightarrow> axi_dma_init_str \<Rightarrow> bsp_event list \<Rightarrow> xstatus \<times> bsp_event list" where
  "enable_intr b p_init log =
     (if \<not> gic_lookup b then (XST_FAILURE, log)
      else if gic_cfg_init b \<noteq> XST_SUCCESS then (XST_FAILURE, log)
      else let (st, log) = set_intr_handler b (tx_intr_id p_init) (tx_intr_handler_set p_init) log
      in if st \<noteq> XST_SUCCESS then (XST_FAILURE, log)
      else let (st, log) = set_intr_handler b (rx_intr_id p_init) (rx_intr_handler_set p_init) log
      in if st \<noteq> XST_SUCCESS then (XST_FAILURE, log)
      else (XST_SUCCESS, log @ [GicEnable (tx_intr_id p_init), GicEnable (rx_intr_id p_init),
             ExceptionInit, ExceptionRegister, ExceptionEnable,
             IntrDisable DmaToDevice, IntrDisable DeviceToDma, IntrEnable DmaToDevice, IntrEnable DeviceToDma]))"

text \<open>
  \<open>None\<close> is the access through a null pointer: the message about missing arguments prints a member of the
  structure that may be the missing one.
\<close>

definition axi_dma_init :: "bsp \<Rightarrow> axi_dma_init_str option \<Rightarrow> bool \<Rightarrow> bsp_event list \<Rightarrow> (xstatus \<times> bsp_event list) option" where
  "axi_dma_init b p_init p_handler log =
     (case p_init of
        None \<Rightarrow> None
      | Some p_init \<Rightarrow>
          if \<not> p_handler then Some (XST_FAILURE, log)
          else let log = log @ [ClearHandler]
          in if \<not> dma_lookup b (dma_id p_init) then Some (XST_FAILURE, log)
          else if dma_cfg_init b \<noteq> XST_SUCCESS then Some (XST_FAILURE, log)
          else if has_sg b then Some (XST_FAILURE, log)
          else let (st, log) = enable_intr b p_init log
          in if st \<noteq> XST_SUCCESS then Some (XST_FAILURE, log) else Some (XST_SUCCESS, log))"

definition axi_dma_dev_to_dma_poll :: "bsp \<Rightarrow> axi_dma_poll_str option \<Rightarrow> bool \<Rightarrow> bsp_event list \<Rightarrow> xstatus \<times> bsp_event list" where
  "axi_dma_dev_to_dma_poll b p_poll p_axi_dma log =
     (case p_poll of
        None \<Rightarrow> (XST_FAILURE, log)
      | Some p \<Rightarrow>
          if \<not> p_axi_dma then (XST_FAILURE, log)
          else let st = simple_transfer b log DeviceToDma (p_buf p) (p_size p);
                   log = log @ [SimpleTransfer DeviceToDma (p_buf p) (p_size p)]
               in if st \<noteq> XST_SUCCESS then (XST_FAILURE, log) else (XST_SUCCESS, log))"

definition axi_dma_dma_to_dev_poll :: "bsp \<Rightarrow> axi_dma_poll_str option \<Rightarrow> bool \<Rightarrow> bsp_event list \<Rightarrow> xstatus \<times> bsp_event list" where
  "axi_dma_dma_to_dev_poll b p_poll p_axi_dma log =
     (case p_poll of
        None \<Rightarrow> (XST_FAILURE, log)
      | Some p \<Rightarrow>
          if \<not> p_axi_dma then (XST_FAILURE, log)
          else let log = log @ [CacheFlush (p_buf p) (p_size p)];
                   st = simple_transfer b log DmaToDevice (p_buf p) (p_size p);
                   log = log @ [SimpleTransfer DmaToDevice (p_buf p) (p_size p)]
               in if st \<noteq> XST_SUCCESS then (XST_FAILURE, log) else (XST_SUCCESS, log))"

definition axi_dma_release :: "bool \<Rightarrow> u32 \<Rightarrow> u32 \<Rightarrow> bsp_event list \<Rightarrow> (xstatus \<times> bsp_event list) option" where
  "axi_dma_release p_scu_gic tx_id rx_id log =
     (if \<not> p_scu_gic then None
      else if tx_id = 0 \<or> rx_id = 0 then Some (XST_FAILURE, log)
      else Some (XST_SUCCESS, log @ [GicDisconnect tx_id, GicDisconnect rx_id]))"

section \<open>Interrupts\<close>

record dma_app =
  tx_done_flag :: bool
  rx_done_flag :: bool
  tx_error :: bool
  rx_error :: bool
  dma_log :: "bsp_event list"

definition log_bsp :: "bsp_event \<Rightarrow> dma_app \<Rightarrow> dma_app" where
  "log_bsp ev s = s\<lparr>dma_log := dma_log s @ [ev]\<rparr>"

definition RESET_TIMEOUT_CNTR_VAL :: nat where "RESET_TIMEOUT_CNTR_VAL = 0x1000"

fun reset_wait :: "bsp \<Rightarrow> nat \<Rightarrow> dma_app \<Rightarrow> dma_app" where
  "reset_wait b 0 s = s"
| "reset_wait b (Suc reset_cntr) s =
     (let d = reset_is_done b (dma_log s); s = log_bsp (ResetIsDone d) s in if d then s else reset_wait b reset_cntr s)"

text \<open>\<open>TRUE\<close> is 1: the result of the mask is compared with it, not tested for being different from 0.\<close>

definition irq_error :: "bsp \<Rightarrow> u32 \<Rightarrow> bool" where
  "irq_error b status \<longleftrightarrow> status AND irq_all_mask b \<noteq> 0 \<and> status AND irq_error_mask b = 1"

definition tx_intr_handler :: "bsp \<Rightarrow> u32 \<Rightarrow> dma_app \<Rightarrow> dma_app" where
  "tx_intr_handler b status s =
     (let s = log_bsp (IntrAck DmaToDevice status) s;
          s = s\<lparr>tx_done_flag := True\<rparr>
      in if irq_error b status
         then reset_wait b RESET_TIMEOUT_CNTR_VAL (log_bsp DmaReset (s\<lparr>tx_error := True\<rparr>)) else s)"

definition rx_intr_handler :: "bsp \<Rightarrow> u32 \<Rightarrow> dma_app \<Rightarrow> dma_app" where
  "rx_intr_handler b status s =
     (let s = log_bsp (IntrAck DeviceToDma status) s;
          s = s\<lparr>rx_done_flag := True\<rparr>
      in if irq_error b status
         then reset_wait b RESET_TIMEOUT_CNTR_VAL (log_bsp DmaReset (s\<lparr>rx_error := True\<rparr>)) else s)"

section \<open>Receiving\<close>

text \<open>One turn of the main loop of the 10G receiver.\<close>

definition recv_turn :: "bsp \<Rightarrow> axi_dma_poll_str \<Rightarrow> dma_app \<Rightarrow> dma_app" where
  "recv_turn b p s =
     (if rx_done_flag s
      then let s = log_bsp (CacheInvalidate (p_buf p) (p_size p)) (log_bsp (CacheFlush (p_buf p) (p_size p)) s);
               s = s\<lparr>rx_done_flag := False\<rparr>
           in s\<lparr>dma_log := snd (axi_dma_dev_to_dma_poll b (Some p) True (dma_log s))\<rparr>
      else s)"

section \<open>The loop-back test\<close>

definition MAX_TX_VALUE :: nat where "MAX_TX_VALUE = 0x100"
definition PAYLOAD_SIZE :: nat where "PAYLOAD_SIZE = MAX_TX_VALUE"
definition TX_BUFFER :: addr where "TX_BUFFER = 0x01100000"

datatype test_output = BadCoefficient | Coefficient u8 | PollingError | TxBuffer "u32 list" | RxBuffer "u32 list"

datatype dma_irq = TxIrq u32 | RxIrq u32

definition take_irq :: "bsp \<Rightarrow> dma_irq \<Rightarrow> dma_app \<Rightarrow> dma_app" where
  "take_irq b i s = (case i of TxIrq st \<Rightarrow> tx_intr_handler b st s | RxIrq st \<Rightarrow> rx_intr_handler b st s)"

text \<open>The busy wait for both interrupts, which arrive between its iterations; it may never end.\<close>

fun wait_done :: "bsp \<Rightarrow> dma_irq list \<Rightarrow> dma_app \<Rightarrow> dma_app option" where
  "wait_done b irqs s =
     (if \<not> tx_done_flag s \<or> \<not> rx_done_flag s
      then (case irqs of [] \<Rightarrow> None | i # irqs \<Rightarrow> wait_done b irqs (take_irq b i s))
      else Some s)"

definition test_pattern :: "u8 \<Rightarrow> u32 list" where
  "test_pattern coefficient = map (\<lambda>i. (of_nat i * ucast coefficient) mod of_nat MAX_TX_VALUE) [0..<MAX_TX_VALUE]"

text \<open>The printed array: whatever the argument, the elements are read from the transmit buffer.\<close>

definition printf_array :: "u32 list \<Rightarrow> u32 list \<Rightarrow> nat \<Rightarrow> u32 list" where
  "printf_array tx_mem p_array n = map (\<lambda>i. tx_mem ! i) [0..<n]"

text \<open>One turn of the main loop: the key, the interrupts that arrive while it waits, and the receive buffer afterwards are given.\<close>

definition test_turn ::
  "bsp \<Rightarrow> addr \<Rightarrow> u8 \<Rightarrow> dma_irq list \<Rightarrow> u32 list \<Rightarrow> dma_app \<Rightarrow> (test_output list \<times> dma_app) option" where
  "test_turn b rx_buffer key irqs rx_mem s =
     (let mul_coefficient = key - 0x30
      in if mul_coefficient = 0 \<or> 9 < mul_coefficient then Some ([BadCoefficient], s)
         else let tx_mem = test_pattern mul_coefficient;
                  s = s\<lparr>tx_done_flag := False, rx_done_flag := False\<rparr>;
                  log = snd (axi_dma_dma_to_dev_poll b (Some \<lparr>p_buf = TX_BUFFER, p_size = PAYLOAD_SIZE\<rparr>) True (dma_log s));
                  log = snd (axi_dma_dev_to_dma_poll b (Some \<lparr>p_buf = rx_buffer, p_size = PAYLOAD_SIZE\<rparr>) True log);
                  s = s\<lparr>dma_log := log\<rparr>
              in map_option (\<lambda>s.
                   if tx_error s \<or> rx_error s then ([Coefficient mul_coefficient, PollingError], s)
                   else ([Coefficient mul_coefficient, TxBuffer (printf_array tx_mem tx_mem PAYLOAD_SIZE),
                          RxBuffer (printf_array tx_mem rx_mem PAYLOAD_SIZE)],
                         log_bsp (CacheInvalidate rx_buffer PAYLOAD_SIZE) (log_bsp (CacheFlush rx_buffer PAYLOAD_SIZE) s)))
                 (wait_done b irqs s))"

section \<open>Errors and data go unnoticed\<close>

text \<open>The masks of the vendor's driver: the error bit is not the lowest one.\<close>

lemma irq_error_never: "irq_error_mask b AND 1 = 0 \<Longrightarrow> \<not> irq_error b status"
proof
  assume m: "irq_error_mask b AND 1 = 0" and "irq_error b status"
  then have "status AND irq_error_mask b = 1" by (simp add: irq_error_def)
  then have "status AND (irq_error_mask b AND 1) = 1 AND 1" by (simp only: and.assoc [symmetric])
  then show False using m by simp
qed

lemma take_irq_flags:
  assumes "irq_error_mask b AND 1 = 0"
  shows "tx_error (take_irq b i s) = tx_error s" "rx_error (take_irq b i s) = rx_error s"
    "tx_done_flag (take_irq b i s) \<longleftrightarrow> tx_done_flag s \<or> (\<exists>st. i = TxIrq st)"
    "rx_done_flag (take_irq b i s) \<longleftrightarrow> rx_done_flag s \<or> (\<exists>st. i = RxIrq st)"
  using irq_error_never [OF assms]
  by (auto simp: take_irq_def tx_intr_handler_def rx_intr_handler_def log_bsp_def Let_def split: dma_irq.splits)

declare wait_done.simps [simp del]

lemma wait_done_result:
  "irq_error_mask b AND 1 = 0 \<Longrightarrow> (tx_done_flag s \<or> (\<exists>st. TxIrq st \<in> set irqs)) \<and> (rx_done_flag s \<or> (\<exists>st. RxIrq st \<in> set irqs)) \<Longrightarrow>
    \<exists>s'. wait_done b irqs s = Some s' \<and> tx_error s' = tx_error s \<and> rx_error s' = rx_error s"
proof (induction b irqs s rule: wait_done.induct)
  case (1 b irqs s)
  note flags = take_irq_flags [OF 1(2)]
  show ?case
  proof (cases "\<not> tx_done_flag s \<or> \<not> rx_done_flag s")
    case True
    obtain i irqs' where i: "irqs = i # irqs'" using 1(3) True by (cases irqs) auto
    have "(tx_done_flag (take_irq b i s) \<or> (\<exists>st. TxIrq st \<in> set irqs')) \<and> (rx_done_flag (take_irq b i s) \<or> (\<exists>st. RxIrq st \<in> set irqs'))"
      using 1(3) by (auto simp: i flags)
    from 1(1) [OF True i 1(2) this] show ?thesis
      using True by (simp add: wait_done.simps [of b "i # irqs'" s] i flags)
  next
    case False
    then show ?thesis by (simp add: wait_done.simps [of b irqs])
  qed
qed

lemma printf_array_tx: "printf_array tx_mem p_array n = take n tx_mem" if "n \<le> length tx_mem"
  using that by (simp add: printf_array_def list_eq_iff_nth_eq)

text \<open>
  C39. The loop-back test cannot fail: whatever interrupt status the engine reports and whatever arrives in the receive
  buffer, a turn with a valid key prints the transmitted numbers, and prints them again as the received ones. The error bits are
  compared with the value 1, which they do not have.
\<close>

theorem test_turn_cannot_fail:
  assumes "irq_error_mask b AND 1 = 0" and "key - 0x30 \<noteq> 0" and "key - 0x30 \<le> 9"
    and "\<not> tx_error s" and "\<not> rx_error s" and "TxIrq st1 \<in> set irqs" and "RxIrq st2 \<in> set irqs"
  shows "\<exists>s'. test_turn b rx_buffer key irqs rx_mem s =
     Some ([Coefficient (key - 0x30), TxBuffer (test_pattern (key - 0x30)), RxBuffer (test_pattern (key - 0x30))], s') \<and>
     \<not> tx_error s' \<and> \<not> rx_error s'"
proof -
  let ?log = "snd (axi_dma_dev_to_dma_poll b (Some \<lparr>p_buf = rx_buffer, p_size = PAYLOAD_SIZE\<rparr>) True
      (snd (axi_dma_dma_to_dev_poll b (Some \<lparr>p_buf = TX_BUFFER, p_size = PAYLOAD_SIZE\<rparr>) True (dma_log s))))"
  let ?s = "s\<lparr>tx_done_flag := False, rx_done_flag := False, dma_log := ?log\<rparr>"
  obtain s' where w: "wait_done b irqs ?s = Some s'" "\<not> tx_error s'" "\<not> rx_error s'"
    using wait_done_result [OF assms(1), of ?s irqs] assms(4-7) by auto
  have p: "printf_array (test_pattern c) x PAYLOAD_SIZE = test_pattern c" for c x
    by (simp add: printf_array_tx test_pattern_def PAYLOAD_SIZE_def)
  have "test_turn b rx_buffer key irqs rx_mem s =
     Some ([Coefficient (key - 0x30), TxBuffer (test_pattern (key - 0x30)), RxBuffer (test_pattern (key - 0x30))],
       log_bsp (CacheInvalidate rx_buffer PAYLOAD_SIZE) (log_bsp (CacheFlush rx_buffer PAYLOAD_SIZE) s'))"
    using assms(2,3) w by (simp add: test_turn_def Let_def p not_less)
  then show ?thesis using w by (simp add: log_bsp_def)
qed

text \<open>A board on which every call succeeds, with the masks of the vendor's driver.\<close>

definition good_board :: bsp where
  "good_board = \<lparr>dma_lookup = (\<lambda>_. True), dma_cfg_init = XST_SUCCESS, has_sg = False, gic_lookup = True, gic_cfg_init = XST_SUCCESS,
     gic_connect = (\<lambda>_. XST_SUCCESS), simple_transfer = (\<lambda>_ _ _ _. XST_SUCCESS), reset_is_done = (\<lambda>_. True),
     irq_all_mask = 0x7000, irq_error_mask = 0x4000\<rparr>"

definition idle_app :: dma_app where
  "idle_app = \<lparr>tx_done_flag = False, rx_done_flag = False, tx_error = False, rx_error = False, dma_log = []\<rparr>"

theorem test_turn_cannot_fail_witness:
  "\<exists>s'. test_turn good_board 0 0x33 [TxIrq 0x4000, RxIrq 0x7000] [] idle_app =
     Some ([Coefficient 3, TxBuffer (test_pattern 3), RxBuffer (test_pattern 3)], s') \<and> \<not> tx_error s' \<and> \<not> rx_error s'"
  using test_turn_cannot_fail [of good_board "0x33" idle_app "0x4000" "[TxIrq 0x4000, RxIrq 0x7000]" "0x7000" 0 "[]"]
  by (simp add: good_board_def idle_app_def)

section \<open>Set-up succeeds or enables nothing\<close>

text \<open>
  A successful set-up has connected a handler for each of the two interrupts that has a number, before it enables them;
  one that fails has enabled nothing. An interrupt without a number is enabled all the same.
\<close>

theorem axi_dma_init_enables:
  "case axi_dma_init b (Some i) p_handler log of
     None \<Rightarrow> False
   | Some (st, log') \<Rightarrow>
       (if st = XST_SUCCESS
        then log' = log @ ClearHandler # concat (map (\<lambda>n. if n = 0 then [] else [SetPriorityTrigger n, GicConnect n]) [tx_intr_id i, rx_intr_id i]) @
            [GicEnable (tx_intr_id i), GicEnable (rx_intr_id i), ExceptionInit, ExceptionRegister, ExceptionEnable,
             IntrDisable DmaToDevice, IntrDisable DeviceToDma, IntrEnable DmaToDevice, IntrEnable DeviceToDma]
        else st = XST_FAILURE \<and> (\<exists>evs. log' = log @ evs \<and> (\<forall>n. GicEnable n \<notin> set evs) \<and> (\<forall>d. IntrEnable d \<notin> set evs)))"
  by (auto simp: axi_dma_init_def enable_intr_def set_intr_handler_def Let_def)

end
