(* ===== verification/Spec2Isabelle.thy ===== *)
theory Spec2Isabelle
  imports Xdma_Mod Xdma_Xvc Xdma_Aio Xdma_Bytes Xdma_Tools Xdma_Regrw Xdma_Perf Xdma_Cmdline Fw_Udp Fw_Net Fw_Dma
begin

text \<open>
  The repository holds reference designs for a Zynq board: the Linux driver of the XDMA PCIe DMA core
  (\<^verbatim>\<open>src/software/xc7z045_xdma/XDMA/xdma\<close>) with its command-line tools (\<^verbatim>\<open>XDMA/tools\<close>), firmware that programs the board's clock
  generator, network interface and AXI DMA engine (\<^verbatim>\<open>src/firmware\<close>), and a UDP file server (\<^verbatim>\<open>src/software/xc7z045_1ge_v1\<close>). This
  development models the C code of these programs; the driver is the largest part and was modelled first.

  \<^bold>\<open>How the program is modelled.\<close> A C structure is a record with the names of its members (prefixed where two structures
  share a name), a pointer to a structure the address under which a store keeps it, an array a function or a list, a machine
  integer a word of its width. A function takes the state it works on and returns it. An error number is an \<^verbatim>\<open>int\<close> that the
  function returns as the code does; an access through a null or stale pointer, a copy outside of a buffer and a loop or wait that
  does not end are \<^verbatim>\<open>None\<close>. What is not in the repository is a parameter: the device answers a read as a function of all accesses
  made before it, and the kernel, the network stack and the vendor's board drivers decide which of their calls succeed. Resources
  that are acquired and released, accesses to registers, wake-ups and calls of handlers are entries of one log, in the order in
  which the code makes them. A critical section is one step; what other parts of the system do while a caller waits is an
  arbitrary sequence of steps.

  \<^bold>\<open>The driver: from the register map to an opened device.\<close>
  \<^item> \<^verbatim>\<open>Xdma_Prelude\<close>: words, error numbers, the log, register accessors, and the contract of a machine driven by events
    (locale \<^verbatim>\<open>event_machine\<close>), which the service of an engine, the event nodes and the rounds of the UDP client fulfil.
  \<^item> \<^verbatim>\<open>Xdma_Regs\<close>: the macros, packed register structures and enumerations of \<^verbatim>\<open>libxdma.h\<close>.
  \<^item> \<^verbatim>\<open>Xdma_Desc\<close>: descriptors (\<^verbatim>\<open>xdma_desc_set\<close>, \<^verbatim>\<open>xdma_desc_link\<close>, \<^verbatim>\<open>xdma_desc_adjacent\<close>, \<^verbatim>\<open>transfer_desc_init\<close>, \<^verbatim>\<open>xdma_get_next_adj\<close>):
    the adjacent count never reaches past a 4 KiB page, and a fresh ring is one chain.
  \<^item> \<^verbatim>\<open>Xdma_State\<close>: the records of a transfer, a request and an engine, and the store of transfers.
  \<^item> \<^verbatim>\<open>Xdma_Request\<close>: \<^verbatim>\<open>xdma_init_request\<close> cuts a scatter list into pieces a descriptor can carry and loses no byte;
    \<^verbatim>\<open>transfer_init\<close> and \<^verbatim>\<open>transfer_build\<close> put a run of them into the ring: the run is chained, its descriptors carry the addresses and
    lengths of the request, and each transfer makes progress. \<^verbatim>\<open>Xdma_Fetch\<close> is the other side: what the engine fetches when it
    follows the chain of descriptors in its ring, as moves between addresses and as pairs of bytes.
  \<^item> \<^verbatim>\<open>Xdma_Engine\<close>: starting, stopping, status and counters; the order of the register writes of \<^verbatim>\<open>engine_start\<close>.
  \<^item> \<^verbatim>\<open>Xdma_Service\<close>: completion service, the transfer queue and polling. Transfers complete in the order they were queued and
    only those the hardware count pays for, a transfer is marked submitted exactly while it is in the queue, and after a
    service that completed a descriptor the engine runs exactly when its queue is not empty. The callback of an asynchronous transfer is the locale \<^verbatim>\<open>io_done_contract\<close>.
  \<^item> \<^verbatim>\<open>Xdma_Fifo\<close>: the abstract queue that an engine promises, as an inductive step relation, and the simulation by the
    functions that work on the engine. \<^verbatim>\<open>Xdma_Kept\<close>: what running an engine leaves alone.
  \<^item> \<^verbatim>\<open>Xdma_Device\<close>: the device structure, its interrupt registers and the interrupt handlers; what \<^verbatim>\<open>xdma_isr\<close> dispatches.
  \<^item> \<^verbatim>\<open>Xdma_Bars\<close>, \<^verbatim>\<open>Xdma_Irq\<close>, \<^verbatim>\<open>Xdma_Thread\<close>, \<^verbatim>\<open>Xdma_Probe\<close>: mapping the BARs, choosing and requesting interrupts, the polling threads,
    creating and probing engines. Every resource that is acquired is accounted for.
  \<^item> \<^verbatim>\<open>Xdma_Open\<close>, \<^verbatim>\<open>Xdma_Typed\<close>: \<^verbatim>\<open>xdma_device_open\<close> and its error exits, closing, offline and online, user interrupts. Opening
    and closing give back every resource exactly once, a failed open keeps nothing, an opened device is well formed.

  \<^bold>\<open>The driver: requests, nodes and the module.\<close>
  \<^item> \<^verbatim>\<open>Xdma_Submit\<close>: \<^verbatim>\<open>xdma_xfer_submit\<close>, its asynchronous variant, \<^verbatim>\<open>xdma_xfer_completion\<close> and the cyclic transfer of a performance
    run. What happens while a caller waits is the locale \<^verbatim>\<open>waiting\<close>; a blocking submission returns, maps and unmaps in balance
    and reports bytes or an error. Its rounds are also a labelled step relation, whose labels are the moves the engine finds in
    its ring: taken together they are the bytes of the scatter list against consecutive addresses of the card.
  \<^item> \<^verbatim>\<open>Xdma_Cdev\<close>: the character devices of \<^verbatim>\<open>xdma_cdev.c\<close> and their numbers. \<^verbatim>\<open>Xdma_Ctrl\<close>: \<^verbatim>\<open>cdev_ctrl.c\<close>, \<^verbatim>\<open>cdev_bypass.c\<close> and
    \<^verbatim>\<open>cdev_events.c\<close>. \<^verbatim>\<open>Xdma_Xvc\<close>: the virtual cable of \<^verbatim>\<open>cdev_xvc.c\<close>. \<^verbatim>\<open>Xdma_Sgdma\<close> and \<^verbatim>\<open>Xdma_Aio\<close>: \<^verbatim>\<open>cdev_sgdma.c\<close>, blocking and
    asynchronous. \<^verbatim>\<open>Xdma_Bytes\<close> joins the parts: a read or write of a node moves the bytes of the user's buffer, in order and once.
  \<^item> \<^verbatim>\<open>Xdma_Mod\<close>: \<^verbatim>\<open>xdma_mod.c\<close>, probing and removing a PCI device and loading the module: what a successful probe holds is
    what removing gives back.

  \<^bold>\<open>Tools and firmware.\<close>
  \<^item> \<^verbatim>\<open>Xdma_Tools\<close>: the copy loops and clock arithmetic of \<^verbatim>\<open>dma_utils.c\<close>, and the runs of \<^verbatim>\<open>dma_to_device.c\<close> and \<^verbatim>\<open>dma_from_device.c\<close>.
    \<^verbatim>\<open>Xdma_Regrw\<close>: the register tool \<^verbatim>\<open>reg_rw.c\<close>. \<^verbatim>\<open>Xdma_Perf\<close>: \<^verbatim>\<open>performance.c\<close> on top of the driver's ioctls. \<^verbatim>\<open>Xdma_Cmdline\<close>: the options
    of the three DMA tools and the numbers in them, which are read as they are written.
  \<^item> \<^verbatim>\<open>Fw_I2c\<close>: \<^verbatim>\<open>i2c_access.c\<close>, \<^verbatim>\<open>si5324.c\<close> and \<^verbatim>\<open>sfp.c\<close>: the table of the clock generator is sent in order, and an error on the bus is
    sticky.
  \<^item> \<^verbatim>\<open>Fw_Udp\<close>: \<^verbatim>\<open>udp_perf_client.c\<close>, the timer interrupt of \<^verbatim>\<open>platform_zynq.c\<close>, \<^verbatim>\<open>udp_1ge_client.c\<close> and \<^verbatim>\<open>udp_socket_server/main.c\<close>: exact
    counters, one session on a reliable network, and what failing networks bring about.
  \<^item> \<^verbatim>\<open>Fw_Net\<close>: the timers of the platforms, their set-up, the wait for an address (which ends), the main loops (which serve the timers
    as often as they are due), the reset of the PHY, and the client that asks for a file, which never frees what it receives.
  \<^item> \<^verbatim>\<open>Fw_Dma\<close>: \<^verbatim>\<open>axi_dma_intr_poll.c\<close> and the programs around it.

  \<^bold>\<open>Interfaces.\<close> Each locale is interpreted on the model's own definitions: \<^verbatim>\<open>event_machine\<close> by \<^verbatim>\<open>engine_step\<close> (\<^verbatim>\<open>eng\<close>), by the
  event nodes (\<^verbatim>\<open>events\<close>), by \<^verbatim>\<open>transfer_data\<close> (\<^verbatim>\<open>rounds\<close>) and by the main loop around it (\<^verbatim>\<open>main_loop\<close>); \<^verbatim>\<open>io_done_contract\<close> by the completion handler of \<^verbatim>\<open>Xdma_Aio\<close> (\<^verbatim>\<open>aio\<close>);
  \<^verbatim>\<open>waiting\<close> by runs of interrupts and polls (\<^verbatim>\<open>wrun\<close>); \<^verbatim>\<open>tcp_timer\<close>, what the main loops rely on in a timer interrupt, by those of the
  Zynq (\<^verbatim>\<open>zynq_tcp\<close>) and of the client that asks for a file (\<^verbatim>\<open>client_tcp\<close>); \<^verbatim>\<open>dhcp_timer\<close>, which extends it by the timeout of DHCP,
  by those of the Zynq (\<^verbatim>\<open>zynq_dhcp\<close>) and the ZynqMP (\<^verbatim>\<open>zynqmp_dhcp\<close>).

  \<^bold>\<open>Bounds and termination.\<close> Loops over arrays and lists are structural. Loops that count in C (descriptors, vectors, bytes of
  a copy) are recursive functions with a measure. Loops that the hardware or a parameter may keep going for ever (cutting a segment with a
  zero limit, waiting for the write-back word, submitting the rest of a request, shifting with a length that wrapped around, polling
  the link of the SFP module, waiting for DHCP) are partial functions into an option; where the code relies on their end it is proved that they
  return. No fuel is used but the bounds the code itself has: 4096 polls of a reset, ten retries of a datagram.

  \<^bold>\<open>Not modelled.\<close> The text of messages (the status lines of an engine are, because their length matters), and
  floating-point statistics; \<^verbatim>\<open>getopt_long\<close> itself, whose options are a list; locks and memory
  barriers, which the steps of the model subsume; accesses to the PCI configuration space that have no result; the set-up of the
  MicroBlaze's interrupt controller, a sequence of vendor calls that the preprocessor chooses, and the copies of files
  that the firmware projects share; \<^verbatim>\<open>xdma.mod.c\<close>, which the kernel build generates; the Verilog designs, scripts and prebuilt
  binaries. Hosts are little-endian.
\<close>

end
